(* ===== verification/Prelude.thy ===== *)
theory Prelude
  imports Main "HOL-Library.AList" "HOL-Library.Multiset"
begin

text \<open>
  Shared vocabulary of the development: the JavaScript string and array operations the mail
  client uses, comparator-based sorting, insertion-ordered records, and errors as sums.

  A JavaScript string is a list of code units; here it is a \<^typ>\<open>string\<close>, so code units are
  the range 0 to 255 (Latin-1). On that range the definitions of this theory follow ECMAScript:
  white space, lower case and the letter and number classes are the exact tables for it.
  Operations whose result depends on the Unicode tables or on the ICU collation of the runtime
  (\<open>normalize\<close>, \<open>localeCompare\<close>, \<open>Date.parse\<close>) are arguments of the definitions that use them.
\<close>

named_theorems list_ops "facts on the array helpers, for the component proofs"
named_theorems text_ops "facts on the string helpers, for the component proofs"

type_synonym ('e, 'a) result = "'e + 'a"
type_synonym 'a comparison = "'a \<Rightarrow> 'a \<Rightarrow> int"

section \<open>Errors as values\<close>

text \<open>A loop that validates every element and stops at the first throw.\<close>

fun check_all :: "('a \<Rightarrow> ('e, unit) result) \<Rightarrow> 'a list \<Rightarrow> ('e, unit) result" where
  "check_all f [] = Inr ()"
| "check_all f (x # xs) = (case f x of Inl e \<Rightarrow> Inl e | Inr _ \<Rightarrow> check_all f xs)"

text \<open>\<open>Array.map\<close> with a callback that may throw.\<close>

fun map_result :: "('a \<Rightarrow> ('e, 'b) result) \<Rightarrow> 'a list \<Rightarrow> ('e, 'b list) result" where
  "map_result f [] = Inr []"
| "map_result f (x # xs) =
     (case f x of Inl e \<Rightarrow> Inl e
      | Inr y \<Rightarrow> (case map_result f xs of Inl e \<Rightarrow> Inl e | Inr ys \<Rightarrow> Inr (y # ys)))"

definition is_ok :: "('e, 'a) result \<Rightarrow> bool" where
  "is_ok r = (case r of Inl _ \<Rightarrow> False | Inr _ \<Rightarrow> True)"

lemma is_ok_simps [simp]: "is_ok (Inr x)" "\<not> is_ok (Inl e)"
  by (simp_all add: is_ok_def)

lemma check_all_ok: "check_all f xs = Inr u \<longleftrightarrow> (\<forall>x \<in> set xs. f x = Inr ())"
  by (induction xs) (auto split: sum.splits)

lemma check_all_error: "check_all f xs = Inl e \<Longrightarrow> \<exists>x \<in> set xs. f x = Inl e"
  by (induction xs) (auto split: sum.splits)

lemma map_result_length: "map_result f xs = Inr ys \<Longrightarrow> length ys = length xs"
  by (induction xs arbitrary: ys) (auto split: sum.splits)

lemma map_result_nth:
  "map_result f xs = Inr ys \<Longrightarrow> i < length xs \<Longrightarrow> f (xs ! i) = Inr (ys ! i)"
  by (induction xs arbitrary: ys i) (auto split: sum.splits simp: nth_Cons')

lemma map_result_member:
  "map_result f xs = Inr ys \<Longrightarrow> y \<in> set ys \<Longrightarrow> \<exists>x \<in> set xs. f x = Inr y"
  by (induction xs arbitrary: ys) (auto split: sum.splits)

section \<open>Arrays\<close>

text \<open>\<open>[...new Set(xs)]\<close>: the first occurrence of every element, in order.\<close>

fun unique_from :: "'a list \<Rightarrow> 'a list \<Rightarrow> 'a list" where
  "unique_from seen [] = []"
| "unique_from seen (x # xs) =
     (if x \<in> set seen then unique_from seen xs else x # unique_from (x # seen) xs)"

definition unique :: "'a list \<Rightarrow> 'a list" where
  "unique xs = unique_from [] xs"

lemma set_unique_from: "set (unique_from seen xs) = set xs - set seen"
  by (induction xs arbitrary: seen) auto

lemma distinct_unique_from: "distinct (unique_from seen xs)"
  by (induction xs arbitrary: seen) (auto simp: set_unique_from)

lemma unique_from_id: "distinct xs \<Longrightarrow> set xs \<inter> set seen = {} \<Longrightarrow> unique_from seen xs = xs"
  by (induction xs arbitrary: seen) auto

lemma set_unique [simp, list_ops]: "set (unique xs) = set xs"
  by (simp add: unique_def set_unique_from)

lemma distinct_unique [simp, list_ops]: "distinct (unique xs)"
  by (simp add: unique_def distinct_unique_from)

lemma unique_id [list_ops]: "distinct xs \<Longrightarrow> unique xs = xs"
  by (simp add: unique_def unique_from_id)

lemma unique_idem [simp]: "unique (unique xs) = unique xs"
  by (simp add: unique_id)

lemma length_unique_from: "length (unique_from seen xs) \<le> length xs"
  by (induction xs arbitrary: seen) (auto intro: le_SucI)

lemma length_unique: "length (unique xs) \<le> length xs"
  by (simp add: unique_def length_unique_from)

text \<open>\<open>array.find(p)\<close> is \<^const>\<open>List.find\<close>; its usual consequences.\<close>

lemma find_Some_mem: "List.find P xs = Some x \<Longrightarrow> x \<in> set xs \<and> P x"
  by (induction xs) (auto split: if_splits)

lemma find_None_none: "List.find P xs = None \<longleftrightarrow> (\<forall>x \<in> set xs. \<not> P x)"
  by (induction xs) auto

definition clamp :: "'a::linorder \<Rightarrow> 'a \<Rightarrow> 'a \<Rightarrow> 'a" where
  "clamp lo hi x = max lo (min hi x)"

lemma clamp_bounds: "lo \<le> hi \<Longrightarrow> lo \<le> clamp lo hi x \<and> clamp lo hi x \<le> hi"
  by (simp add: clamp_def)

lemma clamp_id: "lo \<le> x \<Longrightarrow> x \<le> hi \<Longrightarrow> clamp lo hi x = x"
  by (simp add: clamp_def)

section \<open>Records with insertion order\<close>

text \<open>
  A JavaScript object or \<open>Map\<close> whose keys are not array indices keeps its keys in insertion
  order; assigning an existing key keeps its place. This is an association list with
  \<^const>\<open>AList.update\<close> and \<^const>\<open>AList.delete\<close>, read with \<^const>\<open>map_of\<close>.
\<close>

type_synonym ('k, 'v) entries = "('k \<times> 'v) list"

abbreviation keys_of :: "('k, 'v) entries \<Rightarrow> 'k list" where
  "keys_of es \<equiv> map fst es"

lemma map_of_update: "map_of (AList.update k v es) k' = (if k' = k then Some v else map_of es k')"
  by (simp add: update_conv')

lemma map_of_delete: "map_of (AList.delete k es) k' = (if k' = k then None else map_of es k')"
  by (simp add: delete_conv')

lemma distinct_keys_update [intro]: "distinct (keys_of es) \<Longrightarrow> distinct (keys_of (AList.update k v es))"
  by (rule distinct_update)

lemma distinct_keys_delete [intro]: "distinct (keys_of es) \<Longrightarrow> distinct (keys_of (AList.delete k es))"
  by (rule distinct_delete)

lemma distinct_keys_filter [intro]: "distinct (keys_of es) \<Longrightarrow> distinct (keys_of (filter P es))"
  by (induction es) auto

lemma distinct_keys_drop [intro]: "distinct (keys_of es) \<Longrightarrow> distinct (keys_of (drop n es))"
  by (simp add: drop_map distinct_drop flip: drop_map)

lemma length_update_le: "length (AList.update k v es) \<le> Suc (length es)"
  by (induction es) auto

lemma length_delete_le: "length (AList.delete k es) \<le> length es"
  by (simp add: AList.length_delete_le)

lemma update_entry_cases:
  "e \<in> set (AList.update k v es) \<Longrightarrow> e = (k, v) \<or> e \<in> set es"
  by (induction es) (auto split: if_splits)

lemma delete_entry: "e \<in> set (AList.delete k es) \<Longrightarrow> e \<in> set es \<and> fst e \<noteq> k"
  by (auto simp: AList.delete_eq)

text \<open>The last \<open>n\<close> entries, \<open>entries.slice(entries.length - n)\<close>.\<close>

definition last_entries :: "nat \<Rightarrow> 'a list \<Rightarrow> 'a list" where
  "last_entries n es = drop (length es - n) es"

lemma length_last_entries: "length (last_entries n es) = min n (length es)"
  by (auto simp: last_entries_def)

end
