(* ===== verification/Text_Ops.thy ===== *)
theory Text_Ops
  imports Prelude
begin

text \<open>
  The \<open>String.prototype\<close> operations the program calls, on lists of code units. The substring
  operations are polymorphic: they work on any list, so that a component which needs code units
  above 255 can use them on lists of numbers.
\<close>

section \<open>Character classes on Latin-1\<close>

definition code :: "char \<Rightarrow> nat" where
  "code c = of_char c"

text \<open>\<open>\s\<close> and the white space of \<open>trim\<close>.\<close>

definition is_space :: "char \<Rightarrow> bool" where
  "is_space c = (code c \<in> {9, 10, 11, 12, 13, 32, 160})"

text \<open>\<open>/[\u0000-\u001f\u007f]/u\<close>.\<close>

definition is_control :: "char \<Rightarrow> bool" where
  "is_control c = (code c < 32 \<or> code c = 127)"

definition is_digit :: "char \<Rightarrow> bool" where
  "is_digit c = (48 \<le> code c \<and> code c \<le> 57)"

definition is_ascii_upper :: "char \<Rightarrow> bool" where
  "is_ascii_upper c = (65 \<le> code c \<and> code c \<le> 90)"

definition is_ascii_lower :: "char \<Rightarrow> bool" where
  "is_ascii_lower c = (97 \<le> code c \<and> code c \<le> 122)"

definition is_hex_lower :: "char \<Rightarrow> bool" where
  "is_hex_lower c = (is_digit c \<or> (97 \<le> code c \<and> code c \<le> 102))"

text \<open>\<open>\p{Letter}\<close> and \<open>\p{Number}\<close>.\<close>

definition is_letter :: "char \<Rightarrow> bool" where
  "is_letter c =
     (is_ascii_upper c \<or> is_ascii_lower c \<or> code c \<in> {170, 181, 186}
      \<or> (192 \<le> code c \<and> code c \<noteq> 215 \<and> code c \<noteq> 247))"

definition is_number :: "char \<Rightarrow> bool" where
  "is_number c = (is_digit c \<or> code c \<in> {178, 179, 185, 188, 189, 190})"

definition lower_char :: "char \<Rightarrow> char" where
  "lower_char c =
     (if is_ascii_upper c \<or> (192 \<le> code c \<and> code c \<le> 222 \<and> code c \<noteq> 215)
      then char_of (code c + 32) else c)"

text \<open>\<open>toLocaleLowerCase("en-US")\<close> and \<open>toLowerCase()\<close>.\<close>

definition lower :: "string \<Rightarrow> string" where
  "lower s = map lower_char s"

lemma code_lt: "code c < 256"
  by (simp add: code_def)

lemma code_char_of: "n < 256 \<Longrightarrow> code (char_of n) = n"
  by (simp add: code_def)

lemma lower_char_idem [simp]: "lower_char (lower_char c) = lower_char c"
proof -
  have "code (lower_char c) = code c + 32 \<or> lower_char c = c"
    by (auto simp: lower_char_def is_ascii_upper_def code_char_of)
  then show ?thesis
    by (auto simp: lower_char_def is_ascii_upper_def code_char_of)
qed

lemma lower_idem [simp, text_ops]: "lower (lower s) = lower s"
  by (simp add: lower_def)

lemma length_lower [simp, text_ops]: "length (lower s) = length s"
  by (simp add: lower_def)

lemma lower_eq_Nil [simp]: "lower s = [] \<longleftrightarrow> s = []"
  by (simp add: lower_def)

section \<open>Trimming\<close>

definition trim_start :: "string \<Rightarrow> string" where
  "trim_start s = dropWhile is_space s"

definition trim_end :: "string \<Rightarrow> string" where
  "trim_end s = rev (dropWhile is_space (rev s))"

definition trim :: "string \<Rightarrow> string" where
  "trim s = trim_end (trim_start s)"

lemma trim_start_idem [simp]: "trim_start (trim_start s) = trim_start s"
  by (simp add: trim_start_def)

lemma trim_end_idem [simp]: "trim_end (trim_end s) = trim_end s"
  by (simp add: trim_end_def)

lemma trim_start_trim_end: "trim_start (trim_end s) = trim_end (trim_start s)"
proof (cases "\<forall>x \<in> set s. is_space x")
  case True
  then have "dropWhile is_space s = []" "dropWhile is_space (rev s) = []"
    by simp_all
  then show ?thesis by (simp only: trim_start_def trim_end_def rev.simps dropWhile.simps)
next
  case False
  then have "\<exists>c \<in> set s. \<not> is_space c" by simp
  from split_list_first_prop [OF this]
  obtain xs c ys where s: "s = xs @ c # ys" and xs: "\<forall>x \<in> set xs. is_space x" and c: "\<not> is_space c"
    by auto
  have 1: "dropWhile is_space (xs @ zs) = dropWhile is_space zs" for zs
    using xs by (simp add: dropWhile_append)
  show ?thesis
    using c by (auto simp: trim_start_def trim_end_def s 1 dropWhile_append)
qed

lemma trim_idem [simp, text_ops]: "trim (trim s) = trim s"
  by (metis trim_def trim_end_idem trim_start_idem trim_start_trim_end)

lemma trim_eq_Nil: "trim s = [] \<longleftrightarrow> (\<forall>c \<in> set s. is_space c)"
  by (auto simp: trim_def trim_start_def trim_end_def dropWhile_eq_Nil_conv dest: set_dropWhileD)
     (metis dropWhile_eq_Nil_conv hd_dropWhile list.set_sel(1) list.set_intros(1))

lemma set_trim: "set (trim s) \<subseteq> set s"
  by (auto simp: trim_def trim_start_def trim_end_def dest!: set_dropWhileD)

lemma length_trim: "length (trim s) \<le> length s"
  by (simp add: trim_def trim_start_def trim_end_def)
     (metis length_dropWhile_le length_rev order_trans)

section \<open>Substrings\<close>

definition starts_with :: "'a list \<Rightarrow> 'a list \<Rightarrow> bool" where
  "starts_with p s = (take (length p) s = p)"

definition ends_with :: "'a list \<Rightarrow> 'a list \<Rightarrow> bool" where
  "ends_with p s = (length p \<le> length s \<and> drop (length s - length p) s = p)"

text \<open>\<open>indexOf\<close>; \<^const>\<open>None\<close> is -1.\<close>

fun index_of :: "'a list \<Rightarrow> 'a list \<Rightarrow> nat option" where
  "index_of p [] = (if p = [] then Some 0 else None)"
| "index_of p (x # xs) = (if starts_with p (x # xs) then Some 0 else map_option Suc (index_of p xs))"

text \<open>\<open>lastIndexOf\<close>.\<close>

fun last_index_of :: "'a list \<Rightarrow> 'a list \<Rightarrow> nat option" where
  "last_index_of p [] = (if p = [] then Some 0 else None)"
| "last_index_of p (x # xs) =
     (case last_index_of p xs of Some i \<Rightarrow> Some (Suc i)
      | None \<Rightarrow> if starts_with p (x # xs) then Some 0 else None)"

definition contains :: "'a list \<Rightarrow> 'a list \<Rightarrow> bool" where
  "contains s p = (index_of p s \<noteq> None)"

lemma starts_with_append: "starts_with p s \<longleftrightarrow> (\<exists>r. s = p @ r)"
  by (metis append_eq_conv_conj append_take_drop_id starts_with_def)

lemma starts_with_Nil [simp]: "starts_with [] s"
  by (simp add: starts_with_def)

lemma ends_with_append: "ends_with p s \<longleftrightarrow> (\<exists>r. s = r @ p)"
proof
  assume "ends_with p s"
  then show "\<exists>r. s = r @ p"
    by (metis append_take_drop_id ends_with_def)
next
  assume "\<exists>r. s = r @ p"
  then show "ends_with p s"
    by (auto simp: ends_with_def)
qed

lemma index_of_Some:
  "index_of p s = Some i \<Longrightarrow> i + length p \<le> length s \<and> starts_with p (drop i s)"
proof (induction p s arbitrary: i rule: index_of.induct)
  case (2 p x xs)
  then show ?case
    by (auto simp: starts_with_append split: if_splits) (metis length_Cons length_append le_add1)
qed (auto split: if_splits)

lemma index_of_None: "index_of p s = None \<longleftrightarrow> (\<forall>i \<le> length s. \<not> starts_with p (drop i s))"
proof (induction p s rule: index_of.induct)
  case (1 p)
  then show ?case by (auto simp: starts_with_def)
next
  case (2 p x xs)
  show ?case
  proof
    assume "index_of p (x # xs) = None"
    with 2 have "\<not> starts_with p (x # xs)" "\<forall>i \<le> length xs. \<not> starts_with p (drop i xs)"
      by (auto split: if_splits)
    then show "\<forall>i \<le> length (x # xs). \<not> starts_with p (drop i (x # xs))"
      by (metis Suc_le_mono drop_Suc_Cons drop0 length_Cons not0_implies_Suc)
  next
    assume none: "\<forall>i \<le> length (x # xs). \<not> starts_with p (drop i (x # xs))"
    then have "\<not> starts_with p (x # xs)" by (metis drop0 le0)
    moreover have "\<forall>i \<le> length xs. \<not> starts_with p (drop i xs)"
      using none by (metis Suc_le_mono drop_Suc_Cons length_Cons)
    ultimately show "index_of p (x # xs) = None" using 2 by simp
  qed
qed

lemma contains_iff: "contains s p \<longleftrightarrow> (\<exists>l r. s = l @ p @ r)"
proof
  assume "contains s p"
  then obtain i where "index_of p s = Some i" by (auto simp: contains_def)
  then have "starts_with p (drop i s)" by (simp add: index_of_Some)
  then show "\<exists>l r. s = l @ p @ r"
    by (metis append_take_drop_id starts_with_append)
next
  assume "\<exists>l r. s = l @ p @ r"
  then obtain l r where s: "s = l @ p @ r" by blast
  then have "starts_with p (drop (length l) s)" by (auto simp: starts_with_append)
  moreover have "length l \<le> length s" using s by simp
  ultimately show "contains s p"
    using index_of_None [of p s] by (auto simp: contains_def)
qed

lemma last_index_of_Some:
  "last_index_of p s = Some i \<Longrightarrow> i + length p \<le> length s \<and> starts_with p (drop i s)"
proof (induction p s arbitrary: i rule: last_index_of.induct)
  case (2 p x xs)
  show ?case
  proof (cases "last_index_of p xs")
    case None
    with "2.prems" have "i = 0" "starts_with p (x # xs)"
      by (auto split: if_splits)
    then show ?thesis
      by (metis add_0 drop0 length_take min.cobounded1 starts_with_def)
  next
    case (Some j)
    with "2" show ?thesis by auto
  qed
qed (auto split: if_splits)

lemma last_index_of_None: "last_index_of p s = None \<longleftrightarrow> index_of p s = None"
  by (induction p s rule: index_of.induct) (auto split: option.splits)

section \<open>Splitting and joining\<close>

text \<open>\<open>split(c)\<close> on one separator, which always returns at least one part.\<close>

fun split_on :: "'a \<Rightarrow> 'a list \<Rightarrow> 'a list list" where
  "split_on c [] = [[]]"
| "split_on c (x # xs) =
     (if x = c then [] # split_on c xs
      else (case split_on c xs of [] \<Rightarrow> [[x]] | p # ps \<Rightarrow> (x # p) # ps))"

fun join :: "'a list \<Rightarrow> 'a list list \<Rightarrow> 'a list" where
  "join sep [] = []"
| "join sep [p] = p"
| "join sep (p # q # ps) = p @ sep @ join sep (q # ps)"

lemma split_on_nonempty [simp]: "split_on c s \<noteq> []"
  by (cases s) (auto split: list.splits)

lemma join_split_on: "join [c] (split_on c s) = s"
proof (induction c s rule: split_on.induct)
  case (2 c x xs)
  then show ?case
    by (cases "split_on c xs" rule: list.exhaust; cases "tl (split_on c xs)") auto
qed simp

lemma split_on_no_sep: "c \<notin> set s \<Longrightarrow> split_on c s = [s]"
  by (induction s) auto

lemma split_on_append: "c \<notin> set p \<Longrightarrow> split_on c (p @ c # s) = p # split_on c s"
  by (induction p) auto

lemma split_on_join:
  "ps \<noteq> [] \<Longrightarrow> (\<And>p. p \<in> set ps \<Longrightarrow> c \<notin> set p) \<Longrightarrow> split_on c (join [c] ps) = ps"
proof (induction "[c]" ps rule: join.induct)
  case (2 p)
  then show ?case by (simp add: split_on_no_sep)
next
  case (3 p q ps)
  then show ?case by (simp add: split_on_append)
qed simp

lemma split_on_parts: "p \<in> set (split_on c s) \<Longrightarrow> c \<notin> set p"
  by (induction c s arbitrary: p rule: split_on.induct) (auto split: list.splits if_splits)

section \<open>Replacing runs of characters\<close>

text \<open>\<open>replace(/[class]+/gu, r)\<close>: every maximal run of characters of the class becomes \<open>r\<close>.\<close>

fun replace_runs :: "(char \<Rightarrow> bool) \<Rightarrow> string \<Rightarrow> bool \<Rightarrow> string \<Rightarrow> string" where
  "replace_runs P r inside [] = []"
| "replace_runs P r inside (c # s) =
     (if P c then (if inside then [] else r) @ replace_runs P r True s
      else c # replace_runs P r False s)"

abbreviation collapse_runs :: "(char \<Rightarrow> bool) \<Rightarrow> string \<Rightarrow> string \<Rightarrow> string" where
  "collapse_runs P r s \<equiv> replace_runs P r False s"

lemma set_replace_runs: "set (replace_runs P r b s) \<subseteq> set r \<union> {c \<in> set s. \<not> P c}"
  by (induction P r b s rule: replace_runs.induct) auto

lemma length_replace_runs: "length r \<le> 1 \<Longrightarrow> length (replace_runs P r b s) \<le> length s"
proof (induction P r b s rule: replace_runs.induct)
  case (2 P r b c s)
  then show ?case by (cases "P c"; cases b) auto
qed simp

section \<open>Decimal numerals\<close>

text \<open>\<open>String(n)\<close> of a non-negative integer.\<close>

definition digit_char :: "nat \<Rightarrow> char" where
  "digit_char d = char_of (48 + d)"

fun nat_text :: "nat \<Rightarrow> string" where
  "nat_text n = (if n < 10 then [digit_char n] else nat_text (n div 10) @ [digit_char (n mod 10)])"

declare nat_text.simps [simp del]

definition digit_value :: "char \<Rightarrow> nat" where
  "digit_value c = code c - 48"

definition text_nat :: "string \<Rightarrow> nat" where
  "text_nat s = foldl (\<lambda>n c. 10 * n + digit_value c) 0 s"

lemma digit_value_char: "d < 10 \<Longrightarrow> digit_value (digit_char d) = d"
  by (simp add: digit_value_def digit_char_def code_char_of)

lemma is_digit_char: "d < 10 \<Longrightarrow> is_digit (digit_char d)"
  by (simp add: is_digit_def digit_char_def code_char_of)

lemma text_nat_text [simp, text_ops]: "text_nat (nat_text n) = n"
proof (induction n rule: nat_text.induct)
  case (1 n)
  then show ?case
    by (cases "n < 10") (auto simp: nat_text.simps [of n] text_nat_def digit_value_char)
qed

lemma nat_text_inj: "nat_text m = nat_text n \<longleftrightarrow> m = n"
  by (metis text_nat_text)

lemma nat_text_digits: "c \<in> set (nat_text n) \<Longrightarrow> is_digit c"
proof (induction n rule: nat_text.induct)
  case (1 n)
  then show ?case
    by (cases "n < 10") (auto simp: nat_text.simps [of n] is_digit_char)
qed

lemma nat_text_nonempty [simp]: "nat_text n \<noteq> []"
  by (subst nat_text.simps) simp

section \<open>Line ends\<close>

text \<open>\<open>replace(/\r\n?/gu, "\n")\<close>; the flag says that the character before was a carriage return.\<close>

fun unix_lines_from :: "bool \<Rightarrow> string \<Rightarrow> string" where
  "unix_lines_from cr [] = []"
| "unix_lines_from cr (c # s) =
     (if c = CHR 13 then CHR 10 # unix_lines_from True s
      else if cr \<and> c = CHR 10 then unix_lines_from False s
      else c # unix_lines_from False s)"

definition unix_lines :: "string \<Rightarrow> string" where
  "unix_lines s = unix_lines_from False s"

lemma unix_lines_from_no_cr: "CHR 13 \<notin> set (unix_lines_from cr s)"
  by (induction cr s rule: unix_lines_from.induct) auto

lemma unix_lines_from_id: "CHR 13 \<notin> set s \<Longrightarrow> unix_lines_from False s = s"
  by (induction s) auto

section \<open>Upper case\<close>

text \<open>\<open>toUpperCase()\<close>. The capitals of the micro sign and of y with diaeresis are outside Latin-1;
  those two units stay as they are here, and are no letter of a name the program compares.\<close>

definition upper_char :: "char \<Rightarrow> string" where
  "upper_char c =
     (if is_ascii_lower c \<or> (224 \<le> code c \<and> code c \<le> 254 \<and> code c \<noteq> 247) then [char_of (code c - 32)]
      else if code c = 223 then ''SS'' else [c])"

definition upper :: "string \<Rightarrow> string" where
  "upper s = concat (map upper_char s)"

end
