(* ===== verification/Attachment_Safety.thy ===== *)
theory Attachment_Safety
  imports Text_Ops "HOL-Library.Word"
begin

text \<open>
  Attachment risk (\<open>src/shared/attachment-safety.ts\<close>), the review a risky save needs, and the
  size limits on parsed messages (\<open>src/main/mime-safety.ts\<close>). A file name is a JavaScript string,
  a list of 16-bit code units, because the bidirectional controls lie above code unit 255; its
  lower-case conversion is a parameter \<open>lc\<close>. Content types and extensions in tables are Latin-1.
\<close>

section \<open>Data\<close>

type_synonym wide = "16 word list"

definition wide :: "string \<Rightarrow> wide" where
  "wide s = map (\<lambda>c. of_nat (code c)) s"

datatype risk_level = Ordinary | Caution | Dangerous

datatype risk_reason =
  WindowsExecutable | WindowsScript | WindowsShortcut | WindowsInstaller | MacroEnabledDocument
| DoubleExtension | TrailingDotOrSpace | BidirectionalControl | MimeExtensionMismatch

record risk_assessment =
  ra_level :: risk_level
  ra_reasons :: "risk_reason list"

record attachment_descriptor =
  at_filename :: wide
  at_content_type :: string

record risk_review_item =
  ri_index :: nat
  ri_filename :: wide
  ri_content_type :: string
  ri_level :: risk_level
  ri_reasons :: "risk_reason list"

definition WINDOWS_EXECUTABLE_EXTENSIONS :: "string list" where
  "WINDOWS_EXECUTABLE_EXTENSIONS =
     [''.com'', ''.cpl'', ''.dll'', ''.drv'', ''.exe'', ''.ocx'', ''.pif'', ''.scr'', ''.sys'']"

definition WINDOWS_SCRIPT_EXTENSIONS :: "string list" where
  "WINDOWS_SCRIPT_EXTENSIONS =
     [''.bat'', ''.cmd'', ''.hta'', ''.inf'', ''.js'', ''.jse'', ''.ps1'', ''.psd1'', ''.psm1'',
      ''.reg'', ''.scf'', ''.vbe'', ''.vbs'', ''.wsf'', ''.wsh'']"

definition WINDOWS_SHORTCUT_EXTENSIONS :: "string list" where
  "WINDOWS_SHORTCUT_EXTENSIONS =
     [''.library-ms'', ''.lnk'', ''.search-ms'', ''.url'', ''.website'']"

definition WINDOWS_INSTALLER_EXTENSIONS :: "string list" where
  "WINDOWS_INSTALLER_EXTENSIONS =
     [''.appinstaller'', ''.appx'', ''.appxbundle'', ''.msi'', ''.msix'', ''.msixbundle'',
      ''.msp'', ''.mst'']"

definition MACRO_ENABLED_EXTENSIONS :: "string list" where
  "MACRO_ENABLED_EXTENSIONS =
     [''.docm'', ''.dotm'', ''.ppam'', ''.potm'', ''.ppsm'', ''.pptm'', ''.sldm'', ''.xlam'',
      ''.xlsb'', ''.xlsm'', ''.xltm'']"

definition DECEPTIVE_LEAD_EXTENSIONS :: "string list" where
  "DECEPTIVE_LEAD_EXTENSIONS =
     [''.7z'', ''.bmp'', ''.csv'', ''.doc'', ''.docm'', ''.docx'', ''.gif'', ''.jpeg'', ''.jpg'',
      ''.json'', ''.odg'', ''.odp'', ''.ods'', ''.odt'', ''.pdf'', ''.png'', ''.ppt'', ''.pptm'',
      ''.pptx'', ''.rar'', ''.rtf'', ''.svg'', ''.tar'', ''.tif'', ''.tiff'', ''.txt'',
      ''.webp'', ''.xls'', ''.xlsm'', ''.xlsx'', ''.xml'', ''.zip'']"

definition COMMON_COMPOUND_EXTENSIONS :: "string list" where
  "COMMON_COMPOUND_EXTENSIONS =
     [''.tar.bz2'', ''.tar.gz'', ''.tar.lz'', ''.tar.lz4'', ''.tar.xz'', ''.tar.zst'']"

definition GENERIC_MIME_TYPES :: "string list" where
  "GENERIC_MIME_TYPES =
     ['''', ''application/force-download'', ''application/octet-stream'',
      ''application/x-download'', ''binary/octet-stream'']"

definition MIME_TYPES_BY_EXTENSION :: "(string \<times> string list) list" where
  "MIME_TYPES_BY_EXTENSION =
     [(''.7z'', [''application/x-7z-compressed'']),
      (''.bmp'', [''image/bmp'']),
      (''.csv'', [''text/csv'', ''application/csv'']),
      (''.doc'', [''application/msword'']),
      (''.docm'', [''application/vnd.ms-word.document.macroenabled.12'']),
      (''.docx'', [''application/vnd.openxmlformats-officedocument.wordprocessingml.document'']),
      (''.dotm'', [''application/vnd.ms-word.template.macroenabled.12'']),
      (''.exe'', [''application/vnd.microsoft.portable-executable'', ''application/x-dosexec'', ''application/x-msdownload'']),
      (''.gif'', [''image/gif'']),
      (''.htm'', [''text/html'']),
      (''.html'', [''text/html'']),
      (''.jpeg'', [''image/jpeg'']),
      (''.jpg'', [''image/jpeg'']),
      (''.json'', [''application/json'', ''text/json'']),
      (''.msi'', [''application/x-msi'', ''application/x-msdownload'', ''application/octet-stream'']),
      (''.odp'', [''application/vnd.oasis.opendocument.presentation'']),
      (''.ods'', [''application/vnd.oasis.opendocument.spreadsheet'']),
      (''.odt'', [''application/vnd.oasis.opendocument.text'']),
      (''.pdf'', [''application/pdf'']),
      (''.png'', [''image/png'']),
      (''.ppt'', [''application/vnd.ms-powerpoint'']),
      (''.pptm'', [''application/vnd.ms-powerpoint.presentation.macroenabled.12'']),
      (''.pptx'', [''application/vnd.openxmlformats-officedocument.presentationml.presentation'']),
      (''.rar'', [''application/vnd.rar'', ''application/x-rar-compressed'']),
      (''.rtf'', [''application/rtf'', ''text/rtf'']),
      (''.svg'', [''image/svg+xml'']),
      (''.tif'', [''image/tiff'']),
      (''.tiff'', [''image/tiff'']),
      (''.txt'', [''text/plain'']),
      (''.webp'', [''image/webp'']),
      (''.xls'', [''application/vnd.ms-excel'']),
      (''.xlsb'', [''application/vnd.ms-excel.sheet.binary.macroenabled.12'']),
      (''.xlsm'', [''application/vnd.ms-excel.sheet.macroenabled.12'']),
      (''.xlsx'', [''application/vnd.openxmlformats-officedocument.spreadsheetml.sheet'']),
      (''.xml'', [''application/xml'', ''text/xml'']),
      (''.zip'', [''application/zip'', ''application/x-zip-compressed''])]"

definition REASON_ORDER :: "risk_reason list" where
  "REASON_ORDER =
     [WindowsExecutable, WindowsScript, WindowsShortcut, WindowsInstaller, MacroEnabledDocument,
      DoubleExtension, TrailingDotOrSpace, BidirectionalControl, MimeExtensionMismatch]"

section \<open>Classification\<close>

definition filenameOnly :: "wide \<Rightarrow> wide" where
  "filenameOnly value = rev (takeWhile (\<lambda>c. c \<noteq> 0x2F \<and> c \<noteq> 0x5C) (rev value))"

definition dot_or_space :: "16 word \<Rightarrow> bool" where
  "dot_or_space c = (c = 0x2E \<or> c = 0x20)"

text \<open>\<open>replace(/[. ]+$/u, "")\<close>.\<close>

definition strip_dots :: "wide \<Rightarrow> wide" where
  "strip_dots s = rev (dropWhile dot_or_space (rev s))"

definition extensionOf :: "(wide \<Rightarrow> wide) \<Rightarrow> wide \<Rightarrow> wide" where
  "extensionOf lc filename =
     (let normalized = strip_dots filename
      in case last_index_of [0x2E] normalized of
           Some dot \<Rightarrow> if dot > 0 then lc (drop dot normalized) else []
         | None \<Rightarrow> [])"

definition hasDeceptiveDoubleExtension :: "(wide \<Rightarrow> wide) \<Rightarrow> wide \<Rightarrow> bool" where
  "hasDeceptiveDoubleExtension lc filename =
     (let normalized = lc (strip_dots filename)
      in if list_ex (\<lambda>e. ends_with (wide e) normalized) COMMON_COMPOUND_EXTENSIONS then False
         else case last_index_of [0x2E] normalized of
           None \<Rightarrow> False
         | Some finalDot \<Rightarrow>
             if finalDot = 0 then False
             else let previous = take finalDot normalized
                  in case last_index_of [0x2E] previous of
                       None \<Rightarrow> False
                     | Some previousDot \<Rightarrow>
                         if previousDot = 0 then False
                         else drop previousDot previous \<in> wide ` set DECEPTIVE_LEAD_EXTENSIONS)"

definition normalizedMimeType :: "string \<Rightarrow> string" where
  "normalizedMimeType contentType = lower (trim (hd (split_on (CHR '';'') contentType)))"

definition hasMimeExtensionMismatch :: "wide \<Rightarrow> string \<Rightarrow> bool" where
  "hasMimeExtensionMismatch extension contentType =
     (let mimeType = normalizedMimeType contentType
      in if extension = [] \<or> mimeType \<in> set GENERIC_MIME_TYPES then False
         else case map_of (map (\<lambda>(k, v). (wide k, v)) MIME_TYPES_BY_EXTENSION) extension of
                None \<Rightarrow> False | Some expected \<Rightarrow> mimeType \<notin> set expected)"

definition bidi_control :: "16 word \<Rightarrow> bool" where
  "bidi_control c =
     (c = 0x061C \<or> c = 0x200E \<or> c = 0x200F \<or> (0x202A \<le> c \<and> c \<le> 0x202E) \<or> (0x2066 \<le> c \<and> c \<le> 0x2069))"

definition reason_applies :: "(wide \<Rightarrow> wide) \<Rightarrow> wide \<Rightarrow> string \<Rightarrow> risk_reason \<Rightarrow> bool" where
  "reason_applies lc leaf contentType reason =
     (let extension = extensionOf lc leaf
      in case reason of
           WindowsExecutable \<Rightarrow> extension \<in> wide ` set WINDOWS_EXECUTABLE_EXTENSIONS
         | WindowsScript \<Rightarrow> extension \<in> wide ` set WINDOWS_SCRIPT_EXTENSIONS
         | WindowsShortcut \<Rightarrow> extension \<in> wide ` set WINDOWS_SHORTCUT_EXTENSIONS
         | WindowsInstaller \<Rightarrow> extension \<in> wide ` set WINDOWS_INSTALLER_EXTENSIONS
         | MacroEnabledDocument \<Rightarrow> extension \<in> wide ` set MACRO_ENABLED_EXTENSIONS
         | DoubleExtension \<Rightarrow> hasDeceptiveDoubleExtension lc leaf
         | TrailingDotOrSpace \<Rightarrow> leaf \<noteq> [] \<and> dot_or_space (last leaf)
         | BidirectionalControl \<Rightarrow> list_ex bidi_control leaf
         | MimeExtensionMismatch \<Rightarrow> hasMimeExtensionMismatch extension contentType)"

definition dangerous_reason :: "risk_reason \<Rightarrow> bool" where
  "dangerous_reason r =
     (r = WindowsExecutable \<or> r = WindowsScript \<or> r = WindowsShortcut \<or> r = WindowsInstaller
      \<or> r = BidirectionalControl)"

definition classifyAttachment :: "(wide \<Rightarrow> wide) \<Rightarrow> wide \<Rightarrow> string \<Rightarrow> risk_assessment" where
  "classifyAttachment lc filename contentType =
     (let leaf = filenameOnly filename;
          orderedReasons = filter (reason_applies lc leaf contentType) REASON_ORDER
      in \<lparr>ra_level = (if list_ex dangerous_reason orderedReasons then Dangerous
                      else if orderedReasons \<noteq> [] then Caution else Ordinary),
          ra_reasons = orderedReasons\<rparr>)"

section \<open>The review\<close>

definition createAttachmentRiskReviewItem ::
  "(wide \<Rightarrow> wide) \<Rightarrow> nat \<times> attachment_descriptor \<Rightarrow> risk_review_item" where
  "createAttachmentRiskReviewItem lc entry =
     (let (index, a) = entry; c = classifyAttachment lc (at_filename a) (at_content_type a)
      in \<lparr>ri_index = index, ri_filename = at_filename a, ri_content_type = at_content_type a,
          ri_level = ra_level c, ri_reasons = ra_reasons c\<rparr>)"

definition createAttachmentSaveReview :: "(wide \<Rightarrow> wide) \<Rightarrow> attachment_descriptor list \<Rightarrow> risk_review_item list" where
  "createAttachmentSaveReview lc attachments =
     filter (\<lambda>i. ri_level i \<noteq> Ordinary)
       (map (createAttachmentRiskReviewItem lc) (enumerate 0 attachments))"

text \<open>A received item must agree field by field; \<open>every\<close> over two lists of equal length.\<close>

definition review_item_matches :: "risk_review_item \<Rightarrow> risk_review_item \<Rightarrow> bool" where
  "review_item_matches attachment candidate =
     (ri_index candidate = ri_index attachment \<and> ri_filename candidate = ri_filename attachment
      \<and> ri_content_type candidate = ri_content_type attachment \<and> ri_level candidate = ri_level attachment
      \<and> length (ri_reasons candidate) = length (ri_reasons attachment)
      \<and> list_all (\<lambda>(r, s). r = s) (zip (ri_reasons candidate) (ri_reasons attachment)))"

definition attachmentSaveReviewMatches :: "risk_review_item list \<Rightarrow> risk_review_item list option \<Rightarrow> bool" where
  "attachmentSaveReviewMatches expected received =
     (case received of
        None \<Rightarrow> False
      | Some r \<Rightarrow> length r = length expected \<and> list_all (\<lambda>(a, c). review_item_matches a c) (zip expected r))"

section \<open>Limits of parsed messages\<close>

definition MEBIBYTE :: nat where "MEBIBYTE = 1024 * 1024"
definition SOURCE_BYTES :: nat where "SOURCE_BYTES = 32 * MEBIBYTE"
definition ATTACHMENT_COUNT :: nat where "ATTACHMENT_COUNT = 100"
definition ATTACHMENT_BYTES :: nat where "ATTACHMENT_BYTES = 20 * MEBIBYTE"
definition TOTAL_ATTACHMENT_BYTES :: nat where "TOTAL_ATTACHMENT_BYTES = 24 * MEBIBYTE"

datatype mime_error =
  MIME_SOURCE_TOO_LARGE | MIME_TOO_MANY_ATTACHMENTS | MIME_ATTACHMENT_TOO_LARGE | MIME_ATTACHMENTS_TOO_LARGE

definition assertMimeSourceSize :: "nat \<Rightarrow> (mime_error, unit) result" where
  "assertMimeSourceSize n = (if n \<le> SOURCE_BYTES then Inr () else Inl MIME_SOURCE_TOO_LARGE)"

fun sum_sizes :: "nat \<Rightarrow> nat list \<Rightarrow> (mime_error, unit) result" where
  "sum_sizes so_far [] = Inr ()"
| "sum_sizes so_far (n # ns) =
     (if n > ATTACHMENT_BYTES then Inl MIME_ATTACHMENT_TOO_LARGE
      else if so_far + n > TOTAL_ATTACHMENT_BYTES then Inl MIME_ATTACHMENTS_TOO_LARGE
      else sum_sizes (so_far + n) ns)"

definition assertMimeAttachmentSizes :: "nat list \<Rightarrow> (mime_error, unit) result" where
  "assertMimeAttachmentSizes sizes =
     (if length sizes > ATTACHMENT_COUNT then Inl MIME_TOO_MANY_ATTACHMENTS else sum_sizes 0 sizes)"

section \<open>Lemmas\<close>

lemma list_all_zip_eq: "length xs = length ys \<Longrightarrow> list_all (\<lambda>(x, y). x = y) (zip xs ys) \<longleftrightarrow> xs = ys"
  by (induction rule: list_induct2) auto

lemma review_item_matches_eq: "review_item_matches a c \<longleftrightarrow> c = a"
proof
  assume m: "review_item_matches a c"
  then have "ri_reasons c = ri_reasons a"
    by (auto simp: review_item_matches_def list_all_zip_eq)
  with m show "c = a"
    by (auto simp: review_item_matches_def intro: risk_review_item.equality)
qed (simp add: review_item_matches_def list_all_zip_eq)

lemma sum_sizes_ok:
  "so_far \<le> TOTAL_ATTACHMENT_BYTES \<Longrightarrow>
   sum_sizes so_far ns = Inr () \<longleftrightarrow> (\<forall>n \<in> set ns. n \<le> ATTACHMENT_BYTES) \<and> so_far + sum_list ns \<le> TOTAL_ATTACHMENT_BYTES"
  by (induction so_far ns rule: sum_sizes.induct) (auto simp: not_less)

lemma set_reason_order: "set REASON_ORDER = UNIV"
proof -
  have "r \<in> set REASON_ORDER" for r by (cases r) (simp_all add: REASON_ORDER_def)
  then show ?thesis by blast
qed

lemma reason_listed:
  "r \<in> set (ra_reasons (classifyAttachment lc f t)) \<longleftrightarrow> reason_applies lc (filenameOnly f) t r"
  by (simp add: classifyAttachment_def Let_def set_reason_order)

lemma dangerous_iff:
  "ra_level (classifyAttachment lc f t) = Dangerous
    \<longleftrightarrow> (\<exists>r. dangerous_reason r \<and> reason_applies lc (filenameOnly f) t r)"
  by (auto simp: classifyAttachment_def Let_def list_ex_iff set_reason_order)

lemma filenameOnly_leaf:
  "0x2F \<notin> set leaf \<Longrightarrow> 0x5C \<notin> set leaf \<Longrightarrow> dir = [] \<or> last dir = 0x2F \<or> last dir = 0x5C \<Longrightarrow> filenameOnly (dir @ leaf) = leaf"
proof -
  assume leaf: "0x2F \<notin> set leaf" "0x5C \<notin> set leaf" and dir: "dir = [] \<or> last dir = 0x2F \<or> last dir = 0x5C"
  have all: "c \<in> set (rev leaf) \<Longrightarrow> c \<noteq> 0x2F \<and> c \<noteq> 0x5C" for c using leaf by auto
  have "takeWhile (\<lambda>c. c \<noteq> 0x2F \<and> c \<noteq> 0x5C) (rev dir) = []"
    using dir by (cases dir rule: rev_cases) auto
  then have "takeWhile (\<lambda>c. c \<noteq> 0x2F \<and> c \<noteq> 0x5C) (rev leaf @ rev dir) = rev leaf"
    using all by (subst takeWhile_append2) auto
  then show ?thesis by (simp add: filenameOnly_def)
qed

lemma strip_dots_append:
  "list_all dot_or_space trail \<Longrightarrow> s \<noteq> [] \<Longrightarrow> \<not> dot_or_space (last s) \<Longrightarrow> strip_dots (s @ trail) = s"
proof -
  assume trail: "list_all dot_or_space trail" and s: "s \<noteq> []" "\<not> dot_or_space (last s)"
  obtain u c where u: "s = u @ [c]" using s(1) by (cases s rule: rev_cases) auto
  have "dropWhile dot_or_space (rev trail @ rev s) = rev s"
    using trail s u by (subst dropWhile_append2) (auto simp: list_all_iff)
  then show ?thesis by (simp add: strip_dots_def)
qed

lemma last_index_absent: "d \<notin> set ext \<Longrightarrow> last_index_of [d] ext = None"
  by (induction ext) (auto simp: starts_with_def)

lemma last_dot: "d \<notin> set ext \<Longrightarrow> last_index_of [d] (base @ d # ext) = Some (length base)"
  by (induction base) (simp_all add: last_index_absent starts_with_def)

lemma extension_found:
  assumes "base \<noteq> []" and "ext \<noteq> []" and "0x2E \<notin> set ext" and "last ext \<noteq> 0x20" and "list_all dot_or_space trail"
  shows "extensionOf lc (base @ 0x2E # ext @ trail) = lc (0x2E # ext)"
proof -
  have "last ext \<noteq> 0x2E" using assms(2,3) by (metis last_in_set)
  then have "strip_dots ((base @ 0x2E # ext) @ trail) = base @ 0x2E # ext"
    using assms(2,4,5) by (intro strip_dots_append) (simp_all add: dot_or_space_def)
  then show ?thesis
    using assms(1,3) by (simp add: extensionOf_def Let_def last_dot)
qed

section \<open>Properties\<close>

definition executable_extension :: "string \<Rightarrow> bool" where
  "executable_extension e =
     (e \<in> set WINDOWS_EXECUTABLE_EXTENSIONS \<union> set WINDOWS_SCRIPT_EXTENSIONS
        \<union> set WINDOWS_SHORTCUT_EXTENSIONS \<union> set WINDOWS_INSTALLER_EXTENSIONS)"

text \<open>
  a program, script, shortcut or installer cannot be disguised: whatever directory, base name,
  letter case (any spelling that lower-cases to the extension), trailing dots or spaces and content
  type it comes with, it is classified as dangerous.
\<close>

theorem executables_are_dangerous:
  assumes "executable_extension e" and "lc (0x2E # ext) = wide e"
    and "dir = [] \<or> last dir = 0x2F \<or> last dir = 0x5C"
    and "base \<noteq> []" and "ext \<noteq> []" and "0x2E \<notin> set ext" and "last ext \<noteq> 0x20"
    and "list_all dot_or_space trail"
    and "0x2F \<notin> set (base @ ext)" and "0x5C \<notin> set (base @ ext)"
  shows "ra_level (classifyAttachment lc (dir @ base @ 0x2E # ext @ trail) contentType) = Dangerous"
proof -
  let ?leaf = "base @ 0x2E # ext @ trail"
  have "0x2F \<notin> set ?leaf \<and> 0x5C \<notin> set ?leaf"
    using assms(8-10) by (auto simp: list_all_iff dot_or_space_def)
  then have leaf: "filenameOnly (dir @ ?leaf) = ?leaf"
    using assms(3) by (intro filenameOnly_leaf) auto
  have ext: "extensionOf lc ?leaf = wide e"
    using extension_found [OF assms(4-8), of lc] assms(2) by simp
  define r where "r = (if e \<in> set WINDOWS_EXECUTABLE_EXTENSIONS then WindowsExecutable
    else if e \<in> set WINDOWS_SCRIPT_EXTENSIONS then WindowsScript
    else if e \<in> set WINDOWS_SHORTCUT_EXTENSIONS then WindowsShortcut else WindowsInstaller)"
  have "e \<in> set WINDOWS_EXECUTABLE_EXTENSIONS \<or> e \<in> set WINDOWS_SCRIPT_EXTENSIONS
      \<or> e \<in> set WINDOWS_SHORTCUT_EXTENSIONS \<or> e \<in> set WINDOWS_INSTALLER_EXTENSIONS"
    using assms(1) unfolding executable_extension_def by blast
  then have "reason_applies lc ?leaf contentType r"
    by (auto simp only: reason_applies_def Let_def ext r_def risk_reason.case image_eqI if_True if_False split: if_splits)
  moreover have "dangerous_reason r"
    by (simp add: r_def dangerous_reason_def)
  ultimately have "\<exists>r. dangerous_reason r \<and> reason_applies lc ?leaf contentType r" by blast
  then show ?thesis unfolding dangerous_iff leaf .
qed

theorem executables_are_dangerous_witness:
  "ra_level (classifyAttachment (\<lambda>s. map (\<lambda>c. if 0x41 \<le> c \<and> c \<le> 0x5A then c + 0x20 else c) s)
     (wide ''tmp/photo.JPG.EXE. '') ''image/jpeg'') = Dangerous"
  using executables_are_dangerous [where e = "''.exe''" and ext = "wide ''EXE''" and base = "wide ''photo.JPG''"
      and dir = "wide ''tmp/''" and trail = "wide ''. ''" and contentType = "''image/jpeg''"
      and lc = "\<lambda>s. map (\<lambda>c. if 0x41 \<le> c \<and> c \<le> 0x5A then c + 0x20 else c) s"]
  by (simp add: executable_extension_def WINDOWS_EXECUTABLE_EXTENSIONS_def wide_def code_def dot_or_space_def)

text \<open>
  a save of attachments is let through exactly when the review that came back is the review of
  those attachments: same items in the same order, with every field and reason equal; and that review
  lists exactly the attachments that are not ordinary, with their positions.
\<close>

theorem review_must_be_exact:
  "(attachmentSaveReviewMatches (createAttachmentSaveReview lc as) received
      \<longleftrightarrow> received = Some (createAttachmentSaveReview lc as))
   \<and> ri_index ` set (createAttachmentSaveReview lc as)
      = {i. i < length as \<and> ra_level (classifyAttachment lc (at_filename (as ! i)) (at_content_type (as ! i))) \<noteq> Ordinary}"
proof
  show "attachmentSaveReviewMatches (createAttachmentSaveReview lc as) received
      \<longleftrightarrow> received = Some (createAttachmentSaveReview lc as)"
  proof (cases received)
    case (Some r)
    have "list_all (\<lambda>(a, c). review_item_matches a c) (zip e r) \<longleftrightarrow> r = e" if "length e = length r" for e
      using list_all_zip_eq [OF that] by (simp add: review_item_matches_eq eq_commute)
    then show ?thesis by (auto simp: attachmentSaveReviewMatches_def Some)
  qed (simp add: attachmentSaveReviewMatches_def)
  show "ri_index ` set (createAttachmentSaveReview lc as)
      = {i. i < length as \<and> ra_level (classifyAttachment lc (at_filename (as ! i)) (at_content_type (as ! i))) \<noteq> Ordinary}"
  proof (rule set_eqI)
    fix i
    have "i \<in> ri_index ` set (createAttachmentSaveReview lc as)
      \<longleftrightarrow> (\<exists>(j, a) \<in> set (enumerate 0 as). j = i \<and> ra_level (classifyAttachment lc (at_filename a) (at_content_type a)) \<noteq> Ordinary)"
      by (auto simp: createAttachmentSaveReview_def createAttachmentRiskReviewItem_def Let_def image_iff)
    also have "\<dots> \<longleftrightarrow> i < length as \<and> ra_level (classifyAttachment lc (at_filename (as ! i)) (at_content_type (as ! i))) \<noteq> Ordinary"
      by (auto simp: in_set_enumerate_eq intro!: bexI [of _ "(i, as ! i)"])
    finally show "i \<in> ri_index ` set (createAttachmentSaveReview lc as) \<longleftrightarrow> i \<in> {i. i < length as
      \<and> ra_level (classifyAttachment lc (at_filename (as ! i)) (at_content_type (as ! i))) \<noteq> Ordinary}" by simp
  qed
qed

text \<open>
  the attachment sizes of a message pass exactly when there are at most the limit's attachments,
  each within its limit and all within the combined limit.
\<close>

theorem mime_limits_exact:
  "assertMimeAttachmentSizes sizes = Inr () \<longleftrightarrow>
    length sizes \<le> ATTACHMENT_COUNT \<and> (\<forall>n \<in> set sizes. n \<le> ATTACHMENT_BYTES)
    \<and> sum_list sizes \<le> TOTAL_ATTACHMENT_BYTES"
  by (simp add: assertMimeAttachmentSizes_def sum_sizes_ok)

end
