(* ===== verification/Union_Find.thy ===== *)
theory Union_Find
  imports Prelude
begin

text \<open>
  The disjoint-set forest inside \<open>groupCachedConversations\<close> (\<open>src/shared/conversations.ts\<close>): the
  array \<open>parents\<close>, \<open>find\<close> with path compression and \<open>union\<close> without ranks. The loops follow parent
  links, so they are partial functions: \<^const>\<open>None\<close> is a loop that never ends. On a forest (links
  descend in some rank) they return, and they implement the abstract partition.
\<close>

definition parent_of :: "nat list \<Rightarrow> nat \<Rightarrow> nat" where
  "parent_of ps i = (if i < length ps then ps ! i else i)"

partial_function (option) find_root :: "nat list \<Rightarrow> nat \<Rightarrow> nat option" where
  "find_root ps i = (if parent_of ps i = i then Some i else find_root ps (parent_of ps i))"

partial_function (option) compress :: "nat list \<Rightarrow> nat \<Rightarrow> nat \<Rightarrow> nat list option" where
  "compress ps root current =
     (if parent_of ps current = current then Some ps
      else compress (ps[current := root]) root (parent_of ps current))"

definition uf_find :: "nat list \<Rightarrow> nat \<Rightarrow> (nat \<times> nat list) option" where
  "uf_find ps start =
     (case find_root ps start of None \<Rightarrow> None
      | Some root \<Rightarrow> map_option (\<lambda>ps'. (root, ps')) (compress ps root start))"

definition uf_union :: "nat list \<Rightarrow> nat \<Rightarrow> nat \<Rightarrow> nat list option" where
  "uf_union ps left right =
     (case uf_find ps left of None \<Rightarrow> None
      | Some (leftRoot, ps1) \<Rightarrow>
        (case uf_find ps1 right of None \<Rightarrow> None
         | Some (rightRoot, ps2) \<Rightarrow>
           Some (if leftRoot \<noteq> rightRoot then ps2[rightRoot := leftRoot] else ps2)))"

section \<open>Forests\<close>

definition forest_by :: "(nat \<Rightarrow> nat) \<Rightarrow> nat list \<Rightarrow> bool" where
  "forest_by rk ps = (\<forall>i < length ps. ps ! i < length ps \<and> (ps ! i \<noteq> i \<longrightarrow> rk (ps ! i) < rk i))"

definition forest :: "nat list \<Rightarrow> bool" where
  "forest ps = (\<exists>rk. forest_by rk ps)"

inductive root_of :: "nat list \<Rightarrow> nat \<Rightarrow> nat \<Rightarrow> bool" for ps :: "nat list" where
  root_self: "r < length ps \<Longrightarrow> ps ! r = r \<Longrightarrow> root_of ps r r"
| root_link: "i < length ps \<Longrightarrow> ps ! i \<noteq> i \<Longrightarrow> root_of ps (ps ! i) r \<Longrightarrow> root_of ps i r"

inductive_cases root_ofE: "root_of ps i r"

lemma root_of_step: "root_of ps i r \<longleftrightarrow> i < length ps \<and> (if ps ! i = i then r = i else root_of ps (ps ! i) r)"
  by (rule iffI, erule root_ofE) (auto intro: root_of.intros split: if_splits)

lemma root_of_bounds: "root_of ps i r \<Longrightarrow> i < length ps \<and> r < length ps \<and> ps ! r = r"
  by (induction rule: root_of.induct) auto

lemma root_of_fun: "root_of ps i r \<Longrightarrow> root_of ps i r' \<Longrightarrow> r = r'"
proof (induction arbitrary: r' rule: root_of.induct)
  case (root_self r)
  then show ?case by (simp add: root_of_step [of ps r r'])
next
  case (root_link i r)
  then show ?case by (simp add: root_of_step [of ps i r'])
qed

lemma root_of_exists: "forest_by rk ps \<Longrightarrow> i < length ps \<Longrightarrow> \<exists>r. root_of ps i r"
proof (induction "rk i" arbitrary: i rule: less_induct)
  case less
  show ?case
  proof (cases "ps ! i = i")
    case True
    with less.prems show ?thesis by (blast intro: root_self)
  next
    case False
    with less show ?thesis by (meson forest_by_def root_link)
  qed
qed

lemma root_of_rank: "root_of ps i r \<Longrightarrow> forest_by rk ps \<Longrightarrow> i \<noteq> r \<Longrightarrow> rk r < rk i"
proof (induction rule: root_of.induct)
  case (root_link i r)
  then have "rk (ps ! i) < rk i" by (simp add: forest_by_def)
  with root_link show ?case by (cases "ps ! i = r") auto
qed simp

lemma find_root_root: "root_of ps i r \<Longrightarrow> find_root ps i = Some r"
  by (induction rule: root_of.induct) (simp_all add: find_root.simps parent_of_def)

section \<open>Path compression keeps the roots\<close>

lemma forest_by_update_root:
  "forest_by rk ps \<Longrightarrow> root_of ps c r \<Longrightarrow> forest_by rk (ps[c := r])"
  using root_of_bounds [of ps c r] root_of_rank [of ps c r rk]
  by (auto simp: forest_by_def nth_list_update)

lemma root_of_update_root:
  assumes "root_of ps c r" and "root_of ps i s"
  shows "root_of (ps[c := r]) i s"
  using assms(2)
proof (induction rule: root_of.induct)
  case (root_self s)
  show ?case
  proof (cases "s = c")
    case True
    have "root_of ps s s" by (rule root_of.root_self) (fact root_self)+
    then have rc: "r = s" using root_of_fun [OF assms(1)] True by blast
    show ?thesis by (rule root_of.root_self) (use root_self rc True in simp_all)
  next
    case False
    show ?thesis by (rule root_of.root_self) (use root_self False in simp_all)
  qed
next
  case (root_link i s)
  show ?case
  proof (cases "i = c")
    case True
    then have "s = r"
      using root_of_fun [OF assms(1)] root_link by (metis root_of.root_link)
    moreover have "root_of (ps[c := r]) r r"
      using root_of_bounds [OF assms(1)] by (cases "r = c") (auto intro!: root_of.root_self)
    moreover have "c \<noteq> r" using root_of_bounds [OF assms(1)] root_link True by auto
    ultimately show ?thesis
      using root_of_bounds [OF assms(1)] True root_of.root_link [of c "ps[c := r]" r] by simp
  next
    case False
    with root_link root_of.root_link [of i "ps[c := r]" s] show ?thesis by simp
  qed
qed

text \<open>Two forests of the same size with the same roots.\<close>

definition same_roots :: "nat list \<Rightarrow> nat list \<Rightarrow> bool" where
  "same_roots ps qs = (length ps = length qs \<and> (\<forall>i r. root_of ps i r \<longleftrightarrow> root_of qs i r))"

lemma same_roots_refl: "same_roots ps ps"
  by (simp add: same_roots_def)

lemma same_roots_trans: "same_roots ps qs \<Longrightarrow> same_roots qs us \<Longrightarrow> same_roots ps us"
  by (simp add: same_roots_def)

lemma same_roots_update:
  assumes "forest_by rk ps" and "root_of ps c r"
  shows "same_roots ps (ps[c := r])"
  unfolding same_roots_def
proof (intro conjI allI iffI)
  fix i s
  assume at: "root_of (ps[c := r]) i s"
  then have "i < length ps" using root_of_bounds [OF at] by simp
  then obtain s' where s': "root_of ps i s'" using root_of_exists [OF assms(1)] by blast
  then have "root_of (ps[c := r]) i s'" by (rule root_of_update_root [OF assms(2)])
  with at s' show "root_of ps i s" using root_of_fun by blast
qed (use root_of_update_root [OF assms(2)] in auto)

lemma compress_correct:
  "forest_by rk ps \<Longrightarrow> root_of ps c r \<Longrightarrow>
   \<exists>qs. compress ps r c = Some qs \<and> forest_by rk qs \<and> same_roots ps qs"
proof (induction "rk c" arbitrary: ps c rule: less_induct)
  case less
  show ?case
  proof (cases "ps ! c = c")
    case True
    with less.prems root_of_bounds [OF less.prems(2)] show ?thesis
      by (auto simp: compress.simps parent_of_def same_roots_refl)
  next
    case False
    let ?qs = "ps[c := r]" and ?d = "ps ! c"
    have c: "c < length ps" and lt: "rk ?d < rk c" and d: "root_of ps ?d r"
      using less.prems False root_of_bounds [OF less.prems(2)]
      by (auto simp: forest_by_def root_of_step [of ps c r])
    have fq: "forest_by rk ?qs" by (rule forest_by_update_root [OF less.prems])
    have dq: "root_of ?qs ?d r" by (rule root_of_update_root [OF less.prems(2) d])
    obtain us where "compress ?qs r ?d = Some us" "forest_by rk us" "same_roots ?qs us"
      using less.hyps [OF lt fq dq] by blast
    moreover have "compress ps r c = compress ?qs r ?d"
      using c False by (simp add: compress.simps [of ps r c] parent_of_def)
    ultimately show ?thesis
      using same_roots_trans [OF same_roots_update [OF less.prems]] by auto
  qed
qed

section \<open>The abstract partition\<close>

definition same_class :: "nat list \<Rightarrow> nat \<Rightarrow> nat \<Rightarrow> bool" where
  "same_class ps i j = (\<exists>r. root_of ps i r \<and> root_of ps j r)"

lemma uf_find_correct:
  assumes "forest ps" and "i < length ps"
  shows "\<exists>r qs. uf_find ps i = Some (r, qs) \<and> root_of ps i r \<and> forest qs \<and> same_roots ps qs"
proof -
  from assms(1) obtain rk where rk: "forest_by rk ps" by (auto simp: forest_def)
  obtain r where r: "root_of ps i r" using root_of_exists [OF rk assms(2)] by blast
  with compress_correct [OF rk r] show ?thesis
    by (auto simp: uf_find_def find_root_root forest_def)
qed

lemma root_of_link_roots:
  assumes "root_of ps l l" and "root_of ps q q" and "l \<noteq> q" and "root_of ps i s"
  shows "root_of (ps[q := l]) i (if s = q then l else s)"
  using assms(4)
proof (induction rule: root_of.induct)
  case (root_self s)
  have l: "root_of (ps[q := l]) l l"
    using assms(3) root_of_bounds [OF assms(1)] by (intro root_of.root_self) auto
  show ?case
  proof (cases "s = q")
    case True
    have "root_of (ps[q := l]) q l"
      using l assms(3) root_of_bounds [OF assms(2)] root_of.root_link [of q "ps[q := l]" l] by simp
    with True show ?thesis by simp
  next
    case False
    then have "root_of (ps[q := l]) s s"
      by (intro root_of.root_self) (use root_self in simp_all)
    with False show ?thesis by simp
  qed
next
  case (root_link i s)
  then have "i \<noteq> q" using root_of_bounds [OF assms(2)] by auto
  with root_link root_of.root_link [of i "ps[q := l]" "if s = q then l else s"] show ?case by simp
qed

lemma forest_link:
  assumes "forest_by rk ps" and "root_of ps l l" and "root_of ps q q" and "l \<noteq> q"
  shows "forest (ps[q := l])"
proof -
  let ?rk = "\<lambda>x. if root_of ps x q then rk x + rk l + 1 else rk x"
  have "\<not> root_of ps l q" using assms root_of_fun by blast
  have "forest_by ?rk (ps[q := l])"
    unfolding forest_by_def
  proof (intro allI impI conjI)
    fix i assume i: "i < length (ps[q := l])"
    show "ps[q := l] ! i < length (ps[q := l])"
      using i assms(1) root_of_bounds [OF assms(2)] by (cases "i = q") (auto simp: forest_by_def)
    assume ne: "ps[q := l] ! i \<noteq> i"
    show "?rk (ps[q := l] ! i) < ?rk i"
    proof (cases "i = q")
      case True
      with \<open>\<not> root_of ps l q\<close> assms(3) i show ?thesis by simp
    next
      case False
      with ne i have link: "ps ! i \<noteq> i" "i < length ps" by auto
      then have "root_of ps i q \<longleftrightarrow> root_of ps (ps ! i) q"
        by (simp add: root_of_step [of ps i q])
      with link False assms(1) show ?thesis by (auto simp: forest_by_def)
    qed
  qed
  then show ?thesis by (auto simp: forest_def)
qed

lemma forest_total: "forest ps \<Longrightarrow> i < length ps \<Longrightarrow> \<exists>r. root_of ps i r"
  by (auto simp: forest_def dest: root_of_exists)

lemma root_of_root: "root_of ps i r \<Longrightarrow> root_of ps r r"
  using root_of_bounds [of ps i r] by (simp add: root_of.root_self)

theorem uf_union_correct:
  assumes "forest ps" and a: "a < length ps" and b: "b < length ps"
  shows "\<exists>qs. uf_union ps a b = Some qs \<and> forest qs \<and> length qs = length ps
    \<and> (\<forall>i j. i < length ps \<longrightarrow> j < length ps \<longrightarrow>
         same_class qs i j \<longleftrightarrow> same_class ps i j \<or> same_class ps i a \<and> same_class ps b j
                               \<or> same_class ps i b \<and> same_class ps a j)"
proof -
  obtain l ps1 where f1: "uf_find ps a = Some (l, ps1)" "root_of ps a l" "forest ps1" "same_roots ps ps1"
    using uf_find_correct [OF assms(1) a] by blast
  have b1: "b < length ps1" using b f1(4) by (simp add: same_roots_def)
  obtain q ps2 where f2: "uf_find ps1 b = Some (q, ps2)" "root_of ps1 b q" "forest ps2" "same_roots ps1 ps2"
    using uf_find_correct [OF f1(3) b1] by blast
  have same: "same_roots ps ps2" using f1(4) f2(4) by (rule same_roots_trans)
  have len: "length ps2 = length ps" and roots: "root_of ps2 i r \<longleftrightarrow> root_of ps i r" for i r
    using same by (auto simp: same_roots_def)
  have q: "root_of ps b q" using f1(4) f2(2) by (simp add: same_roots_def)
  have cls: "same_class ps i j \<longleftrightarrow> (\<exists>r. root_of ps2 i r \<and> root_of ps2 j r)" for i j
    by (simp add: same_class_def roots)
  have la: "same_class ps i a \<longleftrightarrow> root_of ps2 i l" "same_class ps a i \<longleftrightarrow> root_of ps2 i l"
    "same_class ps i b \<longleftrightarrow> root_of ps2 i q" "same_class ps b i \<longleftrightarrow> root_of ps2 i q" for i
    using f1(2) q by (auto simp: same_class_def roots dest: root_of_fun)
  show ?thesis
  proof (cases "l = q")
    case True
    then have "uf_union ps a b = Some ps2" by (simp add: uf_union_def f1 f2)
    then show ?thesis
      using f2(3) len True la cls same
      by (auto simp: same_roots_def same_class_def [of ps2] cls)
  next
    case False
    let ?qs = "ps2[q := l]"
    have lroot: "root_of ps2 l l" "root_of ps2 q q"
      using f1(2) q root_of_root by (auto simp: roots)
    have union: "uf_union ps a b = Some ?qs" using False by (simp add: uf_union_def f1 f2)
    have "forest ?qs" using f2(3) lroot False forest_link by (auto simp: forest_def)
    moreover have "same_class ?qs i j \<longleftrightarrow> same_class ps i j \<or> same_class ps i a \<and> same_class ps b j
        \<or> same_class ps i b \<and> same_class ps a j" if ij: "i < length ps" "j < length ps" for i j
    proof -
      obtain ri rj where r: "root_of ps2 i ri" "root_of ps2 j rj"
        using forest_total [OF f2(3)] ij len by metis
      note new = root_of_link_roots [OF lroot False r(1)] root_of_link_roots [OF lroot False r(2)]
      have "same_class ?qs i j \<longleftrightarrow> (if ri = q then l else ri) = (if rj = q then l else rj)"
        using new by (auto simp: same_class_def dest: root_of_fun)
      moreover have "root_of ps2 i x \<longleftrightarrow> x = ri" "root_of ps2 j x \<longleftrightarrow> x = rj" for x
        using r root_of_fun by blast+
      moreover from this have "same_class ps i j \<longleftrightarrow> ri = rj" unfolding cls by auto
      ultimately show ?thesis
        unfolding la by (cases "ri = q"; cases "rj = q"; cases "ri = rj") auto
    qed
    ultimately show ?thesis using union len by auto
  qed
qed

lemma forest_initial: "forest [0..<n]"
  by (auto simp: forest_def forest_by_def)

lemma same_class_initial: "i < n \<Longrightarrow> j < n \<Longrightarrow> same_class [0..<n] i j \<longleftrightarrow> i = j"
proof -
  have "root_of [0..<n] k r \<longleftrightarrow> k < n \<and> r = k" for k r
    by (subst root_of_step) auto
  then show "i < n \<Longrightarrow> j < n \<Longrightarrow> same_class [0..<n] i j \<longleftrightarrow> i = j" by (auto simp: same_class_def)
qed

lemma same_class_root: "forest ps \<Longrightarrow> root_of ps i r \<Longrightarrow> root_of ps j s \<Longrightarrow> same_class ps i j \<longleftrightarrow> r = s"
  by (auto simp: same_class_def dest: root_of_fun)

end
