(* ===== verification/Ordering.thy ===== *)
theory Ordering
  imports Prelude
begin

text \<open>
  \<open>Array.prototype.sort\<close> with a comparator: a stable sort. The comparators of the program are
  chains \<open>a - b || c.localeCompare(d) || ...\<close>; the locale below states what such a comparator
  promises, and every comparator of the components is an interpretation or a hypothesis of it.
\<close>

section \<open>The sort\<close>

fun sort_insert :: "'a comparison \<Rightarrow> 'a \<Rightarrow> 'a list \<Rightarrow> 'a list" where
  "sort_insert c x [] = [x]"
| "sort_insert c x (y # ys) = (if c x y \<le> 0 then x # y # ys else y # sort_insert c x ys)"

definition js_sort :: "'a comparison \<Rightarrow> 'a list \<Rightarrow> 'a list" where
  "js_sort c xs = foldr (sort_insert c) xs []"

lemma js_sort_simps [simp]:
  "js_sort c [] = []" "js_sort c (x # xs) = sort_insert c x (js_sort c xs)"
  by (simp_all add: js_sort_def)

lemma mset_sort_insert: "mset (sort_insert c x xs) = add_mset x (mset xs)"
  by (induction xs) auto

lemma mset_js_sort [simp]: "mset (js_sort c xs) = mset xs"
  by (induction xs) (auto simp: mset_sort_insert)

lemma set_js_sort [simp, list_ops]: "set (js_sort c xs) = set xs"
  by (metis mset_js_sort set_mset_mset)

lemma length_js_sort [simp, list_ops]: "length (js_sort c xs) = length xs"
  by (metis mset_js_sort size_mset)

lemma distinct_js_sort [simp, list_ops]: "distinct (js_sort c xs) = distinct xs"
  by (metis mset_js_sort mset_eq_imp_distinct_iff)

lemma mset_map_js_sort [simp]: "mset (map f (js_sort c xs)) = mset (map f xs)"
  by simp

lemma distinct_map_js_sort [simp, list_ops]: "distinct (map f (js_sort c xs)) = distinct (map f xs)"
  by (metis mset_map_js_sort mset_eq_imp_distinct_iff)

lemma js_sort_filter_length: "length (filter P (js_sort c xs)) = length (filter P xs)"
  by (metis mset_filter mset_js_sort size_mset)

section \<open>What a comparator promises\<close>

locale comparator =
  fixes cmp :: "'a comparison"
  assumes sgn_swap: "sgn (cmp y x) = - sgn (cmp x y)"
    and le_trans: "cmp x y \<le> 0 \<Longrightarrow> cmp y z \<le> 0 \<Longrightarrow> cmp x z \<le> 0"
begin

lemma refl: "cmp x x = 0"
  using sgn_swap [of x x] by (simp add: sgn_if split: if_splits)

lemma swap_le: "\<not> cmp x y \<le> 0 \<Longrightarrow> cmp y x \<le> 0"
  using sgn_swap [of x y] by (auto simp: sgn_if split: if_splits)

lemma swap_less: "cmp x y < 0 \<longleftrightarrow> 0 < cmp y x"
  using sgn_swap [of x y] by (auto simp: sgn_if split: if_splits)

lemma swap_zero: "cmp x y = 0 \<longleftrightarrow> cmp y x = 0"
  using sgn_swap [of x y] by (auto simp: sgn_if split: if_splits)

lemma zero_left: "cmp x y = 0 \<Longrightarrow> cmp x z \<le> 0 \<longleftrightarrow> cmp y z \<le> 0"
  using le_trans [of x y z] le_trans [of y x z] swap_zero [of x y] by auto

lemma zero_right: "cmp x y = 0 \<Longrightarrow> cmp z x \<le> 0 \<longleftrightarrow> cmp z y \<le> 0"
  using le_trans [of z x y] le_trans [of z y x] swap_zero [of x y] by auto

abbreviation ordered :: "'a list \<Rightarrow> bool" where
  "ordered \<equiv> sorted_wrt (\<lambda>x y. cmp x y \<le> 0)"

lemma ordered_sort_insert: "ordered xs \<Longrightarrow> ordered (sort_insert cmp x xs)"
proof (induction xs)
  case Nil
  then show ?case by simp
next
  case (Cons y ys)
  have set: "set (sort_insert cmp x ys) = insert x (set ys)"
    by (metis mset_sort_insert set_mset_add_mset_insert set_mset_mset)
  show ?case
  proof (cases "cmp x y \<le> 0")
    case True
    with Cons.prems show ?thesis by (auto intro: le_trans)
  next
    case False
    with Cons show ?thesis by (auto simp: set dest: swap_le)
  qed
qed

lemma ordered_sort: "ordered (js_sort cmp xs)"
  by (induction xs) (auto intro: ordered_sort_insert)

lemma sort_insert_front: "(\<And>y. y \<in> set ys \<Longrightarrow> cmp x y \<le> 0) \<Longrightarrow> sort_insert cmp x ys = x # ys"
  by (cases ys) auto

lemma sort_ordered_id: "ordered xs \<Longrightarrow> js_sort cmp xs = xs"
  by (induction xs) (auto intro: sort_insert_front)

lemma sort_idem: "js_sort cmp (js_sort cmp xs) = js_sort cmp xs"
  by (rule sort_ordered_id [OF ordered_sort])

lemma ordered_filter: "ordered xs \<Longrightarrow> ordered (filter P xs)"
  by (rule sorted_wrt_filter)

lemma head_least: "js_sort cmp xs = y # ys \<Longrightarrow> x \<in> set xs \<Longrightarrow> cmp y x \<le> 0"
proof -
  assume sorted: "js_sort cmp xs = y # ys" and "x \<in> set xs"
  then have "x = y \<or> x \<in> set ys"
    using set_js_sort [of cmp xs] by auto
  then show "cmp y x \<le> 0"
    using ordered_sort [of xs] sorted by (auto simp: refl)
qed

end

text \<open>A comparator that separates distinct elements sorts to a result that only depends on the
  multiset of its input.\<close>

locale strict_comparator = comparator +
  assumes zero_eq: "cmp x y = 0 \<Longrightarrow> x = y"
begin

lemma ordered_unique:
  "ordered xs \<Longrightarrow> ordered ys \<Longrightarrow> mset xs = mset ys \<Longrightarrow> xs = ys"
proof (induction xs arbitrary: ys)
  case Nil
  then show ?case by simp
next
  case (Cons x xs)
  from Cons.prems(3) obtain y ys' where ys: "ys = y # ys'"
    by (cases ys) auto
  have "x \<in> set ys" "y \<in> set (x # xs)"
    using Cons.prems(3) ys by (metis list.set_intros(1) mset_eq_setD)+
  with Cons.prems(1,2) ys have "cmp x y \<le> 0" "cmp y x \<le> 0"
    by (auto simp: refl)
  then have "x = y"
    using swap_less [of x y] zero_eq [of x y] by linarith
  with Cons ys show ?case by simp
qed

lemma sort_mset_eq: "mset xs = mset ys \<Longrightarrow> js_sort cmp xs = js_sort cmp ys"
  by (intro ordered_unique ordered_sort) simp

end

section \<open>Building comparators\<close>

text \<open>\<open>a || b\<close> on numbers, as in \<open>left.x - right.x || ...\<close>.\<close>

definition cmp_or :: "int \<Rightarrow> int \<Rightarrow> int" where
  "cmp_or a b = (if a \<noteq> 0 then a else b)"

definition cmp_chain :: "'a comparison \<Rightarrow> 'a comparison \<Rightarrow> 'a comparison" where
  "cmp_chain c d x y = cmp_or (c x y) (d x y)"

definition cmp_on :: "('a \<Rightarrow> 'b) \<Rightarrow> 'b comparison \<Rightarrow> 'a comparison" where
  "cmp_on f c x y = c (f x) (f y)"

definition cmp_flip :: "'a comparison \<Rightarrow> 'a comparison" where
  "cmp_flip c x y = c y x"

definition int_cmp :: "int comparison" where
  "int_cmp x y = x - y"

text \<open>\<open>a - b\<close> on dates, where a date that does not parse counts as minus infinity; the
  difference of two such dates is \<open>NaN\<close>, which \<open>||\<close> passes over like 0.\<close>

fun date_cmp :: "int option comparison" where
  "date_cmp (Some x) (Some y) = x - y"
| "date_cmp (Some x) None = 1"
| "date_cmp None (Some y) = -1"
| "date_cmp None None = 0"

text \<open>The default order of \<open>sort()\<close> on strings: by code units.\<close>

fun codeunit_cmp :: "string comparison" where
  "codeunit_cmp [] [] = 0"
| "codeunit_cmp [] (y # ys) = -1"
| "codeunit_cmp (x # xs) [] = 1"
| "codeunit_cmp (x # xs) (y # ys) =
     (if x = y then codeunit_cmp xs ys
      else if (of_char x :: nat) < of_char y then -1 else 1)"

lemma comparator_on: "comparator c \<Longrightarrow> comparator (cmp_on f c)"
  unfolding comparator_def cmp_on_def by blast

lemma comparator_flip: "comparator c \<Longrightarrow> comparator (cmp_flip c)"
  unfolding comparator_def cmp_flip_def by (metis add.inverse_inverse)

lemma comparator_chain:
  assumes "comparator c" and "comparator d"
  shows "comparator (cmp_chain c d)"
proof -
  note c_swap = comparator.sgn_swap [OF assms(1)] comparator.swap_less [OF assms(1)]
    comparator.swap_zero [OF assms(1)]
  show ?thesis
  proof
    show "sgn (cmp_chain c d y x) = - sgn (cmp_chain c d x y)" for x y
      using c_swap [of x y] comparator.sgn_swap [OF assms(2), of x y]
      by (auto simp: cmp_chain_def cmp_or_def)
  next
    fix x y z
    assume xy: "cmp_chain c d x y \<le> 0" and yz: "cmp_chain c d y z \<le> 0"
    then have le: "c x y \<le> 0" "c y z \<le> 0"
      and dx: "c x y = 0 \<Longrightarrow> d x y \<le> 0" and dz: "c y z = 0 \<Longrightarrow> d y z \<le> 0"
      by (auto simp: cmp_chain_def cmp_or_def split: if_splits)
    have xz: "c x z \<le> 0" using le by (rule comparator.le_trans [OF assms(1)])
    show "cmp_chain c d x z \<le> 0"
    proof (cases "c x z = 0")
      case True
      then have "c z y \<le> 0" "c y x \<le> 0"
        using le comparator.zero_left [OF assms(1) True, of y]
          comparator.zero_right [OF assms(1) True, of y] by simp_all
      then have "c x y = 0" "c y z = 0"
        using le c_swap(2) [of x y] c_swap(2) [of y z] c_swap(3) [of x y] c_swap(3) [of y z] by linarith+
      with dx dz True show ?thesis
        by (auto simp: cmp_chain_def cmp_or_def intro: comparator.le_trans [OF assms(2)])
    next
      case False
      with xz show ?thesis by (simp add: cmp_chain_def cmp_or_def)
    qed
  qed
qed

interpretation ints: strict_comparator int_cmp
  by unfold_locales (auto simp: int_cmp_def sgn_if)

interpretation dates: strict_comparator date_cmp
proof
  show "sgn (date_cmp y x) = - sgn (date_cmp x y)" for x y
    by (cases "(x, y)" rule: date_cmp.cases) (auto simp: sgn_if)
  show "date_cmp x y \<le> 0 \<Longrightarrow> date_cmp y z \<le> 0 \<Longrightarrow> date_cmp x z \<le> 0" for x y z
    by (cases x; cases y; cases z) auto
  show "date_cmp x y = 0 \<Longrightarrow> x = y" for x y
    by (cases "(x, y)" rule: date_cmp.cases) auto
qed

interpretation codeunits: strict_comparator codeunit_cmp
proof
  show "sgn (codeunit_cmp y x) = - sgn (codeunit_cmp x y)" for x y
    by (induction x y rule: codeunit_cmp.induct) (auto simp: sgn_if split: if_splits)
  show "codeunit_cmp x y \<le> 0 \<Longrightarrow> codeunit_cmp y z \<le> 0 \<Longrightarrow> codeunit_cmp x z \<le> 0" for x y z
  proof (induction x y arbitrary: z rule: codeunit_cmp.induct)
    case (2 y ys)
    then show ?case by (cases z) auto
  next
    case (4 x xs y ys)
    then show ?case by (cases z) (auto split: if_splits)
  qed (cases z; auto)+
  show "codeunit_cmp x y = 0 \<Longrightarrow> x = y" for x y
    by (induction x y rule: codeunit_cmp.induct) (auto split: if_splits)
qed

end
