(* ===== verification/Mail_Data.thy ===== *)
theory Mail_Data
  imports Complex_Main Ordering Text_Ops
begin

text \<open>
  The shared data model of \<open>src/shared/contracts.ts\<close>: addresses, messages, folders, accounts and
  the settings they carry. An optional field is an \<open>option\<close>; a string union is a datatype; the
  numbers of these interfaces (UIDs, sizes, counts, ports) are integers. \<open>js_runtime\<close> collects the
  runtime operations whose tables are not in the repository.
\<close>

section \<open>The runtime\<close>

text \<open>
  A match of a compiled regular expression, and \<open>exec\<close> on a string from \<open>lastIndex\<close>;
  \<^const>\<open>None\<close> is no further match. An engine compiles a source and flags, or throws.
\<close>

record sample_match =
  sm_value :: string
  sm_index :: nat
  sm_groups :: "string list"

type_synonym compiled = "string \<Rightarrow> nat \<Rightarrow> sample_match option"
type_synonym engine = "string \<Rightarrow> string \<Rightarrow> compiled option"

text \<open>
  \<open>nfkc\<close> is \<open>normalize("NFKC")\<close>, \<open>collate\<close> is \<open>localeCompare\<close> (negative, 0 or positive),
  \<open>parse_date\<close> is \<open>Date.parse\<close> in milliseconds, \<^const>\<open>None\<close> for \<open>NaN\<close>, \<open>parse_number\<close> is
  \<open>Number(text)\<close>, \<^const>\<open>None\<close> for a result that is not finite, and \<open>regexp\<close> is \<open>new RegExp\<close>.
\<close>

record js_runtime =
  nfkc :: "string \<Rightarrow> string"
  collate :: "string comparison"
  parse_date :: "string \<Rightarrow> int option"
  parse_number :: "string \<Rightarrow> rat option"
  regexp :: engine

text \<open>A concrete runtime for closed examples: ASCII text, code-unit collation, decimal dates and
  numbers, and an engine that rejects every source.\<close>

definition decimal :: "string \<Rightarrow> nat option" where
  "decimal s = (if s \<noteq> [] \<and> list_all is_digit s then Some (text_nat s) else None)"

definition ascii_runtime :: js_runtime where
  "ascii_runtime = \<lparr>nfkc = (\<lambda>s. s), collate = codeunit_cmp,
     parse_date = (\<lambda>s. map_option int (decimal s)),
     parse_number = (\<lambda>s. map_option of_nat (decimal s)), regexp = (\<lambda>_ _. None)\<rparr>"

lemma ascii_runtime_simps [simp]:
  "nfkc ascii_runtime s = s" "collate ascii_runtime = codeunit_cmp"
  by (simp_all add: ascii_runtime_def)

definition max_safe_integer :: int where
  "max_safe_integer = 9007199254740991"

definition is_safe_integer :: "int \<Rightarrow> bool" where
  "is_safe_integer n = (\<bar>n\<bar> \<le> max_safe_integer)"

section \<open>Messages\<close>

record address =
  ad_name :: string
  ad_address :: string

record message_summary =
  ms_id :: string
  ms_account :: string
  ms_folder :: string
  ms_uid :: nat
  ms_uid_validity :: "string option"
  ms_message_id :: "string option"
  ms_in_reply_to :: "string option"
  ms_references :: "string list option"
  ms_from :: "address list"
  ms_to :: "address list"
  ms_cc :: "address list"
  ms_subject :: string
  ms_date :: string
  ms_preview :: string
  ms_unread :: bool
  ms_starred :: bool
  ms_has_attachments :: bool
  ms_size :: int

text \<open>\<open>dateValue\<close> (\<open>messageDate\<close> in \<open>unified-folders.ts\<close>): \<^const>\<open>None\<close> is minus infinity.\<close>

definition date_value :: "js_runtime \<Rightarrow> message_summary \<Rightarrow> int option" where
  "date_value rt m = parse_date rt (ms_date m)"

text \<open>\<open>newestFirst\<close>: newest date first, then the identifier.\<close>

definition newest_first :: "js_runtime \<Rightarrow> message_summary comparison" where
  "newest_first rt =
     cmp_chain (cmp_flip (cmp_on (date_value rt) date_cmp)) (cmp_on ms_id (collate rt))"

lemma comparator_newest_first: "comparator (collate rt) \<Longrightarrow> comparator (newest_first rt)"
  unfolding newest_first_def
  by (intro comparator_chain comparator_flip comparator_on dates.comparator_axioms)

text \<open>A message for closed examples; the fields that matter are updated in place.\<close>

definition blank_message :: message_summary where
  "blank_message = \<lparr>ms_id = ''m'', ms_account = ''a'', ms_folder = ''INBOX'', ms_uid = 1,
     ms_uid_validity = None, ms_message_id = None, ms_in_reply_to = None, ms_references = None,
     ms_from = [], ms_to = [], ms_cc = [], ms_subject = '''', ms_date = '''', ms_preview = '''',
     ms_unread = False, ms_starred = False, ms_has_attachments = False, ms_size = 0\<rparr>"

section \<open>Folders and accounts\<close>

datatype folder_role = Inbox | Sent | Drafts | Archive | Junk | Trash | Other

record folder_summary =
  fs_account :: string
  fs_path :: string
  fs_name :: string
  fs_role :: folder_role
  fs_unread :: int
  fs_total :: int
  fs_uid_validity :: "string option"

datatype unified_folder_kind = UnifiedInbox | UnifiedStarred | UnifiedUnread

datatype mail_security = Tls | StartTls | Plain
datatype auth_mode = Password | OAuth2
datatype incoming_protocol = Imap | Pop3
datatype oauth_provider = Google | Microsoft
datatype account_kind = ImapAccount | DemoAccount

record server_settings =
  ss_host :: string
  ss_port :: int
  ss_security :: mail_security
  ss_username :: string

record account_summary =
  ac_id :: string
  ac_display_name :: string
  ac_email :: string
  ac_incoming :: server_settings
  ac_outgoing :: server_settings
  ac_auth_mode :: auth_mode
  ac_oauth_provider :: "oauth_provider option"
  ac_kind :: account_kind
  ac_created_at :: string
  ac_last_sync_at :: "string option"
  ac_sync_error :: "string option"

section \<open>Cache keys\<close>

text \<open>Cached collections are keyed \<open>accountId\u0000folderPath\<close>.\<close>

definition nul :: char where
  "nul = CHR 0x00"

definition folder_key :: "string \<Rightarrow> string \<Rightarrow> string" where
  "folder_key acct path = acct @ nul # path"

definition cache_key_parts :: "string \<Rightarrow> (string \<times> string) option" where
  "cache_key_parts key =
     (case index_of [nul] key of None \<Rightarrow> None
      | Some i \<Rightarrow> if i = 0 \<or> i = length key - 1 then None
                  else Some (take i key, drop (i + 1) key))"

lemma index_of_single: "c \<notin> set p \<Longrightarrow> index_of [c] (p @ c # s) = Some (length p)"
  by (induction p) (auto simp: starts_with_def)

lemma cache_key_parts_folder_key:
  "nul \<notin> set acct \<Longrightarrow> acct \<noteq> [] \<Longrightarrow> path \<noteq> [] \<Longrightarrow>
   cache_key_parts (folder_key acct path) = Some (acct, path)"
  by (auto simp: cache_key_parts_def folder_key_def index_of_single)

lemma cache_key_parts_Some:
  assumes "cache_key_parts key = Some (acct, path)"
  shows "key = folder_key acct path" and "acct \<noteq> []" and "path \<noteq> []" and "nul \<notin> set acct"
proof -
  from assms obtain i where i: "index_of [nul] key = Some i" "i \<noteq> 0" "i \<noteq> length key - 1"
    and parts: "acct = take i key" "path = drop (i + 1) key"
    by (auto simp: cache_key_parts_def split: option.splits if_splits)
  from index_of_Some [OF i(1)] have le: "i + 1 \<le> length key" and at: "starts_with [nul] (drop i key)"
    by auto
  from at le have "drop i key = nul # drop (i + 1) key"
    by (auto simp: starts_with_append) (metis drop_Suc list.sel(3) tl_drop)
  then show "key = folder_key acct path"
    by (metis append_take_drop_id folder_key_def parts)
  show "acct \<noteq> []" using i le parts by auto
  show "path \<noteq> []" using i le parts by auto
  have "nul \<notin> set (take i key)" if "index_of [nul] key = Some i" for key :: string and i
    using that
  proof (induction key arbitrary: i)
    case (Cons c cs)
    then show ?case
      by (cases i) (auto simp: starts_with_def split: if_splits)
  qed simp
  then show "nul \<notin> set acct" using i parts by simp
qed

end
