(* ===== verification/Conversations.thy ===== *)
theory Conversations
  imports Union_Find Mail_Data
begin

text \<open>
  \<open>src/shared/conversations.ts\<close>: conversation subjects, message references and the grouping of
  cached messages into conversations. \<open>groupCachedConversations\<close> returns \<^const>\<open>None\<close> only if a
  loop of the disjoint-set forest did not end, which is proved impossible; its groups are proved to
  be the connected components of the relation "shares a subject or a reference".
\<close>

section \<open>Subjects and references\<close>

definition CACHED_CONVERSATION_MESSAGE_LIMIT :: nat where "CACHED_CONVERSATION_MESSAGE_LIMIT = 2000"
definition CACHED_CONVERSATION_REFERENCE_LIMIT :: nat where "CACHED_CONVERSATION_REFERENCE_LIMIT = 100"
definition CACHED_CONVERSATION_SUBJECT_LIMIT :: nat where "CACHED_CONVERSATION_SUBJECT_LIMIT = 4096"

text \<open>
  \<open>/^(?:re|fw|fwd)\s*(?:\[\d{1,4}\])?\s*:\s*/iu\<close> has at most one match, so replacing it is a
  deterministic parse: \<open>reply_tail\<close> is what follows the word, \<open>replyPrefix\<close> tries the words in order.
\<close>

definition skip_counter :: "string \<Rightarrow> string" where
  "skip_counter s =
     (case s of [] \<Rightarrow> s
      | c # t \<Rightarrow>
        (let n = length (takeWhile is_digit t)
         in if c = CHR ''['' \<and> 1 \<le> n \<and> n \<le> 4 \<and> starts_with '']'' (drop n t) then drop (n + 1) t else s))"

definition reply_tail :: "string \<Rightarrow> string option" where
  "reply_tail s =
     (case trim_start (skip_counter (trim_start s)) of [] \<Rightarrow> None
      | c # t \<Rightarrow> if c = CHR '':'' then Some (trim_start t) else None)"

fun strip_words :: "string list \<Rightarrow> string \<Rightarrow> string" where
  "strip_words [] s = s"
| "strip_words (w # ws) s =
     (case (if lower (take (length w) s) = w then reply_tail (drop (length w) s) else None) of
        Some rest \<Rightarrow> rest | None \<Rightarrow> strip_words ws s)"

definition strip_reply_prefix :: "string \<Rightarrow> string" where
  "strip_reply_prefix s = strip_words [''re'', ''fw'', ''fwd''] s"

fun strip_prefixes :: "nat \<Rightarrow> string \<Rightarrow> string" where
  "strip_prefixes 0 value = value"
| "strip_prefixes (Suc n_seen) value =
     (let nxt = trim (strip_reply_prefix value)
      in if nxt = value then value else strip_prefixes n_seen nxt)"

definition conversationSubject :: "js_runtime \<Rightarrow> string \<Rightarrow> string" where
  "conversationSubject rt subject =
     strip_prefixes 20
       (collapse_runs is_space '' '' (trim (take CACHED_CONVERSATION_SUBJECT_LIMIT (nfkc rt subject))))"

definition normalizedConversationSubject :: "js_runtime \<Rightarrow> string \<Rightarrow> string" where
  "normalizedConversationSubject rt subject = lower (conversationSubject rt subject)"

text \<open>The group of \<open>/^<([^<>\s]+)>$/u\<close>, if it matches.\<close>

definition bracketed_reference :: "string \<Rightarrow> string option" where
  "bracketed_reference s =
     (let inner = butlast (tl s)
      in if length s \<ge> 3 \<and> hd s = CHR ''<'' \<and> last s = CHR ''>''
            \<and> list_all (\<lambda>c. c \<noteq> CHR ''<'' \<and> c \<noteq> CHR ''>'' \<and> \<not> is_space c) inner
         then Some inner else None)"

definition normalizedMessageReference :: "js_runtime \<Rightarrow> string \<Rightarrow> string option" where
  "normalizedMessageReference rt value =
     (let trimmed = trim (nfkc rt value)
      in if trimmed = [] \<or> length trimmed > 4096 then None
         else let candidate = trim (case bracketed_reference trimmed of Some b \<Rightarrow> b | None \<Rightarrow> trimmed)
              in if candidate = [] \<or> list_ex is_space candidate then None else Some (lower candidate))"

definition present :: "string option \<Rightarrow> string list" where
  "present v = (case v of None \<Rightarrow> [] | Some s \<Rightarrow> if s = [] then [] else [s])"

definition referenceTokens :: "js_runtime \<Rightarrow> message_summary \<Rightarrow> string list" where
  "referenceTokens rt m =
     (let values = present (ms_message_id m) @ present (ms_in_reply_to m)
            @ concat (map (\<lambda>r. present (Some r))
                (take CACHED_CONVERSATION_REFERENCE_LIMIT
                  (case ms_references m of None \<Rightarrow> [] | Some rs \<Rightarrow> rs)))
      in unique (concat (map (\<lambda>v. case normalizedMessageReference rt v of
                                    None \<Rightarrow> [] | Some t \<Rightarrow> if t = [] then [] else [t]) values)))"

section \<open>Grouping\<close>

record conversation =
  cv_id :: string
  cv_subject :: string
  cv_messages :: "message_summary list"
  cv_unread :: nat
  cv_accounts :: "string list"

record grouping =
  cg_conversations :: "conversation list"
  cg_limited :: bool

definition or_text :: "string \<Rightarrow> string \<Rightarrow> string" where
  "or_text a b = (if a \<noteq> [] then a else b)"

definition singleton :: "js_runtime \<Rightarrow> message_summary \<Rightarrow> conversation" where
  "singleton rt m =
     \<lparr>cv_id = ''message:'' @ ms_id m,
      cv_subject = or_text (conversationSubject rt (ms_subject m)) (ms_subject m),
      cv_messages = [m], cv_unread = (if ms_unread m then 1 else 0), cv_accounts = [ms_account m]\<rparr>"

text \<open>
  The state of the first pass: the forest and the two maps from a subject or a reference to the
  first message that carried it. A key is a subject or a token.
\<close>

datatype link_key = SubjectKey string | ReferenceKey string

record link_state =
  ls_parents :: "nat list"
  ls_subjects :: "string \<rightharpoonup> nat"
  ls_references :: "string \<rightharpoonup> nat"

definition first_with :: "link_state \<Rightarrow> link_key \<Rightarrow> nat option" where
  "first_with st key = (case key of SubjectKey s \<Rightarrow> ls_subjects st s | ReferenceKey t \<Rightarrow> ls_references st t)"

definition remember :: "link_state \<Rightarrow> link_key \<Rightarrow> nat \<Rightarrow> link_state" where
  "remember st key index =
     (case key of
        SubjectKey s \<Rightarrow> st\<lparr>ls_subjects := (ls_subjects st)(s \<mapsto> index)\<rparr>
      | ReferenceKey t \<Rightarrow> st\<lparr>ls_references := (ls_references st)(t \<mapsto> index)\<rparr>)"

definition link_one :: "nat \<Rightarrow> link_state \<Rightarrow> link_key \<Rightarrow> link_state option" where
  "link_one index st key =
     (case first_with st key of
        None \<Rightarrow> Some (remember st key index)
      | Some existing \<Rightarrow>
          map_option (\<lambda>ps. st\<lparr>ls_parents := ps\<rparr>) (uf_union (ls_parents st) existing index))"

definition link_keys :: "js_runtime \<Rightarrow> message_summary \<Rightarrow> link_key list" where
  "link_keys rt m =
     (let subject = normalizedConversationSubject rt (ms_subject m)
      in (if subject \<noteq> [] \<and> subject \<noteq> ''(no subject)'' then [SubjectKey subject] else [])
         @ map ReferenceKey (referenceTokens rt m))"

fun link_all :: "(nat \<times> link_key) list \<Rightarrow> link_state \<Rightarrow> link_state option" where
  "link_all [] st = Some st"
| "link_all ((index, key) # rest) st =
     (case link_one index st key of None \<Rightarrow> None | Some st' \<Rightarrow> link_all rest st')"

definition message_links :: "js_runtime \<Rightarrow> message_summary list \<Rightarrow> (nat \<times> link_key) list" where
  "message_links rt ms = concat (map (\<lambda>i. map (\<lambda>k. (i, k)) (link_keys rt (ms ! i))) [0..<length ms])"

text \<open>The second pass: \<open>find\<close> on every index (which compresses further), collecting the roots.\<close>

fun find_all :: "nat list \<Rightarrow> nat list \<Rightarrow> nat list option" where
  "find_all [] ps = Some []"
| "find_all (i # ixs) ps =
     (case uf_find ps i of None \<Rightarrow> None
      | Some (r, ps') \<Rightarrow> map_option (\<lambda>rs. r # rs) (find_all ixs ps'))"

definition component :: "nat list \<Rightarrow> message_summary list \<Rightarrow> nat \<Rightarrow> message_summary list" where
  "component roots ms r = map snd (filter (\<lambda>(q, _). q = r) (zip roots ms))"

definition components :: "nat list \<Rightarrow> message_summary list \<Rightarrow> message_summary list list" where
  "components roots ms = map (component roots ms) (unique roots)"

definition conversation_of :: "js_runtime \<Rightarrow> message_summary list \<Rightarrow> conversation" where
  "conversation_of rt msgs =
     (let sorted = js_sort (newest_first rt) msgs; newest = hd sorted
      in \<lparr>cv_id = ''conversation:'' @ hd (js_sort codeunit_cmp (map ms_id sorted)),
          cv_subject = or_text (conversationSubject rt (ms_subject newest)) (ms_subject newest),
          cv_messages = sorted, cv_unread = length (filter ms_unread sorted),
          cv_accounts = js_sort codeunit_cmp (unique (map ms_account sorted))\<rparr>)"

definition conversation_comparison :: "js_runtime \<Rightarrow> conversation comparison" where
  "conversation_comparison rt =
     cmp_chain (cmp_on (\<lambda>c. hd (cv_messages c)) (newest_first rt)) (cmp_on cv_id (collate rt))"

definition groupCachedConversations :: "js_runtime \<Rightarrow> message_summary list \<Rightarrow> grouping option" where
  "groupCachedConversations rt ms =
     (if length ms > CACHED_CONVERSATION_MESSAGE_LIMIT
      then Some \<lparr>cg_conversations = map (singleton rt) ms, cg_limited = True\<rparr>
      else case link_all (message_links rt ms)
                  \<lparr>ls_parents = [0..<length ms], ls_subjects = Map.empty, ls_references = Map.empty\<rparr> of
             None \<Rightarrow> None
           | Some st \<Rightarrow>
             (case find_all [0..<length ms] (ls_parents st) of
                None \<Rightarrow> None
              | Some roots \<Rightarrow>
                Some \<lparr>cg_conversations =
                        js_sort (conversation_comparison rt) (map (conversation_of rt) (components roots ms)),
                      cg_limited = False\<rparr>))"

section \<open>The specification: connected components\<close>

definition share_key :: "(nat \<times> link_key) set \<Rightarrow> (nat \<times> nat) set" where
  "share_key D = {(i, j). \<exists>k. (i, k) \<in> D \<and> (j, k) \<in> D}"

definition connected :: "(nat \<times> link_key) set \<Rightarrow> nat \<Rightarrow> nat \<Rightarrow> bool" where
  "connected D i j = ((i, j) \<in> (share_key D)\<^sup>*)"

lemma connected_refl [simp]: "connected D i i"
  by (simp add: connected_def)

lemma connected_sym: "connected D i j \<Longrightarrow> connected D j i"
  unfolding connected_def
  by (rule symD [OF sym_rtrancl]) (auto simp: sym_def share_key_def)

lemma connected_trans: "connected D i j \<Longrightarrow> connected D j k \<Longrightarrow> connected D i k"
  unfolding connected_def by (rule rtrancl_trans)

lemma connected_mono: "D \<subseteq> E \<Longrightarrow> connected D i j \<Longrightarrow> connected E i j"
  unfolding connected_def by (erule rtrancl_mono [THEN subsetD, rotated]) (auto simp: share_key_def)

lemma connected_share: "(i, k) \<in> D \<Longrightarrow> (j, k) \<in> D \<Longrightarrow> connected D i j"
  unfolding connected_def share_key_def by (intro r_into_rtrancl) auto

lemma connected_insert_new:
  assumes "\<And>i. (i, k) \<notin> D"
  shows "connected (insert (n, k) D) i j \<longleftrightarrow> connected D i j"
proof
  assume "connected (insert (n, k) D) i j"
  then show "connected D i j"
    unfolding connected_def
  proof (induction rule: rtrancl_induct)
    case (step y z)
    then have "y = z \<or> (y, z) \<in> share_key D"
      using assms by (auto simp: share_key_def)
    with step show ?case by (auto intro: rtrancl_into_rtrancl)
  qed simp
qed (auto intro: connected_mono)

lemma connected_insert_old:
  assumes e: "(e, k) \<in> D" and all: "\<And>i. (i, k) \<in> D \<Longrightarrow> connected D i e"
  shows "connected (insert (n, k) D) i j \<longleftrightarrow>
    connected D i j \<or> connected D i e \<and> connected D n j \<or> connected D i n \<and> connected D e j"
    (is "?new \<longleftrightarrow> ?old")
proof
  assume ?new
  then show ?old
    unfolding connected_def [of "insert (n, k) D"]
  proof (induction rule: rtrancl_induct)
    case (step y z)
    from step(2) have "(y, z) \<in> share_key D \<or> y = n \<and> (z, k) \<in> D \<or> z = n \<and> (y, k) \<in> D \<or> y = z"
      by (auto simp: share_key_def)
    then have "connected D y z \<or> y = n \<and> connected D e z \<or> z = n \<and> connected D y e"
      using all by (auto simp: connected_def intro: connected_sym [unfolded connected_def])
    with step(3) show ?case
      by (metis connected_refl connected_sym connected_trans)
  qed simp
next
  have ne: "connected (insert (n, k) D) n e" "connected (insert (n, k) D) e n"
    using e by (auto intro: connected_share)
  have mono: "connected D a b \<Longrightarrow> connected (insert (n, k) D) a b" for a b
    by (rule connected_mono) auto
  assume ?old
  then show ?new
    using mono ne connected_trans by metis
qed


section \<open>The first pass computes the connected components\<close>

text \<open>\<open>D\<close> is the set of pairs already processed, \<open>n\<close> the number of messages.\<close>

definition linked :: "nat \<Rightarrow> (nat \<times> link_key) set \<Rightarrow> link_state \<Rightarrow> bool" where
  "linked n D st =
     (forest (ls_parents st) \<and> length (ls_parents st) = n
      \<and> (\<forall>i k. (i, k) \<in> D \<longrightarrow> i < n)
      \<and> (\<forall>k. first_with st k = None \<longrightarrow> (\<forall>i. (i, k) \<notin> D))
      \<and> (\<forall>k e. first_with st k = Some e \<longrightarrow> (e, k) \<in> D)
      \<and> (\<forall>i j. i < n \<longrightarrow> j < n \<longrightarrow> same_class (ls_parents st) i j = connected D i j))"

lemma first_with_remember: "first_with (remember st k i) q = (if q = k then Some i else first_with st q)"
  by (auto simp: first_with_def remember_def split: link_key.split)

lemma parents_remember [simp]: "ls_parents (remember st k i) = ls_parents st"
  by (simp add: remember_def split: link_key.split)

lemma first_with_parents [simp]: "first_with (st\<lparr>ls_parents := ps\<rparr>) k = first_with st k"
  by (simp add: first_with_def split: link_key.split)

lemma linked_initial:
  "linked n {} \<lparr>ls_parents = [0..<n], ls_subjects = Map.empty, ls_references = Map.empty\<rparr>"
  by (auto simp: linked_def forest_initial same_class_initial first_with_def connected_def
        share_key_def split: link_key.split)

lemma linked_first:
  assumes "linked n D st" and "first_with st k = Some e"
  shows "(e, k) \<in> D" and "e < n"
proof -
  show "(e, k) \<in> D" using assms by (auto simp: linked_def)
  then show "e < n" using assms(1) unfolding linked_def by blast
qed

lemma link_one_linked:
  assumes st: "linked n D st" and i: "i < n"
  shows "\<exists>st'. link_one i st k = Some st' \<and> linked n (insert (i, k) D) st'"
proof (cases "first_with st k")
  case None
  then have fresh: "(x, k) \<notin> D" for x
    using st by (auto simp: linked_def)
  have "linked n (insert (i, k) D) (remember st k i)"
    using st i unfolding linked_def
    by (auto simp: first_with_remember connected_insert_new [OF fresh] split: if_splits)
  with None show ?thesis by (simp add: link_one_def)
next
  case (Some e)
  note e = linked_first [OF st Some]
  have st': "forest (ls_parents st)" "length (ls_parents st) = n"
    and cls: "\<And>x y. x < n \<Longrightarrow> y < n \<Longrightarrow> same_class (ls_parents st) x y = connected D x y"
    and bound: "\<And>x q. (x, q) \<in> D \<Longrightarrow> x < n"
    and firsts: "\<And>q x. first_with st q = None \<Longrightarrow> (x, q) \<notin> D"
      "\<And>q x. first_with st q = Some x \<Longrightarrow> (x, q) \<in> D"
    using st by (auto simp: linked_def)
  obtain qs where qs: "uf_union (ls_parents st) e i = Some qs" "forest qs" "length qs = n"
    "\<And>x y. x < n \<Longrightarrow> y < n \<Longrightarrow> same_class qs x y \<longleftrightarrow> connected D x y
       \<or> connected D x e \<and> connected D i y \<or> connected D x i \<and> connected D e y"
    using uf_union_correct [OF st'(1), of e i] e i st' cls by auto
  have "connected (insert (i, k) D) x y \<longleftrightarrow> connected D x y
       \<or> connected D x e \<and> connected D i y \<or> connected D x i \<and> connected D e y" for x y
    by (rule connected_insert_old) (use e in \<open>auto intro: connected_share\<close>)
  then have "linked n (insert (i, k) D) (st\<lparr>ls_parents := qs\<rparr>)"
    using qs i bound firsts Some unfolding linked_def by auto
  with Some qs show ?thesis by (simp add: link_one_def)
qed

lemma link_all_linked:
  "linked n D st \<Longrightarrow> \<forall>(i, k) \<in> set links. i < n \<Longrightarrow>
   \<exists>st'. link_all links st = Some st' \<and> linked n (D \<union> set links) st'"
proof (induction links st arbitrary: D rule: link_all.induct)
  case (2 i k rest st)
  then obtain st1 where st1: "link_one i st k = Some st1" "linked n (insert (i, k) D) st1"
    using link_one_linked [of n D st i k] by auto
  have "\<exists>st'. link_all rest st1 = Some st' \<and> linked n (insert (i, k) D \<union> set rest) st'"
    by (rule 2(1) [OF st1]) (use 2(3) in auto)
  with st1 show ?case by auto
qed auto

lemma message_links_bound: "\<forall>(i, k) \<in> set (message_links rt ms). i < length ms"
  by (auto simp: message_links_def)

section \<open>The second pass\<close>

lemma find_all_correct:
  "forest ps \<Longrightarrow> \<forall>i \<in> set ixs. i < length ps \<Longrightarrow>
   \<exists>rs. find_all ixs ps = Some rs \<and> list_all2 (root_of ps) ixs rs"
proof (induction ixs ps rule: find_all.induct)
  case (2 i ixs ps)
  then obtain r qs where f: "uf_find ps i = Some (r, qs)" "root_of ps i r" "forest qs" "same_roots ps qs"
    using uf_find_correct [of ps i] by auto
  have "\<exists>rs. find_all ixs qs = Some rs \<and> list_all2 (root_of qs) ixs rs"
    by (rule 2(1)) (use f 2 in \<open>auto simp: same_roots_def\<close>)
  moreover have "root_of qs = root_of ps" using f(4) by (auto simp: same_roots_def fun_eq_iff)
  ultimately show ?case using f by auto
qed auto

lemma mset_concat_components:
  "length rs = length ms \<Longrightarrow> distinct qs \<Longrightarrow> set rs \<subseteq> set qs \<Longrightarrow>
   mset (concat (map (component rs ms) qs)) = mset ms"
proof (induction rs ms rule: list_induct2)
  case (Cons r rs m ms)
  have "mset (concat (map (component (r # rs) (m # ms)) us))
      = (if r \<in> set us then {#m#} else {#}) + mset (concat (map (component rs ms) us))"
    if "distinct us" for us
    using that by (induction us) (auto simp: component_def)
  with Cons show ?case by auto
qed (simp add: component_def concat_eq_Nil_conv)

lemma components_mset:
  "length rs = length ms \<Longrightarrow> mset (concat (components rs ms)) = mset ms"
  unfolding components_def by (rule mset_concat_components) auto

lemma component_member: "m \<in> set (component rs ms r) \<longleftrightarrow> (r, m) \<in> set (zip rs ms)"
  unfolding component_def by force

lemma components_nonempty:
  assumes "length rs = length ms" and "c \<in> set (components rs ms)"
  shows "c \<noteq> []"
proof -
  obtain i where i: "i < length ms" and c: "c = component rs ms (rs ! i)"
    using assms by (auto simp: components_def in_set_conv_nth)
  then have "ms ! i \<in> set c"
    using assms(1) by (auto simp: component_member in_set_zip)
  then show ?thesis by auto
qed

lemma components_together:
  assumes "length rs = length ms" and "distinct ms" and "i < length ms" and "j < length ms"
  shows "(\<exists>c \<in> set (components rs ms). ms ! i \<in> set c \<and> ms ! j \<in> set c) \<longleftrightarrow> rs ! i = rs ! j"
proof -
  have mem: "(r, ms ! k) \<in> set (zip rs ms) \<longleftrightarrow> r = rs ! k" if "k < length ms" for r k
    using assms(1,2) that by (auto simp: in_set_zip nth_eq_iff_index_eq)
  have "rs ! i \<in> set rs" using assms by simp
  then show ?thesis
    using assms(3,4) by (auto simp: components_def component_member mem)
qed

lemma grouping_result:
  assumes "length ms \<le> CACHED_CONVERSATION_MESSAGE_LIMIT"
  shows "\<exists>rs. length rs = length ms
    \<and> groupCachedConversations rt ms
      = Some \<lparr>cg_conversations = js_sort (conversation_comparison rt) (map (conversation_of rt) (components rs ms)),
              cg_limited = False\<rparr>
    \<and> (\<forall>i < length ms. \<forall>j < length ms.
         rs ! i = rs ! j \<longleftrightarrow> connected (set (message_links rt ms)) i j)"
proof -
  let ?n = "length ms"
  obtain st where st: "link_all (message_links rt ms)
      \<lparr>ls_parents = [0..<?n], ls_subjects = Map.empty, ls_references = Map.empty\<rparr> = Some st"
    "linked ?n (set (message_links rt ms)) st"
    using link_all_linked [OF linked_initial message_links_bound, of rt ms] by auto
  then have forest: "forest (ls_parents st)" "length (ls_parents st) = ?n"
    by (simp_all add: linked_def)
  then obtain rs where rs: "find_all [0..<?n] (ls_parents st) = Some rs"
    "list_all2 (root_of (ls_parents st)) [0..<?n] rs"
    using find_all_correct [of "ls_parents st" "[0..<?n]"] by auto
  then have len: "length rs = ?n" by (auto dest: list_all2_lengthD)
  have root: "root_of (ls_parents st) i (rs ! i)" if "i < ?n" for i
    using list_all2_nthD [OF rs(2), of i] that by simp
  have "rs ! i = rs ! j \<longleftrightarrow> connected (set (message_links rt ms)) i j" if "i < ?n" "j < ?n" for i j
    using same_class_root [OF forest(1) root root] that st(2) by (simp add: linked_def)
  moreover have "groupCachedConversations rt ms
      = Some \<lparr>cg_conversations = js_sort (conversation_comparison rt) (map (conversation_of rt) (components rs ms)),
              cg_limited = False\<rparr>"
    using assms st(1) rs(1) by (simp add: groupCachedConversations_def)
  ultimately show ?thesis using len by blast
qed

lemma conversation_of_messages [simp]:
  "cv_messages (conversation_of rt c) = js_sort (newest_first rt) c"
  by (simp add: conversation_of_def Let_def)

lemma set_conversation_messages [simp]: "set (cv_messages (conversation_of rt c)) = set c"
  by simp

lemma mset_concat_eq:
  "mset cs = mset ds \<Longrightarrow> mset (concat (map f cs)) = mset (concat (map f ds))"
  by (metis mset_map mset_concat sum_mset_sum_list)

lemma mset_conversations:
  "mset (concat (map cv_messages (js_sort c (map (conversation_of rt) comps)))) = mset (concat comps)"
proof -
  have "mset (concat (map cv_messages (js_sort c (map (conversation_of rt) comps))))
      = mset (concat (map cv_messages (map (conversation_of rt) comps)))"
    by (rule mset_concat_eq) simp
  also have "\<dots> = mset (concat comps)"
    by (induction comps) auto
  finally show ?thesis .
qed

lemma grouping_some: "\<exists>g. groupCachedConversations rt ms = Some g"
proof (cases "length ms > CACHED_CONVERSATION_MESSAGE_LIMIT")
  case True
  then show ?thesis by (simp add: groupCachedConversations_def)
next
  case False
  then show ?thesis using grouping_result [of ms rt] by auto
qed

section \<open>Properties\<close>

definition grouped_together :: "grouping \<Rightarrow> message_summary \<Rightarrow> message_summary \<Rightarrow> bool" where
  "grouped_together g a b =
     (\<exists>c \<in> set (cg_conversations g). a \<in> set (cv_messages c) \<and> b \<in> set (cv_messages c))"

text \<open>Two messages belong together directly when they have the same subject, up to the prefixes that are
  normalised away and unless it is empty or the placeholder, or a reference in common. The accounts of
  the messages play no role.\<close>

definition threaded :: "js_runtime \<Rightarrow> message_summary \<Rightarrow> message_summary \<Rightarrow> bool" where
  "threaded rt m m' =
     (let subject = normalizedConversationSubject rt (ms_subject m) in
      (subject \<noteq> [] \<and> subject \<noteq> ''(no subject)'' \<and> normalizedConversationSubject rt (ms_subject m') = subject)
      \<or> set (referenceTokens rt m) \<inter> set (referenceTokens rt m') \<noteq> {})"

definition threads :: "js_runtime \<Rightarrow> message_summary list \<Rightarrow> (nat \<times> nat) set" where
  "threads rt ms = {(i, j). i < length ms \<and> j < length ms \<and> threaded rt (ms ! i) (ms ! j)}"

lemma threaded_keys: "threaded rt m m' \<longleftrightarrow> set (link_keys rt m) \<inter> set (link_keys rt m') \<noteq> {}"
  by (auto simp: threaded_def link_keys_def Let_def)

lemma share_key_threads: "share_key (set (message_links rt ms)) = threads rt ms"
proof -
  have "(i, k) \<in> set (message_links rt ms) \<longleftrightarrow> i < length ms \<and> k \<in> set (link_keys rt (ms ! i))" for i k
    by (auto simp: message_links_def)
  then show ?thesis by (auto simp: share_key_def threads_def threaded_keys)
qed

text \<open>
  C2: up to the message limit, \<open>groupCachedConversations\<close> returns, is not marked as limited, and
  puts two of the messages, which are distinct, into one conversation exactly when a chain of messages
  connects them in which neighbours share a normalised subject or a reference, whatever their accounts.
\<close>

theorem conversations_are_components:
  assumes "length ms \<le> CACHED_CONVERSATION_MESSAGE_LIMIT" and "distinct ms"
  shows "\<exists>g. groupCachedConversations rt ms = Some g \<and> \<not> cg_limited g
    \<and> (\<forall>i < length ms. \<forall>j < length ms.
         grouped_together g (ms ! i) (ms ! j) \<longleftrightarrow> (i, j) \<in> (threads rt ms)\<^sup>*)"
proof -
  obtain rs where rs: "length rs = length ms"
    "groupCachedConversations rt ms
      = Some \<lparr>cg_conversations = js_sort (conversation_comparison rt) (map (conversation_of rt) (components rs ms)),
              cg_limited = False\<rparr>" (is "_ = Some ?g")
    "\<forall>i < length ms. \<forall>j < length ms. rs ! i = rs ! j \<longleftrightarrow> (i, j) \<in> (threads rt ms)\<^sup>*"
    using grouping_result [OF assms(1), of rt] unfolding connected_def share_key_threads by blast
  have "grouped_together ?g (ms ! i) (ms ! j) \<longleftrightarrow> rs ! i = rs ! j"
    if "i < length ms" "j < length ms" for i j
    using components_together [OF rs(1) assms(2) that] by (simp add: grouped_together_def)
  with rs(2,3) show ?thesis by (intro exI [of _ ?g]) simp
qed

theorem conversations_are_components_witness:
  "\<exists>g. groupCachedConversations ascii_runtime
         [blank_message\<lparr>ms_id := ''a''\<rparr>, blank_message\<lparr>ms_id := ''b''\<rparr>] = Some g \<and> \<not> cg_limited g"
  using conversations_are_components
    [where rt = ascii_runtime and ms = "[blank_message\<lparr>ms_id := ''a''\<rparr>, blank_message\<lparr>ms_id := ''b''\<rparr>]"]
  by (simp add: CACHED_CONVERSATION_MESSAGE_LIMIT_def blank_message_def) blast

definition conversation_ok :: "conversation \<Rightarrow> bool" where
  "conversation_ok c = (cv_messages c \<noteq> [] \<and> cv_unread c = length (filter ms_unread (cv_messages c))
     \<and> set (cv_accounts c) = ms_account ` set (cv_messages c) \<and> distinct (cv_accounts c))"

lemma conversation_of_ok: "c \<noteq> [] \<Longrightarrow> conversation_ok (conversation_of rt c)"
  using length_js_sort [of "newest_first rt" c]
  by (auto simp: conversation_ok_def conversation_of_def Let_def simp del: length_js_sort)

lemma singleton_ok: "conversation_ok (singleton rt m)"
  by (simp add: conversation_ok_def singleton_def)

text \<open>
  C29: for every list of cached messages, of any size, the grouping ends with a result; no message is
  lost or duplicated; no conversation is empty; and the unread count and the account list of every
  conversation are those of its messages.
\<close>

theorem grouping_loses_nothing:
  "\<exists>g. groupCachedConversations rt ms = Some g
    \<and> mset (concat (map cv_messages (cg_conversations g))) = mset ms
    \<and> list_all conversation_ok (cg_conversations g)"
proof (cases "length ms > CACHED_CONVERSATION_MESSAGE_LIMIT")
  case True
  moreover have "concat (map (cv_messages \<circ> singleton rt) ms) = ms"
    by (induction ms) (auto simp: singleton_def)
  ultimately show ?thesis
    by (simp add: groupCachedConversations_def list_all_iff singleton_ok comp_def)
next
  case False
  then obtain rs where rs: "length rs = length ms"
    "groupCachedConversations rt ms
      = Some \<lparr>cg_conversations = js_sort (conversation_comparison rt) (map (conversation_of rt) (components rs ms)),
              cg_limited = False\<rparr>"
    using grouping_result [of ms rt] by auto
  then show ?thesis
    using components_mset [OF rs(1)] components_nonempty [OF rs(1)] conversation_of_ok
    by (simp add: mset_conversations list_all_iff)
qed

lemma comparator_conversations:
  "comparator (collate rt) \<Longrightarrow> comparator (conversation_comparison rt)"
  unfolding conversation_comparison_def
  by (intro comparator_chain comparator_on comparator_newest_first)

text \<open>
  with a lawful collation, the grouping of at most the limit's messages lists the newest message
  of every conversation first and the conversation with the newest message first.
\<close>

theorem conversations_newest_first:
  assumes "comparator (collate rt)" and "length ms \<le> CACHED_CONVERSATION_MESSAGE_LIMIT"
    and "groupCachedConversations rt ms = Some g"
  shows "comparator.ordered (conversation_comparison rt) (cg_conversations g)
    \<and> list_all (\<lambda>c. comparator.ordered (newest_first rt) (cv_messages c)) (cg_conversations g)"
proof -
  obtain rs where "groupCachedConversations rt ms
      = Some \<lparr>cg_conversations = js_sort (conversation_comparison rt) (map (conversation_of rt) (components rs ms)),
              cg_limited = False\<rparr>"
    using grouping_result [OF assms(2)] by blast
  with assms show ?thesis
    using comparator.ordered_sort [OF comparator_conversations]
      comparator.ordered_sort [OF comparator_newest_first]
    by (auto simp: list_all_iff)
qed

theorem conversations_newest_first_witness:
  "comparator.ordered (conversation_comparison ascii_runtime)
     (cg_conversations (the (groupCachedConversations ascii_runtime [blank_message])))"
proof -
  obtain g where g: "groupCachedConversations ascii_runtime [blank_message] = Some g"
    using grouping_result [of "[blank_message]" ascii_runtime]
    by (auto simp: CACHED_CONVERSATION_MESSAGE_LIMIT_def)
  show ?thesis
    using conversations_newest_first [OF _ _ g] codeunits.comparator_axioms
    by (simp add: g CACHED_CONVERSATION_MESSAGE_LIMIT_def)
qed

end
