(* ===== verification/Regex_Lang.thy ===== *)
theory Regex_Lang
  imports Text_Ops
begin

text \<open>
  The fixed regular expressions written in the source (no back references, no look-around) denote
  regular languages, so \<open>re.test(s)\<close> is membership. This theory gives them a syntax, an executable
  matcher by derivatives and its correctness; the components state each expression of the source
  in this syntax. Expressions that the user types are not of this kind: they are run by the engine
  of the runtime, a parameter of \<open>Regex_Guard\<close>.
\<close>

datatype rx =
    None_rx
  | Eps
  | Cls "char \<Rightarrow> bool"
  | Seq rx rx
  | Alt rx rx
  | Star rx

fun lang :: "rx \<Rightarrow> string set" where
  "lang None_rx = {}"
| "lang Eps = {[]}"
| "lang (Cls P) = {[c] | c. P c}"
| "lang (Seq r q) = {u @ v | u v. u \<in> lang r \<and> v \<in> lang q}"
| "lang (Alt r q) = lang r \<union> lang q"
| "lang (Star r) = {concat us | us. set us \<subseteq> lang r}"

fun nullable :: "rx \<Rightarrow> bool" where
  "nullable None_rx = False"
| "nullable Eps = True"
| "nullable (Cls P) = False"
| "nullable (Seq r q) = (nullable r \<and> nullable q)"
| "nullable (Alt r q) = (nullable r \<or> nullable q)"
| "nullable (Star r) = True"

text \<open>Constructors that drop dead branches, so that derivatives stay small.\<close>

fun mk_seq :: "rx \<Rightarrow> rx \<Rightarrow> rx" where
  "mk_seq None_rx q = None_rx"
| "mk_seq Eps q = q"
| "mk_seq r q = Seq r q"

fun mk_alt :: "rx \<Rightarrow> rx \<Rightarrow> rx" where
  "mk_alt None_rx q = q"
| "mk_alt r None_rx = r"
| "mk_alt r q = Alt r q"

fun deriv :: "char \<Rightarrow> rx \<Rightarrow> rx" where
  "deriv c None_rx = None_rx"
| "deriv c Eps = None_rx"
| "deriv c (Cls P) = (if P c then Eps else None_rx)"
| "deriv c (Seq r q) =
     (if nullable r then mk_alt (mk_seq (deriv c r) q) (deriv c q) else mk_seq (deriv c r) q)"
| "deriv c (Alt r q) = mk_alt (deriv c r) (deriv c q)"
| "deriv c (Star r) = mk_seq (deriv c r) (Star r)"

fun rx_match :: "rx \<Rightarrow> string \<Rightarrow> bool" where
  "rx_match r [] = nullable r"
| "rx_match r (c # s) = rx_match (deriv c r) s"

section \<open>Correctness\<close>

lemma lang_mk_seq [simp]: "lang (mk_seq r q) = lang (Seq r q)"
  by (cases r) auto

lemma lang_mk_alt [simp]: "lang (mk_alt r q) = lang (Alt r q)"
  by (cases r; cases q) auto

lemma nullable_lang: "nullable r \<longleftrightarrow> [] \<in> lang r"
proof (induction r)
  case (Star r)
  show ?case by simp (rule exI [of _ "[]"], simp)
qed auto

lemma star_cons:
  assumes "c # s = concat us" and "set us \<subseteq> L"
  shows "\<exists>u us'. c # u \<in> L \<and> s = u @ concat us' \<and> set us' \<subseteq> L"
  using assms
proof (induction us)
  case (Cons w ws)
  show ?case
  proof (cases w)
    case Nil
    with Cons show ?thesis by simp
  next
    case (Cons d u)
    with Cons.prems show ?thesis by (intro exI [of _ u] exI [of _ ws]) auto
  qed
qed simp

lemma deriv_lang: "s \<in> lang (deriv c r) \<longleftrightarrow> c # s \<in> lang r"
proof (induction r arbitrary: s)
  case (Seq r q)
  have "c # s \<in> lang (Seq r q) \<longleftrightarrow>
    (\<exists>u v. s = u @ v \<and> c # u \<in> lang r \<and> v \<in> lang q) \<or> ([] \<in> lang r \<and> c # s \<in> lang q)"
    by (auto simp: Cons_eq_append_conv)
  with Seq show ?case
    by (auto simp: nullable_lang)
next
  case (Star r)
  show ?case
  proof
    assume "s \<in> lang (deriv c (Star r))"
    then obtain u us where "s = u @ concat us" "c # u \<in> lang r" "set us \<subseteq> lang r"
      using Star by auto
    then have "c # s = concat ((c # u) # us) \<and> set ((c # u) # us) \<subseteq> lang r" by simp
    then show "c # s \<in> lang (Star r)" by (metis (mono_tags, lifting) lang.simps(6) mem_Collect_eq)
  next
    assume "c # s \<in> lang (Star r)"
    then obtain us where "c # s = concat us" "set us \<subseteq> lang r" by auto
    from star_cons [OF this] show "s \<in> lang (deriv c (Star r))"
      using Star by auto
  qed
qed auto

theorem rx_match_lang: "rx_match r s \<longleftrightarrow> s \<in> lang r"
  by (induction s arbitrary: r) (auto simp: nullable_lang deriv_lang)

section \<open>Building expressions\<close>

abbreviation any_char :: rx where
  "any_char \<equiv> Cls (\<lambda>_. True)"

definition rx_char :: "char \<Rightarrow> rx" where
  "rx_char c = Cls (\<lambda>d. d = c)"

definition rx_one_of :: "string \<Rightarrow> rx" where
  "rx_one_of cs = Cls (\<lambda>d. d \<in> set cs)"

definition rx_none_of :: "string \<Rightarrow> rx" where
  "rx_none_of cs = Cls (\<lambda>d. d \<notin> set cs)"

text \<open>\<open>.\<close> without the \<open>s\<close> flag.\<close>

definition rx_dot :: rx where
  "rx_dot = Cls (\<lambda>d. d \<noteq> CHR 10 \<and> d \<noteq> CHR 13)"

definition rx_plus :: "rx \<Rightarrow> rx" where
  "rx_plus r = Seq r (Star r)"

definition rx_opt :: "rx \<Rightarrow> rx" where
  "rx_opt r = Alt r Eps"

fun rx_seq :: "rx list \<Rightarrow> rx" where
  "rx_seq [] = Eps"
| "rx_seq [r] = r"
| "rx_seq (r # q # rs) = Seq r (rx_seq (q # rs))"

fun rx_alt :: "rx list \<Rightarrow> rx" where
  "rx_alt [] = None_rx"
| "rx_alt [r] = r"
| "rx_alt (r # q # rs) = Alt r (rx_alt (q # rs))"

fun rx_times :: "nat \<Rightarrow> rx \<Rightarrow> rx" where
  "rx_times 0 r = Eps"
| "rx_times (Suc n) r = Seq r (rx_times n r)"

text \<open>Between \<open>m\<close> and \<open>m + k\<close> repetitions.\<close>

fun rx_range :: "nat \<Rightarrow> nat \<Rightarrow> rx \<Rightarrow> rx" where
  "rx_range m 0 r = rx_times m r"
| "rx_range m (Suc k) r = Alt (rx_range m k r) (rx_times (m + Suc k) r)"

definition rx_text :: "string \<Rightarrow> rx" where
  "rx_text s = rx_seq (map rx_char s)"

text \<open>A literal under the \<open>i\<close> flag.\<close>

definition rx_text_i :: "string \<Rightarrow> rx" where
  "rx_text_i s = rx_seq (map (\<lambda>c. Cls (\<lambda>d. lower_char d = lower_char c)) s)"

text \<open>\<open>re.test(s)\<close> for an expression without anchors: some substring matches.\<close>

definition rx_test :: "rx \<Rightarrow> string \<Rightarrow> bool" where
  "rx_test r s = rx_match (Seq (Star any_char) (Seq r (Star any_char))) s"

lemma lang_star_any [simp]: "lang (Star any_char) = UNIV"
proof -
  have "\<exists>us. s = concat us \<and> set us \<subseteq> {[c] | c. True}" for s :: string
    by (rule exI [of _ "map (\<lambda>c. [c]) s"]) auto
  then show ?thesis by auto
qed

lemma rx_test_iff: "rx_test r s \<longleftrightarrow> (\<exists>l m q. s = l @ m @ q \<and> m \<in> lang r)"
  unfolding rx_test_def rx_match_lang lang.simps(4) lang_star_any by auto

section \<open>Languages of the builders\<close>

lemma star_class: "lang (Star (Cls P)) = {s. \<forall>c \<in> set s. P c}"
proof (rule set_eqI, rule iffI)
  fix s assume "s \<in> lang (Star (Cls P))"
  then show "s \<in> {s. \<forall>c \<in> set s. P c}" by fastforce
next
  fix s assume "s \<in> {s. \<forall>c \<in> set s. P c}"
  then have "s = concat (map (\<lambda>c. [c]) s) \<and> set (map (\<lambda>c. [c]) s) \<subseteq> {[c] | c. P c}" by auto
  then show "s \<in> lang (Star (Cls P))" unfolding lang.simps by blast
qed

lemma plus_lang: "s \<in> lang (rx_plus r) \<longleftrightarrow> (\<exists>u w. s = u @ w \<and> u \<in> lang r \<and> w \<in> lang (Star r))"
  by (simp only: rx_plus_def lang.simps(4)) blast

lemma plus_class: "s \<in> lang (rx_plus (Cls P)) \<longleftrightarrow> s \<noteq> [] \<and> (\<forall>c \<in> set s. P c)"
proof
  assume "s \<in> lang (rx_plus (Cls P))"
  then show "s \<noteq> [] \<and> (\<forall>c \<in> set s. P c)" unfolding plus_lang star_class by auto
next
  assume "s \<noteq> [] \<and> (\<forall>c \<in> set s. P c)"
  then obtain c t where "s = [c] @ t" "[c] \<in> lang (Cls P)" "t \<in> lang (Star (Cls P))"
    unfolding star_class by (cases s) auto
  then show "s \<in> lang (rx_plus (Cls P))" unfolding plus_lang by blast
qed

lemma char_lang: "u \<in> lang (rx_char c) \<longleftrightarrow> u = [c]"
  by (simp add: rx_char_def)

lemma seq_lang: "s \<in> lang (Seq r q) \<longleftrightarrow> (\<exists>u v. s = u @ v \<and> u \<in> lang r \<and> v \<in> lang q)"
  by simp

end
