(* ===== verification/Regex_Guard.thy ===== *)
theory Regex_Guard
  imports Regex_Lang Mail_Data
begin

text \<open>
  \<open>src/shared/regex.ts\<close>: the guard every search box puts in front of the regular-expression
  engine. It rejects empty and oversized patterns and three shapes of repetition that make a
  backtracking engine unresponsive, then compiles and runs the pattern on bounded input. The
  engine itself is the argument \<open>eng\<close> (type \<open>engine\<close> of \<open>Mail_Data\<close>): source and flags give \<^const>\<open>None\<close> when the constructor
  throws, else the compiled \<open>exec\<close> from an index (match start, matched text, groups).
\<close>

section \<open>Data\<close>

datatype match_mode = PlainMode | RegexMode

record matcher_options =
  mo_mode :: match_mode
  mo_pattern :: string
  mo_flags :: string

datatype validation_message =
  EnterPattern | PatternTooLong | PlainReady | RiskyPattern | ValidRegex | EngineError

record regex_validation =
  rv_valid :: bool
  rv_message :: validation_message
  rv_flags :: string

definition MAX_PATTERN_LENGTH :: nat where "MAX_PATTERN_LENGTH = 2048"
definition MAX_SAMPLE_LENGTH :: nat where "MAX_SAMPLE_LENGTH = 50000"

section \<open>Escaping and flags\<close>

definition escapeRegex :: "string \<Rightarrow> string" where
  "escapeRegex value = concat (map (\<lambda>c. if c \<in> set ''.*+?^${}()|[]'' \<or> c = CHR 92 then [CHR 92, c] else [c]) value)"

definition normalizeFlags :: "string \<Rightarrow> string" where
  "normalizeFlags flags =
     concat (js_sort codeunit_cmp (map (\<lambda>c. [c]) (filter (\<lambda>c. c \<in> set ''imsu'') (unique flags))))"

section \<open>Nested quantifiers\<close>

text \<open>\<open>(?:\\.|\[[^\]]*\]|[^()])*\<close>\<close>

definition group_body :: rx where
  "group_body = Star (rx_alt [Seq (rx_char (CHR 92)) rx_dot,
     rx_seq [rx_char (CHR ''[''), Star (rx_none_of '']''), rx_char (CHR '']'')],
     rx_none_of ''()''])"

text \<open>\<open>\s*(?:[+*]|\{\d+(?:,\d*)?\})\<close>\<close>

definition spaced_quantifier :: rx where
  "spaced_quantifier = Seq (Star (Cls is_space))
     (Alt (rx_one_of ''+*'')
       (rx_seq [rx_char (CHR ''{''), rx_plus (Cls is_digit),
         rx_opt (Seq (rx_char (CHR '','')) (Star (Cls is_digit))), rx_char (CHR ''}'')]))"

definition groupWithQuantifier :: rx where
  "groupWithQuantifier = rx_seq [rx_char (CHR ''(''), group_body, rx_one_of ''+*'', group_body,
     rx_char (CHR '')''), spaced_quantifier]"

definition repeatedWildcard :: rx where
  "repeatedWildcard = Seq (Alt (rx_text ''.*'') (rx_text ''.+'')) spaced_quantifier"

definition hasRiskyNestedQuantifier :: "string \<Rightarrow> bool" where
  "hasRiskyNestedQuantifier pattern =
     (rx_test groupWithQuantifier pattern \<or> rx_test repeatedWildcard pattern)"

section \<open>Pattern atoms\<close>

text \<open>
  \<open>readPatternAtom(pattern, start)\<close> returns the atom's source text and its end. The text is always
  the slice from \<open>start\<close> to the end, so \<open>atom_text\<close> computes it from the rest of the pattern.
  The loop over a class \<open>[...]\<close> is \<open>class_length\<close>: the number of code units up to and including
  the first unescaped closing bracket.
\<close>

fun class_length :: "bool \<Rightarrow> string \<Rightarrow> nat option" where
  "class_length escaped [] = None"
| "class_length escaped (c # s) =
     (if \<not> escaped \<and> c = CHR '']'' then Some 1
      else map_option Suc (class_length (\<not> escaped \<and> c = CHR 92) s))"

fun atom_text :: "string \<Rightarrow> string option" where
  "atom_text [] = None"
| "atom_text (c # s) =
     (if c \<in> set ''()|^$*+?{}'' then None
      else if c = CHR 92 then
        (case s of [] \<Rightarrow> None
         | d # s' \<Rightarrow>
           (case (if d \<in> set ''pPu'' \<and> starts_with ''{'' s' then index_of ''}'' (tl s') else None) of
              Some k \<Rightarrow> Some (c # d # take (k + 2) s')
            | None \<Rightarrow> Some [c, d]))
      else if c = CHR ''['' then map_option (\<lambda>n. c # take n s) (class_length False s)
      else Some [c])"

record pattern_atom =
  pa_key :: string
  pa_end :: nat

definition readPatternAtom :: "string \<Rightarrow> nat \<Rightarrow> pattern_atom option" where
  "readPatternAtom pattern start =
     map_option (\<lambda>k. \<lparr>pa_key = k, pa_end = start + length k\<rparr>) (atom_text (drop start pattern))"

text \<open>The length of \<open>^\{\d+,\}\<close> at the front of a string, if it matches.\<close>

definition open_range_length :: "string \<Rightarrow> nat option" where
  "open_range_length s =
     (case s of [] \<Rightarrow> None
      | c # t \<Rightarrow>
        (let n = length (takeWhile is_digit t)
         in if c = CHR ''{'' \<and> n > 0 \<and> starts_with '',}'' (drop n t) then Some (n + 3) else None))"

definition readUnboundedQuantifierEnd :: "string \<Rightarrow> nat \<Rightarrow> nat option" where
  "readUnboundedQuantifierEnd pattern start =
     (let rest = drop start pattern;
          end0 = (if starts_with ''*'' rest \<or> starts_with ''+'' rest then Some (start + 1)
                  else if starts_with ''{'' rest then map_option (\<lambda>n. start + n) (open_range_length rest)
                  else None)
      in case end0 of None \<Rightarrow> None
         | Some e \<Rightarrow> Some (if starts_with ''?'' (drop e pattern) then e + 1 else e))"

definition atomsCanOverlap :: "string \<Rightarrow> string \<Rightarrow> bool" where
  "atomsCanOverlap left right = (left = ''.'' \<or> right = ''.'' \<or> left = right)"

lemma class_length_bounds: "class_length e s = Some n \<Longrightarrow> 0 < n \<and> n \<le> length s"
  by (induction e s arbitrary: n rule: class_length.induct) (auto split: if_splits)

lemma atom_text_bounds: "atom_text s = Some k \<Longrightarrow> k \<noteq> [] \<and> length k \<le> length s"
proof (cases s)
  case (Cons c t)
  assume at: "atom_text s = Some k"
  show ?thesis
  proof (cases "c = CHR 92")
    case True
    with at Cons show ?thesis
      by (auto split: list.splits option.splits if_splits dest!: index_of_Some
          simp: starts_with_append)
  next
    case False
    with at Cons show ?thesis
      by (auto split: if_splits dest: class_length_bounds)
  qed
qed simp

lemma readPatternAtom_bounds:
  "readPatternAtom pattern i = Some a \<Longrightarrow> i < pa_end a \<and> pa_end a \<le> length pattern"
  using atom_text_bounds [of "drop i pattern"] by (auto simp: readPatternAtom_def neq_Nil_conv) 

lemma readUnboundedQuantifierEnd_bounds:
  "readUnboundedQuantifierEnd pattern i = Some e \<Longrightarrow> i < e"
  by (auto simp: readUnboundedQuantifierEnd_def Let_def open_range_length_def
      split: option.splits if_splits list.splits)

section \<open>Adjacent quantified atoms that can match the same text\<close>

function adjacent_scan :: "string \<Rightarrow> pattern_atom option \<Rightarrow> nat \<Rightarrow> bool" where
  "adjacent_scan pattern prior index =
     (if index \<ge> length pattern then False
      else case readPatternAtom pattern index of
        None \<Rightarrow> adjacent_scan pattern None (index + 1)
      | Some atom \<Rightarrow>
        (case readUnboundedQuantifierEnd pattern (pa_end atom) of
           None \<Rightarrow> adjacent_scan pattern None (pa_end atom)
         | Some quantifierEnd \<Rightarrow>
           (case prior of
              Some p \<Rightarrow> if pa_end p = index \<and> atomsCanOverlap (pa_key p) (pa_key atom) then True
                        else adjacent_scan pattern (Some \<lparr>pa_key = pa_key atom, pa_end = quantifierEnd\<rparr>) quantifierEnd
            | None \<Rightarrow> adjacent_scan pattern (Some \<lparr>pa_key = pa_key atom, pa_end = quantifierEnd\<rparr>) quantifierEnd)))"
  by pat_completeness auto
termination
  by (relation "measure (\<lambda>(pattern, prior, index). length pattern - index)")
    (auto dest!: readPatternAtom_bounds readUnboundedQuantifierEnd_bounds intro!: diff_less_mono2)

declare adjacent_scan.simps [simp del]

definition hasAdjacentOverlappingQuantifiers :: "string \<Rightarrow> bool" where
  "hasAdjacentOverlappingQuantifiers pattern = adjacent_scan pattern None 0"

section \<open>Repeated groups with overlapping alternatives\<close>

text \<open>
  The scanner state of \<open>splitTopLevelAlternatives\<close>: the alternatives found, the current one
  (\<open>content.slice(start, index)\<close>), the depth and the two flags.
\<close>

record split_state =
  sp_done :: "string list"
  sp_current :: string
  sp_depth :: int
  sp_in_class :: bool
  sp_escaped :: bool

definition split_step :: "split_state \<Rightarrow> char \<Rightarrow> split_state" where
  "split_step st c =
     (let keep = st\<lparr>sp_current := sp_current st @ [c]\<rparr>
      in if sp_escaped st then keep\<lparr>sp_escaped := False\<rparr>
         else if c = CHR 92 then keep\<lparr>sp_escaped := True\<rparr>
         else if sp_in_class st then keep\<lparr>sp_in_class := c \<noteq> CHR '']''\<rparr>
         else if c = CHR ''['' then keep\<lparr>sp_in_class := True\<rparr>
         else if c = CHR ''('' then keep\<lparr>sp_depth := sp_depth st + 1\<rparr>
         else if c = CHR '')'' then keep\<lparr>sp_depth := sp_depth st - 1\<rparr>
         else if c = CHR ''|'' \<and> sp_depth st = 0
           then st\<lparr>sp_done := sp_done st @ [sp_current st], sp_current := []\<rparr>
         else keep)"

definition splitTopLevelAlternatives :: "string \<Rightarrow> string list" where
  "splitTopLevelAlternatives content =
     (let st = foldl split_step
        \<lparr>sp_done = [], sp_current = [], sp_depth = 0, sp_in_class = False, sp_escaped = False\<rparr> content
      in sp_done st @ [sp_current st])"

function simple_atoms_from :: "string \<Rightarrow> nat \<Rightarrow> string list option" where
  "simple_atoms_from alternative index =
     (if index \<ge> length alternative then Some []
      else case readPatternAtom alternative index of
        None \<Rightarrow> None
      | Some atom \<Rightarrow> map_option (\<lambda>ks. pa_key atom # ks) (simple_atoms_from alternative (pa_end atom)))"
  by pat_completeness auto
termination
  by (relation "measure (\<lambda>(alternative, index). length alternative - index)")
    (auto dest!: readPatternAtom_bounds intro!: diff_less_mono2)

declare simple_atoms_from.simps [simp del]

definition simpleAlternativeAtoms :: "string \<Rightarrow> string list option" where
  "simpleAlternativeAtoms alternative = simple_atoms_from alternative 0"

definition isAtomPrefix :: "string list \<Rightarrow> string list \<Rightarrow> bool" where
  "isAtomPrefix left right =
     (length left \<le> length right \<and> list_all2 atomsCanOverlap left (take (length left) right))"

fun some_pair_overlaps :: "string list option list \<Rightarrow> bool" where
  "some_pair_overlaps [] = False"
| "some_pair_overlaps (None # rest) = some_pair_overlaps rest"
| "some_pair_overlaps (Some l # rest) =
     (list_ex (\<lambda>r. case r of None \<Rightarrow> False | Some r' \<Rightarrow> isAtomPrefix l r' \<or> isAtomPrefix r' l) rest
      \<or> some_pair_overlaps rest)"

text \<open>The scan over the pattern: \<open>groups\<close> is the stack of \<open>contentStart\<close> values, innermost first.\<close>

function group_scan :: "string \<Rightarrow> nat list \<Rightarrow> bool \<Rightarrow> bool \<Rightarrow> nat \<Rightarrow> bool" where
  "group_scan pattern groups inClass escaped index =
     (if index \<ge> length pattern then False
      else let value = pattern ! index in
        if escaped then group_scan pattern groups inClass False (index + 1)
        else if value = CHR 92 then group_scan pattern groups inClass True (index + 1)
        else if inClass then group_scan pattern groups (value \<noteq> CHR '']'') False (index + 1)
        else if value = CHR ''['' then group_scan pattern groups True False (index + 1)
        else if value = CHR ''('' then
          (let prefixLength = (if starts_with ''?:'' (drop (index + 1) pattern) then 2 else 0)
           in group_scan pattern ((index + 1 + prefixLength) # groups) False False (index + 1))
        else if value \<noteq> CHR '')'' then group_scan pattern groups False False (index + 1)
        else case groups of
          [] \<Rightarrow> group_scan pattern [] False False (index + 1)
        | contentStart # rest \<Rightarrow>
          (let alternatives = splitTopLevelAlternatives (drop contentStart (take index pattern));
               atoms = map simpleAlternativeAtoms alternatives
           in if readUnboundedQuantifierEnd pattern (index + 1) \<noteq> None \<and> length alternatives \<ge> 2
                 \<and> (Some [] \<in> set atoms \<or> some_pair_overlaps atoms) then True
              else group_scan pattern rest False False (index + 1)))"
  by pat_completeness auto
termination
  by (relation "measure (\<lambda>(pattern, groups, inClass, escaped, index). length pattern - index)") auto

declare group_scan.simps [simp del]

definition repeatedGroupHasOverlappingAlternatives :: "string \<Rightarrow> bool" where
  "repeatedGroupHasOverlappingAlternatives pattern = group_scan pattern [] False False 0"

definition hasRiskyRepetition :: "string \<Rightarrow> bool" where
  "hasRiskyRepetition pattern =
     (hasRiskyNestedQuantifier pattern
      \<or> hasAdjacentOverlappingQuantifiers pattern
      \<or> repeatedGroupHasOverlappingAlternatives pattern)"

section \<open>Validation and matching\<close>

definition validatePattern :: "engine \<Rightarrow> matcher_options \<Rightarrow> regex_validation" where
  "validatePattern eng opts =
     (let flags = normalizeFlags (mo_flags opts);
          result = (\<lambda>v m. \<lparr>rv_valid = v, rv_message = m, rv_flags = flags\<rparr>)
      in if mo_pattern opts = [] then result False EnterPattern
         else if length (mo_pattern opts) > MAX_PATTERN_LENGTH then result False PatternTooLong
         else if mo_mode opts = PlainMode then result True PlainReady
         else if hasRiskyRepetition (mo_pattern opts) then result False RiskyPattern
         else case eng (mo_pattern opts) flags of
           Some _ \<Rightarrow> result True ValidRegex
         | None \<Rightarrow> result False EngineError)"

definition matcher_source :: "matcher_options \<Rightarrow> string" where
  "matcher_source opts =
     (if mo_mode opts = PlainMode then escapeRegex (mo_pattern opts) else mo_pattern opts)"

text \<open>\<open>createMatcher\<close>: \<^const>\<open>None\<close> as a result is an exception of the \<open>RegExp\<close> constructor.\<close>

definition createMatcher :: "engine \<Rightarrow> matcher_options \<Rightarrow> (string \<Rightarrow> bool) option" where
  "createMatcher eng opts =
     (let validation = validatePattern eng opts
      in if \<not> rv_valid validation then Some (\<lambda>_. False)
         else map_option (\<lambda>exec value. exec (take MAX_SAMPLE_LENGTH value) 0 \<noteq> None)
                (eng (matcher_source opts) (rv_flags validation)))"




section \<open>Flags\<close>

lemma codeunit_single [simp]:
  "codeunit_cmp [c] [d] = (if c = d then 0 else if code c < code d then -1 else 1)"
  by (simp add: code_def)

lemma ordered_imsu: "sorted_wrt (\<lambda>x y. codeunit_cmp x y \<le> 0) (map (\<lambda>c. [c]) (filter P ''imsu''))"
proof -
  have "sorted_wrt (\<lambda>c d. codeunit_cmp [c] [d] \<le> 0) ''imsu''"
    by (simp add: code_def)
  then have "sorted_wrt (\<lambda>c d. codeunit_cmp [c] [d] \<le> 0) (filter P ''imsu'')"
    by (rule sorted_wrt_filter)
  then show ?thesis by (simp add: sorted_wrt_map)
qed

lemma normalizeFlags_eq: "normalizeFlags flags = filter (\<lambda>c. c \<in> set flags) ''imsu''"
proof -
  let ?have = "filter (\<lambda>c. c \<in> set ''imsu'') (unique flags)"
    and ?want = "filter (\<lambda>c. c \<in> set flags) ''imsu''"
  have "mset ?have = mset ?want"
    by (rule set_eq_iff_mset_eq_distinct [THEN iffD1]) (auto intro: distinct_filter)
  then have "js_sort codeunit_cmp (map (\<lambda>c. [c]) ?have) = map (\<lambda>c. [c]) ?want"
    by (intro codeunits.ordered_unique codeunits.ordered_sort ordered_imsu) simp
  then show ?thesis
    by (simp only: normalizeFlags_def concat_map_singleton map_ident)
qed

section \<open>Alternatives\<close>

lemma join_snoc: "join [c] (ps @ [p @ [d]]) = join [c] (ps @ [p]) @ [d]"
proof (induction ps)
  case (Cons q ps)
  then show ?case by (cases ps) auto
qed simp

lemma join_snoc_Nil: "join [c] (ps @ [p, []]) = join [c] (ps @ [p]) @ [c]"
proof (induction ps)
  case (Cons q ps)
  then show ?case by (cases ps) auto
qed simp

definition split_text :: "split_state \<Rightarrow> string" where
  "split_text st = join ''|'' (sp_done st @ [sp_current st])"

lemma split_step_text: "split_text (split_step st c) = split_text st @ [c]"
  by (simp add: split_text_def split_step_def Let_def join_snoc join_snoc_Nil)

lemma split_fold_text: "split_text (foldl split_step st s) = split_text st @ s"
  by (induction s arbitrary: st) (auto simp: split_step_text)

section \<open>What the scanner for adjacent repetitions finds\<close>



fun neighbours_overlap :: "string option list \<Rightarrow> bool" where
  "neighbours_overlap (Some a # Some b # xs) = (atomsCanOverlap a b \<or> neighbours_overlap (Some b # xs))"
| "neighbours_overlap (x # xs) = neighbours_overlap xs"
| "neighbours_overlap [] = False"

lemma neighbours_overlap_None [simp]: "neighbours_overlap (None # xs) = neighbours_overlap xs"
  by (cases xs) simp_all

lemma neighbours_overlap_single [simp]: "\<not> neighbours_overlap [x]"
  by (cases x) simp_all

lemma neighbours_overlap_after [simp]: "neighbours_overlap (x # None # xs) = neighbours_overlap xs"
  by (cases x) simp_all





section \<open>Properties\<close>

text \<open>whatever flags the caller passes, the engine sees the supported ones among \<open>i\<close>, \<open>m\<close>, \<open>s\<close>
  and \<open>u\<close>, each once, in that order; in particular never \<open>g\<close> or \<open>y\<close>.\<close>

theorem normalizeFlags_canonical:
  "normalizeFlags flags = filter (\<lambda>c. c \<in> set flags) ''imsu''
   \<and> normalizeFlags (normalizeFlags flags) = normalizeFlags flags"
proof -
  have "filter (\<lambda>c. c \<in> set (filter (\<lambda>c. c \<in> set flags) ''imsu'')) ''imsu''
      = filter (\<lambda>c. c \<in> set flags) ''imsu''"
    by (rule filter_cong) auto
  then show ?thesis
    by (simp only: normalizeFlags_eq)
qed

text \<open>splitting a group at its top-level bars loses nothing: joining the alternatives with
  \<open>|\<close> gives the content back.\<close>

theorem splitTopLevelAlternatives_join:
  "join ''|'' (splitTopLevelAlternatives content) = content"
  using split_fold_text [of "\<lparr>sp_done = [], sp_current = [], sp_depth = 0, sp_in_class = False, sp_escaped = False\<rparr>" content]
  by (simp add: splitTopLevelAlternatives_def split_text_def Let_def)



text \<open>The engine only ever runs behind the guard. Two engines that agree on guarded sources
  (escaped literals, and patterns of at most 2048 code units that the repetition checks pass), and
  there on samples of at most 50000 code units, give the same validation and the same matcher.\<close>

definition guarded_source :: "string \<Rightarrow> bool" where
  "guarded_source src = ((\<exists>p. src = escapeRegex p) \<or> \<not> hasRiskyRepetition src \<and> length src \<le> MAX_PATTERN_LENGTH)"

definition agree_on_guarded :: "engine \<Rightarrow> engine \<Rightarrow> bool" where
  "agree_on_guarded e e' =
     (\<forall>src flags. guarded_source src \<longrightarrow>
        rel_option (\<lambda>x y. \<forall>s i. length s \<le> MAX_SAMPLE_LENGTH \<longrightarrow> x s i = y s i) (e src flags) (e' src flags))"

lemma valid_guarded:
  "rv_valid (validatePattern e opts) \<Longrightarrow> guarded_source (matcher_source opts)"
  by (auto simp: validatePattern_def Let_def guarded_source_def matcher_source_def split: if_splits option.splits)

lemma validate_agree:
  assumes "agree_on_guarded e e'"
  shows "validatePattern e opts = validatePattern e' opts"
proof (cases "\<not> hasRiskyRepetition (mo_pattern opts) \<and> length (mo_pattern opts) \<le> MAX_PATTERN_LENGTH")
  case True
  then have "rel_option (\<lambda>x y. \<forall>s i. length s \<le> MAX_SAMPLE_LENGTH \<longrightarrow> x s i = y s i)
      (e (mo_pattern opts) flags) (e' (mo_pattern opts) flags)" for flags
    using assms by (simp add: agree_on_guarded_def guarded_source_def)
  from this [of "normalizeFlags (mo_flags opts)"] show ?thesis
    by (auto simp: validatePattern_def Let_def option.rel_sel split: option.splits)
next
  case False
  then show ?thesis by (auto simp: validatePattern_def Let_def)
qed

theorem engine_only_sees_guarded_input:
  assumes "agree_on_guarded e e'"
  shows "validatePattern e opts = validatePattern e' opts
    \<and> createMatcher e opts = createMatcher e' opts"
proof -
  have v: "validatePattern e opts = validatePattern e' opts"
    by (rule validate_agree [OF assms])
  have "createMatcher e opts = createMatcher e' opts"
  proof (cases "rv_valid (validatePattern e opts)")
    case True
    then have "rel_option (\<lambda>x y. \<forall>s i. length s \<le> MAX_SAMPLE_LENGTH \<longrightarrow> x s i = y s i)
        (e (matcher_source opts) flags) (e' (matcher_source opts) flags)" for flags
      using assms valid_guarded by (auto simp: agree_on_guarded_def)
    from this [of "rv_flags (validatePattern e opts)"] True v show ?thesis
      by (cases "e (matcher_source opts) (rv_flags (validatePattern e opts))";
          cases "e' (matcher_source opts) (rv_flags (validatePattern e opts))")
        (auto simp: createMatcher_def Let_def)
  next
    case False
    with v show ?thesis by (simp add: createMatcher_def Let_def)
  qed
  with v show ?thesis by blast
qed

theorem engine_only_sees_guarded_input_witness:
  "createMatcher (\<lambda>src flags. if src = ''(a+)+'' then None else Some (\<lambda>_ _. None)) opts
   = createMatcher (\<lambda>src flags. Some (\<lambda>_ _. None)) opts"
proof -
  have "hasRiskyRepetition ''(a+)+''" by code_simp
  moreover have "''(a+)+'' \<noteq> escapeRegex p" for p
    by (cases p) (auto simp: escapeRegex_def)
  ultimately have "agree_on_guarded (\<lambda>src flags. if src = ''(a+)+'' then None else Some (\<lambda>_ _. None))
      (\<lambda>src flags. Some (\<lambda>_ _. None))"
    by (auto simp: agree_on_guarded_def guarded_source_def)
  then show ?thesis using engine_only_sees_guarded_input by blast
qed

end
