(* ===== verification/Cached_Mail.thy ===== *)
theory Cached_Mail
  imports Conversations Regex_Guard
begin

text \<open>
  The cached-mail views: \<open>src/shared/unified-folders.ts\<close> (the unified inbox, starred and unread
  lists) and \<open>src/shared/cached-mail-index.ts\<close> (the index of cached documents and its search). Both
  walk the collections \<open>Record<accountId\u0000folderPath, MessageSummary[]>\<close> of the cache in key
  order. Of a \<open>MessageDetail\<close> the index reads the text only, so the details are texts by message id.
\<close>

section \<open>Collections in key order\<close>

type_synonym collections = "(string, message_summary list) entries"

definition entries_by_key :: "js_runtime \<Rightarrow> collections \<Rightarrow> collections" where
  "entries_by_key rt = js_sort (cmp_on fst (collate rt))"

text \<open>\<open>if (!seen.has(key)) seen.set(key, value)\<close> over a list: the first value of every key.\<close>

fun dedupe_from :: "('a \<Rightarrow> 'k) \<Rightarrow> 'k set \<Rightarrow> 'a list \<Rightarrow> 'a list" where
  "dedupe_from f seen [] = []"
| "dedupe_from f seen (x # xs) =
     (if f x \<in> seen then dedupe_from f seen xs else x # dedupe_from f (insert (f x) seen) xs)"

definition dedupe_by :: "('a \<Rightarrow> 'k) \<Rightarrow> 'a list \<Rightarrow> 'a list" where
  "dedupe_by f xs = dedupe_from f {} xs"

lemma dedupe_from_keys: "f ` set (dedupe_from f seen xs) = f ` set xs - seen"
  by (induction xs arbitrary: seen) auto

lemma dedupe_from_subset: "set (dedupe_from f seen xs) \<subseteq> set xs"
  by (induction xs arbitrary: seen) auto

lemma dedupe_from_distinct: "distinct (map f (dedupe_from f seen xs))"
  by (induction xs arbitrary: seen)
    (auto dest: subsetD [OF equalityD1 [OF dedupe_from_keys], OF imageI])

lemma dedupe_by_keys: "f ` set (dedupe_by f xs) = f ` set xs"
  by (simp add: dedupe_by_def dedupe_from_keys)

lemma dedupe_by_subset: "set (dedupe_by f xs) \<subseteq> set xs"
  by (simp add: dedupe_by_def dedupe_from_subset)

lemma dedupe_by_distinct: "distinct (map f (dedupe_by f xs))"
  by (simp add: dedupe_by_def dedupe_from_distinct)

section \<open>Unified folders\<close>

record unified_cache =
  uc_accounts :: "string list"
  uc_folders :: "(string, folder_summary list) entries"
  uc_messages :: collections

definition lookup_list :: "('k, 'v list) entries \<Rightarrow> 'k \<Rightarrow> 'v list" where
  "lookup_list es k = (case map_of es k of None \<Rightarrow> [] | Some vs \<Rightarrow> vs)"

definition inbox_collections :: "unified_cache \<Rightarrow> string list" where
  "inbox_collections cache =
     concat (map (\<lambda>a. map (\<lambda>f. folder_key a (fs_path f))
                    (filter (\<lambda>f. fs_role f = Inbox) (lookup_list (uc_folders cache) a)))
       (uc_accounts cache))"

definition unified_wants :: "unified_folder_kind \<Rightarrow> message_summary \<Rightarrow> bool" where
  "unified_wants kind m =
     (\<not> (kind = UnifiedStarred \<and> \<not> ms_starred m) \<and> \<not> (kind = UnifiedUnread \<and> \<not> ms_unread m))"

definition unified_of_collection ::
  "unified_folder_kind \<Rightarrow> unified_cache \<Rightarrow> string \<times> message_summary list \<Rightarrow> message_summary list" where
  "unified_of_collection kind cache entry =
     (let (key, messages) = entry
      in case cache_key_parts key of
           None \<Rightarrow> []
         | Some (account, path) \<Rightarrow>
             if account \<notin> set (uc_accounts cache) then []
             else if kind = UnifiedInbox \<and> key \<notin> set (inbox_collections cache) then []
             else filter (\<lambda>m. ms_account m = account \<and> ms_folder m = path \<and> unified_wants kind m) messages)"

definition unified_candidates ::
  "js_runtime \<Rightarrow> unified_folder_kind \<Rightarrow> unified_cache \<Rightarrow> message_summary list" where
  "unified_candidates rt kind cache =
     concat (map (unified_of_collection kind cache) (entries_by_key rt (uc_messages cache)))"

definition collectCachedUnifiedMessages ::
  "js_runtime \<Rightarrow> unified_folder_kind \<Rightarrow> unified_cache \<Rightarrow> message_summary list" where
  "collectCachedUnifiedMessages rt kind cache =
     js_sort (newest_first rt) (dedupe_by ms_id (unified_candidates rt kind cache))"

definition selectStableMessageId ::
  "message_summary list \<Rightarrow> string option \<Rightarrow> int \<Rightarrow> string option" where
  "selectStableMessageId messages previous previousIndex =
     (if messages = [] then None
      else case previous of
        Some p \<Rightarrow>
          if p \<noteq> [] \<and> list_ex (\<lambda>m. ms_id m = p) messages then Some p
          else Some (ms_id (messages ! nat (clamp 0 (int (length messages) - 1) previousIndex)))
      | None \<Rightarrow> Some (ms_id (messages ! nat (clamp 0 (int (length messages) - 1) previousIndex))))"

section \<open>The index\<close>

definition CACHED_MAIL_INDEX_DOCUMENT_LIMIT :: nat where "CACHED_MAIL_INDEX_DOCUMENT_LIMIT = 2000"
definition CACHED_MAIL_INDEX_RESULT_LIMIT :: nat where "CACHED_MAIL_INDEX_RESULT_LIMIT = 200"
definition CACHED_MAIL_INDEX_BODY_CHARACTERS :: nat where "CACHED_MAIL_INDEX_BODY_CHARACTERS = 4096"

record index_source =
  is_accounts :: "account_summary list"
  is_folders :: "(string, folder_summary list) entries"
  is_messages :: collections
  is_details :: "(string, string) entries"

datatype search_field =
  SubjectField | AddressesField | PreviewField | BodyField | AccountField | FolderField | ConversationField

record indexed_field =
  if_key :: search_field
  if_raw :: string
  if_normalized :: string

record conversation_attribution =
  ca_id :: string
  ca_subject :: string
  ca_count :: nat

record index_document =
  id_message :: message_summary
  id_snippet :: string
  id_account :: account_summary
  id_folder :: folder_summary
  id_conversation :: conversation_attribution
  id_fields :: "indexed_field list"

record mail_index =
  mi_documents :: "index_document list"
  mi_limit_reached :: bool

definition normalizedText :: "js_runtime \<Rightarrow> string \<Rightarrow> bool \<Rightarrow> string" where
  "normalizedText rt value caseInsensitive =
     (let normalized = trim (collapse_runs is_space '' '' (nfkc rt value))
      in if caseInsensitive then lower normalized else normalized)"

definition newline :: char where "newline = CHR 10"

definition addressText :: "message_summary \<Rightarrow> string" where
  "addressText m =
     join [newline] (map (\<lambda>a. ad_name a @ '' '' @ ad_address a) (ms_from m @ ms_to m @ ms_cc m))"

record candidate =
  cd_message :: message_summary
  cd_account :: account_summary
  cd_folder :: folder_summary

definition account_table :: "index_source \<Rightarrow> string \<rightharpoonup> account_summary" where
  "account_table src = map_of (rev (map (\<lambda>a. (ac_id a, a)) (is_accounts src)))"

definition folder_table :: "index_source \<Rightarrow> string \<rightharpoonup> folder_summary" where
  "folder_table src =
     map_of (rev (concat (map (\<lambda>a. map (\<lambda>f. (folder_key (ac_id a) (fs_path f), f))
                                  (lookup_list (is_folders src) (ac_id a))) (is_accounts src))))"

definition candidates_of ::
  "js_runtime \<Rightarrow> index_source \<Rightarrow> string \<times> message_summary list \<Rightarrow> candidate list" where
  "candidates_of rt src entry =
     (let (key, messages) = entry
      in case cache_key_parts key of
           None \<Rightarrow> []
         | Some (account, path) \<Rightarrow>
           (case (account_table src account, folder_table src key) of
              (Some a, Some f) \<Rightarrow>
                map (\<lambda>m. \<lparr>cd_message = m, cd_account = a, cd_folder = f\<rparr>)
                  (filter (\<lambda>m. ms_account m = account \<and> ms_folder m = path)
                    (js_sort (newest_first rt) messages))
            | _ \<Rightarrow> []))"

definition candidates :: "js_runtime \<Rightarrow> index_source \<Rightarrow> candidate list" where
  "candidates rt src = concat (map (candidates_of rt src) (entries_by_key rt (is_messages src)))"

text \<open>
  The loop \<open>outer\<close>: \<open>n\<close> documents are selected and \<open>seen\<close> are their ids; the loop stops at the first
  new message past the limit.
\<close>

fun select_from :: "nat \<Rightarrow> string set \<Rightarrow> candidate list \<Rightarrow> candidate list \<times> bool" where
  "select_from n seen [] = ([], False)"
| "select_from n seen (c # cs) =
     (if ms_id (cd_message c) \<in> seen then select_from n seen cs
      else if n \<ge> CACHED_MAIL_INDEX_DOCUMENT_LIMIT then ([], True)
      else map_prod (\<lambda>rest. c # rest) id (select_from (n + 1) (insert (ms_id (cd_message c)) seen) cs))"

definition attributions :: "conversation list \<Rightarrow> (string \<times> conversation_attribution) list" where
  "attributions cs =
     concat (map (\<lambda>c. map (\<lambda>m. (ms_id m, \<lparr>ca_id = cv_id c, ca_subject = cv_subject c,
                                          ca_count = length (cv_messages c)\<rparr>)) (cv_messages c)) cs)"

definition conversation_for :: "conversation list \<Rightarrow> message_summary \<Rightarrow> conversation_attribution" where
  "conversation_for cs m =
     (case map_of (rev (attributions cs)) (ms_id m) of
        Some a \<Rightarrow> a
      | None \<Rightarrow> \<lparr>ca_id = ''message:'' @ ms_id m, ca_subject = ms_subject m, ca_count = 1\<rparr>)"

definition indexed_body :: "index_source \<Rightarrow> message_summary \<Rightarrow> string" where
  "indexed_body src m =
     (case map_of (is_details src) (ms_id m) of
        None \<Rightarrow> [] | Some text \<Rightarrow> take CACHED_MAIL_INDEX_BODY_CHARACTERS text)"

definition raw_fields ::
  "index_source \<Rightarrow> conversation list \<Rightarrow> candidate \<Rightarrow> (search_field \<times> string) list" where
  "raw_fields src cs c =
     (let m = cd_message c; a = cd_account c; f = cd_folder c
      in [(SubjectField, ms_subject m),
          (AddressesField, addressText m),
          (PreviewField, ms_preview m),
          (BodyField, indexed_body src m),
          (AccountField, ac_display_name a @ [newline] @ ac_email a),
          (FolderField, fs_name f @ [newline] @ fs_path f),
          (ConversationField, ca_subject (conversation_for cs m))])"

definition document_of :: "js_runtime \<Rightarrow> index_source \<Rightarrow> conversation list \<Rightarrow> candidate \<Rightarrow> index_document" where
  "document_of rt src cs c =
     (let m = cd_message c
      in \<lparr>id_message = m,
          id_snippet = take 500 (or_text (indexed_body src m) (ms_preview m)),
          id_account = cd_account c, id_folder = cd_folder c,
          id_conversation = conversation_for cs m,
          id_fields = map (\<lambda>(k, raw). \<lparr>if_key = k, if_raw = raw, if_normalized = normalizedText rt raw True\<rparr>)
            (raw_fields src cs c)\<rparr>)"

definition createCachedMailIndex :: "js_runtime \<Rightarrow> index_source \<Rightarrow> mail_index option" where
  "createCachedMailIndex rt src =
     (let (selected, reached) = select_from 0 {} (candidates rt src)
      in case groupCachedConversations rt (map cd_message selected) of
           None \<Rightarrow> None
         | Some g \<Rightarrow>
             Some \<lparr>mi_documents = js_sort (cmp_on id_message (newest_first rt))
                     (map (document_of rt src (cg_conversations g)) selected),
                   mi_limit_reached = reached\<rparr>)"

section \<open>Search\<close>

record search_query =
  sq_mode :: match_mode
  sq_pattern :: string
  sq_flags :: string
  sq_limit :: int

record search_hit =
  sh_document :: index_document
  sh_fields :: "search_field list"

record search_result =
  sr_hits :: "search_hit list"
  sr_total :: nat
  sr_indexed :: nat
  sr_document_limit :: nat
  sr_limit_reached :: bool
  sr_result_limit :: nat

definition result_limit :: "int \<Rightarrow> nat" where
  "result_limit limit = nat (max 1 (min limit (int CACHED_MAIL_INDEX_RESULT_LIMIT)))"

definition field_text :: "js_runtime \<Rightarrow> search_query \<Rightarrow> bool \<Rightarrow> indexed_field \<Rightarrow> string" where
  "field_text rt q caseInsensitive f =
     (if sq_mode q = PlainMode
      then if caseInsensitive then if_normalized f else normalizedText rt (if_raw f) False
      else if_raw f)"

definition search_matcher :: "js_runtime \<Rightarrow> search_query \<Rightarrow> string \<Rightarrow> (string \<Rightarrow> bool) option" where
  "search_matcher rt q flags =
     createMatcher (regexp rt)
       \<lparr>mo_mode = sq_mode q,
        mo_pattern = (if sq_mode q = PlainMode then normalizedText rt (sq_pattern q) (CHR ''i'' \<in> set flags)
                      else sq_pattern q),
        mo_flags = flags\<rparr>"

fun search_documents ::
  "(indexed_field \<Rightarrow> bool) \<Rightarrow> nat \<Rightarrow> index_document list \<Rightarrow> search_hit list \<Rightarrow> nat \<Rightarrow> search_hit list \<times> nat" where
  "search_documents P limit [] hits found = (hits, found)"
| "search_documents P limit (d # ds) hits found =
     (let matched = map if_key (filter P (id_fields d))
      in if matched = [] then search_documents P limit ds hits found
         else search_documents P limit ds
                (if length hits < limit then hits @ [\<lparr>sh_document = d, sh_fields = matched\<rparr>] else hits)
                (found + 1))"

text \<open>\<^const>\<open>Inl\<close> is the message of the thrown \<open>Error\<close>; \<open>Inr None\<close> the exception of the engine.\<close>

definition searchCachedMailIndex ::
  "js_runtime \<Rightarrow> mail_index \<Rightarrow> search_query \<Rightarrow> (validation_message, search_result option) result" where
  "searchCachedMailIndex rt idx q =
     (let validation = validatePattern (regexp rt)
            \<lparr>mo_mode = sq_mode q, mo_pattern = sq_pattern q, mo_flags = sq_flags q\<rparr>
      in if \<not> rv_valid validation then Inl (rv_message validation)
         else let limit = result_limit (sq_limit q);
                  caseInsensitive = CHR ''i'' \<in> set (rv_flags validation)
              in Inr (map_option (\<lambda>matcher.
                   let (hits, found) = search_documents
                         (\<lambda>f. matcher (field_text rt q caseInsensitive f)) limit (mi_documents idx) [] 0
                   in \<lparr>sr_hits = hits, sr_total = found, sr_indexed = length (mi_documents idx),
                       sr_document_limit = CACHED_MAIL_INDEX_DOCUMENT_LIMIT,
                       sr_limit_reached = mi_limit_reached idx, sr_result_limit = limit\<rparr>)
                 (search_matcher rt q (rv_flags validation))))"

section \<open>Unified lists\<close>

text \<open>What a unified list is meant to hold, for accounts whose ids are usable in a cache key.\<close>

definition unified_eligible :: "unified_folder_kind \<Rightarrow> unified_cache \<Rightarrow> message_summary \<Rightarrow> bool" where
  "unified_eligible kind cache m =
     (ms_account m \<in> set (uc_accounts cache) \<and> ms_folder m \<noteq> [] \<and> unified_wants kind m
      \<and> (kind = UnifiedInbox \<longrightarrow>
           (\<exists>f \<in> set (lookup_list (uc_folders cache) (ms_account m)). fs_role f = Inbox \<and> fs_path f = ms_folder m))
      \<and> (\<exists>ms. (folder_key (ms_account m) (ms_folder m), ms) \<in> set (uc_messages cache) \<and> m \<in> set ms))"

definition usable_id :: "string \<Rightarrow> bool" where
  "usable_id a = (a \<noteq> [] \<and> nul \<notin> set a)"

lemma folder_key_inj:
  assumes "folder_key a p = folder_key b q" and "nul \<notin> set a" and "nul \<notin> set b"
  shows "a = b \<and> p = q"
  using assms unfolding folder_key_def by (induction a arbitrary: b) (case_tac b; auto)+

lemma inbox_collections_mem:
  assumes "\<forall>a \<in> set (uc_accounts cache). usable_id a" and "usable_id account"
  shows "folder_key account path \<in> set (inbox_collections cache) \<longleftrightarrow>
    account \<in> set (uc_accounts cache)
    \<and> (\<exists>f \<in> set (lookup_list (uc_folders cache) account). fs_role f = Inbox \<and> fs_path f = path)"
  using assms by (auto simp: inbox_collections_def usable_id_def dest!: folder_key_inj) 

lemma unified_of_collection_mem:
  assumes "\<forall>a \<in> set (uc_accounts cache). usable_id a"
  shows "m \<in> set (unified_of_collection kind cache (key, ms)) \<longleftrightarrow>
    key = folder_key (ms_account m) (ms_folder m) \<and> m \<in> set ms \<and> ms_folder m \<noteq> []
    \<and> ms_account m \<in> set (uc_accounts cache) \<and> unified_wants kind m
    \<and> (kind = UnifiedInbox \<longrightarrow>
         (\<exists>f \<in> set (lookup_list (uc_folders cache) (ms_account m)). fs_role f = Inbox \<and> fs_path f = ms_folder m))"
    (is "?in \<longleftrightarrow> ?spec")
proof
  assume ?in
  then obtain account path where parts: "cache_key_parts key = Some (account, path)"
    by (cases "cache_key_parts key") (auto simp: unified_of_collection_def)
  note key = cache_key_parts_Some [OF parts]
  show ?spec
    using \<open>?in\<close> parts key inbox_collections_mem [OF assms, of account path]
    by (auto simp: unified_of_collection_def usable_id_def split: if_splits)
next
  assume spec: ?spec
  then have "usable_id (ms_account m)" using assms by blast
  moreover from this have "cache_key_parts key = Some (ms_account m, ms_folder m)"
    using spec by (simp add: usable_id_def cache_key_parts_folder_key)
  ultimately show ?in
    using spec inbox_collections_mem [OF assms, of "ms_account m" "ms_folder m"]
    by (auto simp: unified_of_collection_def)
qed

lemma unified_candidates_set:
  assumes "\<forall>a \<in> set (uc_accounts cache). usable_id a"
  shows "set (unified_candidates rt kind cache) = {m. unified_eligible kind cache m}"
proof (rule set_eqI)
  fix m
  have "m \<in> set (unified_candidates rt kind cache)
    \<longleftrightarrow> (\<exists>(key, ms) \<in> set (uc_messages cache). m \<in> set (unified_of_collection kind cache (key, ms)))"
    by (auto simp: entries_by_key_def unified_candidates_def)
  also have "\<dots> \<longleftrightarrow> unified_eligible kind cache m"
    by (auto simp: unified_of_collection_mem [OF assms] unified_eligible_def)
  finally show "m \<in> set (unified_candidates rt kind cache) \<longleftrightarrow> m \<in> {m. unified_eligible kind cache m}"
    by simp
qed

lemma selected_message_listed:
  assumes "selectStableMessageId ms previous index = Some p"
  shows "p \<in> ms_id ` set ms"
proof (cases "p \<in> ms_id ` set ms")
  case False
  with assms have ms: "ms \<noteq> []" and p: "p = ms_id (ms ! nat (clamp 0 (int (length ms) - 1) index))"
    by (auto simp: selectStableMessageId_def list_ex_iff split: option.splits if_splits)
  from ms have "0 < length ms" by simp
  then have "nat (clamp 0 (int (length ms) - 1) index) < length ms"
    using clamp_bounds [of 0 "int (length ms) - 1" index] by linarith
  with p show ?thesis by simp
qed

section \<open>The selection of documents\<close>

lemma select_from_dedupe:
  "n \<le> CACHED_MAIL_INDEX_DOCUMENT_LIMIT \<Longrightarrow>
   select_from n seen cs =
     (take (CACHED_MAIL_INDEX_DOCUMENT_LIMIT - n) (dedupe_from (ms_id \<circ> cd_message) seen cs),
      CACHED_MAIL_INDEX_DOCUMENT_LIMIT - n < length (dedupe_from (ms_id \<circ> cd_message) seen cs))"
proof (induction n seen cs rule: select_from.induct)
  case (2 n seen c cs)
  show ?case
  proof (cases "ms_id (cd_message c) \<notin> seen \<and> n < CACHED_MAIL_INDEX_DOCUMENT_LIMIT")
    case True
    then have "CACHED_MAIL_INDEX_DOCUMENT_LIMIT - n = Suc (CACHED_MAIL_INDEX_DOCUMENT_LIMIT - (n + 1))"
      by (simp add: Suc_diff_Suc)
    with True 2 show ?thesis by auto
  next
    case False
    with 2 show ?thesis by auto
  qed
qed simp

lemma search_documents_result:
  "search_documents P limit ds hits found =
     (let matching = filter (\<lambda>d. filter P (id_fields d) \<noteq> []) ds
      in (hits @ take (limit - length hits)
            (map (\<lambda>d. \<lparr>sh_document = d, sh_fields = map if_key (filter P (id_fields d))\<rparr>) matching),
          found + length matching))"
proof (induction P limit ds hits found rule: search_documents.induct)
  case (2 P limit d ds hits found)
  show ?case
  proof (cases "filter P (id_fields d) = []")
    case False
    then show ?thesis
      using 2(2) [OF refl] by (cases "length hits < limit") (auto simp: Let_def Suc_diff_Suc [symmetric])
  qed (use 2 in simp)
qed simp

text \<open>What the index is meant to hold.\<close>

definition index_eligible :: "index_source \<Rightarrow> message_summary \<Rightarrow> bool" where
  "index_eligible src m =
     (account_table src (ms_account m) \<noteq> None
      \<and> folder_table src (folder_key (ms_account m) (ms_folder m)) \<noteq> None
      \<and> cache_key_parts (folder_key (ms_account m) (ms_folder m)) = Some (ms_account m, ms_folder m)
      \<and> (\<exists>ms. (folder_key (ms_account m) (ms_folder m), ms) \<in> set (is_messages src) \<and> m \<in> set ms))"

lemma candidates_of_mem:
  "c \<in> set (candidates_of rt src (key, ms)) \<longleftrightarrow>
    (let m = cd_message c
     in cache_key_parts key = Some (ms_account m, ms_folder m) \<and> m \<in> set ms
        \<and> account_table src (ms_account m) = Some (cd_account c) \<and> folder_table src key = Some (cd_folder c))"
  unfolding candidates_of_def Let_def
  by (cases c) (auto split: option.splits prod.splits)

lemma candidates_messages: "cd_message ` set (candidates rt src) = {m. index_eligible src m}"
proof (rule set_eqI, rule iffI)
  fix m assume "m \<in> cd_message ` set (candidates rt src)"
  then obtain c key ms where "cd_message c = m" "(key, ms) \<in> set (is_messages src)"
    "c \<in> set (candidates_of rt src (key, ms))"
    by (auto simp: candidates_def entries_by_key_def)
  then show "m \<in> {m. index_eligible src m}"
    using cache_key_parts_Some(1) [of key "ms_account m" "ms_folder m"]
    by (auto simp: index_eligible_def candidates_of_mem Let_def)
next
  fix m assume "m \<in> {m. index_eligible src m}"
  then obtain a f ms where "account_table src (ms_account m) = Some a"
    "folder_table src (folder_key (ms_account m) (ms_folder m)) = Some f"
    "(folder_key (ms_account m) (ms_folder m), ms) \<in> set (is_messages src)" "m \<in> set ms"
    "cache_key_parts (folder_key (ms_account m) (ms_folder m)) = Some (ms_account m, ms_folder m)"
    by (auto simp: index_eligible_def)
  then have "\<lparr>cd_message = m, cd_account = a, cd_folder = f\<rparr> \<in> set (candidates rt src)"
    by (auto simp: candidates_def entries_by_key_def candidates_of_mem intro!: bexI [rotated])
  then show "m \<in> cd_message ` set (candidates rt src)" by force
qed

lemma candidate_account:
  "c \<in> set (candidates rt src) \<Longrightarrow> ac_id (cd_account c) = ms_account (cd_message c) \<and> cd_account c \<in> set (is_accounts src)"
  by (auto simp: candidates_def entries_by_key_def candidates_of_mem account_table_def Let_def
        dest!: map_of_SomeD)

section \<open>Properties\<close>

text \<open>
  a unified list holds each message id once, holds only messages that belong to it (of a known
  account, in the collection they are cached under, starred, unread or in an inbox as asked), and
  leaves out no id of such a message.
\<close>

theorem unified_list_exact:
  assumes "\<forall>a \<in> set (uc_accounts cache). usable_id a"
  shows "distinct (map ms_id (collectCachedUnifiedMessages rt kind cache))
    \<and> (\<forall>m \<in> set (collectCachedUnifiedMessages rt kind cache). unified_eligible kind cache m)
    \<and> ms_id ` set (collectCachedUnifiedMessages rt kind cache) = ms_id ` {m. unified_eligible kind cache m}"
  using subsetD [OF dedupe_by_subset [of ms_id "unified_candidates rt kind cache"]]
  by (auto simp: collectCachedUnifiedMessages_def dedupe_by_distinct dedupe_by_keys
        unified_candidates_set [OF assms])

theorem unified_list_exact_witness:
  "distinct (map ms_id (collectCachedUnifiedMessages ascii_runtime UnifiedUnread
     \<lparr>uc_accounts = [''a''], uc_folders = [],
      uc_messages = [(folder_key ''a'' ''INBOX'', [blank_message\<lparr>ms_unread := True\<rparr>])]\<rparr>))"
  using unified_list_exact [where rt = ascii_runtime and kind = UnifiedUnread and cache =
    "\<lparr>uc_accounts = [''a''], uc_folders = [],
      uc_messages = [(folder_key ''a'' ''INBOX'', [blank_message\<lparr>ms_unread := True\<rparr>])]\<rparr>"]
  by (simp add: usable_id_def nul_def)

text \<open>
  C28: the index is always built; it holds at most the document limit, each message id once, each
  document a message of the cache under a known account and folder, with that account attached; and
  unless it reports that the limit was reached it holds the id of every such message.
\<close>

theorem index_complete_within_limit:
  "\<exists>idx. createCachedMailIndex rt src = Some idx
    \<and> length (mi_documents idx) \<le> CACHED_MAIL_INDEX_DOCUMENT_LIMIT
    \<and> distinct (map (ms_id \<circ> id_message) (mi_documents idx))
    \<and> list_all (\<lambda>d. index_eligible src (id_message d)
         \<and> id_account d \<in> set (is_accounts src) \<and> ac_id (id_account d) = ms_account (id_message d))
        (mi_documents idx)
    \<and> (if mi_limit_reached idx then length (mi_documents idx) = CACHED_MAIL_INDEX_DOCUMENT_LIMIT
       else (ms_id \<circ> id_message) ` set (mi_documents idx) = ms_id ` {m. index_eligible src m})"
proof -
  let ?all = "dedupe_by (ms_id \<circ> cd_message) (candidates rt src)"
  let ?sel = "take CACHED_MAIL_INDEX_DOCUMENT_LIMIT ?all"
  have sel: "select_from 0 {} (candidates rt src) = (?sel, CACHED_MAIL_INDEX_DOCUMENT_LIMIT < length ?all)"
    by (simp add: select_from_dedupe dedupe_by_def)
  obtain g where g: "groupCachedConversations rt (map cd_message ?sel) = Some g"
    using grouping_some by blast
  let ?docs = "js_sort (cmp_on id_message (newest_first rt)) (map (document_of rt src (cg_conversations g)) ?sel)"
  have idx: "createCachedMailIndex rt src
      = Some \<lparr>mi_documents = ?docs, mi_limit_reached = CACHED_MAIL_INDEX_DOCUMENT_LIMIT < length ?all\<rparr>"
    by (simp add: createCachedMailIndex_def sel g)
  have doc: "id_message (document_of rt src cs c) = cd_message c" "id_account (document_of rt src cs c) = cd_account c" for cs c
    by (simp_all add: document_of_def Let_def)
  have sub: "set ?sel \<subseteq> set (candidates rt src)"
    using dedupe_by_subset set_take_subset by fast
  have "distinct (map (ms_id \<circ> id_message) ?docs)"
    using dedupe_by_distinct [of "ms_id \<circ> cd_message" "candidates rt src"]
    by (simp add: comp_def doc take_map [symmetric] distinct_take)
  moreover have "\<forall>d \<in> set ?docs. index_eligible src (id_message d)
         \<and> id_account d \<in> set (is_accounts src) \<and> ac_id (id_account d) = ms_account (id_message d)"
    using sub candidates_messages [of rt src] candidate_account [of _ rt src] by (auto simp: doc)
  moreover have "(ms_id \<circ> id_message) ` set ?docs = ms_id ` {m. index_eligible src m}"
    if "\<not> CACHED_MAIL_INDEX_DOCUMENT_LIMIT < length ?all"
  proof -
    have "(ms_id \<circ> id_message) ` set ?docs = (ms_id \<circ> cd_message) ` set ?all"
      using that by (simp add: image_image doc comp_def)
    also have "\<dots> = ms_id ` cd_message ` set (candidates rt src)"
      by (simp only: dedupe_by_keys image_comp)
    finally show ?thesis by (simp only: candidates_messages)
  qed
  ultimately show ?thesis unfolding idx by (auto simp: list_all_iff)
qed

definition document_matches :: "js_runtime \<Rightarrow> search_query \<Rightarrow> string \<Rightarrow> (string \<Rightarrow> bool) \<Rightarrow> index_document \<Rightarrow> bool" where
  "document_matches rt q flags matcher d =
     (\<exists>f \<in> set (id_fields d). matcher (field_text rt q (CHR ''i'' \<in> set flags) f))"

text \<open>
  a search that returns a result counts every document with a matching field, lists the first of
  them in index order up to the result limit, which is between 1 and 200, and names for each hit
  only, and at least one, of its matching fields.
\<close>

theorem search_counts_and_bounds:
  assumes "searchCachedMailIndex rt idx q = Inr (Some r)"
  shows "\<exists>matcher. search_matcher rt q (normalizeFlags (sq_flags q)) = Some matcher
    \<and> (let matching = filter (document_matches rt q (normalizeFlags (sq_flags q)) matcher) (mi_documents idx)
       in sr_total r = length matching
          \<and> map sh_document (sr_hits r) = take (sr_result_limit r) matching)
    \<and> 1 \<le> sr_result_limit r \<and> sr_result_limit r \<le> CACHED_MAIL_INDEX_RESULT_LIMIT
    \<and> (\<forall>h \<in> set (sr_hits r). sh_fields h \<noteq> [])"
proof -
  have flags: "rv_flags (validatePattern eng opts) = normalizeFlags (mo_flags opts)" for eng opts
    by (simp add: validatePattern_def Let_def split: option.splits)
  obtain matcher where m: "search_matcher rt q (normalizeFlags (sq_flags q)) = Some matcher"
    and r: "r = (let P = (\<lambda>f. matcher (field_text rt q (CHR ''i'' \<in> set (normalizeFlags (sq_flags q))) f));
                     (hits, found) = search_documents P (result_limit (sq_limit q)) (mi_documents idx) [] 0
                 in \<lparr>sr_hits = hits, sr_total = found, sr_indexed = length (mi_documents idx),
                     sr_document_limit = CACHED_MAIL_INDEX_DOCUMENT_LIMIT,
                     sr_limit_reached = mi_limit_reached idx, sr_result_limit = result_limit (sq_limit q)\<rparr>)"
    using assms by (auto simp: searchCachedMailIndex_def Let_def flags split: if_splits)
  have matches: "document_matches rt q (normalizeFlags (sq_flags q)) matcher =
      (\<lambda>d. filter (\<lambda>f. matcher (field_text rt q (CHR ''i'' \<in> set (normalizeFlags (sq_flags q))) f)) (id_fields d) \<noteq> [])"
    by (auto simp: document_matches_def fun_eq_iff filter_empty_conv)
  have "1 \<le> result_limit l \<and> result_limit l \<le> CACHED_MAIL_INDEX_RESULT_LIMIT" for l
    by (auto simp: result_limit_def CACHED_MAIL_INDEX_RESULT_LIMIT_def)
  with m show ?thesis
    unfolding r by (auto simp: search_documents_result matches Let_def take_map [symmetric] comp_def
      dest!: in_set_takeD)
qed

definition subject_document :: "string \<Rightarrow> index_document" where
  "subject_document s = \<lparr>id_message = blank_message\<lparr>ms_subject := s\<rparr>, id_snippet = [],
     id_account = \<lparr>ac_id = ''a'', ac_display_name = [], ac_email = [],
       ac_incoming = \<lparr>ss_host = [], ss_port = 993, ss_security = Tls, ss_username = []\<rparr>,
       ac_outgoing = \<lparr>ss_host = [], ss_port = 465, ss_security = Tls, ss_username = []\<rparr>,
       ac_auth_mode = Password, ac_oauth_provider = None, ac_kind = ImapAccount, ac_created_at = [],
       ac_last_sync_at = None, ac_sync_error = None\<rparr>,
     id_folder = \<lparr>fs_account = ''a'', fs_path = ''INBOX'', fs_name = ''Inbox'', fs_role = Inbox,
       fs_unread = 0, fs_total = 1, fs_uid_validity = None\<rparr>,
     id_conversation = \<lparr>ca_id = [], ca_subject = s, ca_count = 1\<rparr>,
     id_fields = [\<lparr>if_key = SubjectField, if_raw = s, if_normalized = s\<rparr>]\<rparr>"

text \<open>A runtime whose regular expressions are literal texts.\<close>

definition literal_runtime :: js_runtime where
  "literal_runtime = ascii_runtime\<lparr>regexp := (\<lambda>source flags. Some (\<lambda>value start.
     if contains value source then Some \<lparr>sm_value = source, sm_index = start, sm_groups = []\<rparr> else None))\<rparr>"

definition sample_search :: "(validation_message, search_result option) result" where
  "sample_search = searchCachedMailIndex literal_runtime
     \<lparr>mi_documents = [subject_document ''hello'', subject_document ''bye''], mi_limit_reached = False\<rparr>
     \<lparr>sq_mode = PlainMode, sq_pattern = ''hell'', sq_flags = ''i'', sq_limit = 5\<rparr>"

lemma sample_search_returns: "\<exists>r. sample_search = Inr (Some r)"
  by (auto simp: sample_search_def searchCachedMailIndex_def validatePattern_def Let_def
        MAX_PATTERN_LENGTH_def search_matcher_def createMatcher_def literal_runtime_def split: prod.split)

theorem search_counts_and_bounds_witness:
  "\<exists>r. sample_search = Inr (Some r) \<and> sr_result_limit r \<le> 200 \<and> (\<forall>h \<in> set (sr_hits r). sh_fields h \<noteq> [])"
proof -
  obtain r where r: "sample_search = Inr (Some r)"
    using sample_search_returns by blast
  then show ?thesis
    using search_counts_and_bounds [OF r [unfolded sample_search_def]]
    by (auto simp: CACHED_MAIL_INDEX_RESULT_LIMIT_def)
qed

end
