(* ===== verification/Connection_Diagnostics.thy ===== *)
theory Connection_Diagnostics
  imports Mail_Data
begin

text \<open>
  The checks on server settings before any server is contacted
  (\<open>src/shared/connection-diagnostics.ts\<close>). The URL parser of the platform is the argument
  \<open>url\<close>: \<open>new URL(text)\<close> as a record of the components the code reads, \<^const>\<open>None\<close> where it
  throws. Ports are integers, which the settings schema requires.
\<close>

section \<open>Data\<close>

datatype endpoint = Incoming | Outgoing
datatype severity = Error | Warning
datatype diagnostic_field = HostField | PortField | SecurityField

datatype diagnostic_code =
  HostnameEmpty | HostnameFormat | HostnameWildcard | CertificateIpLiteral | CertificateLocalName
| PortRange | ImplicitTlsOnStarttlsPort | StarttlsOnImplicitTlsPort | PlainOnImplicitTlsPort
| NonstandardSecurePort | PlainTransport

record diagnostic =
  dg_endpoint :: endpoint
  dg_field :: diagnostic_field
  dg_code :: diagnostic_code
  dg_severity :: severity

record connection_settings =
  cs_protocol :: "incoming_protocol option"
  cs_incoming :: server_settings
  cs_outgoing :: server_settings

record parsed_url =
  url_username :: string
  url_password :: string
  url_hostname :: string
  url_port :: string
  url_pathname :: string
  url_search :: string
  url_hash :: string

type_synonym url_parser = "string \<Rightarrow> parsed_url option"

fun IMPLICIT_TLS_PORT :: "endpoint \<Rightarrow> int" where
  "IMPLICIT_TLS_PORT Incoming = 993"
| "IMPLICIT_TLS_PORT Outgoing = 465"

definition POP3_IMPLICIT_TLS_PORT :: int where "POP3_IMPLICIT_TLS_PORT = 995"

fun STARTTLS_PORTS :: "endpoint \<Rightarrow> int list" where
  "STARTTLS_PORTS Incoming = [143]"
| "STARTTLS_PORTS Outgoing = [25, 587, 2525]"

definition POP3_STARTTLS_PORTS :: "int list" where "POP3_STARTTLS_PORTS = [110]"

section \<open>Host names\<close>

text \<open>\<open>/^(?:0|[1-9][0-9]{0,2})$/u\<close> and a value of at most 255.\<close>

definition is_octet :: "string \<Rightarrow> bool" where
  "is_octet part =
     ((part = ''0'' \<or> (part \<noteq> [] \<and> length part \<le> 3 \<and> list_all is_digit part \<and> hd part \<noteq> CHR ''0''))
      \<and> text_nat part \<le> 255)"

definition isCanonicalIpv4 :: "string \<Rightarrow> bool" where
  "isCanonicalIpv4 value =
     (let parts = split_on (CHR ''.'') value in length parts = 4 \<and> list_all is_octet parts)"

definition isIpv6Literal :: "url_parser \<Rightarrow> string \<Rightarrow> bool" where
  "isIpv6Literal url value =
     (if CHR '':'' \<notin> set value \<or> CHR ''['' \<in> set value \<or> CHR '']'' \<in> set value \<or> CHR ''%'' \<in> set value
      then False
      else case url (''https://['' @ value @ '']/'') of
             None \<Rightarrow> False
           | Some u \<Rightarrow> starts_with ''['' (url_hostname u) \<and> ends_with '']'' (url_hostname u))"

datatype host_class = DnsHost | IpHost | LocalHost | EmptyHost | WildcardHost | InvalidHost

text \<open>\<open>/^(?!-)[a-z0-9-]{1,63}(?<!-)$/u\<close>.\<close>

definition is_label :: "string \<Rightarrow> bool" where
  "is_label l =
     (1 \<le> length l \<and> length l \<le> 63 \<and> hd l \<noteq> CHR ''-'' \<and> last l \<noteq> CHR ''-''
      \<and> list_all (\<lambda>c. is_ascii_lower c \<or> is_digit c \<or> c = CHR ''-'') l)"

text \<open>\<open>/[\u0000-\u0020\u007f]/u\<close> and \<open>/[\\/@?#\[\]]/u\<close>.\<close>

definition unprintable :: "char \<Rightarrow> bool" where
  "unprintable c = (code c \<le> 32 \<or> code c = 127)"

definition host_delimiter :: "char \<Rightarrow> bool" where
  "host_delimiter c = (c = CHR 92 \<or> c \<in> set ''/@?#[]'')"

definition classify_parsed :: "parsed_url \<Rightarrow> host_class" where
  "classify_parsed u =
     (if url_username u \<noteq> [] \<or> url_password u \<noteq> [] \<or> url_port u \<noteq> [] \<or> url_pathname u \<noteq> ''/''
         \<or> url_search u \<noteq> [] \<or> url_hash u \<noteq> [] then InvalidHost
      else let lowered = lower (url_hostname u);
               asciiHost = (if ends_with ''.'' lowered then butlast lowered else lowered);
               labels = split_on (CHR ''.'') asciiHost
           in if asciiHost = [] \<or> length asciiHost > 253 then InvalidHost
              else if list_ex (\<lambda>l. \<not> is_label l) labels then InvalidHost
              else if length labels = 1 \<or> asciiHost = ''localhost''
                   \<or> list_ex (\<lambda>s. ends_with s asciiHost) [''.local'', ''.localhost'', ''.lan'', ''.internal'']
              then LocalHost else DnsHost)"

definition classifyHostname :: "url_parser \<Rightarrow> string \<Rightarrow> host_class" where
  "classifyHostname url rawHost =
     (let host = trim rawHost
      in if host = [] then EmptyHost
         else if CHR ''*'' \<in> set host then WildcardHost
         else if length host > 255 \<or> list_ex unprintable host then InvalidHost
         else if isCanonicalIpv4 host \<or> isIpv6Literal url host then IpHost
         else if contains host ''://'' \<or> list_ex host_delimiter host then InvalidHost
         else case url (''https://'' @ host @ ''/'') of None \<Rightarrow> InvalidHost | Some u \<Rightarrow> classify_parsed u)"

section \<open>Diagnostics\<close>

definition hostDiagnostics :: "url_parser \<Rightarrow> endpoint \<Rightarrow> string \<Rightarrow> diagnostic list" where
  "hostDiagnostics url ep host =
     (let item = (\<lambda>c s. [\<lparr>dg_endpoint = ep, dg_field = HostField, dg_code = c, dg_severity = s\<rparr>])
      in case classifyHostname url host of
           DnsHost \<Rightarrow> []
         | IpHost \<Rightarrow> item CertificateIpLiteral Warning
         | LocalHost \<Rightarrow> item CertificateLocalName Warning
         | EmptyHost \<Rightarrow> item HostnameEmpty Error
         | WildcardHost \<Rightarrow> item HostnameWildcard Error
         | InvalidHost \<Rightarrow> item HostnameFormat Error)"

definition implicit_port :: "endpoint \<Rightarrow> incoming_protocol \<Rightarrow> int" where
  "implicit_port ep protocol =
     (if ep = Incoming \<and> protocol = Pop3 then POP3_IMPLICIT_TLS_PORT else IMPLICIT_TLS_PORT ep)"

definition starttls_ports :: "endpoint \<Rightarrow> incoming_protocol \<Rightarrow> int list" where
  "starttls_ports ep protocol =
     (if ep = Incoming \<and> protocol = Pop3 then POP3_STARTTLS_PORTS else STARTTLS_PORTS ep)"

definition securityPortDiagnostics ::
  "endpoint \<Rightarrow> int \<Rightarrow> mail_security \<Rightarrow> incoming_protocol \<Rightarrow> diagnostic list" where
  "securityPortDiagnostics ep port security protocol =
     (let item = (\<lambda>f c s. \<lparr>dg_endpoint = ep, dg_field = f, dg_code = c, dg_severity = s\<rparr>);
          implicitTlsPort = implicit_port ep protocol; starttlsPorts = starttls_ports ep protocol
      in if port < 1 \<or> port > 65535 then [item PortField PortRange Error]
         else
           (if security = Tls \<and> port \<in> set starttlsPorts
            then [item SecurityField ImplicitTlsOnStarttlsPort Error]
            else if security = StartTls \<and> port = implicitTlsPort
            then [item SecurityField StarttlsOnImplicitTlsPort Error]
            else if security = Plain \<and> port = implicitTlsPort
            then [item SecurityField PlainOnImplicitTlsPort Error]
            else if (security = Tls \<and> port \<noteq> implicitTlsPort) \<or> (security = StartTls \<and> port \<notin> set starttlsPorts)
            then [item PortField NonstandardSecurePort Warning]
            else [])
           @ (if security = Plain then [item SecurityField PlainTransport Warning] else []))"

definition diagnoseServerConnection ::
  "url_parser \<Rightarrow> endpoint \<Rightarrow> server_settings \<Rightarrow> incoming_protocol \<Rightarrow> diagnostic list" where
  "diagnoseServerConnection url ep settings protocol =
     hostDiagnostics url ep (ss_host settings)
     @ securityPortDiagnostics ep (ss_port settings) (ss_security settings) protocol"

definition incoming_protocol_of :: "connection_settings \<Rightarrow> incoming_protocol" where
  "incoming_protocol_of s = (case cs_protocol s of None \<Rightarrow> Imap | Some p \<Rightarrow> p)"

definition diagnoseMailConnection :: "url_parser \<Rightarrow> connection_settings \<Rightarrow> diagnostic list" where
  "diagnoseMailConnection url s =
     diagnoseServerConnection url Incoming (cs_incoming s) (incoming_protocol_of s)
     @ diagnoseServerConnection url Outgoing (cs_outgoing s) Imap"

definition blockingConnectionDiagnostics :: "url_parser \<Rightarrow> connection_settings \<Rightarrow> diagnostic list" where
  "blockingConnectionDiagnostics url s =
     filter (\<lambda>d. dg_severity d = Error) (diagnoseMailConnection url s)"

definition endpoint_name :: "endpoint \<Rightarrow> incoming_protocol \<Rightarrow> string" where
  "endpoint_name ep protocol =
     (case ep of
        Incoming \<Rightarrow> ''incoming '' @ (case protocol of Imap \<Rightarrow> ''IMAP'' | Pop3 \<Rightarrow> ''POP3'')
      | Outgoing \<Rightarrow> ''outgoing SMTP'')"

definition blockingDiagnosticSummary :: "diagnostic \<Rightarrow> incoming_protocol \<Rightarrow> string" where
  "blockingDiagnosticSummary d protocol =
     endpoint_name (dg_endpoint d) protocol @
     (case dg_code d of
        HostnameEmpty \<Rightarrow> '' host is required''
      | HostnameWildcard \<Rightarrow> '' host must be an exact server name, not a certificate wildcard''
      | HostnameFormat \<Rightarrow> '' host must contain only a server host name, without a scheme, path, credentials, brackets, or port''
      | PortRange \<Rightarrow> '' port must be an integer from 1 through 65535''
      | ImplicitTlsOnStarttlsPort \<Rightarrow> '' uses implicit TLS on a conventional STARTTLS port''
      | StarttlsOnImplicitTlsPort \<Rightarrow> '' uses STARTTLS on the conventional implicit-TLS port''
      | PlainOnImplicitTlsPort \<Rightarrow> '' uses plain transport on the conventional implicit-TLS port''
      | _ \<Rightarrow> '' settings are not ready'')"

text \<open>The thrown \<open>Error\<close> carries the summaries, which the message joins with \<open>"; "\<close>.\<close>

definition assertConnectionPreflight :: "url_parser \<Rightarrow> connection_settings \<Rightarrow> (string, unit) result" where
  "assertConnectionPreflight url s =
     (let blocking = blockingConnectionDiagnostics url s
      in if blocking = [] then Inr ()
         else Inl (''Connection settings need attention before any server is contacted: ''
                   @ join ''; '' (map (\<lambda>d. blockingDiagnosticSummary d (incoming_protocol_of s)) blocking) @ ''.''))"

section \<open>What a usable endpoint is\<close>

definition host_usable :: "url_parser \<Rightarrow> string \<Rightarrow> bool" where
  "host_usable url host = (classifyHostname url host \<in> {DnsHost, IpHost, LocalHost})"

definition transport_coherent :: "endpoint \<Rightarrow> incoming_protocol \<Rightarrow> int \<Rightarrow> mail_security \<Rightarrow> bool" where
  "transport_coherent ep protocol port security =
     (1 \<le> port \<and> port \<le> 65535
      \<and> (case security of
           Tls \<Rightarrow> port \<notin> set (starttls_ports ep protocol)
         | StartTls \<Rightarrow> port \<noteq> implicit_port ep protocol
         | Plain \<Rightarrow> port \<noteq> implicit_port ep protocol))"

lemma host_errors: "filter (\<lambda>d. dg_severity d = Error) (hostDiagnostics url ep host) = [] \<longleftrightarrow> host_usable url host"
  by (cases "classifyHostname url host") (auto simp: hostDiagnostics_def host_usable_def Let_def)

lemma port_errors:
  "filter (\<lambda>d. dg_severity d = Error) (securityPortDiagnostics ep port security protocol) = []
    \<longleftrightarrow> transport_coherent ep protocol port security"
  by (cases security) (auto simp: securityPortDiagnostics_def transport_coherent_def Let_def)

lemma port_clean:
  "securityPortDiagnostics ep port security protocol = [] \<longleftrightarrow>
     (security = Tls \<and> port = implicit_port ep protocol)
     \<or> (security = StartTls \<and> port \<in> set (starttls_ports ep protocol))"
  by (cases ep; cases protocol; cases security)
    (auto simp: securityPortDiagnostics_def implicit_port_def starttls_ports_def
      POP3_IMPLICIT_TLS_PORT_def POP3_STARTTLS_PORTS_def Let_def)

lemma host_clean: "hostDiagnostics url ep host = [] \<longleftrightarrow> classifyHostname url host = DnsHost"
  by (cases "classifyHostname url host") (auto simp: hostDiagnostics_def Let_def)

section \<open>Properties\<close>

text \<open>
  the preflight lets settings through exactly when both endpoints have a usable host name, a port
  in range, and a port that does not contradict the chosen transport security.
\<close>

theorem preflight_exact:
  "assertConnectionPreflight url s = Inr () \<longleftrightarrow>
     host_usable url (ss_host (cs_incoming s)) \<and> host_usable url (ss_host (cs_outgoing s))
     \<and> transport_coherent Incoming (incoming_protocol_of s) (ss_port (cs_incoming s)) (ss_security (cs_incoming s))
     \<and> transport_coherent Outgoing Imap (ss_port (cs_outgoing s)) (ss_security (cs_outgoing s))"
  by (auto simp: assertConnectionPreflight_def blockingConnectionDiagnostics_def diagnoseMailConnection_def
        diagnoseServerConnection_def Let_def host_errors port_errors)

text \<open>
  an endpoint draws no remark at all exactly when its host is a public DNS name and it uses
  implicit TLS or STARTTLS on a port that is conventional for it; so plain transport never passes
  silently.
\<close>

theorem silent_endpoints_are_secure:
  "diagnoseServerConnection url ep s protocol = [] \<longleftrightarrow>
     classifyHostname url (ss_host s) = DnsHost
     \<and> ((ss_security s = Tls \<and> ss_port s = implicit_port ep protocol)
        \<or> (ss_security s = StartTls \<and> ss_port s \<in> set (starttls_ports ep protocol)))"
  by (simp add: diagnoseServerConnection_def host_clean port_clean)

end
