(* ===== verification/Encodings.thy ===== *)
theory Encodings
  imports Connection_Diagnostics "HOL-Library.Word"
begin

text \<open>
  Byte encodings and URLs as the main process uses them: \<open>Buffer.from(text, "utf8")\<close>,
  \<open>buffer.toString("base64url")\<close>, and the components of \<open>new URL(text)\<close> that the OAuth flow, the
  calendar provider and the link review read. The URL parser itself is an argument. The lemmas
  show that both encodings are injective and give the length and alphabet of a base64url text.
\<close>

section \<open>Bytes\<close>

type_synonym bytes = "8 word list"

text \<open>UTF-8 of the code units 0 to 255.\<close>

definition utf8_char :: "char \<Rightarrow> bytes" where
  "utf8_char c =
     (if code c < 128 then [of_nat (code c)]
      else [of_nat (192 + code c div 64), of_nat (128 + code c mod 64)])"

definition utf8 :: "string \<Rightarrow> bytes" where
  "utf8 s = concat (map utf8_char s)"

definition byte_length :: "string \<Rightarrow> nat" where
  "byte_length s = length (utf8 s)"

lemma code_inject [simp]: "code c = code d \<longleftrightarrow> c = d"
  by (simp add: code_def)

lemma unat_small: "n < 256 \<Longrightarrow> unat (word_of_nat n :: 8 word) = n"
  by (simp add: unat_of_nat take_bit_eq_mod)

lemma utf8_char_units:
  "map unat (utf8_char c) =
     (if code c < 128 then [code c] else [192 + code c div 64, 128 + code c mod 64])"
proof -
  have "code c div 64 < 4" using code_lt [of c] by linarith
  then have "unat (word_of_nat (192 + code c div 64) :: 8 word) = 192 + code c div 64"
    by (intro unat_small) linarith
  moreover have "unat (word_of_nat (128 + code c mod 64) :: 8 word) = 128 + code c mod 64"
    by (intro unat_small) (simp add: order.strict_trans [OF mod_less_divisor])
  moreover have "unat (word_of_nat (code c) :: 8 word) = code c"
    by (intro unat_small code_lt)
  ultimately show ?thesis
    by (simp only: utf8_char_def list.map if_distrib [of "map unat"])
qed

lemma code_by_parts: "code c div 64 = code d div 64 \<Longrightarrow> code c mod 64 = code d mod 64 \<Longrightarrow> c = d"
  by (metis code_inject div_mult_mod_eq)

text \<open>The first byte tells how long the encoding of a unit is, so the encoding is prefix-free.\<close>

lemma utf8_char_prefix_free:
  assumes "utf8_char c @ xs = utf8_char d @ ys"
  shows "c = d \<and> xs = ys"
proof -
  have inj: "inj (unat :: 8 word \<Rightarrow> nat)" by (rule injI) (simp add: word_unat_eq_iff)
  from assms have "map unat (utf8_char c) @ map unat xs = map unat (utf8_char d) @ map unat ys"
    by (metis map_append)
  then have "c = d \<and> map unat xs = map unat ys"
    unfolding utf8_char_units using inj
    by (auto split: if_splits intro: code_by_parts simp: inj_map_eq_map)
  then show ?thesis using inj by (simp add: inj_map_eq_map)
qed

lemma utf8_char_Cons: "utf8_char c \<noteq> []"
  by (simp add: utf8_char_def)

lemma utf8_inject: "utf8 s = utf8 t \<longleftrightarrow> s = t"
proof (induction s arbitrary: t)
  case Nil
  then show ?case by (cases t) (simp_all add: utf8_def utf8_char_Cons)
next
  case (Cons c s)
  show ?case
  proof (cases t)
    case Nil
    then show ?thesis by (simp add: utf8_def utf8_char_Cons)
  next
    case t: (Cons d t')
    show ?thesis using utf8_char_prefix_free [of c "utf8 s" d "utf8 t'"] Cons.IH [of t']
      by (auto simp: t utf8_def)
  qed
qed

lemma byte_length_bounds: "length s \<le> byte_length s \<and> byte_length s \<le> 2 * length s"
  by (induction s) (auto simp: byte_length_def utf8_def utf8_char_def)

lemma byte_length_append: "byte_length (s @ t) = byte_length s + byte_length t"
  by (simp add: byte_length_def utf8_def)

lemma byte_length_Cons: "byte_length (c # s) = (if code c < 128 then 1 else 2) + byte_length s"
  by (simp add: byte_length_def utf8_def utf8_char_def)

lemma byte_length_Nil [simp]: "byte_length [] = 0"
  by (simp add: byte_length_def utf8_def)

lemma byte_length_code [code]: "byte_length s = sum_list (map (\<lambda>c. if code c < 128 then 1 else 2) s)"
  by (induction s) (simp_all add: byte_length_Cons)

section \<open>base64url\<close>

text \<open>The digit of a six-bit value, and the text of a buffer, without padding.\<close>

definition base64_digit :: "nat \<Rightarrow> char" where
  "base64_digit n =
     (if n < 26 then char_of (65 + n) else if n < 52 then char_of (71 + n)
      else if n < 62 then char_of (n - 4) else if n = 62 then CHR ''-'' else CHR ''_'')"

fun base64Url :: "bytes \<Rightarrow> string" where
  "base64Url (a # b # c # rest) =
     base64_digit (unat a div 4)
       # base64_digit (unat a mod 4 * 16 + unat b div 16)
       # base64_digit (unat b mod 16 * 4 + unat c div 64)
       # base64_digit (unat c mod 64) # base64Url rest"
| "base64Url [a, b] =
     [base64_digit (unat a div 4), base64_digit (unat a mod 4 * 16 + unat b div 16),
      base64_digit (unat b mod 16 * 4)]"
| "base64Url [a] = [base64_digit (unat a div 4), base64_digit (unat a mod 4 * 16)]"
| "base64Url [] = []"

definition is_base64_url :: "char \<Rightarrow> bool" where
  "is_base64_url c =
     (is_ascii_upper c \<or> is_ascii_lower c \<or> is_digit c \<or> c = CHR ''-'' \<or> c = CHR ''_'')"

text \<open>The value of a digit: a left inverse on the six-bit values.\<close>

definition base64_value :: "char \<Rightarrow> nat" where
  "base64_value c =
     (if is_ascii_upper c then code c - 65 else if is_ascii_lower c then code c - 71
      else if is_digit c then code c + 4 else if c = CHR ''-'' then 62 else 63)"

lemma code_dash: "code (CHR ''-'') = 45" "code (CHR ''_'') = 95"
  by (simp_all add: code_def)

lemma base64_value_digit: "n < 64 \<Longrightarrow> base64_value (base64_digit n) = n"
  by (auto simp: base64_value_def base64_digit_def is_ascii_upper_def is_ascii_lower_def is_digit_def
      code_char_of code_dash)

lemma base64_digit_inject: "m < 64 \<Longrightarrow> n < 64 \<Longrightarrow> base64_digit m = base64_digit n \<longleftrightarrow> m = n"
  by (metis base64_value_digit)

lemma base64_digit_class: "n < 64 \<Longrightarrow> is_base64_url (base64_digit n)"
  by (auto simp: is_base64_url_def base64_digit_def is_ascii_upper_def is_ascii_lower_def
      is_digit_def code_char_of)

lemma unat_byte: "unat (b :: 8 word) < 256"
  using unsigned_less [of b] by simp

lemma six_bits:
  "unat (a :: 8 word) div 4 < 64" "unat a mod 4 * 16 + unat (b :: 8 word) div 16 < 64"
  "unat b mod 16 * 4 + unat (c :: 8 word) div 64 < 64" "unat a mod 64 < 64"
  "unat a mod 4 * 16 < 64" "unat a mod 16 * 4 < 64"
proof -
  note unat_byte [of a] unat_byte [of b] unat_byte [of c]
  moreover have "unat a mod 4 < 4" "unat a mod 16 < 16" "unat b mod 16 < 16" by simp_all
  ultimately show
    "unat (a :: 8 word) div 4 < 64" "unat a mod 4 * 16 + unat (b :: 8 word) div 16 < 64"
    "unat b mod 16 * 4 + unat (c :: 8 word) div 64 < 64" "unat a mod 64 < 64"
    "unat a mod 4 * 16 < 64" "unat a mod 16 * 4 < 64"
    by linarith+
qed

lemma base64Url_alphabet: "list_all is_base64_url (base64Url bs)"
  by (induction bs rule: base64Url.induct) (simp_all add: base64_digit_class six_bits)

lemma base64Url_length:
  "length (base64Url bs) = (4 * length bs + 2) div 3"
  by (induction bs rule: base64Url.induct) simp_all

lemma byte_eq_parts:
  "unat (a :: 8 word) div k = unat b div k \<Longrightarrow> unat a mod k = unat b mod k \<Longrightarrow> a = b"
  by (metis div_mult_mod_eq word_unat_eq_iff)

lemma digit_pair_eq:
  assumes "m < k" "m' < k"
  shows "n * k + m = n' * k + m' \<longleftrightarrow> n = n' \<and> m = (m' :: nat)"
proof
  assume eq: "n * k + m = n' * k + m'"
  have "(n * k + m) div k = n" "(n' * k + m') div k = n'" using assms by simp_all
  with eq have "n = n'" by metis
  with eq show "n = n' \<and> m = m'" by simp
qed simp

lemma base64Url_inject:
  "base64Url bs = base64Url cs \<Longrightarrow> length bs = length cs \<Longrightarrow> bs = cs"
proof (induction bs arbitrary: cs rule: base64Url.induct)
  case (1 a b c rest)
  from 1 (3) obtain a' b' c' rest' where cs: "cs = a' # b' # c' # rest'"
    by (cases cs rule: base64Url.cases) auto
  have lt: "unat (x :: 8 word) div 16 < 16" "unat x div 64 < 4" for x
    using unat_byte [of x] by linarith+
  from 1 (2) cs have eqs: "unat a div 4 = unat a' div 4"
    "unat a mod 4 * 16 + unat b div 16 = unat a' mod 4 * 16 + unat b' div 16"
    "unat b mod 16 * 4 + unat c div 64 = unat b' mod 16 * 4 + unat c' div 64"
    "unat c mod 64 = unat c' mod 64" and rest: "base64Url rest = base64Url rest'"
    by (simp_all add: base64_digit_inject six_bits)
  from eqs lt have "a = a'" "b = b'" "c = c'"
    by (simp_all add: digit_pair_eq) (metis byte_eq_parts)+
  with 1 cs rest show ?case by simp
next
  case (2 a b)
  from 2 (2) obtain a' b' where cs: "cs = [a', b']"
    by (cases cs rule: base64Url.cases) auto
  have lt: "unat (x :: 8 word) div 16 < 16" for x
    using unat_byte [of x] by linarith
  from 2 (1) cs have eqs: "unat a div 4 = unat a' div 4"
    "unat a mod 4 * 16 + unat b div 16 = unat a' mod 4 * 16 + unat b' div 16"
    "unat b mod 16 = unat b' mod 16"
    by (simp_all add: base64_digit_inject six_bits)
  from eqs lt have "a = a'" "b = b'"
    by (simp_all add: digit_pair_eq) (metis byte_eq_parts)+
  with cs show ?case by simp
next
  case (3 a)
  from 3 (2) obtain a' where cs: "cs = [a']"
    by (cases cs rule: base64Url.cases) auto
  from 3 (1) cs have "unat a div 4 = unat a' div 4" "unat a mod 4 = unat a' mod 4"
    by (simp_all add: base64_digit_inject six_bits)
  then have "a = a'" by (rule byte_eq_parts)
  with cs show ?case by simp
qed simp

section \<open>URLs\<close>

text \<open>
  The components of a \<open>URL\<close> object: the ones \<^typ>\<open>parsed_url\<close> has, with the protocol (its colon
  included), the origin, \<open>href\<close>, and \<open>searchParams\<close> in the order of the query.
\<close>

record web_url = parsed_url +
  wu_protocol :: string
  wu_origin :: string
  wu_href :: string
  wu_params :: "(string \<times> string) list"

type_synonym web_url_parser = "string \<Rightarrow> web_url option"

definition get_all :: "string \<Rightarrow> web_url \<Rightarrow> string list" where
  "get_all key u = map snd (filter (\<lambda>p. fst p = key) (wu_params u))"

definition has_param :: "string \<Rightarrow> web_url \<Rightarrow> bool" where
  "has_param key u = (\<exists>p \<in> set (wu_params u). fst p = key)"

text \<open>\<open>searchParams.set\<close>: the first parameter of the name is replaced and the others are removed;
  a new name goes to the end.\<close>

fun set_param :: "string \<Rightarrow> string \<Rightarrow> (string \<times> string) list \<Rightarrow> (string \<times> string) list" where
  "set_param key v [] = [(key, v)]"
| "set_param key v ((k, x) # ps) =
     (if k = key then (key, v) # filter (\<lambda>p. fst p \<noteq> key) ps else (k, x) # set_param key v ps)"

lemma map_of_filter_other: "k \<noteq> key \<Longrightarrow> map_of (filter (\<lambda>p. fst p \<noteq> key) ps) k = map_of ps k"
  by (induction ps) auto

lemma map_of_set_param:
  "map_of (set_param key v ps) k = (if k = key then Some v else map_of ps k)"
  by (induction key v ps rule: set_param.induct) (auto simp: map_of_filter_other)

text \<open>A URL with a scheme, a host, a path and parameters, for closed examples.\<close>

definition simple_url :: "string \<Rightarrow> string \<Rightarrow> string \<Rightarrow> (string \<times> string) list \<Rightarrow> web_url" where
  "simple_url scheme host path params = \<lparr>url_username = '''', url_password = '''',
     url_hostname = host, url_port = '''', url_pathname = path,
     url_search = (if params = [] then '''' else ''?''), url_hash = '''',
     wu_protocol = scheme @ '':'', wu_origin = scheme @ ''://'' @ host,
     wu_href = scheme @ ''://'' @ host @ path, wu_params = params\<rparr>"

end
