(* ===== verification/Content_Lines.thy ===== *)
theory Content_Lines
  imports Encodings
begin

text \<open>
  The content-line syntax that \<open>src/main/pim/vcard.ts\<close> and \<open>src/main/pim/icalendar.ts\<close> share: escaping of
  text, splitting at unescaped delimiters, folding at 75 bytes, unfolding, and property lines with
  parameters. The two files have their own copies of these functions; the ones that differ are given
  for each. Lemmas: the round trips and the line bound.
\<close>

section \<open>Escaped text\<close>

definition replace_char :: "char \<Rightarrow> string \<Rightarrow> string \<Rightarrow> string" where
  "replace_char c r s = concat (map (\<lambda>x. if x = c then r else [x]) s)"

definition backslash :: char where "backslash = CHR 0x5C"
definition quote_mark :: char where "quote_mark = CHR 0x22"
definition line_feed :: char where "line_feed = CHR 0x0A"

text \<open>The replacements of the source, in its order; a line end of any kind is replaced as one.\<close>

definition escapeText :: "string \<Rightarrow> string" where
  "escapeText v =
     replace_char (CHR '','') [backslash, CHR '','']
      (replace_char (CHR '';'') [backslash, CHR '';'']
       (replace_char line_feed [backslash, CHR ''n'']
        (unix_lines (replace_char backslash [backslash, backslash] v))))"

fun unescapeText :: "string \<Rightarrow> string" where
  "unescapeText (c # d # s) =
     (if c = backslash \<and> d \<in> {backslash, CHR '','', CHR '';'', CHR ''n'', CHR ''N''}
      then (if d = CHR ''n'' \<or> d = CHR ''N'' then line_feed else d) # unescapeText s
      else c # unescapeText (d # s))"
| "unescapeText s = s"

text \<open>The loop of \<open>splitUnescaped\<close>: the delimiter, the flags \<open>escaped\<close> and \<open>quoted\<close>, and \<open>current\<close>.\<close>

fun split_from :: "char \<Rightarrow> bool \<Rightarrow> bool \<Rightarrow> string \<Rightarrow> string \<Rightarrow> string list" where
  "split_from d escaped quoted cur [] = [cur @ (if escaped then [backslash] else [])]"
| "split_from d escaped quoted cur (c # s) =
     (if escaped then split_from d False quoted (cur @ [backslash, c]) s
      else if c = backslash then split_from d True quoted cur s
      else if c = quote_mark then split_from d False (\<not> quoted) (cur @ [c]) s
      else if c = d \<and> \<not> quoted then cur # split_from d False quoted [] s
      else split_from d False quoted (cur @ [c]) s)"

definition splitUnescaped :: "string \<Rightarrow> char \<Rightarrow> string list" where
  "splitUnescaped v d = split_from d False False [] v"

definition structuredText :: "string option list \<Rightarrow> string" where
  "structuredText vs = join '';'' (map (\<lambda>v. escapeText (case_option [] id v)) vs)"

section \<open>Folding\<close>

definition crlf :: string where
  "crlf = [CHR 13, CHR 10]"

fun fold_from :: "string \<Rightarrow> string \<Rightarrow> string list" where
  "fold_from cur [] = [cur]"
| "fold_from cur (c # s) =
     (if byte_length (cur @ [c]) > 75 then cur # fold_from [CHR '' '', c] s else fold_from (cur @ [c]) s)"

definition foldLine :: "string \<Rightarrow> string" where
  "foldLine l = join crlf (fold_from [] l)"

definition physical_lines :: "string \<Rightarrow> string list" where
  "physical_lines source = split_on (CHR 10) (unix_lines source)"

definition starts_blank :: "string \<Rightarrow> bool" where
  "starts_blank l = (l \<noteq> [] \<and> (hd l = CHR '' '' \<or> hd l = CHR 9))"

text \<open>\<open>/(?:^|;)ENCODING=QUOTED-PRINTABLE(?:;|:)/i\<close>.\<close>

definition quoted_printable_marked :: "string \<Rightarrow> bool" where
  "quoted_printable_marked l =
     (let t = lower l; m = ''encoding=quoted-printable'' in
      list_ex (\<lambda>e. starts_with (m @ e) t \<or> contains t ('';'' @ m @ e)) ['';'', '':''])"

text \<open>One physical line in the loop of \<open>unfold\<close> of \<open>vcard.ts\<close>, and the function.\<close>

definition unfold_step :: "string list \<Rightarrow> string \<Rightarrow> string list" where
  "unfold_step logical l =
     (if logical \<noteq> [] \<and> quoted_printable_marked (last logical) \<and> ends_with ''='' (last logical)
      then butlast logical @ [butlast (last logical) @ (if starts_blank l then tl l else l)]
      else if starts_blank l \<and> logical \<noteq> [] then butlast logical @ [last logical @ tl l]
      else logical @ [l])"

definition unfold_card :: "string \<Rightarrow> string list" where
  "unfold_card source = foldl unfold_step [] (physical_lines source)"

text \<open>\<open>unfold\<close> of \<open>icalendar.ts\<close>; a folded line without a line to continue throws.\<close>

fun unfold_from :: "string list \<Rightarrow> string list \<Rightarrow> string list option" where
  "unfold_from logical [] = Some logical"
| "unfold_from logical (l # ls) =
     (if starts_blank l
      then (if logical = [] \<or> last logical = [] then None
            else unfold_from (butlast logical @ [last logical @ tl l]) ls)
      else unfold_from (if l = [] then logical else logical @ [l]) ls)"

definition unfold_calendar :: "string \<Rightarrow> string list option" where
  "unfold_calendar source = unfold_from [] (physical_lines source)"

section \<open>Escaping is undone\<close>

definition esc :: "char \<Rightarrow> string" where
  "esc c = (if c = backslash then [backslash, backslash] else if c = line_feed then [backslash, CHR ''n'']
            else if c = CHR '';'' then [backslash, CHR '';''] else if c = CHR '','' then [backslash, CHR '',''] else [c])"

lemma special_chars [simp]:
  "backslash \<noteq> line_feed" "backslash \<noteq> quote_mark" "backslash \<noteq> CHR '';''" "backslash \<noteq> CHR '',''"
  "line_feed \<noteq> quote_mark" "quote_mark \<noteq> CHR '';''" "quote_mark \<noteq> CHR '',''" "line_feed \<noteq> CHR '';''"
  "line_feed \<noteq> CHR '',''" "backslash \<noteq> CHR ''n''" "backslash \<noteq> CHR 13" "backslash \<noteq> CHR 10"
  "quote_mark \<noteq> CHR ''n''" "backslash \<noteq> CHR ''N''"
  by (simp_all add: backslash_def line_feed_def quote_mark_def)

lemmas special_chars_sym [simp] = special_chars [THEN not_sym]

lemma unix_lines_replace:
  "unix_lines_from cr (replace_char backslash [backslash, backslash] v)
    = replace_char backslash [backslash, backslash] (unix_lines_from cr v)"
  by (induction cr v rule: unix_lines_from.induct) (auto simp: replace_char_def)

lemma escapeText_esc: "escapeText v = concat (map esc (unix_lines v))"
proof -
  have "replace_char (CHR '','') [backslash, CHR '',''] (replace_char (CHR '';'') [backslash, CHR '';'']
      (replace_char line_feed [backslash, CHR ''n''] (replace_char backslash [backslash, backslash] t)))
    = concat (map esc t)" for t
    by (induction t) (auto simp: replace_char_def esc_def)
  then show ?thesis by (simp add: escapeText_def unix_lines_def unix_lines_replace)
qed

lemma unescape_esc_Cons: "unescapeText (esc c @ s) = c # unescapeText s"
  by (cases s) (auto simp: esc_def)

lemma unescape_esc: "unescapeText (concat (map esc t)) = t"
  by (induction t) (simp_all add: unescape_esc_Cons)

lemma unescape_escape: "unescapeText (escapeText v) = unix_lines v"
  by (simp add: escapeText_esc unescape_esc)

lemma split_from_esc:
  assumes "d = CHR '';'' \<or> d = CHR '',''" "quote_mark \<notin> set t"
  shows "split_from d False False cur (concat (map esc t) @ s) = split_from d False False (cur @ concat (map esc t)) s"
  using assms by (induction t arbitrary: cur) (auto simp: esc_def)

lemma set_unix_lines: "set (unix_lines s) \<subseteq> insert line_feed (set s)"
proof -
  have "set (unix_lines_from cr s) \<subseteq> insert line_feed (set s)" for cr
    by (induction cr s rule: unix_lines_from.induct) (auto simp: line_feed_def)
  then show ?thesis by (simp add: unix_lines_def)
qed

lemma split_escaped_join:
  assumes "d = CHR '';'' \<or> d = CHR '',''" "vs \<noteq> []" "\<And>v. v \<in> set vs \<Longrightarrow> quote_mark \<notin> set v"
  shows "splitUnescaped (join [d] (map escapeText vs)) d = map escapeText vs"
  using assms(2,3)
proof (induction vs)
  case (Cons v vs)
  have q: "quote_mark \<notin> set (unix_lines v)" using Cons.prems(2) [of v] set_unix_lines [of v] by auto
  note step = split_from_esc [OF assms(1) q, of "[]", folded escapeText_esc]
  have d: "d \<noteq> backslash" "d \<noteq> quote_mark" using assms(1) by auto
  show ?case
  proof (cases vs)
    case Nil
    with step [of "[]"] show ?thesis by (simp add: splitUnescaped_def)
  next
    case (Cons w ws)
    with Cons.IH Cons.prems have "split_from d False False [] (join [d] (map escapeText vs)) = map escapeText vs"
      by (simp add: splitUnescaped_def)
    with step [of "d # join [d] (map escapeText vs)"] Cons d show ?thesis by (simp add: splitUnescaped_def)
  qed
qed simp

section \<open>Folding is undone\<close>

text \<open>A physical line is at most 75 bytes, and the lines after the first start with one blank.\<close>

lemma fold_from_bounds: "byte_length cur \<le> 75 \<Longrightarrow> l \<in> set (fold_from cur s) \<Longrightarrow> byte_length l \<le> 75"
  by (induction cur s rule: fold_from.induct) (auto split: if_splits simp: byte_length_Cons)

lemma fold_from_text:
  "\<exists>l ls. fold_from cur s = l # ls \<and> (\<forall>x \<in> set ls. \<exists>y. x = CHR '' '' # y \<and> y \<noteq> []) \<and> l @ concat (map tl ls) = cur @ s
     \<and> (\<exists>t. l = cur @ t)"
proof (induction cur s rule: fold_from.induct)
  case (2 cur c s)
  show ?case
  proof (cases "byte_length (cur @ [c]) > 75")
    case True
    with 2(1) obtain l ls where "fold_from [CHR '' '', c] s = l # ls"
      "\<forall>x \<in> set ls. \<exists>y. x = CHR '' '' # y \<and> y \<noteq> []" "l @ concat (map tl ls) = CHR '' '' # c # s" "\<exists>t. l = [CHR '' '', c] @ t"
      by auto
    with True show ?thesis by auto
  next
    case False
    with 2(2) show ?thesis by auto
  qed
qed simp

section \<open>Lines\<close>

definition line_text :: "string \<Rightarrow> bool" where
  "line_text l = (CHR 10 \<notin> set l \<and> CHR 13 \<notin> set l)"

lemma split_on_subset: "p \<in> set (split_on c s) \<Longrightarrow> set p \<subseteq> set s"
proof (induction c s arbitrary: p rule: split_on.induct)
  case (2 c x xs)
  show ?case
  proof (cases "x = c")
    case True
    with 2 show ?thesis by auto
  next
    case False
    from list.exhaust [of "split_on c xs"] obtain q qs where q: "split_on c xs = q # qs" by auto
    with 2(2) False have "set r \<subseteq> set xs" if "r = q \<or> r \<in> set qs" for r using that by auto
    moreover have "p = x # q \<or> p \<in> set qs" using 2(3) False q by simp
    ultimately show ?thesis by (metis insert_mono list.set(2) subset_insertI2)
  qed
qed simp

lemma physical_lines_text: "l \<in> set (physical_lines s) \<Longrightarrow> line_text l"
  using split_on_parts [of l "CHR 10" "unix_lines s"] split_on_subset [of l "CHR 10" "unix_lines s"]
    unix_lines_from_no_cr [of False s]
  by (auto simp: line_text_def physical_lines_def unix_lines_def)

lemma physical_lines_subset: "l \<in> set (physical_lines s) \<Longrightarrow> set l \<subseteq> insert (CHR 10) (set s)"
  using split_on_subset [of l "CHR 10" "unix_lines s"] set_unix_lines [of s]
  by (auto simp: physical_lines_def line_feed_def)

lemma unix_lines_crlf: "line_text l \<Longrightarrow> unix_lines (l @ crlf @ s) = l @ CHR 10 # unix_lines s"
  by (induction l) (auto simp: unix_lines_def crlf_def line_text_def)

lemma physical_lines_join:
  "ls \<noteq> [] \<Longrightarrow> \<forall>l \<in> set ls. line_text l \<Longrightarrow> physical_lines (join crlf ls) = ls"
proof (induction crlf ls rule: join.induct)
  case (2 l)
  then show ?case
    by (simp add: physical_lines_def unix_lines_def unix_lines_from_id split_on_no_sep line_text_def)
next
  case (3 l m ls)
  then show ?case
    by (simp add: physical_lines_def unix_lines_crlf split_on_append line_text_def)
qed simp

lemma join_append_one: "ls \<noteq> [] \<Longrightarrow> join sep (ls @ [l]) = join sep ls @ sep @ l"
  by (induction sep ls rule: join.induct) auto

lemma join_append: "xs \<noteq> [] \<Longrightarrow> ys \<noteq> [] \<Longrightarrow> join sep (xs @ ys) = join sep xs @ sep @ join sep ys"
proof (induction sep xs rule: join.induct)
  case (2 sep p)
  then show ?case by (cases ys) auto
qed auto

lemma join_concat:
  "\<forall>xs \<in> set xss. xs \<noteq> [] \<Longrightarrow> join sep (map (join sep) xss) = join sep (concat xss)"
proof (induction xss)
  case (Cons xs xss)
  show ?case
  proof (cases xss)
    case (Cons ys yss)
    with \<open>\<forall>x \<in> set (xs # xss). x \<noteq> []\<close> have "concat xss \<noteq> []" by auto
    with Cons.IH Cons.prems Cons show ?thesis by (simp add: join_append)
  qed simp
qed simp

lemma fold_from_line_text:
  "line_text cur \<Longrightarrow> line_text s \<Longrightarrow> \<forall>l \<in> set (fold_from cur s). line_text l"
  by (induction cur s rule: fold_from.induct) (auto simp: line_text_def)

lemma fold_from_nonempty [simp]: "fold_from cur s \<noteq> []"
  by (induction cur s rule: fold_from.induct) auto

section \<open>Unfolding a folded card\<close>

lemma quoted_printable_prefix: "quoted_printable_marked p \<Longrightarrow> quoted_printable_marked (p @ r)"
  by (auto simp: quoted_printable_marked_def Let_def contains_iff starts_with_append lower_def) blast+

definition plain_line :: "string \<Rightarrow> bool" where
  "plain_line l = (line_text l \<and> \<not> starts_blank l \<and> \<not> quoted_printable_marked l)"

lemma unfold_continuations:
  assumes "\<forall>x \<in> set ls. \<exists>y. x = CHR '' '' # y \<and> y \<noteq> []" "\<not> quoted_printable_marked (p @ concat (map tl ls))"
  shows "foldl unfold_step (L @ [p]) ls = L @ [p @ concat (map tl ls)]"
  using assms
proof (induction ls arbitrary: p)
  case (Cons x ls)
  then obtain y where y: "x = CHR '' '' # y" by auto
  have "\<not> quoted_printable_marked p" using Cons.prems(2) quoted_printable_prefix by blast
  then have "unfold_step (L @ [p]) x = L @ [p @ y]" by (simp add: unfold_step_def y starts_blank_def)
  with Cons.IH [of "p @ y"] Cons.prems y show ?case by simp
qed simp

lemma unfold_one_line:
  assumes "plain_line l" "L = [] \<or> \<not> quoted_printable_marked (last L)"
  shows "foldl unfold_step L (fold_from [] l) = L @ [l]"
proof -
  obtain p ls where f: "fold_from [] l = p # ls" "\<forall>x \<in> set ls. \<exists>y. x = CHR '' '' # y \<and> y \<noteq> []"
    "p @ concat (map tl ls) = l"
    using fold_from_text [of "[]" l] by auto
  have "\<not> starts_blank p" using f(3) assms(1) by (cases p) (auto simp: starts_blank_def plain_line_def)
  then have "unfold_step L p = L @ [p]" using assms(2) by (auto simp: unfold_step_def)
  with unfold_continuations [OF f(2), of p L] f assms(1) show ?thesis by (simp add: plain_line_def)
qed

lemma unfold_folded_lines:
  "\<forall>l \<in> set ls. plain_line l \<Longrightarrow> L = [] \<or> \<not> quoted_printable_marked (last L) \<Longrightarrow>
   foldl unfold_step L (concat (map (fold_from []) ls)) = L @ ls"
proof (induction ls arbitrary: L)
  case (Cons l ls)
  have "foldl unfold_step L (fold_from [] l) = L @ [l]" using Cons.prems by (intro unfold_one_line) auto
  with Cons.IH [of "L @ [l]"] Cons.prems show ?case by (simp add: plain_line_def)
qed simp

text \<open>Physical lines of a text written as folded lines with a line end after each.\<close>

definition folded_text :: "string list \<Rightarrow> string" where
  "folded_text ls = join crlf (map foldLine ls) @ crlf"

lemma folded_text_lines:
  assumes "ls \<noteq> []" "\<forall>l \<in> set ls. line_text l"
  shows "physical_lines (folded_text ls) = concat (map (fold_from []) ls) @ [[]]"
proof -
  let ?p = "concat (map (fold_from []) ls)"
  have ne: "?p \<noteq> []" using assms(1) by (cases ls) auto
  have "join crlf (map foldLine ls) = join crlf ?p"
    using join_concat [of "map (fold_from []) ls" crlf] by (simp add: foldLine_def [abs_def] comp_def)
  then have "folded_text ls = join crlf (?p @ [[]])" using ne by (simp add: folded_text_def join_append_one)
  moreover have "line_text []" by (simp add: line_text_def)
  then have "\<forall>l \<in> set (?p @ [[]]). line_text l"
    using assms(2) fold_from_line_text [of "[]"] by auto
  ultimately show ?thesis using physical_lines_join [of "?p @ [[]]"] by simp
qed

lemma unfold_card_folded:
  assumes "ls \<noteq> []" "\<forall>l \<in> set ls. plain_line l"
  shows "unfold_card (folded_text ls) = ls @ [[]]"
proof -
  have "physical_lines (folded_text ls) = concat (map (fold_from []) ls) @ [[]]"
    using folded_text_lines [OF assms(1)] assms(2) by (auto simp: plain_line_def)
  moreover have "\<not> quoted_printable_marked (last ls)" using assms by (auto simp: plain_line_def)
  ultimately show ?thesis
    using unfold_folded_lines [OF assms(2), of "[]"]
    by (simp add: unfold_card_def unfold_step_def starts_blank_def)
qed

section \<open>Unfolding a folded calendar\<close>

lemma unfold_from_append:
  "unfold_from L (xs @ ys) = Option.bind (unfold_from L xs) (\<lambda>M. unfold_from M ys)"
  by (induction L xs rule: unfold_from.induct) auto

lemma unfold_calendar_continuations:
  "\<forall>x \<in> set ls. \<exists>y. x = CHR '' '' # y \<and> y \<noteq> [] \<Longrightarrow> p \<noteq> [] \<Longrightarrow>
   unfold_from (L @ [p]) ls = Some (L @ [p @ concat (map tl ls)])"
proof (induction ls arbitrary: p)
  case (Cons x ls)
  then obtain y where "x = CHR '' '' # y" by auto
  with Cons.IH [of "p @ y"] Cons.prems show ?case by (simp add: starts_blank_def)
qed simp

lemma unfold_calendar_line:
  assumes "l \<noteq> []" "\<not> starts_blank l"
  shows "unfold_from L (fold_from [] l) = Some (L @ [l])"
proof -
  obtain p ls where f: "fold_from [] l = p # ls" "\<forall>x \<in> set ls. \<exists>y. x = CHR '' '' # y \<and> y \<noteq> []"
    "p @ concat (map tl ls) = l"
    using fold_from_text [of "[]" l] by auto
  obtain c s where l: "l = c # s" using assms(1) by (cases l) auto
  have "byte_length [c] \<le> 75" by (simp add: byte_length_Cons)
  then have "fold_from [] l = fold_from [c] s" by (simp add: l)
  with f(1) fold_from_text [of "[c]" s] have p: "p \<noteq> []" by auto
  then have "\<not> starts_blank p" using f(3) assms(2) by (cases p) (auto simp: starts_blank_def)
  with unfold_calendar_continuations [OF f(2) p, of L] f p show ?thesis by simp
qed

lemma unfold_calendar_lines:
  "\<forall>l \<in> set ls. l \<noteq> [] \<and> \<not> starts_blank l \<Longrightarrow> unfold_from L (concat (map (fold_from []) ls)) = Some (L @ ls)"
proof (induction ls arbitrary: L)
  case (Cons l ls)
  have "unfold_from L (fold_from [] l) = Some (L @ [l])" using Cons.prems by (intro unfold_calendar_line) auto
  with Cons.IH [of "L @ [l]"] Cons.prems show ?case by (simp add: unfold_from_append)
qed simp

section \<open>Properties\<close>

text \<open>Escaping a text and reading it back gives the text with its line ends as line feeds; a text with
  line feeds only comes back as it was.\<close>
theorem escaped_text_reads_back:
  "unescapeText (escapeText v) = unix_lines v
   \<and> (if CHR 13 \<in> set v then True else unescapeText (escapeText v) = v)"
  by (simp add: unescape_escape) (simp add: unix_lines_def unix_lines_from_id)

text \<open>A structured value splits back into the texts it was built from, as long as none of them contains a
  quotation mark.\<close>
theorem structured_text_splits_back:
  assumes "vs \<noteq> []" and "list_all (\<lambda>v. quote_mark \<notin> set v \<and> CHR 13 \<notin> set v) vs"
  shows "map unescapeText (splitUnescaped (structuredText (map Some vs)) (CHR '';'')) = vs"
proof -
  have "splitUnescaped (join '';'' (map escapeText vs)) (CHR '';'') = map escapeText vs"
    using assms by (intro split_escaped_join) (auto simp: list_all_iff)
  moreover have "map (unescapeText \<circ> escapeText) vs = vs"
    using assms(2) by (auto simp: list_all_iff unescape_escape unix_lines_def unix_lines_from_id intro!: map_idI)
  ultimately show ?thesis by (simp add: structuredText_def comp_def)
qed

theorem structured_text_splits_back_witness:
  "map unescapeText (splitUnescaped (structuredText (map Some [''Doe; Jr'', ''A,B''])) (CHR '';'')) = [''Doe; Jr'', ''A,B'']"
  by (rule structured_text_splits_back) (simp_all add: quote_mark_def)

text \<open>A quotation mark in one part swallows the delimiter after it: two parts come back as one.\<close>
theorem quotation_mark_joins_parts:
  "map unescapeText (splitUnescaped (structuredText [Some (''O'' @ [quote_mark] @ ''Neil''), Some ''Ann'']) (CHR '';''))
     = [''O'' @ [quote_mark] @ ''Neil;Ann'']"
  by code_simp

text \<open>For lines that are not empty, contain no line breaks, do not begin with a blank and are not marked
  as quoted-printable: the folded lines are at most 75 bytes long, and unfolding the text of the folded
  lines gives the lines back, as a card and as a calendar. (A card line marked quoted-printable that is
  folded after an equals sign loses the sign.)\<close>
theorem folding_round_trip:
  assumes "ls \<noteq> []" and "list_all (\<lambda>l. l \<noteq> [] \<and> plain_line l) ls"
  shows "list_all (\<lambda>p. byte_length p \<le> 75) (physical_lines (folded_text ls))
    \<and> unfold_card (folded_text ls) = ls @ [[]]
    \<and> unfold_calendar (folded_text ls) = Some ls"
proof -
  have plain: "\<forall>l \<in> set ls. plain_line l" "\<forall>l \<in> set ls. l \<noteq> [] \<and> \<not> starts_blank l" "\<forall>l \<in> set ls. line_text l"
    using assms(2) by (auto simp: list_all_iff plain_line_def)
  note lines = folded_text_lines [OF assms(1) plain(3)]
  have "unfold_calendar (folded_text ls) = Some ls"
    using unfold_calendar_lines [OF plain(2), of "[]"]
    by (simp add: unfold_calendar_def lines unfold_from_append starts_blank_def)
  moreover have "list_all (\<lambda>p. byte_length p \<le> 75) (physical_lines (folded_text ls))"
    using fold_from_bounds [of "[]"] by (auto simp: lines list_all_iff)
  ultimately show ?thesis using unfold_card_folded [OF assms(1) plain(1)] by simp
qed

theorem folding_round_trip_witness:
  "unfold_calendar (folded_text [''NOTE:a'', ''END:VCARD'']) = Some [''NOTE:a'', ''END:VCARD'']"
proof -
  have "list_all (\<lambda>l. l \<noteq> [] \<and> plain_line l) [''NOTE:a'', ''END:VCARD'']" by code_simp
  from folding_round_trip [OF _ this] show ?thesis by simp
qed

end
