(* ===== verification/Contact_Cards.thy ===== *)
theory Contact_Cards
  imports Content_Lines Regex_Lang
begin

text \<open>
  Contacts as vCards (\<open>src/main/pim/vcard.ts\<close>) with the contact schema of \<open>src/main/pim/types.ts\<close>:
  serialization of contacts and mailing lists, and the import with all its checks. What the platform
  provides is the argument \<open>card_world\<close>: the e-mail test of the schema library, \<open>TextDecoder\<close> and the
  two URI component functions. An error is a constructor for its message.
\<close>

section \<open>Data\<close>

definition MAX_VCARD_BYTES :: nat where "MAX_VCARD_BYTES = 5 * 1024 * 1024"
definition MAX_VCARDS :: nat where "MAX_VCARDS = 10000"

record card_world =
  cw_email :: "string \<Rightarrow> bool"
  cw_decode_text :: "string \<Rightarrow> bytes \<Rightarrow> string option"
  cw_encode_uri :: "string \<Rightarrow> string"
  cw_decode_uri :: "string \<Rightarrow> string option"

record card_property =
  cp_name :: string
  cp_params :: "(string, string list) entries"
  cp_value :: string

record contact_name =
  cn_prefix :: "string option"
  cn_given :: "string option"
  cn_additional :: "string option"
  cn_family :: "string option"
  cn_suffix :: "string option"

text \<open>An e-mail address or a phone number.\<close>

record contact_method =
  cm_value :: string
  cm_types :: "string list"
  cm_preferred :: bool

record contact_address =
  ca_po_box :: "string option"
  ca_extended :: "string option"
  ca_street :: "string option"
  ca_locality :: "string option"
  ca_region :: "string option"
  ca_postal_code :: "string option"
  ca_country :: "string option"
  ca_types :: "string list"
  ca_preferred :: bool

record contact_input =
  ci_uid :: "string option"
  ci_display_name :: string
  ci_name :: contact_name
  ci_nickname :: "string option"
  ci_emails :: "contact_method list"
  ci_phones :: "contact_method list"
  ci_addresses :: "contact_address list"
  ci_organization :: "string option"
  ci_title :: "string option"
  ci_notes :: "string option"

record mailing_list_input =
  mi_uid :: "string option"
  mi_name :: string
  mi_nickname :: "string option"
  mi_description :: "string option"
  mi_member_uids :: "string list"
  mi_member_emails :: "string list"

datatype card_error =
  UnsupportedEncoding | InvalidQuotedPrintable | ManyCharsets | NoValueSeparator | TooManyVcardBytes
| NestedCards | EndWithoutBegin | TooManyCards | TextOutside | MissingEnd | NoRecords | OneVersion
| UnsupportedVersion string | ManyUids | OneFn | ManyKinds | DuplicateListUid string
| DuplicateContactUid string | MemberEncoding | MemberAddress | UnsupportedMember string | SchemaRejected

section \<open>The contact schema\<close>

definition shortText :: "nat \<Rightarrow> string \<Rightarrow> string option" where
  "shortText maximum v = (let t = trim v in if 1 \<le> length t \<and> length t \<le> maximum then Some t else None)"

text \<open>An optional field: absent, or present and accepted; \<^const>\<open>None\<close> is a rejection.\<close>

definition optionalText :: "nat \<Rightarrow> string option \<Rightarrow> string option option" where
  "optionalText maximum v = (case v of None \<Rightarrow> Some None | Some t \<Rightarrow> map_option Some (shortText maximum t))"

fun all_some :: "'a option list \<Rightarrow> 'a list option" where
  "all_some [] = Some []"
| "all_some (x # xs) = (case x of None \<Rightarrow> None | Some y \<Rightarrow> map_option ((#) y) (all_some xs))"

definition uniqueStrings :: "string list \<Rightarrow> bool" where
  "uniqueStrings vs = distinct (map lower vs)"

definition uidSchema :: "string \<Rightarrow> string option" where
  "uidSchema v = (case shortText 255 v of None \<Rightarrow> None | Some t \<Rightarrow> if list_ex is_control t then None else Some t)"

definition type_list :: "string list \<Rightarrow> string list option" where
  "type_list ts = (if length ts > 12 then None else map_option (map lower) (all_some (map (shortText 32) ts)))"

definition contactNameSchema :: "contact_name \<Rightarrow> contact_name option" where
  "contactNameSchema n =
     (case (optionalText 80 (cn_prefix n), optionalText 120 (cn_given n), optionalText 120 (cn_additional n),
            optionalText 120 (cn_family n), optionalText 80 (cn_suffix n)) of
        (Some p, Some g, Some a, Some f, Some s) \<Rightarrow>
          Some \<lparr>cn_prefix = p, cn_given = g, cn_additional = a, cn_family = f, cn_suffix = s\<rparr>
      | _ \<Rightarrow> None)"

definition contactEmailSchema :: "card_world \<Rightarrow> contact_method \<Rightarrow> contact_method option" where
  "contactEmailSchema w m =
     (if cw_email w (cm_value m) \<and> length (cm_value m) \<le> 320
      then map_option (\<lambda>ts. m\<lparr>cm_types := ts\<rparr>) (type_list (cm_types m)) else None)"

definition contactPhoneSchema :: "contact_method \<Rightarrow> contact_method option" where
  "contactPhoneSchema m =
     (case shortText 100 (cm_value m) of None \<Rightarrow> None
      | Some v \<Rightarrow> map_option (\<lambda>ts. m\<lparr>cm_value := v, cm_types := ts\<rparr>) (type_list (cm_types m)))"

definition address_parts :: "contact_address \<Rightarrow> string option list" where
  "address_parts a = [ca_po_box a, ca_extended a, ca_street a, ca_locality a, ca_region a, ca_postal_code a, ca_country a]"

definition contactAddressSchema :: "contact_address \<Rightarrow> contact_address option" where
  "contactAddressSchema a =
     (case (optionalText 200 (ca_po_box a), optionalText 500 (ca_extended a), optionalText 500 (ca_street a),
            optionalText 200 (ca_locality a), optionalText 200 (ca_region a), optionalText 80 (ca_postal_code a),
            optionalText 200 (ca_country a), type_list (ca_types a)) of
        (Some b, Some e, Some s, Some l, Some r, Some p, Some c, Some ts) \<Rightarrow>
          (let a' = \<lparr>ca_po_box = b, ca_extended = e, ca_street = s, ca_locality = l, ca_region = r,
                     ca_postal_code = p, ca_country = c, ca_types = ts, ca_preferred = ca_preferred a\<rparr>
           in if list_ex (\<lambda>x. x \<noteq> None) (address_parts a') then Some a' else None)
      | _ \<Rightarrow> None)"

definition validateContactMethods :: "contact_input \<Rightarrow> bool" where
  "validateContactMethods c =
     (uniqueStrings (map cm_value (ci_emails c)) \<and> length (filter cm_preferred (ci_emails c)) \<le> 1 \<and>
      uniqueStrings (map cm_value (ci_phones c)) \<and> length (filter cm_preferred (ci_phones c)) \<le> 1 \<and>
      length (filter ca_preferred (ci_addresses c)) \<le> 1)"

definition list_schema :: "nat \<Rightarrow> ('a \<Rightarrow> 'a option) \<Rightarrow> 'a list \<Rightarrow> 'a list option" where
  "list_schema maximum f xs = (if length xs > maximum then None else all_some (map f xs))"

definition createContactSchema :: "card_world \<Rightarrow> contact_input \<Rightarrow> contact_input option" where
  "createContactSchema w c =
     (case (case ci_uid c of None \<Rightarrow> Some None | Some u \<Rightarrow> map_option Some (uidSchema u),
            shortText 300 (ci_display_name c), contactNameSchema (ci_name c), optionalText 120 (ci_nickname c),
            list_schema 100 (contactEmailSchema w) (ci_emails c), list_schema 100 contactPhoneSchema (ci_phones c),
            list_schema 50 contactAddressSchema (ci_addresses c), optionalText 300 (ci_organization c),
            optionalText 300 (ci_title c), optionalText 16384 (ci_notes c)) of
        (Some u, Some d, Some n, Some k, Some es, Some ps, Some as, Some g, Some t, Some x) \<Rightarrow>
          (let c' = \<lparr>ci_uid = u, ci_display_name = d, ci_name = n, ci_nickname = k, ci_emails = es, ci_phones = ps,
                     ci_addresses = as, ci_organization = g, ci_title = t, ci_notes = x\<rparr>
           in if validateContactMethods c' then Some c' else None)
      | _ \<Rightarrow> None)"

definition createMailingListSchema :: "mailing_list_input \<Rightarrow> mailing_list_input option" where
  "createMailingListSchema m =
     (case (case mi_uid m of None \<Rightarrow> Some None | Some u \<Rightarrow> map_option Some (uidSchema u),
            shortText 300 (mi_name m), optionalText 120 (mi_nickname m), optionalText 4096 (mi_description m),
            list_schema 10000 uidSchema (mi_member_uids m)) of
        (Some u, Some n, Some k, Some d, Some us) \<Rightarrow>
          if uniqueStrings us
          then Some (m\<lparr>mi_uid := u, mi_name := n, mi_nickname := k, mi_description := d, mi_member_uids := us\<rparr>)
          else None
      | _ \<Rightarrow> None)"

section \<open>Writing cards\<close>

definition is_parameter_char :: "char \<Rightarrow> bool" where
  "is_parameter_char c = (is_ascii_upper c \<or> is_ascii_lower c \<or> is_digit c \<or> c = CHR ''-'')"

definition quoteParameter :: "string \<Rightarrow> string" where
  "quoteParameter v =
     (if v \<noteq> [] \<and> list_all is_parameter_char v then v
      else [quote_mark] @ map (\<lambda>c. if c = quote_mark \<or> c = CHR 13 \<or> c = CHR 10 then CHR 0x27 else c) v @ [quote_mark])"

definition parameters_of :: "string list \<Rightarrow> bool \<Rightarrow> string list" where
  "parameters_of types preferred =
     (if types \<noteq> [] then [''TYPE='' @ join '','' (map quoteParameter types)] else []) @
     (if preferred then [''PREF=1''] else [])"

text \<open>The line before folding.\<close>

definition property_text_line :: "string \<Rightarrow> string \<Rightarrow> string list \<Rightarrow> bool \<Rightarrow> string" where
  "property_text_line name v types preferred =
     (let ps = parameters_of types preferred in
      name @ (if ps \<noteq> [] then '';'' @ join '';'' ps else []) @ '':'' @ v)"

definition propertyLine :: "string \<Rightarrow> string \<Rightarrow> string list \<Rightarrow> bool \<Rightarrow> string" where
  "propertyLine name v types preferred = foldLine (property_text_line name v types preferred)"

text \<open>The fields of a stored contact that are written: its input fields, with the UID, and the time of
  its last change.\<close>

definition optional_line :: "string \<Rightarrow> string option \<Rightarrow> string list" where
  "optional_line name v = (case v of None \<Rightarrow> [] | Some t \<Rightarrow>
     if t = [] then [] else [propertyLine name (escapeText t) [] False])"

definition serializeContactVCard :: "string \<Rightarrow> contact_input \<Rightarrow> string \<Rightarrow> string" where
  "serializeContactVCard uid c updated_at =
     (let n = ci_name c;
          ls = [''BEGIN:VCARD'', ''VERSION:4.0'', propertyLine ''UID'' (escapeText uid) [] False,
                propertyLine ''FN'' (escapeText (ci_display_name c)) [] False,
                propertyLine ''N'' (structuredText [cn_family n, cn_given n, cn_additional n, cn_prefix n, cn_suffix n]) [] False] @
               optional_line ''NICKNAME'' (ci_nickname c) @
               map (\<lambda>m. propertyLine ''EMAIL'' (escapeText (cm_value m)) (cm_types m) (cm_preferred m)) (ci_emails c) @
               map (\<lambda>m. propertyLine ''TEL'' (escapeText (cm_value m)) (cm_types m) (cm_preferred m)) (ci_phones c) @
               map (\<lambda>a. propertyLine ''ADR'' (structuredText (address_parts a)) (ca_types a) (ca_preferred a)) (ci_addresses c) @
               optional_line ''ORG'' (ci_organization c) @ optional_line ''TITLE'' (ci_title c) @
               optional_line ''NOTE'' (ci_notes c) @ [propertyLine ''REV'' updated_at [] False, ''END:VCARD'']
      in join crlf ls @ crlf)"

text \<open>The UUID pattern of \<open>memberUri\<close>: groups of hexadecimal digits, version and variant.\<close>

definition is_hex :: "char \<Rightarrow> bool" where
  "is_hex c = is_hex_lower (lower_char c)"

definition is_uuid :: "string \<Rightarrow> bool" where
  "is_uuid u =
     (case map (map lower_char) (split_on (CHR ''-'') u) of
        [a, b, c, d, e] \<Rightarrow>
          map length [a, b, c, d, e] = [8, 4, 4, 4, 12] \<and> list_all (list_all is_hex) [a, b, c, d, e]
          \<and> hd c \<in> set ''12345678'' \<and> hd d \<in> set ''89ab''
      | _ \<Rightarrow> False)"

definition memberUri :: "card_world \<Rightarrow> string \<Rightarrow> string" where
  "memberUri w uid = (if is_uuid uid then ''urn:uuid:'' @ uid else ''urn:material-email:'' @ cw_encode_uri w uid)"

definition serializeMailingListVCard :: "card_world \<Rightarrow> string \<Rightarrow> mailing_list_input \<Rightarrow> string \<Rightarrow> string" where
  "serializeMailingListVCard w uid m updated_at =
     (let ls = [''BEGIN:VCARD'', ''VERSION:4.0'', propertyLine ''UID'' (escapeText uid) [] False, ''KIND:group'',
                propertyLine ''FN'' (escapeText (mi_name m)) [] False] @
               optional_line ''NICKNAME'' (mi_nickname m) @ optional_line ''NOTE'' (mi_description m) @
               map (\<lambda>u. propertyLine ''MEMBER'' (memberUri w u) [] False) (mi_member_uids m) @
               [propertyLine ''REV'' updated_at [] False, ''END:VCARD'']
      in join crlf ls @ crlf)"

end
