(* ===== verification/Card_Import.thy ===== *)
theory Card_Import
  imports Contact_Cards
begin

text \<open>
  The import of \<open>src/main/pim/vcard.ts\<close>: property lines, text encodings, contacts and mailing lists from
  the properties of a card, and the checks on a bundle. Every \<open>throw\<close> is a \<^const>\<open>Inl\<close>.
\<close>

section \<open>Property lines\<close>

definition and_then :: "('e, 'a) result \<Rightarrow> ('a \<Rightarrow> ('e, 'b) result) \<Rightarrow> ('e, 'b) result" where
  "and_then r f = (case r of Inl e \<Rightarrow> Inl e | Inr x \<Rightarrow> f x)"

lemma and_then_simps [simp]: "and_then (Inr x) f = f x" "and_then (Inl e) f = Inl e"
  by (simp_all add: and_then_def)

text \<open>The index of the first colon outside quotation marks.\<close>

fun colon_from :: "bool \<Rightarrow> string \<Rightarrow> nat option" where
  "colon_from quoted [] = None"
| "colon_from quoted (c # s) =
     (let q = (if c = quote_mark then \<not> quoted else quoted)
      in if c = CHR '':'' \<and> \<not> q then Some 0 else map_option Suc (colon_from q s))"

text \<open>\<open>value.replace(/^"|"$/g, "")\<close>.\<close>

definition strip_quotes :: "string \<Rightarrow> string" where
  "strip_quotes v =
     (let a = (if v \<noteq> [] \<and> hd v = quote_mark then tl v else v)
      in if a \<noteq> [] \<and> last a = quote_mark then butlast a else a)"

definition property_name :: "string \<Rightarrow> string" where
  "property_name rawName =
     upper (case last_index_of ''.'' rawName of None \<Rightarrow> rawName | Some i \<Rightarrow> drop (i + 1) rawName)"

definition add_parameter ::
  "(string, string list) entries \<Rightarrow> string \<Rightarrow> (string, string list) entries" where
  "add_parameter params segment =
     (let equals = index_of ''='' segment;
          key = upper (case equals of None \<Rightarrow> ''TYPE'' | Some i \<Rightarrow> take i segment);
          rawValues = (case equals of None \<Rightarrow> segment | Some i \<Rightarrow> drop (i + 1) segment);
          vs = map strip_quotes (splitUnescaped rawValues (CHR '',''))
      in AList.update key (case_option [] id (map_of params key) @ vs) params)"

definition parseProperty :: "string \<Rightarrow> (card_error, card_property) result" where
  "parseProperty line =
     (case colon_from False line of
        Some (Suc n) \<Rightarrow>
          (let segments = splitUnescaped (take (Suc n) line) (CHR '';'')
           in Inr \<lparr>cp_name = property_name (hd segments), cp_params = foldl add_parameter [] (tl segments),
                   cp_value = drop (Suc n + 1) line\<rparr>)
      | _ \<Rightarrow> Inl NoValueSeparator)"

definition parameter :: "card_property \<Rightarrow> string \<Rightarrow> string list" where
  "parameter p key = case_option [] id (map_of (cp_params p) key)"

section \<open>Text encodings\<close>

definition hex_value :: "char \<Rightarrow> nat" where
  "hex_value c = (if is_digit c then code c - 48 else code (lower_char c) - 87)"

fun qp_bytes :: "string \<Rightarrow> bytes" where
  "qp_bytes (c # a # b # s) =
     (if c = CHR ''='' \<and> is_hex a \<and> is_hex b then of_nat (16 * hex_value a + hex_value b) # qp_bytes s
      else utf8_char c @ qp_bytes (a # b # s))"
| "qp_bytes (c # s) = utf8_char c @ qp_bytes s"
| "qp_bytes [] = []"

definition decodeQuotedPrintable :: "card_world \<Rightarrow> string \<Rightarrow> string \<Rightarrow> (card_error, string) result" where
  "decodeQuotedPrintable w v charset =
     (case cw_decode_text w charset (qp_bytes v) of None \<Rightarrow> Inl InvalidQuotedPrintable | Some t \<Rightarrow> Inr t)"

definition decodedPropertyValue :: "card_world \<Rightarrow> card_property \<Rightarrow> (card_error, string) result" where
  "decodedPropertyValue w p =
     (let encodings = map upper (parameter p ''ENCODING'')
      in if encodings = [] then Inr (cp_value p)
         else if \<not> list_all (\<lambda>e. e = ''QUOTED-PRINTABLE'') encodings then Inl UnsupportedEncoding
         else (case case_option [''UTF-8''] id (map_of (cp_params p) ''CHARSET'') of
                 [charset] \<Rightarrow> decodeQuotedPrintable w (cp_value p) charset
               | _ \<Rightarrow> Inl ManyCharsets))"

definition propertyText :: "card_world \<Rightarrow> card_property \<Rightarrow> (card_error, string) result" where
  "propertyText w p = map_sum id unescapeText (decodedPropertyValue w p)"

section \<open>Contacts\<close>

definition preferred :: "card_property \<Rightarrow> bool" where
  "preferred p = (''1'' \<in> set (parameter p ''PREF'') \<or> list_ex (\<lambda>v. lower v = ''pref'') (parameter p ''TYPE''))"

definition propertyTypes :: "card_property \<Rightarrow> string list" where
  "propertyTypes p = unique (filter (\<lambda>v. v \<noteq> ''pref'') (map lower (parameter p ''TYPE'')))"

definition first_property :: "card_property list \<Rightarrow> string \<Rightarrow> card_property option" where
  "first_property ps name = find (\<lambda>p. cp_name p = name) ps"

definition all_properties :: "card_property list \<Rightarrow> string \<Rightarrow> card_property list" where
  "all_properties ps name = filter (\<lambda>p. cp_name p = name) ps"

fun dedup_from :: "('a \<Rightarrow> string) \<Rightarrow> string list \<Rightarrow> 'a list \<Rightarrow> 'a list" where
  "dedup_from key seen [] = []"
| "dedup_from key seen (v # vs) =
     (if lower (key v) \<in> set seen then dedup_from key seen vs
      else v # dedup_from key (lower (key v) # seen) vs)"

definition deduplicate :: "('a \<Rightarrow> string) \<Rightarrow> 'a list \<Rightarrow> 'a list" where
  "deduplicate key vs = dedup_from key [] vs"

text \<open>\<open>value.replace(/^mailto:/i, "")\<close>, for any scheme.\<close>

definition strip_scheme :: "string \<Rightarrow> string \<Rightarrow> string" where
  "strip_scheme scheme v = (if starts_with scheme (lower v) then drop (length scheme) v else v)"

definition parse_method :: "card_world \<Rightarrow> string \<Rightarrow> card_property \<Rightarrow> (card_error, contact_method) result" where
  "parse_method w scheme p =
     map_sum id (\<lambda>t. \<lparr>cm_value = strip_scheme scheme t, cm_types = propertyTypes p, cm_preferred = preferred p\<rparr>)
       (propertyText w p)"

definition parseEmail :: "card_world \<Rightarrow> card_property \<Rightarrow> (card_error, contact_method) result" where
  "parseEmail w = parse_method w ''mailto:''"

definition parsePhone :: "card_world \<Rightarrow> card_property \<Rightarrow> (card_error, contact_method) result" where
  "parsePhone w = parse_method w ''tel:''"

text \<open>A component that is absent or empty leaves its key out.\<close>

definition component_at :: "string list \<Rightarrow> nat \<Rightarrow> string option" where
  "component_at cs i = (if i < length cs \<and> cs ! i \<noteq> [] then Some (cs ! i) else None)"

definition parseAddress :: "card_world \<Rightarrow> card_property \<Rightarrow> (card_error, contact_address) result" where
  "parseAddress w p =
     map_sum id (\<lambda>v. let cs = map unescapeText (splitUnescaped v (CHR '';'')) in
        \<lparr>ca_po_box = component_at cs 0, ca_extended = component_at cs 1, ca_street = component_at cs 2,
         ca_locality = component_at cs 3, ca_region = component_at cs 4, ca_postal_code = component_at cs 5,
         ca_country = component_at cs 6, ca_types = propertyTypes p, ca_preferred = preferred p\<rparr>)
       (decodedPropertyValue w p)"

fun normalize_preferred_from :: "('a \<Rightarrow> bool) \<Rightarrow> ('a \<Rightarrow> 'a) \<Rightarrow> bool \<Rightarrow> 'a list \<Rightarrow> 'a list" where
  "normalize_preferred_from pref clear found [] = []"
| "normalize_preferred_from pref clear found (v # vs) =
     (if \<not> pref v \<or> \<not> found then v # normalize_preferred_from pref clear (found \<or> pref v) vs
      else clear v # normalize_preferred_from pref clear found vs)"

definition normalizePreferred :: "contact_method list \<Rightarrow> contact_method list" where
  "normalizePreferred = normalize_preferred_from cm_preferred (\<lambda>m. m\<lparr>cm_preferred := False\<rparr>) False"

definition optional_property ::
  "card_world \<Rightarrow> card_property option \<Rightarrow> (card_error, string option) result" where
  "optional_property w p = (case p of None \<Rightarrow> Inr None | Some p \<Rightarrow> map_sum id Some (propertyText w p))"

definition name_of_parts :: "string list \<Rightarrow> contact_name" where
  "name_of_parts ps =
     \<lparr>cn_prefix = component_at ps 3, cn_given = component_at ps 1, cn_additional = component_at ps 2,
      cn_family = component_at ps 0, cn_suffix = component_at ps 4\<rparr>"

text \<open>\<open>[prefix, given, ...].filter(Boolean).join(" ") || emails[0]?.value.split("@")[0] || organization\<close>,
  \<^const>\<open>None\<close> for a value that counts as false.\<close>

definition fallback_name :: "contact_name \<Rightarrow> contact_method list \<Rightarrow> string option \<Rightarrow> string option" where
  "fallback_name n emails organization =
     (let parts = concat (map (case_option [] (\<lambda>t. [t]))
            [cn_prefix n, cn_given n, cn_additional n, cn_family n, cn_suffix n]);
          mailbox = (case emails of [] \<Rightarrow> [] | m # _ \<Rightarrow> hd (split_on (CHR ''@'') (cm_value m)))
      in if parts \<noteq> [] then Some (join '' '' parts)
         else if mailbox \<noteq> [] then Some mailbox
         else case organization of Some t \<Rightarrow> if t = [] then None else Some t | None \<Rightarrow> None)"

definition contactFromProperties ::
  "card_world \<Rightarrow> card_property list \<Rightarrow> (card_error, contact_input) result" where
  "contactFromProperties w ps =
     and_then (case first_property ps ''N'' of None \<Rightarrow> Inr [] | Some p \<Rightarrow> decodedPropertyValue w p) (\<lambda>nv.
     let n = name_of_parts (map unescapeText (splitUnescaped nv (CHR '';''))) in
     and_then (map_result (parseEmail w) (all_properties ps ''EMAIL'')) (\<lambda>es.
     let emails = normalizePreferred (deduplicate cm_value es) in
     and_then (map_result (parsePhone w) (all_properties ps ''TEL'')) (\<lambda>ts.
     let phones = normalizePreferred (deduplicate cm_value ts) in
     and_then (optional_property w (first_property ps ''ORG'')) (\<lambda>organization.
     and_then (case first_property ps ''FN'' of None \<Rightarrow> Inl OneFn | Some p \<Rightarrow> propertyText w p) (\<lambda>fn.
     and_then (map_result (parseAddress w) (all_properties ps ''ADR'')) (\<lambda>addresses.
     and_then (optional_property w
       (case first_property ps ''UID'' of Some p \<Rightarrow> if cp_value p = [] then None else Some p | None \<Rightarrow> None)) (\<lambda>uid.
     and_then (optional_property w (first_property ps ''NICKNAME'')) (\<lambda>nickname.
     and_then (optional_property w (first_property ps ''TITLE'')) (\<lambda>title.
     and_then (optional_property w (first_property ps ''NOTE'')) (\<lambda>notes.
       case createContactSchema w
         \<lparr>ci_uid = uid,
          ci_display_name = (if fn \<noteq> [] then fn else case fallback_name n emails organization of
                               Some t \<Rightarrow> t | None \<Rightarrow> ''Unnamed contact''),
          ci_name = n, ci_nickname = nickname, ci_emails = emails, ci_phones = phones, ci_addresses = addresses,
          ci_organization = (if organization = Some [] then None else organization),
          ci_title = title, ci_notes = notes\<rparr> of
         None \<Rightarrow> Inl SchemaRejected | Some c \<Rightarrow> Inr c))))))))))"

section \<open>Mailing lists\<close>

datatype member_reference = MemberUid string | MemberEmail string

definition contact_email_value :: "card_world \<Rightarrow> string \<Rightarrow> string option" where
  "contact_email_value w a =
     map_option cm_value (contactEmailSchema w \<lparr>cm_value = a, cm_types = [], cm_preferred = False\<rparr>)"

definition memberReference :: "card_world \<Rightarrow> card_property \<Rightarrow> (card_error, member_reference) result" where
  "memberReference w p = and_then (propertyText w p) (\<lambda>v.
     if starts_with ''urn:uuid:'' (lower v) then Inr (MemberUid (drop 9 v))
     else if starts_with ''urn:material-email:'' (lower v)
       then (case cw_decode_uri w (drop 19 v) of None \<Rightarrow> Inl MemberEncoding | Some u \<Rightarrow> Inr (MemberUid u))
     else if starts_with ''mailto:'' (lower v)
       then (case Option.bind (cw_decode_uri w (hd (split_on (CHR ''?'') (drop 7 v)))) (contact_email_value w) of
               None \<Rightarrow> Inl MemberAddress | Some a \<Rightarrow> Inr (MemberEmail a))
     else Inl (UnsupportedMember v))"

definition mailingListFromProperties ::
  "card_world \<Rightarrow> card_property list \<Rightarrow> (card_error, mailing_list_input) result" where
  "mailingListFromProperties w ps =
     and_then (map_result (memberReference w) (all_properties ps ''MEMBER'')) (\<lambda>rs.
     and_then (case first_property ps ''FN'' of None \<Rightarrow> Inl OneFn | Some p \<Rightarrow> propertyText w p) (\<lambda>fn.
     and_then (optional_property w (first_property ps ''UID'')) (\<lambda>uid.
     and_then (optional_property w (first_property ps ''NICKNAME'')) (\<lambda>nickname.
     and_then (optional_property w (first_property ps ''NOTE'')) (\<lambda>description.
       let uids = concat (map (\<lambda>r. case r of MemberUid u \<Rightarrow> [u] | MemberEmail _ \<Rightarrow> []) rs);
           emails = concat (map (\<lambda>r. case r of MemberUid _ \<Rightarrow> [] | MemberEmail a \<Rightarrow> [a]) rs)
       in case createMailingListSchema
            \<lparr>mi_uid = uid, mi_name = fn, mi_nickname = nickname, mi_description = description,
             mi_member_uids = deduplicate id uids, mi_member_emails = deduplicate id emails\<rparr> of
            None \<Rightarrow> Inl SchemaRejected | Some m \<Rightarrow> Inr m)))))"

section \<open>Bundles\<close>

text \<open>The loop over the lines: finished cards, and the properties of the open one.\<close>

fun card_blocks ::
  "card_property list list \<Rightarrow> card_property list option \<Rightarrow> string list \<Rightarrow>
   (card_error, card_property list list) result" where
  "card_blocks cards current [] =
     (if current \<noteq> None then Inl MissingEnd else if cards = [] then Inl NoRecords else Inr cards)"
| "card_blocks cards current (rawLine # ls) =
     (let line = trim_end rawLine in
      if line = [] then card_blocks cards current ls
      else if upper line = ''BEGIN:VCARD''
        then (if current \<noteq> None then Inl NestedCards else card_blocks cards (Some []) ls)
      else if upper line = ''END:VCARD''
        then (case current of None \<Rightarrow> Inl EndWithoutBegin
              | Some ps \<Rightarrow> if length (cards @ [ps]) > MAX_VCARDS then Inl TooManyCards
                           else card_blocks (cards @ [ps]) None ls)
      else (case current of None \<Rightarrow> Inl TextOutside
            | Some ps \<Rightarrow> (case parseProperty line of Inl e \<Rightarrow> Inl e
                          | Inr p \<Rightarrow> card_blocks cards (Some (ps @ [p])) ls)))"

record card_bundle =
  cb_contacts :: "contact_input list"
  cb_lists :: "mailing_list_input list"

text \<open>The header checks of one card; the result says whether it is a group.\<close>

definition card_header :: "card_world \<Rightarrow> card_property list \<Rightarrow> (card_error, bool) result" where
  "card_header w ps =
     (case all_properties ps ''VERSION'' of
        [v] \<Rightarrow> and_then (decodedPropertyValue w v) (\<lambda>version.
          if version \<noteq> ''3.0'' \<and> version \<noteq> ''4.0'' then Inl (UnsupportedVersion version)
          else if length (all_properties ps ''UID'') > 1 then Inl ManyUids
          else if length (all_properties ps ''FN'') \<noteq> 1 then Inl OneFn
          else if length (all_properties ps ''KIND'') > 1 then Inl ManyKinds
          else (case first_property ps ''KIND'' of None \<Rightarrow> Inr False
                | Some k \<Rightarrow> map_sum id (\<lambda>v. lower v = ''group'') (decodedPropertyValue w k)))
      | _ \<Rightarrow> Inl OneVersion)"

text \<open>\<open>contactUids\<close> and \<open>listUids\<close> hold the UIDs of the contacts and lists read so far.\<close>

fun read_cards ::
  "card_world \<Rightarrow> card_bundle \<Rightarrow> card_property list list \<Rightarrow> (card_error, card_bundle) result" where
  "read_cards w b [] = Inr b"
| "read_cards w b (ps # cards) =
     and_then (card_header w ps) (\<lambda>isGroup.
       if isGroup
       then and_then (mailingListFromProperties w ps) (\<lambda>m.
              case mi_uid m of
                Some u \<Rightarrow> if Some u \<in> mi_uid ` set (cb_lists b) then Inl (DuplicateListUid u)
                           else read_cards w (b\<lparr>cb_lists := cb_lists b @ [m]\<rparr>) cards
              | None \<Rightarrow> read_cards w (b\<lparr>cb_lists := cb_lists b @ [m]\<rparr>) cards)
       else and_then (contactFromProperties w ps) (\<lambda>c.
              case ci_uid c of
                Some u \<Rightarrow> if Some u \<in> ci_uid ` set (cb_contacts b) then Inl (DuplicateContactUid u)
                           else read_cards w (b\<lparr>cb_contacts := cb_contacts b @ [c]\<rparr>) cards
              | None \<Rightarrow> read_cards w (b\<lparr>cb_contacts := cb_contacts b @ [c]\<rparr>) cards))"

definition parseVCardBundle :: "card_world \<Rightarrow> string \<Rightarrow> (card_error, card_bundle) result" where
  "parseVCardBundle w source =
     (if byte_length source > MAX_VCARD_BYTES then Inl TooManyVcardBytes
      else and_then (card_blocks [] None (unfold_card source))
             (read_cards w \<lparr>cb_contacts = [], cb_lists = []\<rparr>))"

text \<open>A stored contact or list to be written: its UID, its fields and the time of its last change.\<close>

definition serializeVCardBundle ::
  "card_world \<Rightarrow> (string \<times> contact_input \<times> string) list \<Rightarrow> (string \<times> mailing_list_input \<times> string) list \<Rightarrow> string" where
  "serializeVCardBundle w contacts mailing =
     concat (map (\<lambda>(u, c, t). serializeContactVCard u c t) contacts) @
     concat (map (\<lambda>(u, m, t). serializeMailingListVCard w u m t) mailing)"

end
