(* ===== verification/Card_Round_Trip.thy ===== *)
theory Card_Round_Trip
  imports Card_Import
begin

text \<open>
  Exporting contacts as vCards and importing them again (\<open>src/main/pim/vcard.ts\<close>). The lemmas follow a
  property from its line to the parsed property, a card to its block, and a block to its contact; the
  property at the end puts them together for a bundle of contacts.
\<close>

section \<open>What is written\<close>

text \<open>A written property: name, value, types and the preference.\<close>

type_synonym card_part = "string \<times> string \<times> string list \<times> bool"

fun line_of :: "card_part \<Rightarrow> string" where
  "line_of (n, v, ts, p) = property_text_line n v ts p"

fun prop_of :: "card_part \<Rightarrow> card_property" where
  "prop_of (n, v, ts, p) =
     \<lparr>cp_name = n,
      cp_params = (if ts \<noteq> [] then [(''TYPE'', ts)] else []) @ (if p then [(''PREF'', [''1''])] else []),
      cp_value = v\<rparr>"

definition optional_part :: "string \<Rightarrow> string option \<Rightarrow> card_part list" where
  "optional_part n v = (case v of None \<Rightarrow> [] | Some t \<Rightarrow> if t = [] then [] else [(n, escapeText t, [], False)])"

definition contact_parts :: "string \<Rightarrow> contact_input \<Rightarrow> string \<Rightarrow> card_part list" where
  "contact_parts u c t =
     (let n = ci_name c in
      [(''UID'', escapeText u, [], False), (''FN'', escapeText (ci_display_name c), [], False),
       (''N'', structuredText [cn_family n, cn_given n, cn_additional n, cn_prefix n, cn_suffix n], [], False)] @
      optional_part ''NICKNAME'' (ci_nickname c) @
      map (\<lambda>m. (''EMAIL'', escapeText (cm_value m), cm_types m, cm_preferred m)) (ci_emails c) @
      map (\<lambda>m. (''TEL'', escapeText (cm_value m), cm_types m, cm_preferred m)) (ci_phones c) @
      map (\<lambda>a. (''ADR'', structuredText (address_parts a), ca_types a, ca_preferred a)) (ci_addresses c) @
      optional_part ''ORG'' (ci_organization c) @ optional_part ''TITLE'' (ci_title c) @
      optional_part ''NOTE'' (ci_notes c) @ [(''REV'', t, [], False)])"

definition list_parts :: "card_world \<Rightarrow> string \<Rightarrow> mailing_list_input \<Rightarrow> string \<Rightarrow> card_part list" where
  "list_parts w u m t =
     [(''UID'', escapeText u, [], False), (''KIND'', ''group'', [], False), (''FN'', escapeText (mi_name m), [], False)] @
     optional_part ''NICKNAME'' (mi_nickname m) @ optional_part ''NOTE'' (mi_description m) @
     map (\<lambda>x. (''MEMBER'', memberUri w x, [], False)) (mi_member_uids m) @ [(''REV'', t, [], False)]"

definition card_text_lines :: "card_part list \<Rightarrow> string list" where
  "card_text_lines parts = [''BEGIN:VCARD'', ''VERSION:4.0''] @ map line_of parts @ [''END:VCARD'']"

lemma foldLine_fixed:
  "foldLine ''BEGIN:VCARD'' = ''BEGIN:VCARD''" "foldLine ''VERSION:4.0'' = ''VERSION:4.0''"
  "foldLine ''END:VCARD'' = ''END:VCARD''" "foldLine ''KIND:group'' = ''KIND:group''"
  by code_simp+

lemma optional_line_part: "optional_line n v = map foldLine (map line_of (optional_part n v))"
  by (auto simp: optional_line_def optional_part_def propertyLine_def split: option.splits)

lemma contact_card_text:
  "serializeContactVCard u c t = folded_text (card_text_lines (contact_parts u c t))"
  by (simp add: serializeContactVCard_def folded_text_def card_text_lines_def contact_parts_def Let_def
      foldLine_fixed optional_line_part propertyLine_def comp_def del: join.simps)

lemma kind_line: "property_text_line ''KIND'' ''group'' [] False = ''KIND:group''"
  by (simp add: property_text_line_def parameters_of_def)

lemma list_card_text:
  "serializeMailingListVCard w u m t = folded_text (card_text_lines (list_parts w u m t))"
  by (simp add: serializeMailingListVCard_def folded_text_def card_text_lines_def list_parts_def Let_def
      foldLine_fixed optional_line_part propertyLine_def kind_line comp_def del: join.simps)

section \<open>A line and its property\<close>

definition type_ok :: "string \<Rightarrow> bool" where
  "type_ok t = (t \<noteq> [] \<and> lower t = t \<and> t \<noteq> ''pref''
     \<and> list_all (\<lambda>c. c \<noteq> quote_mark \<and> c \<noteq> backslash \<and> c \<noteq> CHR 13 \<and> c \<noteq> CHR 10) t)"

definition types_ok :: "string list \<Rightarrow> bool" where
  "types_ok ts = (list_all type_ok ts \<and> distinct ts)"

lemma quoteParameter_ok:
  assumes "type_ok t"
  shows "quoteParameter t = (if list_all is_parameter_char t then t else quote_mark # t @ [quote_mark])"
proof -
  have "map (\<lambda>c. if c = quote_mark \<or> c = CHR 13 \<or> c = CHR 10 then CHR 0x27 else c) t = t"
    using assms by (intro map_idI) (auto simp: type_ok_def list_all_iff)
  with assms show ?thesis by (simp add: quoteParameter_def type_ok_def)
qed

lemma parameter_char_plain:
  "is_parameter_char c \<Longrightarrow> c \<noteq> quote_mark \<and> c \<noteq> backslash \<and> c \<noteq> CHR '':'' \<and> c \<noteq> CHR '';'' \<and> c \<noteq> CHR '',''"
  by (auto simp: is_parameter_char_def is_ascii_upper_def is_ascii_lower_def is_digit_def quote_mark_def
      backslash_def code_def)

lemma colon_from_plain:
  "quote_mark \<notin> set xs \<Longrightarrow> CHR '':'' \<notin> set xs \<Longrightarrow>
   colon_from False (xs @ s) = map_option ((+) (length xs)) (colon_from False s)"
  by (cases "colon_from False s"; induction xs) auto

lemma colon_from_quoted:
  "quote_mark \<notin> set xs \<Longrightarrow> colon_from True (xs @ s) = map_option ((+) (length xs)) (colon_from True s)"
  by (cases "colon_from True s"; induction xs) auto

lemma colon_from_parameter:
  assumes "type_ok t"
  shows "colon_from False (quoteParameter t @ s) = map_option ((+) (length (quoteParameter t))) (colon_from False s)"
proof (cases "list_all is_parameter_char t")
  case True
  with assms show ?thesis
    by (simp add: quoteParameter_ok) (rule colon_from_plain; auto simp: list_all_iff dest: parameter_char_plain)
next
  case False
  have "quote_mark \<notin> set t" "quote_mark \<noteq> CHR '':''"
    using assms by (auto simp: type_ok_def list_all_iff quote_mark_def)
  with False assms show ?thesis
    by (cases "colon_from False s") (simp_all add: quoteParameter_ok colon_from_quoted)
qed

lemma colon_from_parameters:
  "list_all type_ok ts \<Longrightarrow> colon_from False (join '','' (map quoteParameter ts) @ s)
     = map_option ((+) (length (join '','' (map quoteParameter ts)))) (colon_from False s)"
proof (induction ts)
  case Nil
  then show ?case by (cases "colon_from False s") simp_all
next
  case (Cons t ts)
  have comma: "CHR '','' \<noteq> quote_mark" by (simp add: quote_mark_def)
  show ?case
  proof (cases ts)
    case Nil
    with Cons show ?thesis by (simp add: colon_from_parameter)
  next
    case (Cons a l)
    with Cons.IH Cons.prems comma show ?thesis
      by (cases "colon_from False s") (simp_all add: colon_from_parameter)
  qed
qed

lemma split_from_plain:
  "backslash \<notin> set xs \<Longrightarrow> quote_mark \<notin> set xs \<Longrightarrow> d \<notin> set xs \<Longrightarrow>
   split_from d False False cur (xs @ s) = split_from d False False (cur @ xs) s"
  by (induction xs arbitrary: cur) auto

lemma split_from_quoted:
  "backslash \<notin> set xs \<Longrightarrow> quote_mark \<notin> set xs \<Longrightarrow>
   split_from d False True cur (xs @ s) = split_from d False True (cur @ xs) s"
  by (induction xs arbitrary: cur) auto

lemma split_from_parameter:
  assumes "type_ok t" "d = CHR '';'' \<or> d = CHR '',''"
  shows "split_from d False False cur (quoteParameter t @ s) = split_from d False False (cur @ quoteParameter t) s"
proof (cases "list_all is_parameter_char t")
  case True
  with assms show ?thesis
    by (simp add: quoteParameter_ok) (rule split_from_plain; auto simp: list_all_iff dest: parameter_char_plain)
next
  case False
  have "quote_mark \<notin> set t" "backslash \<notin> set t"
    using assms(1) by (auto simp: type_ok_def list_all_iff)
  with False assms(1) split_from_quoted [of t d "cur @ [quote_mark]" "quote_mark # s"] show ?thesis
    by (simp add: quoteParameter_ok)
qed

lemma split_from_parameters:
  "list_all type_ok ts \<Longrightarrow> split_from (CHR '';'') False False cur (join '','' (map quoteParameter ts) @ s)
     = split_from (CHR '';'') False False (cur @ join '','' (map quoteParameter ts)) s"
proof (induction ts arbitrary: cur)
  case (Cons t ts)
  have comma: "CHR '','' \<noteq> quote_mark" "CHR '','' \<noteq> backslash" by (simp_all add: quote_mark_def backslash_def)
  show ?case
  proof (cases ts)
    case Nil
    with Cons show ?thesis by (simp add: split_from_parameter)
  next
    case (Cons a l)
    with Cons.IH Cons.prems comma show ?thesis by (simp add: split_from_parameter)
  qed
qed simp

lemma split_parameters:
  "list_all type_ok ts \<Longrightarrow> ts \<noteq> [] \<Longrightarrow>
   splitUnescaped (join '','' (map quoteParameter ts)) (CHR '','') = map quoteParameter ts"
proof (induction ts)
  case (Cons t ts)
  have comma: "CHR '','' \<noteq> quote_mark" "CHR '','' \<noteq> backslash" by (simp_all add: quote_mark_def backslash_def)
  show ?case
  proof (cases ts)
    case Nil
    with Cons split_from_parameter [of t "CHR '',''" "[]" "[]"] show ?thesis by (simp add: splitUnescaped_def)
  next
    case (Cons a l)
    with Cons.IH Cons.prems comma show ?thesis
      by (simp add: split_from_parameter splitUnescaped_def)
  qed
qed simp

lemma strip_quoted:
  assumes "type_ok t"
  shows "strip_quotes (quoteParameter t) = t"
proof -
  have q: "quote_mark \<notin> set t" "t \<noteq> []" using assms by (auto simp: type_ok_def list_all_iff)
  then have "hd t \<noteq> quote_mark" "last t \<noteq> quote_mark" by (metis hd_in_set, metis last_in_set)
  with q assms show ?thesis by (auto simp: quoteParameter_ok strip_quotes_def)
qed

text \<open>The names the writer uses.\<close>

definition written_names :: "string list" where
  "written_names = [''VERSION'', ''UID'', ''KIND'', ''FN'', ''N'', ''NICKNAME'', ''EMAIL'', ''TEL'', ''ADR'', ''ORG'', ''TITLE'',
     ''NOTE'', ''MEMBER'', ''REV'']"

lemma written_name_facts:
  "n \<in> set written_names \<Longrightarrow> n \<noteq> [] \<and> upper n = n \<and> last_index_of ''.'' n = None \<and>
     list_all (\<lambda>c. c \<notin> {quote_mark, backslash, CHR '':'', CHR '';'', CHR 10, CHR 13, CHR 9, CHR '' ''}) n"
  by (simp only: written_names_def list.set) (elim insertE emptyE; hypsubst; code_simp)

fun part_ok :: "card_part \<Rightarrow> bool" where
  "part_ok (n, v, ts, p) = (n \<in> set written_names \<and> types_ok ts)"

lemma map_strip_quoted: "list_all type_ok ts \<Longrightarrow> map (strip_quotes \<circ> quoteParameter) ts = ts"
  by (induction ts) (simp_all add: strip_quoted)

lemma add_types:
  assumes "list_all type_ok ts" "ts \<noteq> []"
  shows "add_parameter [] (''TYPE='' @ join '','' (map quoteParameter ts)) = [(''TYPE'', ts)]"
proof -
  have "index_of ''='' (''TYPE='' @ r) = Some 4" for r by (simp add: starts_with_def)
  moreover have "upper ''TYPE'' = ''TYPE''" by code_simp
  ultimately show ?thesis
    using split_parameters [OF assms] map_strip_quoted [OF assms(1)] by (simp add: add_parameter_def)
qed

lemma add_preference:
  assumes "params = [] \<or> params = [(''TYPE'', ts)]"
  shows "add_parameter params ''PREF=1'' = params @ [(''PREF'', [''1''])]"
proof -
  have "index_of ''='' ''PREF=1'' = Some 4" "upper ''PREF'' = ''PREF''" "map strip_quotes (splitUnescaped ''1'' (CHR '','')) = [''1'']"
    by code_simp+
  with assms show ?thesis by (auto simp: add_parameter_def)
qed

definition head_text :: "string \<Rightarrow> string list \<Rightarrow> bool \<Rightarrow> string" where
  "head_text n ts p =
     n @ (if ts \<noteq> [] then '';TYPE='' @ join '','' (map quoteParameter ts) else []) @ (if p then '';PREF=1'' else [])"

lemma line_of_head: "line_of (n, v, ts, p) = head_text n ts p @ '':'' @ v"
  by (simp add: property_text_line_def head_text_def parameters_of_def Let_def)

lemma delimiters [simp]:
  "CHR '':'' \<noteq> quote_mark" "CHR '';'' \<noteq> quote_mark" "CHR '';'' \<noteq> backslash" "CHR '':'' \<noteq> backslash"
  "CHR ''='' \<noteq> quote_mark" "CHR ''='' \<noteq> backslash" "CHR '','' \<noteq> quote_mark" "CHR '','' \<noteq> backslash"
  by (simp_all add: quote_mark_def backslash_def)

lemma colon_from_head:
  assumes "part_ok (n, v, ts, p)"
  shows "colon_from False (head_text n ts p @ '':'' @ v) = Some (length (head_text n ts p))"
proof -
  have n: "quote_mark \<notin> set n" "CHR '':'' \<notin> set n" and ts: "list_all type_ok ts"
    using assms written_name_facts [of n] by (auto simp: list_all_iff types_ok_def)
  show ?thesis
    using n by (cases p; cases "ts = []") (simp_all add: head_text_def colon_from_plain colon_from_parameters [OF ts] quote_mark_def)
qed

lemma split_head:
  assumes "part_ok (n, v, ts, p)"
  shows "splitUnescaped (head_text n ts p) (CHR '';'') =
    n # (if ts \<noteq> [] then [''TYPE='' @ join '','' (map quoteParameter ts)] else []) @ (if p then [''PREF=1''] else [])"
proof -
  have n: "quote_mark \<notin> set n" "CHR '';'' \<notin> set n" "backslash \<notin> set n" and ts: "list_all type_ok ts"
    using assms written_name_facts [of n] by (auto simp: list_all_iff types_ok_def)
  show ?thesis
    using n by (cases p; cases "ts = []")
      (simp_all add: splitUnescaped_def head_text_def split_from_plain split_from_parameters [OF ts]
        split_from_parameters [OF ts, of _ "[]", simplified]
        split_from_plain [of n _ _ "[]", simplified] quote_mark_def backslash_def)
qed

lemma parse_line:
  assumes "part_ok x"
  shows "parseProperty (line_of x) = Inr (prop_of x)"
proof -
  obtain n v ts p where x: "x = (n, v, ts, p)" by (cases x) auto
  with assms have ok: "part_ok (n, v, ts, p)" by simp
  have n: "n \<noteq> []" "upper n = n" "last_index_of ''.'' n = None" and ts: "list_all type_ok ts"
    using ok written_name_facts [of n] by (auto simp: types_ok_def)
  then obtain k where k: "length (head_text n ts p) = Suc k"
    by (cases n) (auto simp: head_text_def)
  have t: "take (Suc k) (head_text n ts p @ '':'' @ v) = head_text n ts p"
    "drop (Suc k + 1) (head_text n ts p @ '':'' @ v) = v"
    using k by simp_all
  define segments where "segments = splitUnescaped (head_text n ts p) (CHR '';'')"
  have "parseProperty (line_of x) = Inr \<lparr>cp_name = property_name (hd segments),
      cp_params = foldl add_parameter [] (tl segments), cp_value = v\<rparr>"
    by (simp only: parseProperty_def x line_of_head colon_from_head [OF ok] k t Let_def option.case nat.case segments_def)
  moreover note split_head [OF ok, folded segments_def]
  ultimately show ?thesis
    using n add_types [OF ts] add_preference [of "[]" ts] add_preference [of "[(''TYPE'', ts)]" ts]
    by (cases p; cases "ts = []") (simp_all add: property_name_def x)
qed

section \<open>A card and its block\<close>

lemma trim_end_id: "trim_end s = s \<longleftrightarrow> s = [] \<or> \<not> is_space (last s)"
proof (cases s rule: rev_cases)
  case (snoc xs x)
  have "length (dropWhile is_space (rev xs)) < Suc (length xs)"
    by (metis length_dropWhile_le length_rev less_Suc_eq_le)
  then have "rev (dropWhile is_space (rev xs)) \<noteq> xs @ [x]" by (metis length_append_singleton length_rev less_irrefl)
  with snoc show ?thesis by (simp add: trim_end_def)
qed (simp add: trim_end_def)

text \<open>A written line is read as it is: it does not end with white space and is no block marker.\<close>

lemma upper_append: "upper (a @ b) = upper a @ upper b"
  by (simp add: upper_def)

lemma not_a_marker:
  assumes "part_ok x"
  shows "upper (line_of x) \<noteq> ''BEGIN:VCARD'' \<and> upper (line_of x) \<noteq> ''END:VCARD'' \<and> line_of x \<noteq> []"
proof -
  obtain n v ts p where x: "x = (n, v, ts, p)" by (cases x) auto
  define r where "r = tl (drop (length n) (line_of x))"
  have "line_of x = n @ CHR '':'' # r \<or> line_of x = n @ CHR '';'' # r"
    unfolding r_def x line_of_head head_text_def by (cases p; cases "ts = []") simp_all
  then have u: "upper (line_of x) = n @ CHR '':'' # upper r \<or> upper (line_of x) = n @ CHR '';'' # upper r"
    using written_name_facts [of n] assms x by (auto simp: upper_append) (auto simp: upper_def upper_char_def is_ascii_lower_def code_def)
  moreover have "n \<in> set written_names" using assms x by simp
  ultimately show ?thesis
    using written_name_facts [of n] by (auto simp: written_names_def x line_of_head head_text_def simp del: line_of.simps)
qed

fun line_ok :: "card_part \<Rightarrow> bool" where
  "line_ok x = (part_ok x \<and> trim_end (line_of x) = line_of x)"

lemma read_block:
  "\<forall>x \<in> set parts. line_ok x \<Longrightarrow> length cards < MAX_VCARDS \<Longrightarrow>
   card_blocks cards (Some ps) (map line_of parts @ ''END:VCARD'' # rest)
     = card_blocks (cards @ [ps @ map prop_of parts]) None rest"
proof (induction parts arbitrary: ps)
  case Nil
  have "trim_end ''END:VCARD'' = ''END:VCARD''" "upper ''END:VCARD'' = ''END:VCARD''" by code_simp+
  with Nil show ?case by simp
next
  case (Cons x parts)
  then have ok: "part_ok x" "trim_end (line_of x) = line_of x" by simp_all
  have "card_blocks cards (Some ps) (line_of x # l) = card_blocks cards (Some (ps @ [prop_of x])) l" for l
    using not_a_marker [OF ok(1)] parse_line [OF ok(1)] by (simp add: ok(2))
  with Cons show ?case by simp
qed

lemma read_card_lines:
  assumes "\<forall>x \<in> set parts. line_ok x" "length cards < MAX_VCARDS"
  shows "card_blocks cards None (card_text_lines parts @ rest)
    = card_blocks (cards @ [prop_of (''VERSION'', ''4.0'', [], False) # map prop_of parts]) None rest"
proof -
  have "trim_end ''BEGIN:VCARD'' = ''BEGIN:VCARD''" "upper ''BEGIN:VCARD'' = ''BEGIN:VCARD''" by code_simp+
  then have "card_blocks cards None (card_text_lines parts @ rest)
    = card_blocks cards (Some []) (map line_of ((''VERSION'', ''4.0'', [], False) # parts) @ ''END:VCARD'' # rest)"
    by (simp add: card_text_lines_def property_text_line_def parameters_of_def del: map_append)
  also have "\<dots> = card_blocks (cards @ [[] @ map prop_of ((''VERSION'', ''4.0'', [], False) # parts)]) None rest"
  proof (rule read_block)
    have "trim_end ''VERSION:4.0'' = ''VERSION:4.0''" by code_simp
    then show "\<forall>x \<in> set ((''VERSION'', ''4.0'', [], False) # parts). line_ok x"
      using assms(1) by (simp add: written_names_def types_ok_def property_text_line_def parameters_of_def)
  qed (rule assms(2))
  finally show ?thesis by simp
qed

lemma read_all_cards:
  "\<forall>parts \<in> set pss. \<forall>x \<in> set parts. line_ok x \<Longrightarrow> length cards + length pss \<le> MAX_VCARDS \<Longrightarrow>
   cards \<noteq> [] \<or> pss \<noteq> [] \<Longrightarrow>
   card_blocks cards None (concat (map card_text_lines pss) @ [[]])
     = Inr (cards @ map (\<lambda>parts. prop_of (''VERSION'', ''4.0'', [], False) # map prop_of parts) pss)"
proof (induction pss arbitrary: cards)
  case Nil
  then show ?case by (simp add: trim_end_def)
next
  case (Cons parts pss)
  then show ?case
    using Cons.IH [of "cards @ [prop_of (''VERSION'', ''4.0'', [], False) # map prop_of parts]"]
    by (simp add: read_card_lines del: prop_of.simps)
qed

section \<open>A block and its contact\<close>

lemma parameter_of_part [simp]:
  "parameter (prop_of (n, v, ts, p)) ''ENCODING'' = []" "parameter (prop_of (n, v, ts, p)) ''TYPE'' = ts"
  "parameter (prop_of (n, v, ts, p)) ''PREF'' = (if p then [''1''] else [])"
  by (auto simp: parameter_def)

lemma text_of_part [simp]:
  "decodedPropertyValue w (prop_of (n, v, ts, p)) = Inr v"
  "propertyText w (prop_of (n, v, ts, p)) = Inr (unescapeText v)"
  "cp_value (prop_of (n, v, ts, p)) = v"
proof -
  show v: "cp_value (prop_of (n, v, ts, p)) = v" by simp
  show "decodedPropertyValue w (prop_of (n, v, ts, p)) = Inr v"
    by (simp add: decodedPropertyValue_def v del: prop_of.simps)
  then show "propertyText w (prop_of (n, v, ts, p)) = Inr (unescapeText v)"
    by (simp add: propertyText_def del: prop_of.simps)
qed

lemma types_of_part:
  assumes "types_ok ts"
  shows "propertyTypes (prop_of (n, v, ts, p)) = ts" "preferred (prop_of (n, v, ts, p)) = p"
proof -
  have "map lower ts = ts" "filter (\<lambda>v. v \<noteq> ''pref'') ts = ts"
    using assms by (auto simp: types_ok_def type_ok_def list_all_iff intro!: map_idI)
  then show "propertyTypes (prop_of (n, v, ts, p)) = ts"
    using assms by (simp add: propertyTypes_def types_ok_def unique_id del: prop_of.simps)
  show "preferred (prop_of (n, v, ts, p)) = p"
    using assms by (auto simp: preferred_def types_ok_def type_ok_def list_all_iff list_ex_iff simp del: prop_of.simps)
qed

definition named :: "string \<Rightarrow> card_part list \<Rightarrow> card_part list" where
  "named n parts = filter (\<lambda>x. fst x = n) parts"

lemma named_simps [simp]:
  "named n [] = []" "named n (x # xs) = (if fst x = n then x # named n xs else named n xs)"
  "named n (xs @ ys) = named n xs @ named n ys"
  "named n (optional_part m v) = (if n = m then optional_part m v else [])"
  "named n (map (\<lambda>z. (m, f z)) zs) = (if n = m then map (\<lambda>z. (m, f z)) zs else [])"
  by (auto simp: named_def optional_part_def filter_map comp_def split: option.splits)

lemma properties_of_parts:
  "all_properties (map prop_of parts) n = map prop_of (named n parts)"
  "first_property (map prop_of parts) n = (case named n parts of [] \<Rightarrow> None | x # _ \<Rightarrow> Some (prop_of x))"
  by (induction parts) (auto simp: all_properties_def first_property_def)

lemma map_result_map: "\<forall>x \<in> set xs. f (g x) = Inr (h x) \<Longrightarrow> map_result f (map g xs) = Inr (map h xs)"
  by (induction xs) auto

lemma dedup_from_id:
  "distinct (map (lower \<circ> key) vs) \<Longrightarrow> set (map (lower \<circ> key) vs) \<inter> set seen = {} \<Longrightarrow> dedup_from key seen vs = vs"
  by (induction key seen vs rule: dedup_from.induct) auto

lemma deduplicate_id: "uniqueStrings (map key vs) \<Longrightarrow> deduplicate key vs = vs"
  by (simp add: deduplicate_def uniqueStrings_def dedup_from_id)

lemma normalize_preferred_id:
  "length (filter pref vs) + (if found then 1 else 0) \<le> 1 \<Longrightarrow> normalize_preferred_from pref clear found vs = vs"
  by (induction pref clear found vs rule: normalize_preferred_from.induct) (auto split: if_splits)

text \<open>Structured values.\<close>

definition structured_ok :: "string option list \<Rightarrow> bool" where
  "structured_ok vs = list_all (\<lambda>v. case v of None \<Rightarrow> True
     | Some t \<Rightarrow> t \<noteq> [] \<and> trim t = t \<and> quote_mark \<notin> set t \<and> CHR 13 \<notin> set t) vs"

lemma unescape_plain: "CHR 13 \<notin> set t \<Longrightarrow> unescapeText (escapeText t) = t"
  by (simp add: unescape_escape unix_lines_def unix_lines_from_id)

lemma structured_parts:
  assumes "structured_ok vs" "vs \<noteq> []"
  shows "map unescapeText (splitUnescaped (structuredText vs) (CHR '';'')) = map (case_option [] id) vs"
proof -
  let ?ts = "map (case_option [] id) vs"
  have "splitUnescaped (join '';'' (map escapeText ?ts)) (CHR '';'') = map escapeText ?ts"
    using assms by (intro split_escaped_join) (auto simp: structured_ok_def list_all_iff split: option.splits)
  moreover have "map (unescapeText \<circ> escapeText) ?ts = ?ts"
    using assms(1) by (intro map_idI) (auto simp: structured_ok_def list_all_iff unescape_plain split: option.splits)
  ultimately show ?thesis by (simp add: structuredText_def comp_def)
qed

lemma component_of_parts:
  assumes "structured_ok vs" "i < length vs"
  shows "component_at (map (case_option [] id) vs) i = vs ! i"
  using assms by (cases "vs ! i") (auto simp: component_at_def structured_ok_def list_all_length)

lemma name_back:
  assumes "structured_ok [cn_family n, cn_given n, cn_additional n, cn_prefix n, cn_suffix n]" (is "structured_ok ?vs")
  shows "name_of_parts (map unescapeText (splitUnescaped (structuredText ?vs) (CHR '';''))) = n"
proof -
  have "component_at (map (case_option [] id) ?vs) i = ?vs ! i" if "i < 5" for i
    using component_of_parts [OF assms, of i] that by simp
  then show ?thesis by (simp only: structured_parts [OF assms list.distinct(2)] name_of_parts_def) simp
qed

lemma address_back:
  assumes "structured_ok (address_parts a)" "types_ok (ca_types a)"
  shows "parseAddress w (prop_of (''ADR'', structuredText (address_parts a), ca_types a, ca_preferred a)) = Inr a"
proof -
  have "address_parts a \<noteq> []" by (simp add: address_parts_def)
  note parts = structured_parts [OF assms(1) this]
  have "component_at (map (case_option [] id) (address_parts a)) i = address_parts a ! i" if "i < 7" for i
    using component_of_parts [OF assms(1), of i] that by (simp add: address_parts_def)
  then show ?thesis
    by (simp add: parseAddress_def parts Let_def types_of_part [OF assms(2)] del: prop_of.simps)
       (simp add: address_parts_def)
qed

lemma method_back:
  assumes "types_ok (cm_types m)" "CHR 13 \<notin> set (cm_value m)" "\<not> starts_with scheme (lower (cm_value m))"
  shows "parse_method w scheme (prop_of (n, escapeText (cm_value m), cm_types m, cm_preferred m)) = Inr m"
  using assms by (simp add: parse_method_def types_of_part unescape_plain strip_scheme_def del: prop_of.simps)

section \<open>Contacts that can be exported\<close>

definition with_uid :: "string \<Rightarrow> contact_input \<Rightarrow> contact_input" where
  "with_uid u c = c\<lparr>ci_uid := Some u\<rparr>"

definition name_list :: "contact_name \<Rightarrow> string option list" where
  "name_list n = [cn_family n, cn_given n, cn_additional n, cn_prefix n, cn_suffix n]"

definition no_cr :: "string option \<Rightarrow> bool" where
  "no_cr v = (case v of None \<Rightarrow> True | Some t \<Rightarrow> CHR 13 \<notin> set t)"

text \<open>A contact the schema accepts as it is, without carriage returns, without quotation marks in its
  name and addresses, with types and values the syntax can carry, and with no line that looks like a
  quoted-printable declaration.\<close>

definition exportable :: "card_world \<Rightarrow> string \<Rightarrow> contact_input \<Rightarrow> string \<Rightarrow> bool" where
  "exportable w u c t =
     (createContactSchema w (with_uid u c) = Some (with_uid u c) \<and>
      list_all no_cr ([Some (ci_display_name c), ci_nickname c, ci_organization c, ci_title c, ci_notes c]) \<and>
      list_all no_cr (name_list (ci_name c) @ concat (map address_parts (ci_addresses c))) \<and>
      list_all (\<lambda>v. case v of None \<Rightarrow> True | Some s \<Rightarrow> quote_mark \<notin> set s)
        (name_list (ci_name c) @ concat (map address_parts (ci_addresses c))) \<and>
      list_all types_ok (map cm_types (ci_emails c) @ map cm_types (ci_phones c) @ map ca_types (ci_addresses c)) \<and>
      list_all (\<lambda>m. trim (cm_value m) = cm_value m \<and> CHR 13 \<notin> set (cm_value m)
         \<and> \<not> starts_with ''mailto:'' (lower (cm_value m))) (ci_emails c) \<and>
      list_all (\<lambda>m. CHR 13 \<notin> set (cm_value m) \<and> \<not> starts_with ''tel:'' (lower (cm_value m))) (ci_phones c) \<and>
      list_all (\<lambda>x. \<not> quoted_printable_marked (line_of x)) (contact_parts u c t) \<and>
      trim t = t \<and> line_text t)"

lemma all_some_fixed: "all_some (map f xs) = Some xs \<Longrightarrow> \<forall>x \<in> set xs. f x = Some x"
  by (induction xs) (auto split: option.splits)

lemma list_schema_fixed: "list_schema n f xs = Some xs \<Longrightarrow> \<forall>x \<in> set xs. f x = Some x"
  by (auto simp: list_schema_def dest: all_some_fixed split: if_splits)

lemma shortText_fixed: "shortText n t = Some t \<Longrightarrow> trim t = t \<and> t \<noteq> []"
  by (auto simp: shortText_def Let_def split: if_splits)

definition trimmed :: "string option \<Rightarrow> bool" where
  "trimmed v = (case v of None \<Rightarrow> True | Some t \<Rightarrow> trim t = t \<and> t \<noteq> [])"

lemma optionalText_fixed: "optionalText n v = Some v \<Longrightarrow> trimmed v"
  by (auto simp: optionalText_def trimmed_def split: option.splits dest: shortText_fixed)

lemma uidSchema_fixed: "uidSchema u = Some u \<Longrightarrow> trim u = u \<and> u \<noteq> [] \<and> CHR 13 \<notin> set u"
  by (auto simp: uidSchema_def list_ex_iff is_control_def code_def split: option.splits if_splits dest: shortText_fixed)

lemma name_fixed: "contactNameSchema n = Some n \<Longrightarrow> list_all trimmed (name_list n)"
  by (cases n) (auto simp: contactNameSchema_def name_list_def split: option.splits dest!: optionalText_fixed)

lemma address_fixed: "contactAddressSchema a = Some a \<Longrightarrow> list_all trimmed (address_parts a)"
  by (cases a) (auto simp: contactAddressSchema_def address_parts_def Let_def split: option.splits if_splits dest!: optionalText_fixed)

lemma phone_fixed: "contactPhoneSchema m = Some m \<Longrightarrow> trim (cm_value m) = cm_value m \<and> cm_value m \<noteq> []"
  by (cases m) (auto simp: contactPhoneSchema_def split: option.splits dest!: shortText_fixed)

lemma contact_fixed:
  assumes "createContactSchema w c = Some c"
  shows "case ci_uid c of None \<Rightarrow> True | Some u \<Rightarrow> uidSchema u = Some u"
    and "shortText 300 (ci_display_name c) = Some (ci_display_name c)"
    and "contactNameSchema (ci_name c) = Some (ci_name c)"
    and "trimmed (ci_nickname c)" "trimmed (ci_organization c)" "trimmed (ci_title c)" "trimmed (ci_notes c)"
    and "\<forall>m \<in> set (ci_phones c). contactPhoneSchema m = Some m"
    and "\<forall>a \<in> set (ci_addresses c). contactAddressSchema a = Some a"
    and "validateContactMethods c"
proof -
  have all: "(case ci_uid c of None \<Rightarrow> Some None | Some u \<Rightarrow> map_option Some (uidSchema u)) = Some (ci_uid c)
     \<and> shortText 300 (ci_display_name c) = Some (ci_display_name c)
     \<and> contactNameSchema (ci_name c) = Some (ci_name c) \<and> optionalText 120 (ci_nickname c) = Some (ci_nickname c)
     \<and> list_schema 100 contactPhoneSchema (ci_phones c) = Some (ci_phones c)
     \<and> list_schema 50 contactAddressSchema (ci_addresses c) = Some (ci_addresses c)
     \<and> optionalText 300 (ci_organization c) = Some (ci_organization c) \<and> optionalText 300 (ci_title c) = Some (ci_title c)
     \<and> optionalText 16384 (ci_notes c) = Some (ci_notes c) \<and> validateContactMethods c"
    using assms by (cases c) (simp add: createContactSchema_def Let_def split: option.splits if_splits)
  then show "case ci_uid c of None \<Rightarrow> True | Some u \<Rightarrow> uidSchema u = Some u" by (auto split: option.splits)
  from all show "trimmed (ci_nickname c)" "trimmed (ci_organization c)" "trimmed (ci_title c)" "trimmed (ci_notes c)"
    by (blast dest: optionalText_fixed)+
  from all show "\<forall>m \<in> set (ci_phones c). contactPhoneSchema m = Some m" "\<forall>a \<in> set (ci_addresses c). contactAddressSchema a = Some a"
    by (blast dest: list_schema_fixed)+
  from all show "shortText 300 (ci_display_name c) = Some (ci_display_name c)"
    "contactNameSchema (ci_name c) = Some (ci_name c)" "validateContactMethods c" by blast+
qed

lemma structured_ok_parts:
  assumes "list_all trimmed vs" "list_all no_cr vs" "list_all (\<lambda>v. case v of None \<Rightarrow> True | Some s \<Rightarrow> quote_mark \<notin> set s) vs"
  shows "structured_ok vs"
  using assms by (auto simp: structured_ok_def list_all_iff trimmed_def no_cr_def split: option.splits)

lemma optional_back:
  assumes "trimmed v" "no_cr v"
  shows "optional_property w (case optional_part n v of [] \<Rightarrow> None | x # _ \<Rightarrow> Some (prop_of x)) = Inr v"
  using assms
  by (cases v) (auto simp: optional_part_def optional_property_def trimmed_def no_cr_def unescape_plain simp del: prop_of.simps)

lemma map_result_back: "\<forall>x \<in> set xs. f (prop_of (g x)) = Inr x \<Longrightarrow> map_result f (map prop_of (map g xs)) = Inr xs"
  by (induction xs) auto

lemma exportable_facts:
  assumes "exportable w u c t"
  shows "list_all no_cr [Some (ci_display_name c), ci_nickname c, ci_organization c, ci_title c, ci_notes c]"
    and "structured_ok (name_list (ci_name c))"
    and "\<forall>m \<in> set (ci_emails c). types_ok (cm_types m) \<and> trim (cm_value m) = cm_value m \<and> CHR 13 \<notin> set (cm_value m)
           \<and> \<not> starts_with ''mailto:'' (lower (cm_value m))"
    and "\<forall>m \<in> set (ci_phones c). types_ok (cm_types m) \<and> trim (cm_value m) = cm_value m \<and> CHR 13 \<notin> set (cm_value m)
           \<and> \<not> starts_with ''tel:'' (lower (cm_value m))"
    and "\<forall>a \<in> set (ci_addresses c). types_ok (ca_types a) \<and> structured_ok (address_parts a)"
proof -
  have fixed: "createContactSchema w (with_uid u c) = Some (with_uid u c)"
    using assms by (simp add: exportable_def)
  have parts [simp]: "ci_name (with_uid u c) = ci_name c" "ci_phones (with_uid u c) = ci_phones c"
    "ci_addresses (with_uid u c) = ci_addresses c" by (simp_all add: with_uid_def)
  note schema = contact_fixed [OF fixed, simplified]
  show "list_all no_cr [Some (ci_display_name c), ci_nickname c, ci_organization c, ci_title c, ci_notes c]"
    using assms by (simp add: exportable_def)
  show "structured_ok (name_list (ci_name c))"
    using assms by (intro structured_ok_parts name_fixed [OF schema(3)]) (simp_all add: exportable_def)
  show "\<forall>m \<in> set (ci_emails c). types_ok (cm_types m) \<and> trim (cm_value m) = cm_value m \<and> CHR 13 \<notin> set (cm_value m)
           \<and> \<not> starts_with ''mailto:'' (lower (cm_value m))"
    using assms by (simp add: exportable_def list_all_iff)
  show "\<forall>m \<in> set (ci_phones c). types_ok (cm_types m) \<and> trim (cm_value m) = cm_value m \<and> CHR 13 \<notin> set (cm_value m)
           \<and> \<not> starts_with ''tel:'' (lower (cm_value m))"
    using assms schema(8) phone_fixed by (auto simp: exportable_def list_all_iff)
  show "\<forall>a \<in> set (ci_addresses c). types_ok (ca_types a) \<and> structured_ok (address_parts a)"
  proof
    fix a
    assume a: "a \<in> set (ci_addresses c)"
    then have "list_all trimmed (address_parts a)" using schema(9) address_fixed by blast
    then show "types_ok (ca_types a) \<and> structured_ok (address_parts a)"
      using assms a by (intro conjI structured_ok_parts) (auto simp: exportable_def list_all_iff)
  qed
qed

lemma contact_lists_back:
  assumes "exportable w u c t"
  shows "map_result (parseEmail w) (map prop_of (named ''EMAIL'' (contact_parts u c t))) = Inr (ci_emails c)"
    and "map_result (parsePhone w) (map prop_of (named ''TEL'' (contact_parts u c t))) = Inr (ci_phones c)"
    and "map_result (parseAddress w) (map prop_of (named ''ADR'' (contact_parts u c t))) = Inr (ci_addresses c)"
  using exportable_facts(3-5) [OF assms]
  by (auto simp: contact_parts_def Let_def parseEmail_def parsePhone_def
      intro!: map_result_back method_back address_back simp del: map_map prop_of.simps)

definition version_prop :: card_property where
  "version_prop = prop_of (''VERSION'', ''4.0'', [], False)"

lemma version_apart:
  "n \<noteq> ''VERSION'' \<Longrightarrow> all_properties (version_prop # ps) n = all_properties ps n"
  "n \<noteq> ''VERSION'' \<Longrightarrow> first_property (version_prop # ps) n = first_property ps n"
  by (simp_all add: version_prop_def all_properties_def first_property_def)

lemma contact_named:
  "named ''UID'' (contact_parts u c t) = [(''UID'', escapeText u, [], False)]"
  "named ''FN'' (contact_parts u c t) = [(''FN'', escapeText (ci_display_name c), [], False)]"
  "named ''N'' (contact_parts u c t) = [(''N'', structuredText (name_list (ci_name c)), [], False)]"
  "named ''NICKNAME'' (contact_parts u c t) = optional_part ''NICKNAME'' (ci_nickname c)"
  "named ''ORG'' (contact_parts u c t) = optional_part ''ORG'' (ci_organization c)"
  "named ''TITLE'' (contact_parts u c t) = optional_part ''TITLE'' (ci_title c)"
  "named ''NOTE'' (contact_parts u c t) = optional_part ''NOTE'' (ci_notes c)"
  "named ''VERSION'' (contact_parts u c t) = []" "named ''KIND'' (contact_parts u c t) = []"
  by (simp_all add: contact_parts_def Let_def name_list_def)

lemma escaped_nonempty: "t \<noteq> [] \<Longrightarrow> CHR 13 \<notin> set t \<Longrightarrow> escapeText t \<noteq> []"
  using unescape_plain [of t] by auto

lemma optional_property_simps:
  "optional_property w None = Inr None" "optional_property w (Some p) = map_sum id Some (propertyText w p)"
  by (simp_all add: optional_property_def)

lemma with_uid_record:
  "\<lparr>ci_uid = Some u, ci_display_name = ci_display_name c, ci_name = ci_name c, ci_nickname = ci_nickname c,
    ci_emails = ci_emails c, ci_phones = ci_phones c, ci_addresses = ci_addresses c,
    ci_organization = ci_organization c, ci_title = ci_title c, ci_notes = ci_notes c\<rparr> = with_uid u c"
  by (cases c) (simp add: with_uid_def)

lemma contact_back:
  assumes "exportable w u c t"
  shows "contactFromProperties w (version_prop # map prop_of (contact_parts u c t)) = Inr (with_uid u c)"
proof -
  note facts = exportable_facts [OF assms]
  have fixed: "createContactSchema w (with_uid u c) = Some (with_uid u c)"
    using assms by (simp add: exportable_def)
  have parts: "ci_uid (with_uid u c) = Some u" "ci_display_name (with_uid u c) = ci_display_name c"
    "ci_name (with_uid u c) = ci_name c" "ci_nickname (with_uid u c) = ci_nickname c"
    "ci_organization (with_uid u c) = ci_organization c" "ci_title (with_uid u c) = ci_title c"
    "ci_notes (with_uid u c) = ci_notes c" "ci_emails (with_uid u c) = ci_emails c"
    "ci_phones (with_uid u c) = ci_phones c" "ci_addresses (with_uid u c) = ci_addresses c"
    by (simp_all add: with_uid_def)
  note schema = contact_fixed [OF fixed, unfolded parts option.case]
  have uid: "u \<noteq> []" "CHR 13 \<notin> set u" using uidSchema_fixed [OF schema(1)] by auto
  have fn: "ci_display_name c \<noteq> []" "CHR 13 \<notin> set (ci_display_name c)"
    using shortText_fixed [OF schema(2)] facts(1) by (auto simp: no_cr_def)
  have org: "ci_organization c \<noteq> Some []" using schema(5) by (auto simp: trimmed_def)
  have unique_methods: "deduplicate cm_value (ci_emails c) = ci_emails c" "deduplicate cm_value (ci_phones c) = ci_phones c"
    "normalizePreferred (ci_emails c) = ci_emails c" "normalizePreferred (ci_phones c) = ci_phones c"
    using schema(10)
    by (auto simp: validateContactMethods_def parts normalizePreferred_def intro!: deduplicate_id normalize_preferred_id)
  have optional: "optional_property w (case optional_part n (ci_nickname c) of [] \<Rightarrow> None | x # _ \<Rightarrow> Some (prop_of x)) = Inr (ci_nickname c)"
    "optional_property w (case optional_part n (ci_organization c) of [] \<Rightarrow> None | x # _ \<Rightarrow> Some (prop_of x)) = Inr (ci_organization c)"
    "optional_property w (case optional_part n (ci_title c) of [] \<Rightarrow> None | x # _ \<Rightarrow> Some (prop_of x)) = Inr (ci_title c)"
    "optional_property w (case optional_part n (ci_notes c) of [] \<Rightarrow> None | x # _ \<Rightarrow> Some (prop_of x)) = Inr (ci_notes c)" for n
    using schema(4-7) facts(1) by (auto intro!: optional_back)
  have name: "name_of_parts (map unescapeText (splitUnescaped (structuredText (name_list (ci_name c))) (CHR '';''))) = ci_name c"
    using name_back [of "ci_name c"] facts(2) by (simp add: name_list_def)
  show ?thesis
    using fixed
    by (simp add: contactFromProperties_def version_apart properties_of_parts contact_named contact_lists_back [OF assms]
        optional unique_methods name uid fn org unescape_plain escaped_nonempty Let_def optional_property_simps with_uid_record
        del: prop_of.simps)
qed

section \<open>Written lines\<close>

definition value_ok :: "string \<Rightarrow> bool" where
  "value_ok v = (line_text v \<and> (v = [] \<or> \<not> is_space (last v)))"

lemma line_text_simps:
  "line_text []" "line_text (c # s) = (c \<noteq> CHR 10 \<and> c \<noteq> CHR 13 \<and> line_text s)"
  "line_text (a @ b) = (line_text a \<and> line_text b)"
  by (auto simp: line_text_def)

lemma line_text_join: "line_text sep \<Longrightarrow> \<forall>p \<in> set ps. line_text p \<Longrightarrow> line_text (join sep ps)"
  by (induction sep ps rule: join.induct) (auto simp: line_text_simps)

lemma line_text_parameter: "type_ok t \<Longrightarrow> line_text (quoteParameter t)"
  by (auto simp: quoteParameter_ok line_text_simps) (auto simp: type_ok_def line_text_def list_all_iff quote_mark_def)

lemma written_line:
  assumes "part_ok (n, v, ts, p)" "value_ok v"
  shows "line_ok (n, v, ts, p)" "line_text (line_of (n, v, ts, p))" "\<not> starts_blank (line_of (n, v, ts, p))"
    "line_of (n, v, ts, p) \<noteq> []"
proof -
  have n: "n \<noteq> []" "list_all (\<lambda>c. c \<notin> {quote_mark, backslash, CHR '':'', CHR '';'', CHR 10, CHR 13, CHR 9, CHR '' ''}) n"
    and ts: "\<forall>t \<in> set ts. type_ok t"
    using assms(1) written_name_facts [of n] by (auto simp: types_ok_def list_all_iff)
  have "\<not> is_space (CHR '':'')" by code_simp
  then have "trim_end (line_of (n, v, ts, p)) = line_of (n, v, ts, p)"
    using assms(2) by (auto simp: trim_end_id line_of_head value_ok_def simp del: line_of.simps)
  with assms(1) show "line_ok (n, v, ts, p)" by simp
  have "line_text n" using n(2) by (auto simp: line_text_def list_all_iff)
  moreover have "line_text (join '','' (map quoteParameter ts))"
    using ts by (intro line_text_join) (auto simp: line_text_simps line_text_parameter)
  ultimately show "line_text (line_of (n, v, ts, p))"
    using assms(2) by (auto simp: line_of_head head_text_def value_ok_def line_text_simps simp del: line_of.simps)
  show "line_of (n, v, ts, p) \<noteq> []" by (simp add: line_of_head del: line_of.simps)
  show "\<not> starts_blank (line_of (n, v, ts, p))"
    using n by (cases n) (auto simp: starts_blank_def line_of_head head_text_def simp del: line_of.simps)
qed

lemma esc_last: "\<not> is_space c \<Longrightarrow> \<not> is_space (last (esc c))"
  by (auto simp: esc_def line_feed_def) (auto simp: is_space_def code_def backslash_def)

lemma esc_line_text: "c \<noteq> CHR 13 \<Longrightarrow> line_text (esc c)"
  by (auto simp: esc_def line_feed_def line_text_def backslash_def)

lemma escaped_value_ok:
  assumes "trim t = t"
  shows "value_ok (escapeText t)"
proof (cases t rule: rev_cases)
  case Nil
  then show ?thesis by (simp add: escapeText_esc unix_lines_def value_ok_def line_text_def)
next
  case (snoc s c)
  have "trim_end t = t" using assms by (metis trim_def trim_end_idem)
  with snoc have c: "\<not> is_space c" by (simp add: trim_end_id)
  have "unix_lines (s @ [c]) = unix_lines s @ [c]"
  proof -
    have "c \<noteq> CHR 13 \<and> c \<noteq> CHR 10" using c by (auto simp: is_space_def code_def)
    then have "unix_lines_from b (s @ [c]) = unix_lines_from b s @ [c]" for b
      by (induction b s rule: unix_lines_from.induct) auto
    then show ?thesis by (simp add: unix_lines_def)
  qed
  then have e: "escapeText t = escapeText s @ esc c" by (simp add: escapeText_esc snoc)
  have "esc c \<noteq> []" by (simp add: esc_def)
  moreover have "line_text (escapeText t)"
  proof -
    have "\<forall>x \<in> set xs. x \<noteq> CHR 13 \<Longrightarrow> line_text (concat (map esc xs))" for xs
      by (induction xs) (auto simp: line_text_simps esc_line_text)
    then show ?thesis using unix_lines_from_no_cr [of False t] by (auto simp: escapeText_esc unix_lines_def)
  qed
  ultimately show ?thesis using c esc_last by (simp add: value_ok_def e)
qed

lemma join_value_ok:
  "\<not> is_space d \<Longrightarrow> line_text [d] \<Longrightarrow> \<forall>p \<in> set ps. value_ok p \<Longrightarrow> value_ok (join [d] ps)"
proof (induction "[d]" ps rule: join.induct)
  case (3 p q ps)
  then have "value_ok (join [d] (q # ps))" "value_ok p" by simp_all
  with 3(2,3) show ?case by (auto simp: value_ok_def line_text_simps)
qed (auto simp: value_ok_def line_text_def)

lemma structured_value_ok: "structured_ok vs \<Longrightarrow> value_ok (structuredText vs)"
proof -
  assume "structured_ok vs"
  then have "\<forall>p \<in> set (map (\<lambda>v. escapeText (case_option [] id v)) vs). value_ok p"
    by (auto simp: structured_ok_def list_all_iff trim_def trim_start_def trim_end_def split: option.splits intro!: escaped_value_ok)
  moreover have "\<not> is_space (CHR '';'')" by code_simp
  ultimately show "value_ok (structuredText vs)"
    unfolding structuredText_def by (intro join_value_ok) (auto simp: line_text_def)
qed

fun good_part :: "card_part \<Rightarrow> bool" where
  "good_part (n, v, ts, p) = (n \<in> set written_names \<and> types_ok ts \<and> value_ok v)"

lemma good_optional_part:
  "trimmed v \<Longrightarrow> n \<in> set written_names \<Longrightarrow> list_all good_part (optional_part n v)"
  by (auto simp: optional_part_def trimmed_def types_ok_def split: option.splits intro: escaped_value_ok)

lemma good_part_map:
  "n \<in> set written_names \<Longrightarrow> \<forall>x \<in> set xs. types_ok (g x) \<and> value_ok (f x) \<Longrightarrow>
   list_all good_part (map (\<lambda>x. (n, f x, g x, h x)) xs)"
  by (auto simp: list_all_iff)

lemma written_name_list:
  "list_all (\<lambda>n. n \<in> set written_names) [''UID'', ''KIND'', ''FN'', ''N'', ''NICKNAME'', ''EMAIL'', ''TEL'', ''ADR'', ''ORG'', ''TITLE'', ''NOTE'',
     ''MEMBER'', ''REV'']"
  by code_simp

lemmas written_name_members [simp] = written_name_list [simplified]

lemma types_ok_Nil [simp]: "types_ok []"
  by (simp add: types_ok_def)

section \<open>Whole cards\<close>

fun writable :: "card_part \<Rightarrow> bool" where
  "writable (n, v, ts, p) = (part_ok (n, v, ts, p) \<and> value_ok v \<and> \<not> quoted_printable_marked (line_of (n, v, ts, p)))"

lemma writable_line:
  assumes "writable x"
  shows "line_ok x" "plain_line (line_of x)"
  using assms written_line by (cases x; simp add: plain_line_def del: line_of.simps line_ok.simps part_ok.simps)+

lemma writable_card:
  assumes "\<forall>x \<in> set parts. writable x"
  shows "\<forall>l \<in> set (card_text_lines parts). plain_line l"
proof -
  have "plain_line ''BEGIN:VCARD''" "plain_line ''VERSION:4.0''" "plain_line ''END:VCARD''" by code_simp+
  then show ?thesis using assms writable_line(2) by (auto simp: card_text_lines_def)
qed

lemma folded_text_append: "xs \<noteq> [] \<Longrightarrow> ys \<noteq> [] \<Longrightarrow> folded_text (xs @ ys) = folded_text xs @ folded_text ys"
  by (simp add: folded_text_def join_append)

lemma folded_text_concat:
  "\<forall>xs \<in> set xss. xs \<noteq> [] \<Longrightarrow> xss \<noteq> [] \<Longrightarrow> folded_text (concat xss) = concat (map folded_text xss)"
proof (induction xss)
  case (Cons xs xss)
  show ?case
  proof (cases "xss = []")
    case False
    then have "concat xss \<noteq> []" using Cons.prems(1) by (cases xss) auto
    with Cons False show ?thesis by (simp add: folded_text_append)
  qed simp
qed simp

text \<open>Any bundle of writable cards is read as the blocks it was written from.\<close>

lemma bundle_blocks:
  assumes "\<forall>parts \<in> set pss. \<forall>x \<in> set parts. writable x" "pss \<noteq> []" "length pss \<le> MAX_VCARDS"
  shows "card_blocks [] None (unfold_card (concat (map (\<lambda>parts. folded_text (card_text_lines parts)) pss)))
    = Inr (map (\<lambda>parts. version_prop # map prop_of parts) pss)"
proof -
  let ?ls = "concat (map card_text_lines pss)"
  have "concat (map (\<lambda>parts. folded_text (card_text_lines parts)) pss) = folded_text ?ls"
    using folded_text_concat [of "map card_text_lines pss"] assms(2) by (simp add: comp_def card_text_lines_def)
  moreover have "?ls \<noteq> []" using assms(2) by (cases pss) (auto simp: card_text_lines_def)
  moreover have "\<forall>l \<in> set ?ls. plain_line l"
    using assms(1) writable_card by auto
  ultimately have "unfold_card (concat (map (\<lambda>parts. folded_text (card_text_lines parts)) pss)) = ?ls @ [[]]"
    by (simp add: unfold_card_folded)
  moreover have "card_blocks [] None (?ls @ [[]]) = Inr ([] @ map (\<lambda>parts. version_prop # map prop_of parts) pss)"
    unfolding version_prop_def
  proof (rule read_all_cards)
    show "\<forall>parts \<in> set pss. \<forall>x \<in> set parts. line_ok x" using assms(1) writable_line(1) by blast
  qed (use assms in simp_all)
  ultimately show ?thesis by simp
qed

lemma contact_writable:
  assumes "exportable w u c t"
  shows "\<forall>x \<in> set (contact_parts u c t). writable x"
proof -
  note facts = exportable_facts [OF assms]
  have fixed: "createContactSchema w (with_uid u c) = Some (with_uid u c)"
    and t: "trim t = t" "line_text t" and qp: "\<forall>x \<in> set (contact_parts u c t). \<not> quoted_printable_marked (line_of x)"
    using assms by (simp_all add: exportable_def list_all_iff)
  note schema = contact_fixed [OF fixed, unfolded with_uid_def, simplified]
  have "value_ok t" using t by (metis trim_def trim_end_id trim_end_idem value_ok_def)
  moreover have "value_ok (escapeText u)" "value_ok (escapeText (ci_display_name c))"
    using uidSchema_fixed [OF schema(1)] shortText_fixed [OF schema(2)] by (auto intro: escaped_value_ok)
  moreover have "value_ok (structuredText (name_list (ci_name c)))" using facts(2) by (rule structured_value_ok)
  moreover have "\<forall>m \<in> set (ci_emails c). types_ok (cm_types m) \<and> value_ok (escapeText (cm_value m))"
    "\<forall>m \<in> set (ci_phones c). types_ok (cm_types m) \<and> value_ok (escapeText (cm_value m))"
    using facts(3,4) by (auto intro: escaped_value_ok)
  moreover have "\<forall>a \<in> set (ci_addresses c). types_ok (ca_types a) \<and> value_ok (structuredText (address_parts a))"
    using facts(5) by (auto intro: structured_value_ok)
  ultimately have "list_all good_part (contact_parts u c t)"
    unfolding contact_parts_def Let_def list_all_append
    by (intro conjI good_part_map good_optional_part written_name_members schema(4-7)) (simp_all add: name_list_def)
  with qp show ?thesis by (auto simp: list_all_iff simp del: line_of.simps)
qed

section \<open>Mailing lists that can be exported\<close>

definition with_list_uid :: "string \<Rightarrow> mailing_list_input \<Rightarrow> mailing_list_input" where
  "with_list_uid u m = m\<lparr>mi_uid := Some u, mi_member_emails := []\<rparr>"

text \<open>The characters \<open>encodeURIComponent\<close> leaves or writes.\<close>

definition uri_unit :: "char \<Rightarrow> bool" where
  "uri_unit c = (is_ascii_upper c \<or> is_ascii_lower c \<or> is_digit c \<or> c \<in> set ''-_.!~*()%'' \<or> c = CHR 0x27)"

definition member_ok :: "card_world \<Rightarrow> string \<Rightarrow> bool" where
  "member_ok w x = (is_uuid x \<or> (list_all uri_unit (cw_encode_uri w x) \<and> cw_decode_uri w (cw_encode_uri w x) = Some x))"

definition exportable_list :: "card_world \<Rightarrow> string \<Rightarrow> mailing_list_input \<Rightarrow> string \<Rightarrow> bool" where
  "exportable_list w u m t =
     (createMailingListSchema (with_list_uid u m) = Some (with_list_uid u m) \<and>
      list_all no_cr [Some (mi_name m), mi_nickname m, mi_description m] \<and>
      list_all (member_ok w) (mi_member_uids m) \<and>
      list_all (\<lambda>x. \<not> quoted_printable_marked (line_of x)) (list_parts w u m t) \<and>
      trim t = t \<and> line_text t)"

lemma list_fixed:
  assumes "createMailingListSchema m = Some m" "mi_uid m = Some u"
  shows "uidSchema u = Some u" "shortText 300 (mi_name m) = Some (mi_name m)"
    "trimmed (mi_nickname m)" "trimmed (mi_description m)" "uniqueStrings (mi_member_uids m)"
proof -
  have all: "uidSchema u = Some u \<and> shortText 300 (mi_name m) = Some (mi_name m)
      \<and> optionalText 120 (mi_nickname m) = Some (mi_nickname m)
      \<and> optionalText 4096 (mi_description m) = Some (mi_description m) \<and> uniqueStrings (mi_member_uids m)"
    using assms by (cases m) (auto simp: createMailingListSchema_def split: option.splits if_splits)
  then show "uidSchema u = Some u" "shortText 300 (mi_name m) = Some (mi_name m)" "uniqueStrings (mi_member_uids m)"
    by blast+
  from all show "trimmed (mi_nickname m)" "trimmed (mi_description m)" by (blast dest: optionalText_fixed)+
qed

text \<open>A member identifier and its URI: no white space, no backslash, and read back.\<close>

definition member_unit :: "char \<Rightarrow> bool" where
  "member_unit c = (is_hex c \<or> c = CHR '':'' \<or> uri_unit c)"

lemma member_unit_plain: "member_unit c \<Longrightarrow> c \<noteq> backslash \<and> \<not> is_space c"
  by (auto simp: member_unit_def is_hex_def is_hex_lower_def uri_unit_def is_digit_def is_ascii_upper_def is_ascii_lower_def
      is_space_def backslash_def code_def lower_char_def)

lemma five_parts:
  "(case xs of [a, b, c, d, e] \<Rightarrow> A a b c d e \<and> list_all P [a, b, c, d, e] \<and> C c \<and> D d | _ \<Rightarrow> False) \<Longrightarrow> list_all P xs"
  by (auto split: list.splits)

lemma uuid_units:
  assumes "is_uuid x"
  shows "list_all member_unit x"
proof -
  have x: "x = join ''-'' (split_on (CHR ''-'') x)" by (simp add: join_split_on)
  have "list_all (list_all is_hex) (map (map lower_char) (split_on (CHR ''-'') x))"
    using assms unfolding is_uuid_def by (rule five_parts)
  then have "list_all (list_all member_unit) (split_on (CHR ''-'') x)"
    by (auto simp: list_all_iff member_unit_def is_hex_def)
  moreover have "member_unit (CHR ''-'')" by code_simp
  then have "list_all (list_all member_unit) ps \<Longrightarrow> list_all member_unit (join ''-'' ps)" for ps
    by (induction "''-''" ps rule: join.induct) simp_all
  ultimately show ?thesis using x by metis
qed

lemma unescape_no_backslash: "backslash \<notin> set s \<Longrightarrow> unescapeText s = s"
  by (induction s rule: unescapeText.induct) auto

lemma member_units:
  assumes "member_ok w x"
  shows "list_all member_unit (memberUri w x)"
proof (cases "is_uuid x")
  case True
  have "list_all member_unit ''urn:uuid:''" by code_simp
  with True uuid_units show ?thesis by (simp only: memberUri_def if_True list_all_append)
next
  case False
  have "list_all member_unit ''urn:material-email:''" by code_simp
  moreover have "list_all member_unit (cw_encode_uri w x)"
    using assms False by (auto simp: member_ok_def member_unit_def list_all_iff)
  ultimately show ?thesis using False by (simp only: memberUri_def if_False list_all_append)
qed

lemma member_value_ok:
  assumes "member_ok w x"
  shows "value_ok (memberUri w x)"
proof -
  have units: "\<forall>c \<in> set (memberUri w x). \<not> is_space c"
    using member_units [OF assms] member_unit_plain by (auto simp: list_all_iff)
  moreover have "is_space (CHR 10)" "is_space (CHR 13)" by code_simp+
  ultimately have "line_text (memberUri w x)" by (auto simp: line_text_def)
  with units show ?thesis by (auto simp: value_ok_def)
qed

lemma member_back:
  assumes "member_ok w x"
  shows "memberReference w (prop_of (''MEMBER'', memberUri w x, [], False)) = Inr (MemberUid x)"
proof -
  have "unescapeText (memberUri w x) = memberUri w x"
    using member_units [OF assms] member_unit_plain by (intro unescape_no_backslash) (auto simp: list_all_iff)
  moreover have "lower ''urn:uuid:'' = ''urn:uuid:''" "lower ''urn:material-email:'' = ''urn:material-email:''"
    by code_simp+
  ultimately show ?thesis
    using assms
    by (auto simp: memberReference_def memberUri_def member_ok_def starts_with_def lower_def simp del: prop_of.simps)
qed

lemma list_named:
  "named ''UID'' (list_parts w u m t) = [(''UID'', escapeText u, [], False)]"
  "named ''FN'' (list_parts w u m t) = [(''FN'', escapeText (mi_name m), [], False)]"
  "named ''KIND'' (list_parts w u m t) = [(''KIND'', ''group'', [], False)]"
  "named ''NICKNAME'' (list_parts w u m t) = optional_part ''NICKNAME'' (mi_nickname m)"
  "named ''NOTE'' (list_parts w u m t) = optional_part ''NOTE'' (mi_description m)"
  "named ''MEMBER'' (list_parts w u m t) = map (\<lambda>x. (''MEMBER'', memberUri w x, [], False)) (mi_member_uids m)"
  "named ''VERSION'' (list_parts w u m t) = []"
  by (simp_all add: list_parts_def)

lemma list_facts:
  assumes "exportable_list w u m t"
  shows "uidSchema u = Some u" "shortText 300 (mi_name m) = Some (mi_name m)"
    "trimmed (mi_nickname m)" "trimmed (mi_description m)" "uniqueStrings (mi_member_uids m)"
  using list_fixed [of "with_list_uid u m" u] assms by (auto simp: exportable_list_def with_list_uid_def)

lemma list_back:
  assumes "exportable_list w u m t"
  shows "mailingListFromProperties w (version_prop # map prop_of (list_parts w u m t)) = Inr (with_list_uid u m)"
proof -
  note facts = list_facts [OF assms]
  have plain: "CHR 13 \<notin> set u" "CHR 13 \<notin> set (mi_name m)" "no_cr (mi_nickname m)" "no_cr (mi_description m)"
    and members: "\<forall>x \<in> set (mi_member_uids m). member_ok w x"
    using assms uidSchema_fixed [OF facts(1)] by (auto simp: exportable_list_def no_cr_def list_all_iff)
  have refs: "map_result (memberReference w) (map prop_of (map (\<lambda>x. (''MEMBER'', memberUri w x, [], False)) (mi_member_uids m)))
      = Inr (map MemberUid (mi_member_uids m))"
    using members by (subst map_map) (intro map_result_map, simp add: member_back comp_def del: prop_of.simps)
  have uids: "concat (map (\<lambda>r. case r of MemberUid u \<Rightarrow> [u] | MemberEmail _ \<Rightarrow> []) (map MemberUid xs)) = xs"
    "concat (map (\<lambda>r. case r of MemberUid _ \<Rightarrow> [] | MemberEmail a \<Rightarrow> [a]) (map MemberUid xs)) = []" for xs
    by (induction xs) simp_all
  have whole: "\<lparr>mi_uid = Some u, mi_name = mi_name m, mi_nickname = mi_nickname m, mi_description = mi_description m,
      mi_member_uids = mi_member_uids m, mi_member_emails = []\<rparr> = with_list_uid u m"
    by (cases m) (simp add: with_list_uid_def)
  have none: "deduplicate id [] = []" by (simp add: deduplicate_def)
  note texts = optional_back [OF facts(3) plain(3)] optional_back [OF facts(4) plain(4)]
  have unique_uids: "deduplicate id (mi_member_uids m) = mi_member_uids m"
    using facts(5) by (intro deduplicate_id) simp
  show ?thesis
    using assms
    by (simp add: mailingListFromProperties_def version_apart properties_of_parts list_named refs uids texts unique_uids
        none plain unescape_plain optional_property_simps whole exportable_list_def Let_def del: map_map prop_of.simps)
qed

lemma list_writable:
  assumes "exportable_list w u m t"
  shows "\<forall>x \<in> set (list_parts w u m t). writable x"
proof -
  note facts = list_facts [OF assms]
  have t: "trim t = t" "line_text t" and qp: "\<forall>x \<in> set (list_parts w u m t). \<not> quoted_printable_marked (line_of x)"
    and members: "\<forall>x \<in> set (mi_member_uids m). member_ok w x"
    using assms by (simp_all add: exportable_list_def list_all_iff)
  have "value_ok t" using t by (metis trim_def trim_end_id trim_end_idem value_ok_def)
  moreover have "value_ok (escapeText u)" "value_ok (escapeText (mi_name m))"
    using uidSchema_fixed [OF facts(1)] shortText_fixed [OF facts(2)] by (auto intro: escaped_value_ok)
  moreover have "value_ok ''group''" by code_simp
  moreover have "\<forall>x \<in> set (mi_member_uids m). types_ok [] \<and> value_ok (memberUri w x)"
    using members member_value_ok by simp
  ultimately have "list_all good_part (list_parts w u m t)"
    unfolding list_parts_def Let_def list_all_append
    by (intro conjI good_part_map good_optional_part written_name_members facts(3-4)) simp_all
  with qp show ?thesis by (auto simp: list_all_iff simp del: line_of.simps)
qed

section \<open>Reading a bundle\<close>

lemma version_facts:
  "all_properties (version_prop # map prop_of parts) ''VERSION'' = version_prop # map prop_of (named ''VERSION'' parts)"
  "decodedPropertyValue w version_prop = Inr ''4.0''"
  by (simp_all add: version_prop_def del: prop_of.simps)
     (simp add: all_properties_def properties_of_parts(1) [unfolded all_properties_def] del: filter_map prop_of.simps, simp)

lemma contact_header:
  "card_header w (version_prop # map prop_of (contact_parts u c t)) = Inr False"
  by (simp add: card_header_def version_facts version_apart properties_of_parts contact_named del: prop_of.simps)

lemma list_header:
  "card_header w (version_prop # map prop_of (list_parts w u m t)) = Inr True"
proof -
  have "lower ''group'' = ''group''" by code_simp
  then show ?thesis
    by (simp add: card_header_def version_facts version_apart properties_of_parts list_named del: prop_of.simps)
qed

lemma read_contacts:
  "list_all (\<lambda>(u, c, t). exportable w u c t) cs \<Longrightarrow> distinct (map fst cs) \<Longrightarrow>
   \<forall>u \<in> set (map fst cs). Some u \<notin> ci_uid ` set (cb_contacts b) \<Longrightarrow>
   read_cards w b (map (\<lambda>(u, c, t). version_prop # map prop_of (contact_parts u c t)) cs @ rest)
     = read_cards w (b\<lparr>cb_contacts := cb_contacts b @ map (\<lambda>(u, c, t). with_uid u c) cs\<rparr>) rest"
proof (induction cs arbitrary: b)
  case (Cons x cs)
  obtain u c t where x: "x = (u, c, t)" by (cases x) auto
  have "read_cards w b ((version_prop # map prop_of (contact_parts u c t)) # l)
      = read_cards w (b\<lparr>cb_contacts := cb_contacts b @ [with_uid u c]\<rparr>) l" for l
    using Cons.prems contact_back [of w u c t] by (simp add: contact_header x with_uid_def)
  with Cons.IH [of "b\<lparr>cb_contacts := cb_contacts b @ [with_uid u c]\<rparr>"] Cons.prems show ?case
    by (auto simp: x with_uid_def)
qed simp

lemma read_lists:
  "list_all (\<lambda>(u, m, t). exportable_list w u m t) ms \<Longrightarrow> distinct (map fst ms) \<Longrightarrow>
   \<forall>u \<in> set (map fst ms). Some u \<notin> mi_uid ` set (cb_lists b) \<Longrightarrow>
   read_cards w b (map (\<lambda>(u, m, t). version_prop # map prop_of (list_parts w u m t)) ms)
     = Inr (b\<lparr>cb_lists := cb_lists b @ map (\<lambda>(u, m, t). with_list_uid u m) ms\<rparr>)"
proof (induction ms arbitrary: b)
  case (Cons x ms)
  obtain u m t where x: "x = (u, m, t)" by (cases x) auto
  have "read_cards w b ((version_prop # map prop_of (list_parts w u m t)) # l)
      = read_cards w (b\<lparr>cb_lists := cb_lists b @ [with_list_uid u m]\<rparr>) l" for l
    using Cons.prems list_back [of w u m t] by (simp add: list_header x with_list_uid_def)
  with Cons.IH [of "b\<lparr>cb_lists := cb_lists b @ [with_list_uid u m]\<rparr>"] Cons.prems show ?case
    by (auto simp: x with_list_uid_def)
qed simp

section \<open>Property\<close>

text \<open>C36: A bundle of exported contacts and mailing lists is imported as the contacts and lists it was
  written from, with their UIDs and in the same order, provided the bundle is within the size limits, the
  UIDs of the contacts and those of the lists are distinct, and every contact and list is what the
  schemas accept unchanged, without carriage returns, without quotation marks in names and addresses,
  with types the syntax can carry, without \<open>mailto:\<close> and \<open>tel:\<close> values, and with no line that looks
  like a quoted-printable declaration.\<close>
theorem exported_bundle_is_imported:
  assumes "list_all (\<lambda>(u, c, t). exportable w u c t) cs" "list_all (\<lambda>(u, m, t). exportable_list w u m t) ms"
    and "distinct (map fst cs)" "distinct (map fst ms)"
    and "cs \<noteq> [] \<or> ms \<noteq> []" "length cs + length ms \<le> MAX_VCARDS"
    and "byte_length (serializeVCardBundle w cs ms) \<le> MAX_VCARD_BYTES"
  shows "parseVCardBundle w (serializeVCardBundle w cs ms) =
    Inr \<lparr>cb_contacts = map (\<lambda>(u, c, t). with_uid u c) cs, cb_lists = map (\<lambda>(u, m, t). with_list_uid u m) ms\<rparr>"
proof -
  let ?pss = "map (\<lambda>(u, c, t). contact_parts u c t) cs @ map (\<lambda>(u, m, t). list_parts w u m t) ms"
  have written: "serializeVCardBundle w cs ms = concat (map (\<lambda>parts. folded_text (card_text_lines parts)) ?pss)"
    by (simp add: serializeVCardBundle_def contact_card_text list_card_text comp_def split_def)
  have "\<forall>parts \<in> set ?pss. \<forall>x \<in> set parts. writable x"
    using assms(1,2) contact_writable list_writable by (fastforce simp: list_all_iff)
  moreover have "?pss \<noteq> []" "length ?pss \<le> MAX_VCARDS" using assms(5,6) by auto
  ultimately have "card_blocks [] None (unfold_card (serializeVCardBundle w cs ms))
      = Inr (map (\<lambda>parts. version_prop # map prop_of parts) ?pss)"
    unfolding written by (rule bundle_blocks)
  then have "parseVCardBundle w (serializeVCardBundle w cs ms) = read_cards w \<lparr>cb_contacts = [], cb_lists = []\<rparr>
      (map (\<lambda>(u, c, t). version_prop # map prop_of (contact_parts u c t)) cs
       @ map (\<lambda>(u, m, t). version_prop # map prop_of (list_parts w u m t)) ms)"
    using assms(7) by (simp add: parseVCardBundle_def comp_def split_def)
  then show ?thesis using read_contacts [OF assms(1,3)] read_lists [OF assms(2,4)] by simp
qed

definition sample_card_world :: card_world where
  "sample_card_world = \<lparr>cw_email = (\<lambda>a. CHR ''@'' \<in> set a), cw_decode_text = (\<lambda>_ _. None),
     cw_encode_uri = (\<lambda>u. u), cw_decode_uri = Some\<rparr>"

definition sample_contact :: contact_input where
  "sample_contact = \<lparr>ci_uid = None, ci_display_name = ''A;B'',
     ci_name = \<lparr>cn_prefix = None, cn_given = Some ''A'', cn_additional = None, cn_family = Some ''B,C'', cn_suffix = None\<rparr>,
     ci_nickname = None, ci_emails = [\<lparr>cm_value = ''a@b'', cm_types = [''my work''], cm_preferred = True\<rparr>],
     ci_phones = [], ci_addresses = [], ci_organization = None, ci_title = None, ci_notes = Some ''x''\<rparr>"

definition sample_list :: mailing_list_input where
  "sample_list = \<lparr>mi_uid = None, mi_name = ''L'', mi_nickname = None, mi_description = None,
     mi_member_uids = [''u''], mi_member_emails = []\<rparr>"

lemma no_q_unmarked:
  assumes "CHR ''q'' \<notin> set l" "CHR ''Q'' \<notin> set l"
  shows "\<not> quoted_printable_marked l"
proof
  assume "quoted_printable_marked l"
  then have "CHR ''q'' \<in> set (lower l)"
    by (auto simp: quoted_printable_marked_def Let_def starts_with_append contains_iff)
  then obtain c where c: "c \<in> set l" "lower_char c = CHR ''q''" by (auto simp: lower_def)
  then have "code (lower_char c) = 113" by (simp add: code_def)
  then have "code c = 113 \<or> code c = 81"
    by (auto simp: lower_char_def is_ascii_upper_def code_char_of split: if_splits)
  then have "c = CHR ''q'' \<or> c = CHR ''Q''"
    using code_inject [of c "CHR ''q''"] code_inject [of c "CHR ''Q''"] by (auto simp: code_def)
  with c(1) assms show False by blast
qed

lemma sample_exportable: "exportable sample_card_world ''u'' sample_contact ''1''"
proof -
  have "list_all (\<lambda>x. CHR ''q'' \<notin> set (line_of x) \<and> CHR ''Q'' \<notin> set (line_of x)) (contact_parts ''u'' sample_contact ''1'')" by code_simp
  then have qp: "list_all (\<lambda>x. \<not> quoted_printable_marked (line_of x)) (contact_parts ''u'' sample_contact ''1'')"
    by (rule list.pred_mono_strong) (rule no_q_unmarked; erule conjunct1 conjunct2)
  show ?thesis unfolding exportable_def by (intro conjI; (rule qp | code_simp))
qed

lemma sample_list_exportable: "exportable_list sample_card_world ''v'' sample_list ''2''"
proof -
  have "list_all (\<lambda>x. CHR ''q'' \<notin> set (line_of x) \<and> CHR ''Q'' \<notin> set (line_of x)) (list_parts sample_card_world ''v'' sample_list ''2'')" by code_simp
  then have qp: "list_all (\<lambda>x. \<not> quoted_printable_marked (line_of x)) (list_parts sample_card_world ''v'' sample_list ''2'')"
    by (rule list.pred_mono_strong) (rule no_q_unmarked; erule conjunct1 conjunct2)
  show ?thesis unfolding exportable_list_def by (intro conjI; (rule qp | code_simp))
qed

theorem exported_bundle_is_imported_witness:
  "parseVCardBundle sample_card_world
     (serializeVCardBundle sample_card_world [(''u'', sample_contact, ''1'')] [(''v'', sample_list, ''2'')])
   = Inr \<lparr>cb_contacts = [with_uid ''u'' sample_contact], cb_lists = [with_list_uid ''v'' sample_list]\<rparr>"
proof -
  let ?text = "serializeVCardBundle sample_card_world [(''u'', sample_contact, ''1'')] [(''v'', sample_list, ''2'')]"
  have "length ?text \<le> 400" by code_simp
  moreover have "byte_length s \<le> 2 * length s" for s by (induction s) (simp_all add: byte_length_Cons)
  from this [of ?text] have "byte_length ?text \<le> 2 * length ?text" .
  ultimately have "byte_length ?text \<le> 800" by linarith
  with sample_exportable sample_list_exportable show ?thesis
    using exported_bundle_is_imported [of sample_card_world "[(''u'', sample_contact, ''1'')]" "[(''v'', sample_list, ''2'')]"]
    by (simp add: MAX_VCARDS_def MAX_VCARD_BYTES_def)
qed

end
