(* ===== verification/State_Tables.thy ===== *)
theory State_Tables
  imports Prelude
begin

text \<open>
  Phase machines with a table of allowed transitions, as the OAuth flow, the token lifecycle and
  the calendar provider foundation have them: a change of phase is checked against the table and
  throws when the table does not list it. The locale states that contract; its lemmas say what a
  client may rely on whatever it does: the phases it goes through are a path of the table.
\<close>

text \<open>A sequence of phase changes, stopping at the first that throws.\<close>

fun run_changes :: "('e \<Rightarrow> 's \<Rightarrow> 's option) \<Rightarrow> 'e list \<Rightarrow> 's \<Rightarrow> 's option" where
  "run_changes change [] s = Some s"
| "run_changes change (e # es) s =
     (case change e s of None \<Rightarrow> None | Some s' \<Rightarrow> run_changes change es s')"

lemma run_changes_append:
  "run_changes change (es @ fs) s =
     (case run_changes change es s of None \<Rightarrow> None | Some s' \<Rightarrow> run_changes change fs s')"
  by (induction es arbitrary: s) (auto split: option.splits)

locale state_table =
  fixes allowed :: "'p \<Rightarrow> 'p \<Rightarrow> bool"
    and phase :: "'s \<Rightarrow> 'p"
    and target :: "'e \<Rightarrow> 's \<Rightarrow> 'p"
    and change :: "'e \<Rightarrow> 's \<Rightarrow> 's option"
  assumes change_allowed: "change e s = Some s' \<Longrightarrow> allowed (phase s) (target e s) \<and> phase s' = target e s"
    and change_defined: "allowed (phase s) (target e s) \<Longrightarrow> change e s \<noteq> None"
begin

lemma change_throws: "change e s = None \<longleftrightarrow> \<not> allowed (phase s) (target e s)"
  using change_allowed change_defined by (metis not_Some_eq)

lemma change_path: "change e s = Some s' \<Longrightarrow> (phase s, phase s') \<in> {(p, q). allowed p q}"
  using change_allowed by auto

lemma run_path:
  "run_changes change es s = Some s' \<Longrightarrow> (phase s, phase s') \<in> {(p, q). allowed p q}\<^sup>*"
proof (induction es arbitrary: s)
  case (Cons e es)
  then obtain s1 where "change e s = Some s1" "run_changes change es s1 = Some s'"
    by (auto split: option.splits)
  then show ?case using Cons.IH change_path by (meson converse_rtrancl_into_rtrancl)
qed simp

text \<open>A phase the table has no way out of is final.\<close>

lemma final_phase:
  assumes "\<And>q. \<not> allowed (phase s) q" and "run_changes change es s = Some s'"
  shows "s' = s"
proof (cases es)
  case (Cons e es')
  from assms(1) have "change e s = None" by (simp add: change_throws)
  with Cons assms(2) show ?thesis by simp
qed (use assms in simp)

end

text \<open>Tables in which one phase, the error phase, can be entered from every phase.\<close>

locale escapable_table = state_table +
  fixes fallen :: 'a
  assumes escape: "allowed p fallen"
begin

lemma escape_defined: "target e s = fallen \<Longrightarrow> change e s \<noteq> None"
  by (rule change_defined) (simp add: escape)

lemma run_then_escape:
  assumes "run_changes change es s = Some s'" and "target e s' = fallen"
  obtains s'' where "run_changes change (es @ [e]) s = Some s''" "phase s'' = fallen"
proof -
  from escape_defined [OF assms(2)] obtain s'' where "change e s' = Some s''" by auto
  moreover from this change_allowed assms(2) have "phase s'' = fallen" by metis
  ultimately show ?thesis using that assms(1) by (auto simp: run_changes_append)
qed

end

end
