(* ===== verification/OAuth_Flow.thy ===== *)
theory OAuth_Flow
  imports Encodings State_Tables
begin

text \<open>
  The browser half of an OAuth sign-in (\<open>src/main/oauth-authorization.ts\<close> with the types of
  \<open>src/shared/oauth.ts\<close>): validation of the pasted redirect, the provider configurations, and the
  service with its phase table. The service is asynchronous only in \<open>start\<close>, which awaits
  \<open>openExternal\<close>; its state keeps the suspended continuations, so that any interleaving of calls,
  browser results and timers is a list of operations. A session object is known by a number; the
  logs of the opened requests and of the grants handed to the callback are part of the state.
  The exception of an invalid transition is \<^const>\<open>None\<close>. The callback is an argument of
  each call that may run it: the operations it calls in turn, and whether it throws. The URL parser, SHA-256 and \<open>toISOString\<close> are arguments.
\<close>

section \<open>Constants and data\<close>

definition PASTED_REDIRECT_URL_LIMIT :: nat where "PASTED_REDIRECT_URL_LIMIT = 8192"
definition AUTHORIZATION_CODE_LIMIT :: nat where "AUTHORIZATION_CODE_LIMIT = 8192"
definition OAUTH_STATE_BYTES :: nat where "OAUTH_STATE_BYTES = 32"
definition PKCE_VERIFIER_BYTES :: nat where "PKCE_VERIFIER_BYTES = 64"
definition DEFAULT_AUTHORIZATION_TIMEOUT_MS :: int where "DEFAULT_AUTHORIZATION_TIMEOUT_MS = 5 * 60000"
definition MAX_INVALID_REDIRECT_PASTES :: nat where "MAX_INVALID_REDIRECT_PASTES = 8"

definition OAUTH_PROVIDER_IDS :: "oauth_provider list" where
  "OAUTH_PROVIDER_IDS = [Google, Microsoft]"

fun providerNames :: "oauth_provider \<Rightarrow> string" where
  "providerNames Google = ''Google''"
| "providerNames Microsoft = ''Microsoft''"

datatype oauth_phase =
  Idle | Preparing | OpeningBrowser | AwaitingPaste | AuthorizationReceived | Cancelled | TimedOut | Failed

datatype oauth_failure =
  ProviderNotConfigured | BrowserOpenFailed | ProviderDenied | ProviderError | RedirectInvalid

record oauth_snapshot =
  sn_phase :: oauth_phase
  sn_provider :: "oauth_provider option"
  sn_expires_at :: "string option"
  sn_failure :: "oauth_failure option"

record oauth_configuration =
  oc_provider :: oauth_provider
  oc_endpoint :: string
  oc_client :: string
  oc_scopes :: "string list"
  oc_redirect :: string

record code_grant =
  gr_provider :: oauth_provider
  gr_code :: string
  gr_verifier :: string
  gr_redirect :: string

record oauth_session =
  os_id :: nat
  os_provider :: oauth_provider
  os_redirect :: string
  os_state :: bytes
  os_verifier :: bytes
  os_invalid :: nat

text \<open>What the platform provides.\<close>

record oauth_world =
  ow_url :: web_url_parser
  ow_sha256 :: "bytes \<Rightarrow> bytes"
  ow_iso :: "int \<Rightarrow> string"

section \<open>Phases\<close>

fun allowedTransitions :: "oauth_phase \<Rightarrow> oauth_phase list" where
  "allowedTransitions Idle = [Preparing, Failed]"
| "allowedTransitions Preparing = [OpeningBrowser, Cancelled, TimedOut, Failed]"
| "allowedTransitions OpeningBrowser = [AwaitingPaste, AuthorizationReceived, Cancelled, TimedOut, Failed]"
| "allowedTransitions AwaitingPaste = [AuthorizationReceived, Cancelled, TimedOut, Failed]"
| "allowedTransitions AuthorizationReceived = [Preparing, Failed]"
| "allowedTransitions Cancelled = [Preparing, Failed]"
| "allowedTransitions TimedOut = [Preparing, Failed]"
| "allowedTransitions Failed = [Preparing, Failed]"

section \<open>The pasted redirect\<close>

datatype rejection =
  TooLong | Unparseable | WrongRedirect | WrongState | UnexpectedToken | AmbiguousResult | MissingResult

datatype pasted_validation = PastedCode string | PastedError string | PastedRejected rejection

definition ascii_bytes :: "string \<Rightarrow> bytes" where
  "ascii_bytes s = map (\<lambda>c. of_nat (code c)) s"

definition pkce_challenge :: "oauth_world \<Rightarrow> string \<Rightarrow> string" where
  "pkce_challenge w verifier = base64Url (ow_sha256 w (ascii_bytes verifier))"

text \<open>\<open>createPkcePair\<close> on what the entropy source returned.\<close>

definition createPkcePair :: "oauth_world \<Rightarrow> bytes \<Rightarrow> (string \<times> string) option" where
  "createPkcePair w verifier_bytes =
     (if length verifier_bytes \<noteq> PKCE_VERIFIER_BYTES then None
      else let verifier = base64Url verifier_bytes in Some (verifier, pkce_challenge w verifier))"

definition safeTextEqual :: "string \<Rightarrow> string \<Rightarrow> bool" where
  "safeTextEqual left right =
     (let l = utf8 left; r = utf8 right in length l = length r \<and> list_all2 (=) l r)"

definition hasControlCharacters :: "string \<Rightarrow> bool" where
  "hasControlCharacters s = list_ex is_control s"

definition validatePastedRedirect :: "oauth_world \<Rightarrow> string \<Rightarrow> string \<Rightarrow> string \<Rightarrow> pasted_validation" where
  "validatePastedRedirect w pasted_url redirect_uri state =
     (if pasted_url = [] \<or> length pasted_url > PASTED_REDIRECT_URL_LIMIT then PastedRejected TooLong
      else case (ow_url w (trim pasted_url), ow_url w redirect_uri) of
        (Some pasted, Some expected) \<Rightarrow>
          if wu_origin pasted \<noteq> wu_origin expected \<or> url_pathname pasted \<noteq> url_pathname expected
          then PastedRejected WrongRedirect
          else let states = get_all ''state'' pasted in
            if length states \<noteq> 1 \<or> length (states ! 0) > 256 \<or> \<not> safeTextEqual (states ! 0) state
            then PastedRejected WrongState
            else if list_ex (\<lambda>key. has_param key pasted) [''access_token'', ''refresh_token'', ''id_token'']
            then PastedRejected UnexpectedToken
            else let codes = get_all ''code'' pasted; errors = get_all ''error'' pasted in
              if length codes > 1 \<or> length errors > 1 \<or> (length codes = 1 \<and> length errors = 1)
              then PastedRejected AmbiguousResult
              else if length errors = 1
              then let err = errors ! 0 in
                   if err = [] \<or> length err > 128 \<or> hasControlCharacters err
                   then PastedRejected AmbiguousResult else PastedError err
              else if length codes = 1
              then let c = codes ! 0 in
                   if c = [] \<or> length c > AUTHORIZATION_CODE_LIMIT \<or> hasControlCharacters c
                   then PastedRejected AmbiguousResult else PastedCode c
              else PastedRejected MissingResult
      | _ \<Rightarrow> PastedRejected Unparseable)"

section \<open>Configurations\<close>

datatype configuration_error =
  UnsupportedProvider | InvalidUrl | UncleanEndpoint | UncleanRedirect | BadClient | BadScopes
| BadTimeout | DuplicateProvider

definition unclean_url :: "web_url \<Rightarrow> bool" where
  "unclean_url u =
     (wu_protocol u \<noteq> ''https:'' \<or> url_username u \<noteq> [] \<or> url_password u \<noteq> []
      \<or> url_search u \<noteq> [] \<or> url_hash u \<noteq> [])"

definition bad_scope :: "string \<Rightarrow> bool" where
  "bad_scope scope =
     (scope = [] \<or> length scope > 256 \<or> list_ex is_space scope \<or> hasControlCharacters scope)"

definition validateConfiguration ::
  "oauth_world \<Rightarrow> oauth_configuration \<Rightarrow> (configuration_error, oauth_configuration) result" where
  "validateConfiguration w c =
     (if oc_provider c \<notin> set OAUTH_PROVIDER_IDS then Inl UnsupportedProvider
      else case ow_url w (oc_endpoint c) of None \<Rightarrow> Inl InvalidUrl
      | Some endpoint \<Rightarrow> if unclean_url endpoint then Inl UncleanEndpoint
        else case ow_url w (oc_redirect c) of None \<Rightarrow> Inl InvalidUrl
        | Some redirect \<Rightarrow> if unclean_url redirect then Inl UncleanRedirect
          else if oc_client c = [] \<or> length (oc_client c) > 512 \<or> hasControlCharacters (oc_client c)
          then Inl BadClient
          else if oc_scopes c = [] \<or> length (oc_scopes c) > 50 \<or> list_ex bad_scope (oc_scopes c)
          then Inl BadScopes else Inr c)"

section \<open>The service\<close>

text \<open>An opened request: the session, the endpoint, and the query of the authorization URL.\<close>

record opened_request =
  rq_session :: nat
  rq_endpoint :: string
  rq_params :: "(string \<times> string) list"

record suspended_start =
  su_session :: nat
  su_provider :: oauth_provider
  su_expires_at :: string

record oauth_service =
  oa_configurations :: "(oauth_provider, oauth_configuration) entries"
  oa_timeout_ms :: int
  oa_has_callback :: bool
  oa_active :: "oauth_session option"
  oa_snapshot :: oauth_snapshot
  oa_suspended :: "suspended_start list"
  oa_retired :: "oauth_session list"
  oa_next :: nat
  oa_opened :: "opened_request list"
  oa_grants :: "(nat \<times> code_grant) list"

abbreviation oauth_phase_of :: "oauth_service \<Rightarrow> oauth_phase" where
  "oauth_phase_of s \<equiv> sn_phase (oa_snapshot s)"

fun register_all ::
  "oauth_world \<Rightarrow> oauth_configuration list \<Rightarrow> (oauth_provider, oauth_configuration) entries
   \<Rightarrow> (configuration_error, (oauth_provider, oauth_configuration) entries) result" where
  "register_all w [] known = Inr known"
| "register_all w (c # cs) known =
     (case validateConfiguration w c of Inl e \<Rightarrow> Inl e
      | Inr c' \<Rightarrow> if map_of known (oc_provider c') \<noteq> None then Inl DuplicateProvider
                   else register_all w cs (AList.update (oc_provider c') c' known))"

text \<open>The constructor.\<close>

definition create_service ::
  "oauth_world \<Rightarrow> int option \<Rightarrow> bool \<Rightarrow> oauth_configuration list
   \<Rightarrow> (configuration_error, oauth_service) result" where
  "create_service w timeout has_callback configurations =
     (let timeout_ms = (case timeout of None \<Rightarrow> DEFAULT_AUTHORIZATION_TIMEOUT_MS | Some t \<Rightarrow> t) in
      if timeout_ms < 10 \<or> timeout_ms > 10 * 60000 then Inl BadTimeout
      else case register_all w configurations [] of Inl e \<Rightarrow> Inl e
      | Inr known \<Rightarrow>
          Inr \<lparr>oa_configurations = known, oa_timeout_ms = timeout_ms,
               oa_has_callback = has_callback, oa_active = None,
               oa_snapshot = \<lparr>sn_phase = Idle, sn_provider = None, sn_expires_at = None, sn_failure = None\<rparr>,
               oa_suspended = [], oa_retired = [], oa_next = 0, oa_opened = [], oa_grants = []\<rparr>)"

definition provider_availability :: "oauth_service \<Rightarrow> (oauth_provider \<times> string \<times> bool) list" where
  "provider_availability s =
     map (\<lambda>p. (p, providerNames p, map_of (oa_configurations s) p \<noteq> None)) OAUTH_PROVIDER_IDS"

definition oauth_transition :: "oauth_snapshot \<Rightarrow> oauth_service \<Rightarrow> oauth_service option" where
  "oauth_transition new s =
     (if sn_phase new \<in> set (allowedTransitions (oauth_phase_of s))
      then Some (s\<lparr>oa_snapshot := new\<rparr>) else None)"

text \<open>\<open>buffer.fill(0)\<close> on both buffers of a session.\<close>

definition wipe :: "oauth_session \<Rightarrow> oauth_session" where
  "wipe x = x\<lparr>os_state := map (\<lambda>_. 0) (os_state x), os_verifier := map (\<lambda>_. 0) (os_verifier x)\<rparr>"

text \<open>\<open>#terminate(session, phase, failure)\<close>: the session is named by its identifier, as the code
  compares references; the object that is wiped is the active one.\<close>

definition oauth_terminate ::
  "nat \<Rightarrow> oauth_phase \<Rightarrow> oauth_failure option \<Rightarrow> oauth_service \<Rightarrow> oauth_service option" where
  "oauth_terminate i p failure s =
     (case oa_active s of None \<Rightarrow> Some s
      | Some x \<Rightarrow>
        if os_id x \<noteq> i then Some s
        else oauth_transition
             \<lparr>sn_phase = p, sn_provider = Some (os_provider x), sn_expires_at = None, sn_failure = failure\<rparr>
             (s\<lparr>oa_active := None, oa_retired := wipe x # oa_retired s\<rparr>))"

definition authorization_params ::
  "oauth_world \<Rightarrow> oauth_configuration \<Rightarrow> bytes \<Rightarrow> bytes \<Rightarrow> (string \<times> string) list \<Rightarrow> (string \<times> string) list" where
  "authorization_params w c state_bytes verifier_bytes query =
     set_param ''code_challenge_method'' ''S256''
      (set_param ''code_challenge'' (pkce_challenge w (base64Url verifier_bytes))
       (set_param ''state'' (base64Url state_bytes)
        (set_param ''scope'' (join '' '' (oc_scopes c))
         (set_param ''response_type'' ''code''
          (set_param ''redirect_uri'' (oc_redirect c)
           (set_param ''client_id'' (oc_client c) query))))))"

text \<open>\<open>start\<close> up to its \<open>await\<close>: the arguments are the time and what \<open>randomBytes\<close> returned.\<close>

definition oauth_start ::
  "oauth_world \<Rightarrow> oauth_provider \<Rightarrow> int \<Rightarrow> bytes \<Rightarrow> bytes \<Rightarrow> oauth_service \<Rightarrow> oauth_service option" where
  "oauth_start w provider now state_bytes verifier_bytes s =
     (if oa_active s \<noteq> None then Some s
      else case map_of (oa_configurations s) provider of
        None \<Rightarrow> oauth_transition
          \<lparr>sn_phase = Failed, sn_provider = Some provider, sn_expires_at = None,
           sn_failure = Some ProviderNotConfigured\<rparr> s
      | Some c \<Rightarrow>
          (case oauth_transition
            \<lparr>sn_phase = Preparing, sn_provider = Some provider, sn_expires_at = None, sn_failure = None\<rparr> s of
            None \<Rightarrow> None
          | Some s1 \<Rightarrow>
            (let expires_at = ow_iso w (now + oa_timeout_ms s);
                 i = oa_next s1;
                 x = \<lparr>os_id = i, os_provider = provider, os_redirect = oc_redirect c,
                      os_state = state_bytes, os_verifier = verifier_bytes, os_invalid = 0\<rparr>;
                 s2 = s1\<lparr>oa_active := Some x, oa_next := i + 1\<rparr>
             in case ow_url w (oc_endpoint c) of None \<Rightarrow> None
             | Some u \<Rightarrow>
               (case oauth_transition
                 \<lparr>sn_phase = OpeningBrowser, sn_provider = Some provider,
                  sn_expires_at = Some expires_at, sn_failure = None\<rparr> s2 of
                 None \<Rightarrow> None
               | Some s3 \<Rightarrow>
                 Some (s3\<lparr>oa_opened := oa_opened s3 @ [\<lparr>rq_session = i, rq_endpoint = oc_endpoint c,
                            rq_params = authorization_params w c state_bytes verifier_bytes (wu_params u)\<rparr>],
                          oa_suspended := oa_suspended s3 @
                            [\<lparr>su_session = i, su_provider = provider, su_expires_at = expires_at\<rparr>]\<rparr>)))))"

text \<open>The rest of \<open>start\<close>, when the promise of \<open>openExternal\<close> settles.\<close>

definition oauth_opened :: "nat \<Rightarrow> bool \<Rightarrow> oauth_service \<Rightarrow> oauth_service option" where
  "oauth_opened i ok s =
     (case List.find (\<lambda>k. su_session k = i) (oa_suspended s) of None \<Rightarrow> Some s
      | Some k \<Rightarrow>
          (let s1 = s\<lparr>oa_suspended := filter (\<lambda>k. su_session k \<noteq> i) (oa_suspended s)\<rparr> in
           case oa_active s1 of None \<Rightarrow> Some s1
           | Some x \<Rightarrow>
             if os_id x \<noteq> i then Some s1
             else if \<not> ok then oauth_terminate i Failed (Some BrowserOpenFailed) s1
             else if oauth_phase_of s1 = OpeningBrowser
             then oauth_transition
               \<lparr>sn_phase = AwaitingPaste, sn_provider = Some (su_provider k),
                sn_expires_at = Some (su_expires_at k), sn_failure = None\<rparr> s1
             else Some s1))"

text \<open>\<open>submitRedirectUrl\<close>. A code is handed to the callback first and the session is terminated after
  the callback returned; the callback runs while the session is still open, it may call the service
  and it may throw, in which case the session is not terminated. The callback is a function from the
  grant and the state to whether it throws and the state it leaves; without a registered callback the
  code is dropped.\<close>

definition record_grant :: "nat \<Rightarrow> code_grant \<Rightarrow> oauth_service \<Rightarrow> oauth_service" where
  "record_grant i g s = s\<lparr>oa_grants := oa_grants s @ [(i, g)]\<rparr>"

definition submitRedirectUrl ::
  "oauth_world \<Rightarrow> (oauth_service \<Rightarrow> (bool \<times> oauth_service) option) \<Rightarrow> string
   \<Rightarrow> oauth_service \<Rightarrow> oauth_service option" where
  "submitRedirectUrl w callback pasted s =
     (case oa_active s of None \<Rightarrow> Some s
      | Some x \<Rightarrow>
        if oauth_phase_of s \<noteq> AwaitingPaste then Some s
        else case validatePastedRedirect w pasted (os_redirect x) (base64Url (os_state x)) of
          PastedRejected _ \<Rightarrow>
            (let x1 = x\<lparr>os_invalid := os_invalid x + 1\<rparr>; s1 = s\<lparr>oa_active := Some x1\<rparr> in
             if os_invalid x1 \<ge> MAX_INVALID_REDIRECT_PASTES
             then oauth_terminate (os_id x) Failed (Some RedirectInvalid) s1 else Some s1)
        | PastedError err \<Rightarrow>
            oauth_terminate (os_id x) Failed
              (Some (if err = ''access_denied'' then ProviderDenied else ProviderError)) s
        | PastedCode c \<Rightarrow>
            if \<not> oa_has_callback s then oauth_terminate (os_id x) AuthorizationReceived None s
            else case callback (record_grant (os_id x)
                   \<lparr>gr_provider = os_provider x, gr_code = c,
                    gr_verifier = base64Url (os_verifier x), gr_redirect = os_redirect x\<rparr> s) of
              None \<Rightarrow> None
            | Some (True, s1) \<Rightarrow> Some s1
            | Some (False, s1) \<Rightarrow> oauth_terminate (os_id x) AuthorizationReceived None s1)"

text \<open>\<open>cancel\<close> and \<open>dispose\<close>.\<close>

definition oauth_cancel :: "oauth_service \<Rightarrow> oauth_service option" where
  "oauth_cancel s =
     (case oa_active s of None \<Rightarrow> Some s | Some x \<Rightarrow> oauth_terminate (os_id x) Cancelled None s)"

text \<open>The callback of the timer of session \<open>i\<close>.\<close>

definition oauth_timeout :: "nat \<Rightarrow> oauth_service \<Rightarrow> oauth_service option" where
  "oauth_timeout i s =
     (case oa_active s of None \<Rightarrow> Some s
      | Some x \<Rightarrow> if os_id x = i then oauth_terminate i TimedOut None s else Some s)"

text \<open>An operation with what the environment contributes. A submission comes with the calls the
  callback makes on the service, should it be invoked, and whether it throws after them.\<close>

datatype oauth_operation =
  Start oauth_provider int bytes bytes
| BrowserSettled nat bool
| Submit string "oauth_operation list" bool
| TimerFired nat
| Cancel

fun oauth_step :: "oauth_world \<Rightarrow> oauth_operation \<Rightarrow> oauth_service \<Rightarrow> oauth_service option"
and oauth_run :: "oauth_world \<Rightarrow> oauth_operation list \<Rightarrow> oauth_service \<Rightarrow> oauth_service option" where
  "oauth_step w (Start p now sb vb) s = oauth_start w p now sb vb s"
| "oauth_step w (BrowserSettled i ok) s = oauth_opened i ok s"
| "oauth_step w (Submit pasted calls throws) s =
     submitRedirectUrl w (\<lambda>s. map_option (Pair throws) (oauth_run w calls s)) pasted s"
| "oauth_step w (TimerFired i) s = oauth_timeout i s"
| "oauth_step w Cancel s = oauth_cancel s"
| "oauth_run w [] s = Some s"
| "oauth_run w (op # ops) s = (case oauth_step w op s of None \<Rightarrow> None | Some s1 \<Rightarrow> oauth_run w ops s1)"

text \<open>A callback that only takes the grant, as the one of \<open>src/main/index.ts\<close> does.\<close>

fun quiet :: "oauth_operation \<Rightarrow> bool" where
  "quiet (Submit _ calls throws) = (calls = [] \<and> \<not> throws)"
| "quiet _ = True"

section \<open>The phase table\<close>

interpretation oauth: escapable_table
  "\<lambda>p q. q \<in> set (allowedTransitions p)" oauth_phase_of "\<lambda>new _. sn_phase new" oauth_transition Failed
proof unfold_locales
  fix p show "Failed \<in> set (allowedTransitions p)" by (cases p) auto
qed (auto simp: oauth_transition_def split: if_splits)

definition busy_phase :: "oauth_phase \<Rightarrow> bool" where
  "busy_phase p = (p = OpeningBrowser \<or> p = AwaitingPaste)"

definition closing_phase :: "oauth_phase \<Rightarrow> bool" where
  "closing_phase p = (p \<in> {AuthorizationReceived, Cancelled, TimedOut, Failed})"

lemma busy_may_close: "busy_phase p \<Longrightarrow> closing_phase q \<Longrightarrow> q \<in> set (allowedTransitions p)"
  by (auto simp: busy_phase_def closing_phase_def)

lemma rest_may_start: "p \<in> set [Idle, AuthorizationReceived, Cancelled, TimedOut, Failed] \<Longrightarrow>
    Preparing \<in> set (allowedTransitions p) \<and> Failed \<in> set (allowedTransitions p)"
  by auto

lemma not_busy: "\<not> busy_phase p \<Longrightarrow> p \<noteq> Preparing \<Longrightarrow>
    p \<in> set [Idle, AuthorizationReceived, Cancelled, TimedOut, Failed]"
  by (cases p) (auto simp: busy_phase_def)

section \<open>What the redirect check accepts\<close>

lemma safeTextEqual_eq: "safeTextEqual l r \<longleftrightarrow> l = r"
  by (auto simp: safeTextEqual_def Let_def list.rel_eq utf8_inject [symmetric])

definition plain_text :: "nat \<Rightarrow> string \<Rightarrow> bool" where
  "plain_text limit s = (s \<noteq> [] \<and> length s \<le> limit \<and> \<not> hasControlCharacters s)"

text \<open>The redirect the provider was told to use, carrying exactly this session's state and no token.\<close>

definition redirect_matches :: "oauth_world \<Rightarrow> string \<Rightarrow> string \<Rightarrow> string \<Rightarrow> web_url \<Rightarrow> bool" where
  "redirect_matches w pasted redirect_uri state u =
     (pasted \<noteq> [] \<and> length pasted \<le> PASTED_REDIRECT_URL_LIMIT \<and> ow_url w (trim pasted) = Some u \<and>
      (\<exists>e. ow_url w redirect_uri = Some e \<and> wu_origin u = wu_origin e \<and> url_pathname u = url_pathname e) \<and>
      get_all ''state'' u = [state] \<and> length state \<le> 256 \<and>
      \<not> has_param ''access_token'' u \<and> \<not> has_param ''refresh_token'' u \<and> \<not> has_param ''id_token'' u)"

lemma single_iff: "xs = [x] \<longleftrightarrow> length xs = 1 \<and> xs ! 0 = x"
  by (cases xs) auto

text \<open>Past the checks on the place, the state and the tokens, the result is read off the lists of
  codes and of errors.\<close>

definition read_result :: "string list \<Rightarrow> string list \<Rightarrow> pasted_validation" where
  "read_result codes errors =
     (case (codes, errors) of
        ([], []) \<Rightarrow> PastedRejected MissingResult
      | ([c], []) \<Rightarrow> if plain_text AUTHORIZATION_CODE_LIMIT c then PastedCode c else PastedRejected AmbiguousResult
      | ([], [err]) \<Rightarrow> if plain_text 128 err then PastedError err else PastedRejected AmbiguousResult
      | _ \<Rightarrow> PastedRejected AmbiguousResult)"

lemma redirect_matched:
  assumes "redirect_matches w pasted redirect_uri state u"
  shows "validatePastedRedirect w pasted redirect_uri state = read_result (get_all ''code'' u) (get_all ''error'' u)"
proof -
  from assms obtain e where e: "ow_url w redirect_uri = Some e" "wu_origin u = wu_origin e"
    "url_pathname u = url_pathname e" by (auto simp: redirect_matches_def)
  with assms show ?thesis
    unfolding validatePastedRedirect_def read_result_def plain_text_def redirect_matches_def
    by (cases "get_all ''code'' u"; cases "get_all ''error'' u"; cases "tl (get_all ''code'' u)";
        cases "tl (get_all ''error'' u)")
      (simp_all add: Let_def safeTextEqual_eq)
qed

lemma redirect_unmatched:
  assumes none: "\<nexists>u. redirect_matches w pasted redirect_uri state u"
  shows "\<exists>reason. validatePastedRedirect w pasted redirect_uri state = PastedRejected reason"
proof (cases "pasted = [] \<or> length pasted > PASTED_REDIRECT_URL_LIMIT")
  case True
  then show ?thesis by (simp add: validatePastedRedirect_def)
next
  case size: False
  show ?thesis
  proof (cases "ow_url w (trim pasted)")
    case None
    with size show ?thesis by (simp add: validatePastedRedirect_def)
  next
    case u: (Some u)
    show ?thesis
    proof (cases "ow_url w redirect_uri")
      case None
      with size u show ?thesis by (simp add: validatePastedRedirect_def)
    next
      case e: (Some e)
      have "\<not> redirect_matches w pasted redirect_uri state u" using none by blast
      then have "(wu_origin u \<noteq> wu_origin e \<or> url_pathname u \<noteq> url_pathname e)
        \<or> (length (get_all ''state'' u) \<noteq> 1 \<or> length (get_all ''state'' u ! 0) > 256
            \<or> get_all ''state'' u ! 0 \<noteq> state)
        \<or> (list_ex (\<lambda>key. has_param key u) [''access_token'', ''refresh_token'', ''id_token''])"
        using size u e by (auto simp: redirect_matches_def single_iff)
      then show ?thesis using size u e
        by (auto simp: validatePastedRedirect_def safeTextEqual_eq Let_def)
    qed
  qed
qed

lemma read_result_code:
  "read_result codes errors = PastedCode c \<longleftrightarrow>
     codes = [c] \<and> errors = [] \<and> plain_text AUTHORIZATION_CODE_LIMIT c"
  by (auto simp: read_result_def split: list.splits)

lemma redirect_matches_unique:
  "redirect_matches w pasted r st u \<Longrightarrow> redirect_matches w pasted r' st' u' \<Longrightarrow> u = u' \<and> st = st'"
  by (auto simp: redirect_matches_def)

lemma accepted_code:
  "validatePastedRedirect w pasted r st = PastedCode c \<longleftrightarrow>
     (\<exists>u. redirect_matches w pasted r st u \<and> get_all ''code'' u = [c] \<and> get_all ''error'' u = []
          \<and> plain_text AUTHORIZATION_CODE_LIMIT c)"
proof (cases "\<exists>u. redirect_matches w pasted r st u")
  case True
  then obtain u where u: "redirect_matches w pasted r st u" by blast
  then have "(\<exists>u. redirect_matches w pasted r st u \<and> P u) \<longleftrightarrow> P u" for P
    using redirect_matches_unique by blast
  then show ?thesis by (simp add: redirect_matched [OF u] read_result_code)
next
  case False
  then show ?thesis using redirect_unmatched [OF False] by auto
qed

section \<open>The invariant of the service\<close>

text \<open>A recorded request that was opened for session \<open>i\<close> with the challenge of this verifier.\<close>

definition request_for :: "oauth_world \<Rightarrow> opened_request list \<Rightarrow> nat \<Rightarrow> string \<Rightarrow> string \<Rightarrow> bool" where
  "request_for w rqs i verifier redirect =
     (\<exists>rq \<in> set rqs. rq_session rq = i \<and>
        map_of (rq_params rq) ''code_challenge'' = Some (pkce_challenge w verifier) \<and>
        map_of (rq_params rq) ''code_challenge_method'' = Some ''S256'' \<and>
        map_of (rq_params rq) ''response_type'' = Some ''code'' \<and>
        map_of (rq_params rq) ''redirect_uri'' = Some redirect)"

lemma request_for_append: "request_for w rqs i v r \<Longrightarrow> request_for w (rqs @ rqs') i v r"
  by (auto simp: request_for_def)

lemma request_for_new:
  "request_for w (rqs @ [\<lparr>rq_session = i, rq_endpoint = e,
     rq_params = authorization_params w c sb vb query\<rparr>]) i (base64Url vb) (oc_redirect c)"
  by (auto simp: request_for_def authorization_params_def map_of_set_param)

definition session_ok :: "oauth_world \<Rightarrow> oauth_service \<Rightarrow> oauth_session \<Rightarrow> bool" where
  "session_ok w s x =
     (os_id x < oa_next s \<and> os_id x \<notin> os_id ` set (oa_retired s) \<and>
      request_for w (oa_opened s) (os_id x) (base64Url (os_verifier x)) (os_redirect x) \<and>
      (\<forall>k \<in> set (oa_suspended s). su_session k = os_id x \<longrightarrow> su_provider k = os_provider x))"

definition retired_ok :: "oauth_service \<Rightarrow> bool" where
  "retired_ok s =
     (\<forall>x \<in> set (oa_retired s). os_id x < oa_next s \<and> set (os_state x) \<subseteq> {0} \<and> set (os_verifier x) \<subseteq> {0})"

definition grants_ok :: "oauth_world \<Rightarrow> oauth_service \<Rightarrow> bool" where
  "grants_ok w s =
     (\<forall>(i, g) \<in> set (oa_grants s). plain_text AUTHORIZATION_CODE_LIMIT (gr_code g) \<and>
         request_for w (oa_opened s) i (gr_verifier g) (gr_redirect g))"

text \<open>With quiet callbacks, moreover, a session has at most one grant and is closed when it has one.\<close>

definition granted_once :: "oauth_service \<Rightarrow> bool" where
  "granted_once s =
     (distinct (map fst (oa_grants s)) \<and> fst ` set (oa_grants s) \<subseteq> os_id ` set (oa_retired s))"

definition configurations_ok :: "oauth_world \<Rightarrow> oauth_service \<Rightarrow> bool" where
  "configurations_ok w s =
     (\<forall>(p, c) \<in> set (oa_configurations s). p = oc_provider c \<and> validateConfiguration w c = Inr c)"

definition oauth_ok :: "oauth_world \<Rightarrow> oauth_service \<Rightarrow> bool" where
  "oauth_ok w s =
     (configurations_ok w s \<and> retired_ok s \<and> grants_ok w s \<and>
      (\<forall>k \<in> set (oa_suspended s). su_session k < oa_next s) \<and>
      (case oa_active s of
         None \<Rightarrow> \<not> busy_phase (oauth_phase_of s) \<and> oauth_phase_of s \<noteq> Preparing
       | Some x \<Rightarrow> busy_phase (oauth_phase_of s) \<and> sn_provider (oa_snapshot s) = Some (os_provider x) \<and>
           os_invalid x < MAX_INVALID_REDIRECT_PASTES \<and> session_ok w s x))"

text \<open>Closing the active session always goes through, and leaves the state of its log.\<close>

definition close_session :: "oauth_session \<Rightarrow> oauth_phase \<Rightarrow> oauth_failure option \<Rightarrow> oauth_service \<Rightarrow> oauth_service" where
  "close_session x p failure s =
     s\<lparr>oa_active := None, oa_retired := wipe x # oa_retired s,
       oa_snapshot := \<lparr>sn_phase = p, sn_provider = Some (os_provider x), sn_expires_at = None,
                       sn_failure = failure\<rparr>\<rparr>"

lemma terminate_closed:
  assumes "oa_active s = Some x" "os_id x = i" "busy_phase (oauth_phase_of s)" "closing_phase p"
  shows "oauth_terminate i p failure s = Some (close_session x p failure s)"
  using assms busy_may_close
  by (simp add: oauth_terminate_def oauth_transition_def close_session_def)

lemma terminate_other: "map_option os_id (oa_active s) \<noteq> Some i \<Longrightarrow> oauth_terminate i p failure s = Some s"
  by (auto simp: oauth_terminate_def split: option.splits)

lemma wipe_simps [simp]: "os_id (wipe x) = os_id x" "set (os_state (wipe x)) \<subseteq> {0}"
    "set (os_verifier (wipe x)) \<subseteq> {0}"
  by (auto simp: wipe_def)

lemma closed_ok:
  assumes "configurations_ok w s" "retired_ok s" "os_id x < oa_next s" "closing_phase p"
    and "grants_ok w s" and "\<forall>k \<in> set (oa_suspended s). su_session k < oa_next s"
  shows "oauth_ok w (close_session x p failure s)"
  using assms wipe_simps(2,3) [of x]
  by (auto simp: oauth_ok_def close_session_def configurations_ok_def retired_ok_def grants_ok_def
      busy_phase_def closing_phase_def)

lemma terminate_ok:
  assumes ok: "oauth_ok w s" and p: "closing_phase p"
  shows "\<exists>s'. oauth_terminate i p failure s = Some s' \<and> oauth_ok w s'"
proof (cases "map_option os_id (oa_active s) = Some i")
  case True
  then obtain x where x: "oa_active s = Some x" "os_id x = i" by auto
  with ok have "busy_phase (oauth_phase_of s)" by (simp add: oauth_ok_def)
  moreover have "oauth_ok w (close_session x p failure s)"
    using ok x p by (intro closed_ok) (auto simp: oauth_ok_def session_ok_def)
  ultimately show ?thesis using terminate_closed x p by blast
next
  case False
  with ok show ?thesis by (simp add: terminate_other)
qed

lemma cancel_ok: "oauth_ok w s \<Longrightarrow> \<exists>s'. oauth_cancel s = Some s' \<and> oauth_ok w s'"
  using terminate_ok [of w s Cancelled _ None]
  by (auto simp: oauth_cancel_def closing_phase_def split: option.split)

lemma timeout_ok: "oauth_ok w s \<Longrightarrow> \<exists>s'. oauth_timeout i s = Some s' \<and> oauth_ok w s'"
  using terminate_ok [of w s TimedOut i None]
  by (auto simp: oauth_timeout_def closing_phase_def split: option.split)

lemma drop_suspended_ok:
  "oauth_ok w s \<Longrightarrow> oauth_ok w (s\<lparr>oa_suspended := filter P (oa_suspended s)\<rparr>)"
  by (auto simp: oauth_ok_def configurations_ok_def retired_ok_def grants_ok_def session_ok_def
      split: option.splits)

lemma opened_ok:
  assumes "oauth_ok w s"
  shows "\<exists>s'. oauth_opened i ok s = Some s' \<and> oauth_ok w s'"
proof (cases "List.find (\<lambda>k. su_session k = i) (oa_suspended s)")
  case None
  with assms show ?thesis by (simp add: oauth_opened_def)
next
  case k: (Some k)
  define s1 where "s1 = s\<lparr>oa_suspended := filter (\<lambda>k. su_session k \<noteq> i) (oa_suspended s)\<rparr>"
  have s1: "oauth_ok w s1" using assms by (simp add: s1_def drop_suspended_ok)
  show ?thesis
  proof (cases "oa_active s1")
    case None
    with k s1 show ?thesis by (simp add: oauth_opened_def s1_def)
  next
    case x: (Some x)
    show ?thesis
    proof (cases "os_id x = i \<and> ok \<and> oauth_phase_of s1 = OpeningBrowser")
      case True
      from find_Some_mem [OF k] assms x True have "su_provider k = os_provider x"
        by (auto simp: oauth_ok_def session_ok_def s1_def)
      with s1 x True show ?thesis using k
        by (auto simp: oauth_opened_def oauth_transition_def s1_def [symmetric] oauth_ok_def
            configurations_ok_def retired_ok_def grants_ok_def session_ok_def busy_phase_def)
    next
      case False
      then show ?thesis
        using k x s1 terminate_ok [OF s1, of Failed i "Some BrowserOpenFailed"]
        by (auto simp: oauth_opened_def s1_def [symmetric] closing_phase_def)
    qed
  qed
qed

lemma paste_rejected_ok:
  assumes "oauth_ok w s" "oa_active s = Some x"
  defines "x1 \<equiv> x\<lparr>os_invalid := os_invalid x + 1\<rparr>"
  shows "os_invalid x1 < MAX_INVALID_REDIRECT_PASTES \<Longrightarrow> oauth_ok w (s\<lparr>oa_active := Some x1\<rparr>)"
    and "\<exists>s'. oauth_terminate (os_id x) Failed (Some RedirectInvalid) (s\<lparr>oa_active := Some x1\<rparr>) = Some s'
           \<and> oauth_ok w s'"
proof -
  show "os_invalid x1 < MAX_INVALID_REDIRECT_PASTES \<Longrightarrow> oauth_ok w (s\<lparr>oa_active := Some x1\<rparr>)"
    using assms by (auto simp: oauth_ok_def configurations_ok_def retired_ok_def grants_ok_def session_ok_def)
  have "oauth_ok w (close_session x1 Failed (Some RedirectInvalid) (s\<lparr>oa_active := Some x1\<rparr>))"
    using assms by (intro closed_ok)
      (auto simp: oauth_ok_def session_ok_def configurations_ok_def retired_ok_def grants_ok_def closing_phase_def)
  moreover have "oauth_terminate (os_id x) Failed (Some RedirectInvalid) (s\<lparr>oa_active := Some x1\<rparr>)
      = Some (close_session x1 Failed (Some RedirectInvalid) (s\<lparr>oa_active := Some x1\<rparr>))"
    using assms by (intro terminate_closed) (auto simp: oauth_ok_def closing_phase_def)
  ultimately show "\<exists>s'. oauth_terminate (os_id x) Failed (Some RedirectInvalid) (s\<lparr>oa_active := Some x1\<rparr>)
      = Some s' \<and> oauth_ok w s'" by blast
qed

text \<open>Handing a code out keeps the invariant, so whatever the callback does from there does as well.\<close>

lemma record_grant_ok:
  assumes "oauth_ok w s" "oa_active s = Some x" "plain_text AUTHORIZATION_CODE_LIMIT (gr_code g)"
    and "gr_verifier g = base64Url (os_verifier x)" "gr_redirect g = os_redirect x"
  shows "oauth_ok w (record_grant (os_id x) g s)"
  using assms by (auto simp: oauth_ok_def record_grant_def configurations_ok_def retired_ok_def
      grants_ok_def session_ok_def)

lemma submit_ok:
  assumes ok: "oauth_ok w s"
    and callback: "\<And>s. oauth_ok w s \<Longrightarrow> \<exists>b s'. callback s = Some (b, s') \<and> oauth_ok w s'"
  shows "\<exists>s'. submitRedirectUrl w callback pasted s = Some s' \<and> oauth_ok w s'"
proof (cases "oa_active s")
  case x: (Some x)
  show ?thesis
  proof (cases "validatePastedRedirect w pasted (os_redirect x) (base64Url (os_state x))")
    case (PastedCode c)
    then have plain: "plain_text AUTHORIZATION_CODE_LIMIT c" by (auto simp: accepted_code)
    define g where "g = \<lparr>gr_provider = os_provider x, gr_code = c,
      gr_verifier = base64Url (os_verifier x), gr_redirect = os_redirect x\<rparr>"
    have "oauth_ok w (record_grant (os_id x) g s)"
      using record_grant_ok [OF ok x] plain by (simp add: g_def)
    from callback [OF this] obtain b s1 where
      s1: "callback (record_grant (os_id x) g s) = Some (b, s1)" "oauth_ok w s1" by blast
    have close: "closing_phase AuthorizationReceived" by (simp add: closing_phase_def)
    show ?thesis
      using x ok PastedCode s1 terminate_ok [OF ok close, of "os_id x" None]
        terminate_ok [OF s1(2) close, of "os_id x" None]
      by (cases b) (auto simp: submitRedirectUrl_def g_def)
  next
    case (PastedError e)
    with terminate_ok [OF ok, of Failed "os_id x"] x ok show ?thesis
      by (auto simp: submitRedirectUrl_def closing_phase_def)
  next
    case (PastedRejected r)
    with paste_rejected_ok [OF ok x] x ok show ?thesis
      by (auto simp: submitRedirectUrl_def Let_def)
  qed
qed (use ok in \<open>simp add: submitRedirectUrl_def\<close>)

lemma validated_endpoint: "validateConfiguration w c = Inr c' \<Longrightarrow> c' = c \<and> (\<exists>u. ow_url w (oc_endpoint c) = Some u)"
  by (auto simp: validateConfiguration_def split: if_splits option.splits)

lemma start_ok:
  assumes ok: "oauth_ok w s"
  shows "\<exists>s'. oauth_start w p now sb vb s = Some s' \<and> oauth_ok w s'"
proof (cases "oa_active s")
  case (Some x)
  with ok show ?thesis by (simp add: oauth_start_def)
next
  case None
  with ok have rest: "\<not> busy_phase (oauth_phase_of s)" "oauth_phase_of s \<noteq> Preparing"
    by (simp_all add: oauth_ok_def)
  note may = rest_may_start [OF not_busy [OF rest]]
  show ?thesis
  proof (cases "map_of (oa_configurations s) p")
    case no: None
    with None may ok show ?thesis
      by (auto simp: oauth_start_def oauth_transition_def oauth_ok_def configurations_ok_def
          retired_ok_def grants_ok_def busy_phase_def)
  next
    case c: (Some c)
    then have "(p, c) \<in> set (oa_configurations s)" by (rule map_of_SomeD)
    with ok obtain u where u: "ow_url w (oc_endpoint c) = Some u"
      using validated_endpoint by (fastforce simp: oauth_ok_def configurations_ok_def)
    have fresh: "oa_next s \<notin> os_id ` set (oa_retired s)"
      using ok by (auto simp: oauth_ok_def retired_ok_def)
    show ?thesis
      using None may c u ok fresh request_for_new [of w "oa_opened s" "oa_next s" "oc_endpoint c" c sb vb "wu_params u"]
      by (auto simp: oauth_start_def oauth_transition_def Let_def oauth_ok_def configurations_ok_def
          retired_ok_def grants_ok_def session_ok_def busy_phase_def MAX_INVALID_REDIRECT_PASTES_def
          intro: request_for_append less_SucI dest: less_imp_neq)
  qed
qed

lemma step_run_ok:
  "oauth_ok w s \<Longrightarrow> \<exists>s'. oauth_step w op s = Some s' \<and> oauth_ok w s'"
  "oauth_ok w s \<Longrightarrow> \<exists>s'. oauth_run w ops s = Some s' \<and> oauth_ok w s'"
proof (induction w op s and w ops s rule: oauth_step_oauth_run.induct)
  case (3 w pasted calls throws s)
  show ?case unfolding oauth_step.simps
    by (rule submit_ok [OF 3(2)]) (use 3(1) in fastforce)
next
  case (7 w op ops s)
  then show ?case by (fastforce split: option.splits)
qed (simp_all add: start_ok opened_ok timeout_ok cancel_ok)

lemmas run_ok = step_run_ok(2)

section \<open>Quiet callbacks\<close>

text \<open>Every operation other than a submission leaves the grants alone and retires sessions only.\<close>

lemma terminate_frame:
  assumes "oauth_terminate i p failure s = Some s'"
  shows "oa_grants s' = oa_grants s \<and> os_id ` set (oa_retired s) \<subseteq> os_id ` set (oa_retired s')"
  using assms by (auto simp: oauth_terminate_def oauth_transition_def split: option.splits if_splits)

lemma once_frame:
  "granted_once s \<Longrightarrow> oa_grants s' = oa_grants s \<Longrightarrow> os_id ` set (oa_retired s) \<subseteq> os_id ` set (oa_retired s') \<Longrightarrow>
   granted_once s'"
  unfolding granted_once_def by (metis order_trans)

lemma terminate_once: "granted_once s \<Longrightarrow> oauth_terminate i p failure s = Some s' \<Longrightarrow> granted_once s'"
  by (frule terminate_frame) (blast intro: once_frame)

lemma start_frame:
  "oauth_start w p now sb vb s = Some s' \<Longrightarrow> oa_grants s' = oa_grants s \<and> oa_retired s' = oa_retired s"
  by (auto simp: oauth_start_def oauth_transition_def Let_def split: option.splits if_splits)

lemma opened_once: "granted_once s \<Longrightarrow> oauth_opened i ok s = Some s' \<Longrightarrow> granted_once s'"
  by (erule once_frame)
    (auto simp: oauth_opened_def oauth_transition_def Let_def split: option.splits if_splits dest!: terminate_frame)

lemma granted_once_active [simp]: "granted_once (s\<lparr>oa_active := x\<rparr>) = granted_once s"
  by (simp add: granted_once_def)

lemma grant_then_close:
  assumes "granted_once s" "oa_active s = Some x" "os_id x \<notin> fst ` set (oa_grants s)"
    and "oauth_terminate (os_id x) p failure (record_grant (os_id x) g s) = Some s'"
  shows "granted_once s'"
proof -
  have "oa_retired s' = wipe x # oa_retired s" "oa_grants s' = oa_grants s @ [(os_id x, g)]"
    using assms(2,4) by (auto simp: oauth_terminate_def oauth_transition_def record_grant_def split: if_splits)
  with assms(1,3) show ?thesis by (auto simp: granted_once_def)
qed

lemma silent_submission_once:
  assumes "oauth_ok w s" "granted_once s" "submitRedirectUrl w (\<lambda>s. Some (False, s)) pasted s = Some s'"
  shows "granted_once s'"
proof (cases "oa_active s")
  case x: (Some x)
  then have fresh: "os_id x \<notin> fst ` set (oa_grants s)"
    using assms(1,2) by (auto simp: oauth_ok_def session_ok_def granted_once_def)
  show ?thesis
  proof (cases "validatePastedRedirect w pasted (os_redirect x) (base64Url (os_state x))")
    case (PastedCode c)
    with assms(2,3) x show ?thesis
      using grant_then_close [OF assms(2) x fresh] terminate_once [OF assms(2)]
      by (simp add: submitRedirectUrl_def split: if_splits)
  next
    case (PastedError e)
    with assms(2,3) x show ?thesis
      using terminate_once [OF assms(2)] by (simp add: submitRedirectUrl_def split: if_splits)
  next
    case (PastedRejected e)
    have "granted_once (s\<lparr>oa_active := Some (x\<lparr>os_invalid := Suc (os_invalid x)\<rparr>)\<rparr>)"
      using assms(2) by simp
    note rejected = terminate_once [OF this]
    from PastedRejected assms(2,3) x show ?thesis
      by (auto simp: submitRedirectUrl_def Let_def split: if_splits intro: rejected)
  qed
qed (use assms in \<open>simp add: submitRedirectUrl_def\<close>)

lemma quiet_step_once:
  assumes "oauth_ok w s" "granted_once s" "quiet op" "oauth_step w op s = Some s'"
  shows "granted_once s'"
proof (cases op)
  case (Start p now sb vb)
  with assms(4) have "oa_grants s' = oa_grants s \<and> oa_retired s' = oa_retired s" by (simp add: start_frame)
  with assms(2) show ?thesis by (simp add: granted_once_def)
next
  case (BrowserSettled i ok)
  with assms(4) show ?thesis by (auto intro: opened_once [OF assms(2)])
next
  case (Submit pasted calls throws)
  with assms(3,4) show ?thesis by (auto intro: silent_submission_once [OF assms(1,2)])
next
  case (TimerFired i)
  with assms(2,4) show ?thesis
    by (auto simp: oauth_timeout_def split: option.splits if_splits intro: terminate_once)
next
  case Cancel
  with assms(2,4) show ?thesis by (auto simp: oauth_cancel_def split: option.splits intro: terminate_once)
qed

lemma quiet_run_once:
  "oauth_ok w s \<Longrightarrow> granted_once s \<Longrightarrow> list_all quiet ops \<Longrightarrow> oauth_run w ops s = Some s' \<Longrightarrow> granted_once s'"
proof (induction ops arbitrary: s)
  case (Cons op ops)
  from step_run_ok(1) [OF Cons.prems(1), of op] obtain s1 where
    s1: "oauth_step w op s = Some s1" "oauth_ok w s1" by blast
  with Cons.prems have "granted_once s1" by (auto intro: quiet_step_once)
  with Cons.IH [OF s1(2)] Cons.prems s1 show ?case by simp
qed simp

lemma register_all_ok:
  "register_all w cs known = Inr known' \<Longrightarrow>
   \<forall>(p, c) \<in> set known. p = oc_provider c \<and> validateConfiguration w c = Inr c \<Longrightarrow>
   \<forall>(p, c) \<in> set known'. p = oc_provider c \<and> validateConfiguration w c = Inr c"
proof (induction cs arbitrary: known)
  case (Cons c cs)
  then obtain c' where c': "validateConfiguration w c = Inr c'"
    "register_all w cs (AList.update (oc_provider c') c' known) = Inr known'"
    by (auto split: sum.splits if_splits)
  from validated_endpoint [OF c'(1)] c'(1) Cons.prems(2)
  have "\<forall>(p, c) \<in> set (AList.update (oc_provider c') c' known).
      p = oc_provider c \<and> validateConfiguration w c = Inr c"
    by (auto dest!: update_entry_cases)
  from Cons.IH [OF c'(2) this] show ?case .
qed simp

lemma create_ok: "create_service w t h cs = Inr s \<Longrightarrow> oauth_ok w s"
  using register_all_ok [of w cs "[]"]
  by (auto simp: create_service_def Let_def oauth_ok_def configurations_ok_def retired_ok_def
      grants_ok_def busy_phase_def split: if_splits sum.splits)

lemma created_once: "create_service w t h cs = Inr s \<Longrightarrow> granted_once s"
  by (auto simp: create_service_def Let_def granted_once_def split: if_splits sum.splits)

lemma run_of_created:
  assumes "create_service w t h cs = Inr s0" "oauth_run w ops s0 = Some s"
  shows "oauth_ok w s"
  using run_ok [OF create_ok [OF assms(1)], of ops] assms(2) by simp

section \<open>A concrete world\<close>

text \<open>A parser that knows three addresses, for the closed examples.\<close>

definition sample_world :: oauth_world where
  "sample_world = \<lparr>ow_url = (\<lambda>t.
      if t = ''https://id/auth'' then Some (simple_url ''https'' ''id'' ''/auth'' [])
      else if t = ''https://app/cb'' then Some (simple_url ''https'' ''app'' ''/cb'' [])
      else if t = ''https://app/cb?ok''
      then Some (simple_url ''https'' ''app'' ''/cb'' [(''state'', ''AQID''), (''code'', ''abc'')])
      else None),
    ow_sha256 = (\<lambda>bs. bs), ow_iso = (\<lambda>_. ''2026'')\<rparr>"

definition sample_configuration :: oauth_configuration where
  "sample_configuration = \<lparr>oc_provider = Google, oc_endpoint = ''https://id/auth'', oc_client = ''cid'',
     oc_scopes = [''mail''], oc_redirect = ''https://app/cb''\<rparr>"

definition sample_operations :: "oauth_operation list" where
  "sample_operations = [Start Google 0 [1, 2, 3] [7, 8, 9], BrowserSettled 0 True,
     Submit ''https://app/cb?ok'' [] False, Submit ''https://app/cb?ok'' [] False]"

lemma sample_run:
  "case create_service sample_world None True [sample_configuration] of Inl _ \<Rightarrow> False
   | Inr s0 \<Rightarrow> (case oauth_run sample_world sample_operations s0 of None \<Rightarrow> False
      | Some s \<Rightarrow> map (\<lambda>(i, g). (i, gr_code g)) (oa_grants s) = [(0, ''abc'')])"
  by code_simp

lemma sample_service:
  obtains s0 s where "create_service sample_world None True [sample_configuration] = Inr s0"
    "oauth_run sample_world sample_operations s0 = Some s"
    "map (\<lambda>(i, g). (i, gr_code g)) (oa_grants s) = [(0, ''abc'')]"
  using sample_run by (auto split: sum.splits option.splits)

section \<open>Properties\<close>

text \<open>A pasted address yields a code exactly when it is the registered redirect (same origin and
  path), carries this session's state once, no token parameter, and one code and no error, the code
  being bounded text without control characters. Nothing else is ever handed on.\<close>
theorem redirect_accepted_exactly:
  "validatePastedRedirect w pasted redirect_uri state = PastedCode c \<longleftrightarrow>
     (\<exists>u e. pasted \<noteq> [] \<and> length pasted \<le> 8192 \<and> ow_url w (trim pasted) = Some u
        \<and> ow_url w redirect_uri = Some e
        \<and> wu_origin u = wu_origin e \<and> url_pathname u = url_pathname e
        \<and> get_all ''state'' u = [state] \<and> length state \<le> 256
        \<and> \<not> has_param ''access_token'' u \<and> \<not> has_param ''refresh_token'' u \<and> \<not> has_param ''id_token'' u
        \<and> get_all ''code'' u = [c] \<and> get_all ''error'' u = []
        \<and> c \<noteq> [] \<and> length c \<le> 8192 \<and> \<not> hasControlCharacters c)"
  unfolding accepted_code
  by (auto simp: redirect_matches_def plain_text_def PASTED_REDIRECT_URL_LIMIT_def
      AUTHORIZATION_CODE_LIMIT_def)

text \<open>A redirect accepted for one session is rejected by every session with other state bytes: the
  encoding of the state is injective and the comparison exact.\<close>
theorem redirect_fits_one_session:
  assumes "validatePastedRedirect w pasted redirect_uri (base64Url sb) = PastedCode c"
    and "length sb' = length sb" and "sb' \<noteq> sb"
  shows "\<exists>reason. validatePastedRedirect w pasted redirect_uri' (base64Url sb') = PastedRejected reason"
proof (rule redirect_unmatched)
  from assms(1) obtain u where u: "redirect_matches w pasted redirect_uri (base64Url sb) u"
    by (auto simp: accepted_code)
  show "\<nexists>u'. redirect_matches w pasted redirect_uri' (base64Url sb') u'"
    using redirect_matches_unique [OF u] base64Url_inject assms(2,3) by metis
qed

theorem redirect_fits_one_session_witness:
  "\<exists>reason. validatePastedRedirect sample_world ''https://app/cb?ok'' ''https://app/cb'' (base64Url [1, 2, 4])
     = PastedRejected reason"
proof (rule redirect_fits_one_session [where sb = "[1, 2, 3]" and c = "''abc''"])
  show "validatePastedRedirect sample_world ''https://app/cb?ok'' ''https://app/cb'' (base64Url [1, 2, 3])
      = PastedCode ''abc''" by code_simp
qed simp_all

text \<open>C18: From a service that was constructed, every interleaving of calls, browser results and timers
  goes through without the invalid-transition exception; a session is open exactly in the two busy
  phases, and it has used fewer than eight wrong pastes.\<close>
theorem oauth_never_throws:
  assumes "create_service w t h cs = Inr s0"
  shows "\<exists>s. oauth_run w ops s0 = Some s
     \<and> (oa_active s \<noteq> None \<longleftrightarrow> oauth_phase_of s = OpeningBrowser \<or> oauth_phase_of s = AwaitingPaste)
     \<and> oauth_phase_of s \<noteq> Preparing
     \<and> case_option True (\<lambda>x. os_invalid x < 8) (oa_active s)"
proof -
  from run_ok [OF create_ok [OF assms], of ops] obtain s where
    s: "oauth_run w ops s0 = Some s" "oauth_ok w s" by blast
  from s(2) have "(oa_active s \<noteq> None \<longleftrightarrow> busy_phase (oauth_phase_of s)) \<and> oauth_phase_of s \<noteq> Preparing
      \<and> case_option True (\<lambda>x. os_invalid x < MAX_INVALID_REDIRECT_PASTES) (oa_active s)"
    by (auto simp: oauth_ok_def busy_phase_def split: option.splits)
  with s(1) show ?thesis
    by (cases "oa_active s") (simp_all add: busy_phase_def MAX_INVALID_REDIRECT_PASTES_def)
qed

theorem oauth_never_throws_witness:
  "case create_service sample_world None True [sample_configuration] of Inl _ \<Rightarrow> False
   | Inr s0 \<Rightarrow> oauth_run sample_world sample_operations s0 \<noteq> None"
proof -
  obtain s0 where s0: "create_service sample_world None True [sample_configuration] = Inr s0"
    by (rule sample_service)
  with oauth_never_throws [OF s0, of sample_operations] show ?thesis by auto
qed

text \<open>C3: However the operations interleave and whatever the callback does, every code that is handed
  out comes with the redirect and the PKCE verifier of a request that was opened for the very session
  it is handed out by. If moreover every callback returns without throwing and without calling the service,
  as the one of \<open>src/main/index.ts\<close>, a session hands out at most one code, and between operations
  a session that has handed one out is closed with both its buffers overwritten. (During the callback
  the session is still open; a callback that throws leaves it open.)\<close>
theorem grant_once_and_bound_to_request:
  assumes "create_service w t h cs = Inr s0" and "oauth_run w ops s0 = Some s"
  shows "list_all (\<lambda>(i, g).
       list_ex (\<lambda>rq. rq_session rq = i \<and>
          map_of (rq_params rq) ''code_challenge'' = Some (pkce_challenge w (gr_verifier g)) \<and>
          map_of (rq_params rq) ''redirect_uri'' = Some (gr_redirect g)) (oa_opened s)) (oa_grants s) \<and>
    (list_all quiet ops \<longrightarrow> distinct (map fst (oa_grants s)) \<and>
      list_all (\<lambda>(i, g).
        list_ex (\<lambda>x. os_id x = i \<and> list_all (\<lambda>b. b = 0) (os_state x @ os_verifier x)) (oa_retired s) \<and>
        map_option os_id (oa_active s) \<noteq> Some i) (oa_grants s))"
proof -
  from run_of_created [OF assms] have ok: "oauth_ok w s" .
  then have "list_all (\<lambda>(i, g).
       list_ex (\<lambda>rq. rq_session rq = i \<and>
          map_of (rq_params rq) ''code_challenge'' = Some (pkce_challenge w (gr_verifier g)) \<and>
          map_of (rq_params rq) ''redirect_uri'' = Some (gr_redirect g)) (oa_opened s)) (oa_grants s)"
    by (fastforce simp: oauth_ok_def list_all_iff list_ex_iff grants_ok_def request_for_def)
  moreover
  { assume "list_all quiet ops"
    with assms have once: "granted_once s"
      using quiet_run_once [OF create_ok created_once] by blast
    have "map_option os_id (oa_active s) \<noteq> Some i" if "i \<in> os_id ` set (oa_retired s)" for i
      using ok that by (auto simp: oauth_ok_def session_ok_def split: option.splits)
    moreover have "list_ex (\<lambda>x. os_id x = i \<and> list_all (\<lambda>b. b = 0) (os_state x @ os_verifier x)) (oa_retired s)"
      if "i \<in> os_id ` set (oa_retired s)" for i
      using ok that unfolding oauth_ok_def retired_ok_def by (fastforce simp: list_ex_iff list_all_iff)
    ultimately have "distinct (map fst (oa_grants s)) \<and>
      list_all (\<lambda>(i, g).
        list_ex (\<lambda>x. os_id x = i \<and> list_all (\<lambda>b. b = 0) (os_state x @ os_verifier x)) (oa_retired s) \<and>
        map_option os_id (oa_active s) \<noteq> Some i) (oa_grants s)"
      using once by (auto simp: list_all_iff granted_once_def) }
  ultimately show ?thesis by blast
qed

theorem grant_once_and_bound_to_request_witness:
  "case create_service sample_world None True [sample_configuration] of Inl _ \<Rightarrow> False
   | Inr s0 \<Rightarrow> (case oauth_run sample_world sample_operations s0 of None \<Rightarrow> False
      | Some s \<Rightarrow> oa_grants s \<noteq> [] \<and> distinct (map fst (oa_grants s)))"
proof -
  obtain s0 s where *: "create_service sample_world None True [sample_configuration] = Inr s0"
    "oauth_run sample_world sample_operations s0 = Some s"
    "map (\<lambda>(i, g). (i, gr_code g)) (oa_grants s) = [(0, ''abc'')]"
    by (rule sample_service)
  moreover have "list_all quiet sample_operations" by (simp add: sample_operations_def)
  ultimately show ?thesis using grant_once_and_bound_to_request [OF *(1,2)] by auto
qed

text \<open>A callback that throws leaves the session as it was, so that the same pasted address hands the
  same code out again.\<close>
theorem throwing_callback_keeps_session_open:
  assumes "oa_active s = Some x" "oauth_phase_of s = AwaitingPaste" "oa_has_callback s"
    and "validatePastedRedirect w pasted (os_redirect x) (base64Url (os_state x)) = PastedCode c"
  shows "oauth_step w (Submit pasted [] True) s = Some (record_grant (os_id x)
     \<lparr>gr_provider = os_provider x, gr_code = c, gr_verifier = base64Url (os_verifier x),
      gr_redirect = os_redirect x\<rparr> s)"
  using assms by (simp add: submitRedirectUrl_def)

end
