(* ===== verification/Json_Values.thy ===== *)
theory Json_Values
  imports Mail_Data
begin

text \<open>
  JSON values as \<open>JSON.parse\<close> returns them: an object is its properties in insertion order, read
  with \<^const>\<open>map_of\<close>, and a missing property is \<^const>\<open>None\<close> (\<open>undefined\<close>). A number is rational;
  what is not an integer or out of range is rejected by every reader that is modelled.
\<close>

datatype json =
    JNull
  | JBool bool
  | JNumber rat
  | JString string
  | JArray "json list"
  | JObject "(string \<times> json) list"

text \<open>The properties of a value that passed \<open>value && typeof value === "object"\<close>; an array has none of
  the names the readers ask for.\<close>

fun json_fields :: "json \<Rightarrow> (string \<times> json) list option" where
  "json_fields (JObject fs) = Some fs"
| "json_fields (JArray _) = Some []"
| "json_fields _ = None"

text \<open>\<open>typeof value === "number" && Number.isInteger(value) && minimum <= value && value <= maximum\<close>.\<close>

fun json_integer :: "int \<Rightarrow> int \<Rightarrow> json \<Rightarrow> int option" where
  "json_integer lo hi (JNumber r) =
     (let n = \<lfloor>r\<rfloor> in if of_int n = r \<and> lo \<le> n \<and> n \<le> hi then Some n else None)"
| "json_integer lo hi _ = None"

lemma json_integer_Some: "json_integer lo hi v = Some n \<longleftrightarrow> v = JNumber (of_int n) \<and> lo \<le> n \<and> n \<le> hi"
  by (cases v) (auto simp: Let_def)

lemma json_integer_of_int [simp]:
  "json_integer lo hi (JNumber (of_int n)) = (if lo \<le> n \<and> n \<le> hi then Some n else None)"
  by (simp add: Let_def)

end
