(* ===== verification/Token_Vault.thy ===== *)
theory Token_Vault
  imports OAuth_Flow Json_Values
begin

text \<open>
  The token vault (\<open>src/main/oauth-token-vault.ts\<close>) without its file: validation of registrations and
  token material, protection of token texts, the stored document with its reader, and what each
  operation does to the document. \<open>Vault_File\<close> puts the operations on the file. The URL parser, the
  clock functions, JSON and the encryption of the platform are the fields of \<open>vault_world\<close>; times are
  milliseconds within the range of \<open>Date\<close>. A \<open>throw\<close> is \<^const>\<open>Inl\<close>.
\<close>

section \<open>Data\<close>

definition VAULT_SCHEMA_VERSION :: int where "VAULT_SCHEMA_VERSION = 1"
definition VAULT_FILE_LIMIT :: nat where "VAULT_FILE_LIMIT = 1024 * 1024"
definition VAULT_RECORD_LIMIT :: nat where "VAULT_RECORD_LIMIT = 64"
definition ACCOUNT_KEY_LIMIT :: nat where "ACCOUNT_KEY_LIMIT = 256"
definition TOKEN_LIMIT :: nat where "TOKEN_LIMIT = 8192"
definition CIPHERTEXT_LIMIT :: nat where "CIPHERTEXT_LIMIT = 128 * 1024"
definition SCOPE_LIMIT :: nat where "SCOPE_LIMIT = 50"
definition SCOPE_TEXT_LIMIT :: nat where "SCOPE_TEXT_LIMIT = 256"
definition TOKEN_LIFETIME_MAX_SECONDS :: int where "TOKEN_LIFETIME_MAX_SECONDS = 24 * 60 * 60"

datatype vault_error =
  RegistrationRequired | SafeStorageUnavailable | InvalidInput | RecordExists | RecordNotFound | StorageFailed

record vault_world =
  vw_url :: web_url_parser
  vw_date :: "string \<Rightarrow> int option"
  vw_iso :: "int \<Rightarrow> string"
  vw_collate :: "string comparison"
  vw_windows :: bool
  vw_available :: "bool option"
  vw_encrypt :: "string \<Rightarrow> bytes option"
  vw_decrypt :: "bytes \<Rightarrow> string option"
  vw_stringify :: "json \<Rightarrow> string"
  vw_parse :: "string \<Rightarrow> json option"

record vault_registration =
  rg_provider :: oauth_provider
  rg_client :: string
  rg_token_endpoint :: string
  rg_revocation_endpoint :: "string option"

record token_material =
  tm_access :: string
  tm_refresh :: string
  tm_seconds :: rat
  tm_scopes :: "string list"

record token_rotation =
  tr_access :: string
  tr_refresh :: "string option"
  tr_seconds :: rat
  tr_scopes :: "string list"

record vault_record =
  vr_provider :: oauth_provider
  vr_account :: string
  vr_access :: string
  vr_refresh :: string
  vr_expires :: string
  vr_scopes :: "string list"
  vr_generation :: int
  vr_created :: string
  vr_updated :: string

section \<open>Validation\<close>

definition isPlainBoundedText :: "string \<Rightarrow> nat \<Rightarrow> bool" where
  "isPlainBoundedText v maximum = (v \<noteq> [] \<and> length v \<le> maximum \<and> \<not> list_ex is_control v)"

definition requireAccountKey :: "string \<Rightarrow> (vault_error, string) result" where
  "requireAccountKey v = (if isPlainBoundedText v ACCOUNT_KEY_LIMIT then Inr v else Inl InvalidInput)"

definition requireCleanHttpsEndpoint :: "vault_world \<Rightarrow> string \<Rightarrow> (vault_error, string) result" where
  "requireCleanHttpsEndpoint w v =
     (if length v > 2048 then Inl RegistrationRequired
      else (case vw_url w v of None \<Rightarrow> Inl RegistrationRequired
      | Some endpoint \<Rightarrow>
          if url_username endpoint \<noteq> [] \<or> url_password endpoint \<noteq> [] \<or> url_search endpoint \<noteq> [] \<or> url_hash endpoint \<noteq> []
          then Inl RegistrationRequired
          else if wu_protocol endpoint \<noteq> ''https:''
            \<and> \<not> (wu_protocol endpoint = ''http:'' \<and> url_hostname endpoint \<in> set [''127.0.0.1'', ''[::1]''])
          then Inl RegistrationRequired
          else Inr (wu_href endpoint)))"

definition validateRegistration :: "vault_world \<Rightarrow> vault_registration \<Rightarrow> (vault_error, vault_registration) result" where
  "validateRegistration w r =
     (if \<not> isPlainBoundedText (rg_client r) 512 then Inl RegistrationRequired
      else (case requireCleanHttpsEndpoint w (rg_token_endpoint r) of Inl e \<Rightarrow> Inl e
      | Inr token \<Rightarrow>
        (case rg_revocation_endpoint r of
           None \<Rightarrow> Inr (r\<lparr>rg_token_endpoint := token\<rparr>)
         | Some v \<Rightarrow>
             if v = [] then Inr (r\<lparr>rg_token_endpoint := token, rg_revocation_endpoint := None\<rparr>)
             else (case requireCleanHttpsEndpoint w v of Inl e \<Rightarrow> Inl e
                   | Inr v' \<Rightarrow> Inr (r\<lparr>rg_token_endpoint := token, rg_revocation_endpoint := Some v'\<rparr>)))))"

definition scopes_ok :: "string list \<Rightarrow> bool" where
  "scopes_ok vs =
     (1 \<le> length vs \<and> length vs \<le> SCOPE_LIMIT
      \<and> list_all (\<lambda>s. isPlainBoundedText s SCOPE_TEXT_LIMIT \<and> \<not> list_ex is_space s) vs \<and> distinct vs)"

definition validateScopes :: "string list \<Rightarrow> (vault_error, string list) result" where
  "validateScopes vs = (if scopes_ok vs then Inr vs else Inl InvalidInput)"

definition validateTokenLifetime :: "rat \<Rightarrow> (vault_error, int) result" where
  "validateTokenLifetime v =
     (case json_integer 1 TOKEN_LIFETIME_MAX_SECONDS (JNumber v) of None \<Rightarrow> Inl InvalidInput | Some n \<Rightarrow> Inr n)"

definition validateTokenText :: "string \<Rightarrow> (vault_error, string) result" where
  "validateTokenText v = (if isPlainBoundedText v TOKEN_LIMIT then Inr v else Inl InvalidInput)"

definition timestamp_ok :: "vault_world \<Rightarrow> string \<Rightarrow> bool" where
  "timestamp_ok w v = (length v \<le> 64 \<and> vw_date w v \<noteq> None)"

section \<open>Base64\<close>

text \<open>\<open>buffer.toString("base64")\<close>.\<close>

definition base64_standard :: "nat \<Rightarrow> char" where
  "base64_standard n = (if n = 62 then CHR ''+'' else if n = 63 then CHR ''/'' else base64_digit n)"

fun base64 :: "bytes \<Rightarrow> string" where
  "base64 (a # b # c # rest) =
     base64_standard (unat a div 4)
       # base64_standard (unat a mod 4 * 16 + unat b div 16)
       # base64_standard (unat b mod 16 * 4 + unat c div 64)
       # base64_standard (unat c mod 64) # base64 rest"
| "base64 [a, b] =
     [base64_standard (unat a div 4), base64_standard (unat a mod 4 * 16 + unat b div 16),
      base64_standard (unat b mod 16 * 4), CHR ''='']"
| "base64 [a] = [base64_standard (unat a div 4), base64_standard (unat a mod 4 * 16), CHR ''='', CHR ''='']"
| "base64 [] = []"

definition base64_number :: "char \<Rightarrow> nat" where
  "base64_number c = (if c = CHR ''+'' then 62 else if c = CHR ''/'' then 63 else base64_value c)"

definition is_base64 :: "char \<Rightarrow> bool" where
  "is_base64 c = (is_ascii_upper c \<or> is_ascii_lower c \<or> is_digit c \<or> c = CHR ''+'' \<or> c = CHR ''/'')"

text \<open>\<open>Buffer.from(text, "base64")\<close> on digits without padding; what is left over after the last full
  byte is dropped.\<close>

fun base64_bytes :: "string \<Rightarrow> bytes" where
  "base64_bytes (a # b # c # d # s) =
     of_nat (base64_number a * 4 + base64_number b div 16)
       # of_nat (base64_number b mod 16 * 16 + base64_number c div 4)
       # of_nat (base64_number c mod 4 * 64 + base64_number d) # base64_bytes s"
| "base64_bytes [a, b, c] =
     [of_nat (base64_number a * 4 + base64_number b div 16), of_nat (base64_number b mod 16 * 16 + base64_number c div 4)]"
| "base64_bytes [a, b] = [of_nat (base64_number a * 4 + base64_number b div 16)]"
| "base64_bytes _ = []"

definition from_base64 :: "string \<Rightarrow> bytes" where
  "from_base64 v = base64_bytes (takeWhile is_base64 v)"

definition ciphertext_ok :: "string \<Rightarrow> bool" where
  "ciphertext_ok v =
     (4 \<le> length v \<and> length v \<le> CIPHERTEXT_LIMIT \<and> takeWhile is_base64 v \<noteq> []
      \<and> dropWhile is_base64 v \<in> set ['''', ''='', ''=='']
      \<and> from_base64 v \<noteq> [] \<and> base64 (from_base64 v) = v)"

definition protect :: "vault_world \<Rightarrow> string \<Rightarrow> (vault_error, string) result" where
  "protect w plaintext =
     (case vw_encrypt w plaintext of None \<Rightarrow> Inl StorageFailed
      | Some c \<Rightarrow> if c = [] \<or> length c > CIPHERTEXT_LIMIT then Inl StorageFailed else Inr (base64 c))"

definition unprotect :: "vault_world \<Rightarrow> string \<Rightarrow> (vault_error, string) result" where
  "unprotect w encoded =
     (if \<not> ciphertext_ok encoded then Inl StorageFailed
      else (case vw_decrypt w (from_base64 encoded) of None \<Rightarrow> Inl StorageFailed
            | Some plaintext \<Rightarrow> validateTokenText plaintext))"

section \<open>The stored document\<close>

fun provider_id :: "oauth_provider \<Rightarrow> string" where
  "provider_id Google = ''google''"
| "provider_id Microsoft = ''microsoft''"

definition known_provider :: "string \<Rightarrow> oauth_provider option" where
  "known_provider v = find (\<lambda>p. provider_id p = v) OAUTH_PROVIDER_IDS"

fun json_text :: "json \<Rightarrow> string option" where
  "json_text (JString s) = Some s"
| "json_text _ = None"

fun json_texts :: "json \<Rightarrow> string list option" where
  "json_texts (JArray vs) = (if list_all (\<lambda>v. json_text v \<noteq> None) vs then Some (map (the \<circ> json_text) vs) else None)"
| "json_texts _ = None"

definition hasExactKeys :: "(string \<times> json) list \<Rightarrow> string list \<Rightarrow> bool" where
  "hasExactKeys fs keys = (js_sort codeunit_cmp (map fst fs) = js_sort codeunit_cmp keys)"

definition record_keys :: "string list" where
  "record_keys = [''provider'', ''accountKey'', ''accessTokenCiphertext'', ''refreshTokenCiphertext'', ''expiresAt'',
     ''scopes'', ''generation'', ''createdAt'', ''updatedAt'']"

definition text_field :: "(string \<times> json) list \<Rightarrow> string \<Rightarrow> (string \<Rightarrow> bool) \<Rightarrow> string option" where
  "text_field fs key ok =
     (case Option.bind (map_of fs key) json_text of None \<Rightarrow> None | Some t \<Rightarrow> if ok t then Some t else None)"

definition parseRecord :: "vault_world \<Rightarrow> json \<Rightarrow> (vault_error, vault_record) result" where
  "parseRecord w v =
     (case v of
        JObject fs \<Rightarrow>
          if \<not> hasExactKeys fs record_keys then Inl StorageFailed
          else (case Option.bind (map_of fs ''scopes'') json_texts of None \<Rightarrow> Inl StorageFailed
          | Some scopes \<Rightarrow>
            (case validateScopes scopes of Inl e \<Rightarrow> Inl e
             | Inr scopes \<Rightarrow>
               (case (Option.bind (map_of fs ''generation'') (json_integer 1 max_safe_integer),
                      Option.bind (Option.bind (map_of fs ''provider'') json_text) known_provider,
                      text_field fs ''accountKey'' (\<lambda>t. isPlainBoundedText t ACCOUNT_KEY_LIMIT),
                      text_field fs ''accessTokenCiphertext'' ciphertext_ok,
                      text_field fs ''refreshTokenCiphertext'' ciphertext_ok,
                      text_field fs ''expiresAt'' (timestamp_ok w), text_field fs ''createdAt'' (timestamp_ok w),
                      text_field fs ''updatedAt'' (timestamp_ok w)) of
                  (Some generation, Some p, Some account, Some access, Some refresh, Some expires, Some created, Some updated) \<Rightarrow>
                    Inr \<lparr>vr_provider = p, vr_account = account, vr_access = access, vr_refresh = refresh,
                         vr_expires = expires, vr_scopes = scopes, vr_generation = generation,
                         vr_created = created, vr_updated = updated\<rparr>
                | _ \<Rightarrow> Inl StorageFailed)))
      | _ \<Rightarrow> Inl StorageFailed)"

definition record_key :: "vault_record \<Rightarrow> oauth_provider \<times> string" where
  "record_key r = (vr_provider r, vr_account r)"

definition parseDocument :: "vault_world \<Rightarrow> json \<Rightarrow> (vault_error, vault_record list) result" where
  "parseDocument w v =
     (case v of
        JObject fs \<Rightarrow>
          if \<not> hasExactKeys fs [''schemaVersion'', ''records'']
             \<or> map_of fs ''schemaVersion'' \<noteq> Some (JNumber (of_int VAULT_SCHEMA_VERSION)) then Inl StorageFailed
          else (case map_of fs ''records'' of
              Some (JArray vs) \<Rightarrow>
                if length vs > VAULT_RECORD_LIMIT then Inl StorageFailed
                else (case map_result (parseRecord w) vs of Inl e \<Rightarrow> Inl e
                      | Inr rs \<Rightarrow> if distinct (map record_key rs) then Inr rs else Inl StorageFailed)
            | _ \<Rightarrow> Inl StorageFailed)
      | _ \<Rightarrow> Inl StorageFailed)"

definition record_json :: "vault_record \<Rightarrow> json" where
  "record_json r = JObject
     [(''provider'', JString (provider_id (vr_provider r))), (''accountKey'', JString (vr_account r)),
      (''accessTokenCiphertext'', JString (vr_access r)), (''refreshTokenCiphertext'', JString (vr_refresh r)),
      (''expiresAt'', JString (vr_expires r)), (''scopes'', JArray (map JString (vr_scopes r))),
      (''generation'', JNumber (of_int (vr_generation r))), (''createdAt'', JString (vr_created r)),
      (''updatedAt'', JString (vr_updated r))]"

definition document_json :: "vault_record list \<Rightarrow> json" where
  "document_json rs = JObject [(''schemaVersion'', JNumber (of_int VAULT_SCHEMA_VERSION)), (''records'', JArray (map record_json rs))]"

section \<open>The vault\<close>

record token_vault =
  tv_registrations :: "(oauth_provider, vault_registration) entries"
  tv_revokers :: "oauth_provider list"

fun register_providers ::
  "vault_world \<Rightarrow> token_vault \<Rightarrow> vault_registration list \<Rightarrow> (vault_error, token_vault) result" where
  "register_providers w v [] = Inr v"
| "register_providers w v (r # rs) =
     (case validateRegistration w r of Inl e \<Rightarrow> Inl e
      | Inr r' \<Rightarrow>
          if map_of (tv_registrations v) (rg_provider r') \<noteq> None then Inl RegistrationRequired
          else register_providers w
                 (v\<lparr>tv_registrations := AList.update (rg_provider r') r' (tv_registrations v)\<rparr>) rs)"

fun register_revokers :: "token_vault \<Rightarrow> oauth_provider list \<Rightarrow> (vault_error, token_vault) result" where
  "register_revokers v [] = Inr v"
| "register_revokers v (p # ps) =
     (if map_of (tv_registrations v) p = None \<or> p \<in> set (tv_revokers v) then Inl RegistrationRequired
      else register_revokers (v\<lparr>tv_revokers := tv_revokers v @ [p]\<rparr>) ps)"

text \<open>The constructor; \<open>absolute\<close> is the answer of \<open>path.isAbsolute\<close>.\<close>

definition create_vault ::
  "vault_world \<Rightarrow> bool \<Rightarrow> vault_registration list \<Rightarrow> oauth_provider list \<Rightarrow> (vault_error, token_vault) result" where
  "create_vault w absolute rs ps =
     (if \<not> absolute then Inl InvalidInput
      else case register_providers w \<lparr>tv_registrations = [], tv_revokers = []\<rparr> rs of
        Inl e \<Rightarrow> Inl e | Inr v \<Rightarrow> register_revokers v ps)"

definition registration :: "token_vault \<Rightarrow> oauth_provider \<Rightarrow> vault_registration option" where
  "registration v p = map_of (tv_registrations v) p"

datatype vault_failure = WindowsOnly | EncryptionUnavailable | VaultStorageFailed

definition availabilityFailure :: "vault_world \<Rightarrow> vault_failure option" where
  "availabilityFailure w =
     (if \<not> vw_windows w then Some WindowsOnly
      else if vw_available w = Some True then None else Some EncryptionUnavailable)"

definition requireRegistration :: "token_vault \<Rightarrow> oauth_provider \<Rightarrow> (vault_error, unit) result" where
  "requireRegistration v p = (if map_of (tv_registrations v) p = None then Inl RegistrationRequired else Inr ())"

definition requireProtection :: "vault_world \<Rightarrow> (vault_error, unit) result" where
  "requireProtection w = (if availabilityFailure w \<noteq> None then Inl SafeStorageUnavailable else Inr ())"

text \<open>\<open>#timestamp\<close>, and the expiry computed from it; a text \<open>Date.parse\<close> does not read makes
  \<open>toISOString\<close> throw.\<close>

definition timestamp :: "vault_world \<Rightarrow> int \<Rightarrow> (vault_error, string) result" where
  "timestamp w now = (if now < 0 then Inl StorageFailed else Inr (vw_iso w now))"

definition expiry :: "vault_world \<Rightarrow> string \<Rightarrow> int \<Rightarrow> (vault_error, string) result" where
  "expiry w stamp seconds =
     (case vw_date w stamp of None \<Rightarrow> Inl StorageFailed | Some t \<Rightarrow> Inr (vw_iso w (t + seconds * 1000)))"

section \<open>Operations on the document\<close>

definition has_record :: "oauth_provider \<Rightarrow> string \<Rightarrow> vault_record list \<Rightarrow> bool" where
  "has_record p a rs = list_ex (\<lambda>r. vr_provider r = p \<and> vr_account r = a) rs"

text \<open>\<open>saveInitial\<close>: the checks before the queue, then the change of the document.\<close>

definition validateMaterial :: "token_material \<Rightarrow> (vault_error, int) result" where
  "validateMaterial m =
     (case validateTokenText (tm_access m) of Inl e \<Rightarrow> Inl e
      | Inr _ \<Rightarrow> (case validateTokenText (tm_refresh m) of Inl e \<Rightarrow> Inl e
      | Inr _ \<Rightarrow> (case validateTokenLifetime (tm_seconds m) of Inl e \<Rightarrow> Inl e
      | Inr n \<Rightarrow> (case validateScopes (tm_scopes m) of Inl e \<Rightarrow> Inl e | Inr _ \<Rightarrow> Inr n))))"

definition save_checks ::
  "vault_world \<Rightarrow> token_vault \<Rightarrow> oauth_provider \<Rightarrow> string \<Rightarrow> token_material \<Rightarrow> (vault_error, int) result" where
  "save_checks w v p a m =
     (case requireAccountKey a of Inl e \<Rightarrow> Inl e
      | Inr _ \<Rightarrow> (case requireRegistration v p of Inl e \<Rightarrow> Inl e
      | Inr _ \<Rightarrow> (case requireProtection w of Inl e \<Rightarrow> Inl e | Inr _ \<Rightarrow> validateMaterial m)))"

definition add_record ::
  "vault_world \<Rightarrow> int \<Rightarrow> oauth_provider \<Rightarrow> string \<Rightarrow> token_material \<Rightarrow> int \<Rightarrow> vault_record list \<Rightarrow>
   (vault_error, vault_record list) result" where
  "add_record w now p a m seconds rs =
     (if has_record p a rs then Inl RecordExists
      else if length rs \<ge> VAULT_RECORD_LIMIT then Inl StorageFailed
      else (case timestamp w now of Inl e \<Rightarrow> Inl e
      | Inr stamp \<Rightarrow> (case protect w (tm_access m) of Inl e \<Rightarrow> Inl e
      | Inr access \<Rightarrow> (case protect w (tm_refresh m) of Inl e \<Rightarrow> Inl e
      | Inr refresh \<Rightarrow> (case expiry w stamp seconds of Inl e \<Rightarrow> Inl e
      | Inr expires \<Rightarrow>
          Inr (rs @ [\<lparr>vr_provider = p, vr_account = a, vr_access = access, vr_refresh = refresh,
                      vr_expires = expires, vr_scopes = tm_scopes m, vr_generation = 1,
                      vr_created = stamp, vr_updated = stamp\<rparr>]))))))"

text \<open>\<open>rotate\<close>: the record found first is changed in place.\<close>

definition rotate_checks ::
  "vault_world \<Rightarrow> token_vault \<Rightarrow> oauth_provider \<Rightarrow> string \<Rightarrow> token_rotation \<Rightarrow> (vault_error, int) result" where
  "rotate_checks w v p a m =
     (case requireAccountKey a of Inl e \<Rightarrow> Inl e
      | Inr _ \<Rightarrow> (case requireRegistration v p of Inl e \<Rightarrow> Inl e
      | Inr _ \<Rightarrow> (case requireProtection w of Inl e \<Rightarrow> Inl e
      | Inr _ \<Rightarrow> (case validateTokenText (tr_access m) of Inl e \<Rightarrow> Inl e
      | Inr _ \<Rightarrow> (case (case tr_refresh m of None \<Rightarrow> Inr [] | Some t \<Rightarrow> validateTokenText t) of Inl e \<Rightarrow> Inl e
      | Inr _ \<Rightarrow> (case validateTokenLifetime (tr_seconds m) of Inl e \<Rightarrow> Inl e
      | Inr n \<Rightarrow> (case validateScopes (tr_scopes m) of Inl e \<Rightarrow> Inl e | Inr _ \<Rightarrow> Inr n)))))))"

fun replace_first :: "('a \<Rightarrow> bool) \<Rightarrow> 'a \<Rightarrow> 'a list \<Rightarrow> 'a list" where
  "replace_first P y [] = []"
| "replace_first P y (x # xs) = (if P x then y # xs else x # replace_first P y xs)"

definition find_record :: "oauth_provider \<Rightarrow> string \<Rightarrow> vault_record list \<Rightarrow> vault_record option" where
  "find_record p a rs = find (\<lambda>r. vr_provider r = p \<and> vr_account r = a) rs"

definition rotate_record ::
  "vault_world \<Rightarrow> int \<Rightarrow> oauth_provider \<Rightarrow> string \<Rightarrow> token_rotation \<Rightarrow> int \<Rightarrow> vault_record list \<Rightarrow>
   (vault_error, vault_record list) result" where
  "rotate_record w now p a m seconds rs =
     (case find_record p a rs of None \<Rightarrow> Inl RecordNotFound
      | Some r \<Rightarrow> (case timestamp w now of Inl e \<Rightarrow> Inl e
      | Inr stamp \<Rightarrow> (case protect w (tr_access m) of Inl e \<Rightarrow> Inl e
      | Inr access \<Rightarrow> (case (case tr_refresh m of None \<Rightarrow> Inr (vr_refresh r) | Some t \<Rightarrow> protect w t) of Inl e \<Rightarrow> Inl e
      | Inr refresh \<Rightarrow> (case expiry w stamp seconds of Inl e \<Rightarrow> Inl e
      | Inr expires \<Rightarrow>
          Inr (replace_first (\<lambda>r. vr_provider r = p \<and> vr_account r = a)
                 (r\<lparr>vr_access := access, vr_refresh := refresh, vr_expires := expires, vr_scopes := tr_scopes m,
                    vr_generation := vr_generation r + 1, vr_updated := stamp\<rparr>) rs))))))"

text \<open>\<open>read\<close>: the tokens of one account.\<close>

record account_tokens =
  at_access :: string
  at_refresh :: string
  at_expires :: string
  at_scopes :: "string list"

definition read_checks :: "vault_world \<Rightarrow> string \<Rightarrow> (vault_error, unit) result" where
  "read_checks w a = (case requireAccountKey a of Inl e \<Rightarrow> Inl e | Inr _ \<Rightarrow> requireProtection w)"

definition read_tokens ::
  "vault_world \<Rightarrow> oauth_provider \<Rightarrow> string \<Rightarrow> vault_record list \<Rightarrow> (vault_error, account_tokens option) result" where
  "read_tokens w p a rs =
     (case find_record p a rs of None \<Rightarrow> Inr None
      | Some r \<Rightarrow> (case unprotect w (vr_access r) of Inl e \<Rightarrow> Inl e
      | Inr access \<Rightarrow> (case unprotect w (vr_refresh r) of Inl e \<Rightarrow> Inl e
      | Inr refresh \<Rightarrow> Inr (Some \<lparr>at_access = access, at_refresh = refresh, at_expires = vr_expires r,
                                 at_scopes = vr_scopes r\<rparr>))))"

definition forget_record :: "oauth_provider \<Rightarrow> string \<Rightarrow> vault_record list \<Rightarrow> vault_record list" where
  "forget_record p a rs = filter (\<lambda>r. \<not> (vr_provider r = p \<and> vr_account r = a)) rs"

definition clear_provider :: "oauth_provider \<Rightarrow> vault_record list \<Rightarrow> vault_record list" where
  "clear_provider p rs = filter (\<lambda>r. vr_provider r \<noteq> p) rs"

text \<open>Revocation at the provider: what the revoker does for each pair of tokens.\<close>

datatype revocation = RevokeDone | RevokeUnsupported | RevokeThrows
datatype remote_outcome = NotNeeded | NotAvailable | NotSupported | RemoteSucceeded | RemoteFailed

definition revoke_one ::
  "vault_world \<Rightarrow> (string \<Rightarrow> string \<Rightarrow> revocation) \<Rightarrow> remote_outcome \<Rightarrow> vault_record \<Rightarrow> remote_outcome" where
  "revoke_one w revoke out r =
     (case (unprotect w (vr_access r), unprotect w (vr_refresh r)) of
        (Inr access, Inr refresh) \<Rightarrow>
          (case revoke access refresh of
             RevokeDone \<Rightarrow> out
           | RevokeUnsupported \<Rightarrow> if out = RemoteSucceeded then NotSupported else out
           | RevokeThrows \<Rightarrow> RemoteFailed)
      | _ \<Rightarrow> RemoteFailed)"

definition remote_revocation ::
  "vault_world \<Rightarrow> token_vault \<Rightarrow> (string \<Rightarrow> string \<Rightarrow> revocation) \<Rightarrow> oauth_provider \<Rightarrow> vault_record list \<Rightarrow> remote_outcome" where
  "remote_revocation w v revoke p records =
     (if records = [] then NotNeeded
      else if map_of (tv_registrations v) p \<noteq> None \<and> p \<in> set (tv_revokers v) \<and> availabilityFailure w = None
      then foldl (revoke_one w revoke) RemoteSucceeded records else NotAvailable)"

section \<open>The summary for the renderer\<close>

datatype provider_state = ProviderUnavailable | ProviderNotRegistered | ProviderEmpty | ProviderActive | ProviderExpired

record provider_snapshot =
  ps_id :: oauth_provider
  ps_name :: string
  ps_registered :: bool
  ps_state :: provider_state
  ps_record_count :: nat
  ps_generation :: int
  ps_expires :: "string option"
  ps_can_clear :: bool
  ps_can_revoke :: bool

record vault_snapshot =
  vs_failure :: "vault_failure option"
  vs_providers :: "provider_snapshot list"

text \<open>Newest generation first, then the newest update.\<close>

definition latest_first :: "vault_world \<Rightarrow> vault_record comparison" where
  "latest_first w = cmp_chain (cmp_flip (cmp_on vr_generation int_cmp)) (cmp_flip (cmp_on vr_updated (vw_collate w)))"

definition unexpired :: "vault_world \<Rightarrow> int \<Rightarrow> vault_record \<Rightarrow> bool" where
  "unexpired w now r = (case vw_date w (vr_expires r) of None \<Rightarrow> False | Some t \<Rightarrow> t > now)"

definition provider_snapshot_of ::
  "vault_world \<Rightarrow> token_vault \<Rightarrow> int \<Rightarrow> vault_failure option \<Rightarrow> vault_record list \<Rightarrow> oauth_provider \<Rightarrow> provider_snapshot" where
  "provider_snapshot_of w v now failure rs p =
     (let records = filter (\<lambda>r. vr_provider r = p) rs;
          latest = (case js_sort (latest_first w) records of [] \<Rightarrow> None | r # _ \<Rightarrow> Some r);
          registered = (map_of (tv_registrations v) p \<noteq> None)
      in \<lparr>ps_id = p, ps_name = providerNames p, ps_registered = registered,
          ps_state = (if failure \<noteq> None then ProviderUnavailable
                      else if \<not> registered then ProviderNotRegistered
                      else if records = [] then ProviderEmpty
                      else if list_ex (unexpired w now) records then ProviderActive else ProviderExpired),
          ps_record_count = length records,
          ps_generation = (case latest of None \<Rightarrow> 0 | Some r \<Rightarrow> vr_generation r),
          ps_expires = map_option vr_expires latest,
          ps_can_clear = (records \<noteq> []),
          ps_can_revoke = (failure = None \<and> registered \<and> p \<in> set (tv_revokers v) \<and> records \<noteq> [])\<rparr>)"

definition vault_snapshot_of ::
  "vault_world \<Rightarrow> token_vault \<Rightarrow> int \<Rightarrow> vault_failure option \<Rightarrow> vault_record list \<Rightarrow> vault_snapshot" where
  "vault_snapshot_of w v now failure rs =
     \<lparr>vs_failure = failure, vs_providers = map (provider_snapshot_of w v now failure rs) OAUTH_PROVIDER_IDS\<rparr>"

section \<open>Base64 is undone\<close>

lemma base64_digit_letter: "n < 62 \<Longrightarrow> is_ascii_upper (base64_digit n) \<or> is_ascii_lower (base64_digit n) \<or> is_digit (base64_digit n)"
  by (auto simp: base64_digit_def is_ascii_upper_def is_ascii_lower_def is_digit_def code_char_of)

lemma is_base64_standard: "n < 64 \<Longrightarrow> is_base64 (base64_standard n)"
  using base64_digit_letter [of n] by (auto simp: base64_standard_def is_base64_def)

lemma base64_number_standard:
  assumes "n < 64"
  shows "base64_number (base64_standard n) = n"
proof (cases "n < 62")
  case True
  have "\<not> is_ascii_upper c \<and> \<not> is_ascii_lower c \<and> \<not> is_digit c" if "c = CHR ''+'' \<or> c = CHR ''/''" for c
    using that by (auto simp: is_ascii_upper_def is_ascii_lower_def is_digit_def code_def)
  then have "base64_digit n \<noteq> CHR ''+'' \<and> base64_digit n \<noteq> CHR ''/''"
    using base64_digit_letter [OF True] by metis
  with True base64_value_digit [OF assms] show ?thesis by (simp add: base64_number_def base64_standard_def)
next
  case False
  with assms have "n = 62 \<or> n = 63" by linarith
  then show ?thesis by (auto simp: base64_number_def base64_standard_def)
qed

lemma byte_parts:
  "unat (b :: 8 word) div 16 div 16 = 0" "unat (b :: 8 word) div 64 div 4 = 0"
  "unat (b :: 8 word) div 16 mod 16 = unat b div 16" "unat (b :: 8 word) div 64 mod 4 = unat b div 64"
proof -
  have "unat b div 16 < 16" "unat b div 64 < 4" using unat_byte [of b] by linarith+
  then show "unat b div 16 div 16 = 0" "unat b div 64 div 4 = 0" "unat b div 16 mod 16 = unat b div 16" "unat b div 64 mod 4 = unat b div 64"
    by simp_all
qed

lemma padding_not_base64 [simp]: "\<not> is_base64 (CHR ''='')"
  by code_simp

lemma base64_back: "from_base64 (base64 bs) = bs"
  unfolding from_base64_def
  by (induction bs rule: base64.induct)
     (simp_all add: is_base64_standard six_bits base64_number_standard byte_parts del: of_nat_add of_nat_mult)

lemma base64_ciphertext:
  assumes "bs \<noteq> []" "length (base64 bs) \<le> CIPHERTEXT_LIMIT"
  shows "ciphertext_ok (base64 bs)"
proof -
  have "dropWhile is_base64 (base64 cs) \<in> set ['''', ''='', ''=='']" for cs
    by (induction cs rule: base64.induct) (simp_all add: is_base64_standard six_bits)
  moreover have "takeWhile is_base64 (base64 bs) \<noteq> []" "4 \<le> length (base64 bs)"
    using assms(1) by (cases bs rule: base64.cases; simp add: is_base64_standard six_bits)+
  ultimately show ?thesis using assms by (simp add: ciphertext_ok_def base64_back)
qed

text \<open>A protected text is recovered as long as the encryption recovers it and its encoding is within the
  limit of the stored document.\<close>

lemma protect_unprotect:
  assumes "protect w t = Inr c" "length c \<le> CIPHERTEXT_LIMIT" "isPlainBoundedText t TOKEN_LIMIT"
    and "\<And>b. vw_encrypt w t = Some b \<Longrightarrow> vw_decrypt w b = Some t"
  shows "unprotect w c = Inr t" "ciphertext_ok c"
proof -
  obtain b where b: "vw_encrypt w t = Some b" "b \<noteq> []" "c = base64 b"
    using assms(1) by (auto simp: protect_def split: option.splits if_splits)
  then show "ciphertext_ok c" using assms(2) base64_ciphertext by blast
  then show "unprotect w c = Inr t"
    using assms(3,4) b by (simp add: unprotect_def base64_back validateTokenText_def)
qed

section \<open>The document is read back\<close>

definition record_ok :: "vault_world \<Rightarrow> vault_record \<Rightarrow> bool" where
  "record_ok w r =
     (isPlainBoundedText (vr_account r) ACCOUNT_KEY_LIMIT \<and> ciphertext_ok (vr_access r) \<and> ciphertext_ok (vr_refresh r)
      \<and> timestamp_ok w (vr_expires r) \<and> timestamp_ok w (vr_created r) \<and> timestamp_ok w (vr_updated r)
      \<and> scopes_ok (vr_scopes r) \<and> 1 \<le> vr_generation r \<and> vr_generation r \<le> max_safe_integer)"

definition document_ok :: "vault_world \<Rightarrow> vault_record list \<Rightarrow> bool" where
  "document_ok w rs =
     (length rs \<le> VAULT_RECORD_LIMIT \<and> list_all (record_ok w) rs \<and> distinct (map record_key rs))"

lemma known_provider_id [simp]: "known_provider (provider_id p) = Some p"
  by (cases p) (simp_all add: known_provider_def OAUTH_PROVIDER_IDS_def)

lemma json_texts_map [simp]: "json_texts (JArray (map JString ts)) = Some ts"
  by (simp add: list_all_iff comp_def)

lemma parse_record_back: "record_ok w r \<Longrightarrow> parseRecord w (record_json r) = Inr r"
  by (simp add: parseRecord_def record_json_def hasExactKeys_def record_keys_def text_field_def record_ok_def
      validateScopes_def del: json_texts.simps json_integer.simps)

lemma parse_record_ok:
  assumes "parseRecord w v = Inr r"
  shows "record_ok w r"
proof -
  obtain fs where "v = JObject fs" using assms by (cases v) (auto simp: parseRecord_def)
  with assms show ?thesis
    by (auto simp: parseRecord_def record_ok_def text_field_def validateScopes_def json_integer_Some Option.bind_eq_Some_conv
        split: if_splits option.splits sum.splits)
qed

lemma map_result_all: "map_result f xs = Inr ys \<Longrightarrow> (\<And>x y. f x = Inr y \<Longrightarrow> P y) \<Longrightarrow> list_all P ys"
  by (induction xs arbitrary: ys) (auto split: sum.splits)

lemma map_result_inverse: "list_all P rs \<Longrightarrow> (\<And>r. P r \<Longrightarrow> f (g r) = Inr r) \<Longrightarrow> map_result f (map g rs) = Inr rs"
  by (induction rs) auto

lemma parse_document_ok:
  assumes "parseDocument w v = Inr rs"
  shows "document_ok w rs"
proof -
  obtain fs where "v = JObject fs" using assms by (cases v) (auto simp: parseDocument_def)
  with assms obtain vs where vs: "length vs \<le> VAULT_RECORD_LIMIT" "map_result (parseRecord w) vs = Inr rs" "distinct (map record_key rs)"
    by (fastforce simp: parseDocument_def not_less split: if_splits option.splits sum.splits json.splits)
  with map_result_length [OF vs(2)] map_result_all [OF vs(2) parse_record_ok] show ?thesis
    by (simp add: document_ok_def)
qed

lemma parse_document_back: "document_ok w rs \<Longrightarrow> parseDocument w (document_json rs) = Inr rs"
  using map_result_inverse [of "record_ok w" rs "parseRecord w" record_json] parse_record_back
  by (simp add: parseDocument_def document_json_def hasExactKeys_def document_ok_def)

lemma parse_record_json: "parseRecord w (record_json r) = Inr r' \<Longrightarrow> r' = r"
  using parse_record_back [of w r]
  by (cases r) (auto simp: parseRecord_def record_json_def hasExactKeys_def record_keys_def text_field_def
      validateScopes_def simp del: json_texts.simps json_integer.simps split: if_splits)

lemma parse_document_json:
  assumes "parseDocument w (document_json rs) = Inr rs'"
  shows "rs' = rs \<and> document_ok w rs"
proof -
  have "map_result (parseRecord w) (map record_json xs) = Inr ys \<Longrightarrow> ys = xs" for xs ys
    by (induction xs arbitrary: ys) (auto split: sum.splits dest: parse_record_json)
  with assms have "rs' = rs"
    by (auto simp: parseDocument_def document_json_def hasExactKeys_def split: if_splits sum.splits)
  with parse_document_ok [OF assms] show ?thesis by simp
qed

end
