(* ===== verification/Files.thy ===== *)
theory Files
  imports Encodings
begin

text \<open>
  Files as the stores of the main process use them (\<open>node:fs/promises\<close>): a map from paths to entries,
  and programs of file system calls. Any call may fail: a run takes a list of faults, one for each
  call, and keeps the trail of the disks after every call, which are the disks a crash can leave
  behind. A failed call changes nothing, except that a failed write may have written a part. The
  lemmas are the rules of a Hoare logic whose triples also have an invariant for the whole trail.
\<close>

section \<open>Disks\<close>

datatype file_entry = Regular string | NotRegular

type_synonym disk = "(string, file_entry) entries"

text \<open>\<open>rename(from, to)\<close>: \<^const>\<open>None\<close> where it throws because there is no such file.\<close>

definition rename_file :: "string \<Rightarrow> string \<Rightarrow> disk \<Rightarrow> disk option" where
  "rename_file source target files =
     (case map_of files source of None \<Rightarrow> None
      | Some f \<Rightarrow> Some (AList.update target f (AList.delete source files)))"

lemma map_of_rename_file:
  "rename_file a b d = Some d' \<Longrightarrow> a \<noteq> b \<Longrightarrow>
   map_of d' k = (if k = b then map_of d a else if k = a then None else map_of d k)"
  by (auto simp: rename_file_def map_of_update map_of_delete split: option.splits)

section \<open>Programs\<close>

text \<open>A fault is the code of the error and the number of characters a write still wrote.\<close>

type_synonym fault = "string \<times> nat"

record io_state =
  io_disk :: disk
  io_faults :: "fault option list"
  io_trail :: "disk list"

datatype 'e io_error = Code string | Thrown 'e

type_synonym ('e, 'a) io = "io_state \<Rightarrow> ('e io_error, 'a) result \<times> io_state"

definition io_return :: "'a \<Rightarrow> ('e, 'a) io" where
  "io_return x s = (Inr x, s)"

definition io_throw :: "'e io_error \<Rightarrow> ('e, 'a) io" where
  "io_throw e s = (Inl e, s)"

definition io_bind :: "('e, 'a) io \<Rightarrow> ('a \<Rightarrow> ('e, 'b) io) \<Rightarrow> ('e, 'b) io" where
  "io_bind m f s = (case m s of (Inl e, s') \<Rightarrow> (Inl e, s') | (Inr x, s') \<Rightarrow> f x s')"

text \<open>\<open>try ... catch\<close>, and \<open>.catch(() => undefined)\<close>.\<close>

definition io_catch :: "('e, 'a) io \<Rightarrow> ('e io_error \<Rightarrow> ('e, 'a) io) \<Rightarrow> ('e, 'a) io" where
  "io_catch m h s = (case m s of (Inl e, s') \<Rightarrow> h e s' | (Inr x, s') \<Rightarrow> (Inr x, s'))"

definition io_ignore :: "('e, unit) io \<Rightarrow> ('e, unit) io" where
  "io_ignore m = io_catch m (\<lambda>_. io_return ())"

text \<open>\<open>try ... finally\<close> with a clean-up that does not throw.\<close>

definition io_finally :: "('e, 'a) io \<Rightarrow> ('e, unit) io \<Rightarrow> ('e, 'a) io" where
  "io_finally m c s = (case m s of (r, s') \<Rightarrow> (case c s' of (_, s'') \<Rightarrow> (r, s'')))"

definition io_lift :: "('e, 'a) result \<Rightarrow> ('e, 'a) io" where
  "io_lift r = (case r of Inl e \<Rightarrow> io_throw (Thrown e) | Inr x \<Rightarrow> io_return x)"

fun io_each :: "('a \<Rightarrow> ('e, unit) io) \<Rightarrow> 'a list \<Rightarrow> ('e, unit) io" where
  "io_each f [] = io_return ()"
| "io_each f (x # xs) = io_bind (f x) (\<lambda>_. io_each f xs)"

text \<open>One call: the disk a fault leaves, and what the call does without one.\<close>

definition io_call ::
  "(nat \<Rightarrow> disk \<Rightarrow> disk) \<Rightarrow> (disk \<Rightarrow> (string, 'a \<times> disk) result) \<Rightarrow> ('e, 'a) io" where
  "io_call broken act s =
     (let (fault, rest) = (case io_faults s of [] \<Rightarrow> (None, []) | f # fs \<Rightarrow> (f, fs));
          (r, d) = (case fault of
              Some (c, n) \<Rightarrow> (Inl (Code c), broken n (io_disk s))
            | None \<Rightarrow> (case act (io_disk s) of Inl c \<Rightarrow> (Inl (Code c), io_disk s) | Inr (x, d) \<Rightarrow> (Inr x, d)))
      in (r, \<lparr>io_disk = d, io_faults = rest, io_trail = io_trail s @ [d]\<rparr>))"

definition fs_rename :: "string \<Rightarrow> string \<Rightarrow> ('e, unit) io" where
  "fs_rename a b = io_call (\<lambda>_ d. d) (\<lambda>d.
     if map_of d a \<noteq> None \<and> map_of d b = Some NotRegular then Inl ''EPERM''
     else (case rename_file a b d of None \<Rightarrow> Inl ''ENOENT'' | Some d' \<Rightarrow> Inr ((), d')))"

text \<open>\<open>rm(path, { force: true })\<close>.\<close>

definition fs_remove :: "string \<Rightarrow> ('e, unit) io" where
  "fs_remove a = io_call (\<lambda>_ d. d) (\<lambda>d.
     if map_of d a = Some NotRegular then Inl ''ERR_FS_EISDIR'' else Inr ((), AList.delete a d))"

text \<open>\<open>open(path, "wx")\<close>, and \<open>writeFile\<close> on the handle.\<close>

definition fs_create :: "string \<Rightarrow> ('e, unit) io" where
  "fs_create a = io_call (\<lambda>_ d. d) (\<lambda>d.
     if map_of d a \<noteq> None then Inl ''EEXIST'' else Inr ((), AList.update a (Regular []) d))"

definition fs_write :: "string \<Rightarrow> string \<Rightarrow> ('e, unit) io" where
  "fs_write a t = io_call (\<lambda>n d. AList.update a (Regular (take n t)) d) (\<lambda>d. Inr ((), AList.update a (Regular t) d))"

text \<open>\<open>stat\<close>: the size of a regular file, \<^const>\<open>None\<close> for another entry; \<open>readFile\<close>; \<open>readdir\<close>; and the
  calls that change no entry: \<open>mkdir\<close> of the directory, \<open>sync\<close>, \<open>close\<close>, \<open>open\<close> of the directory.\<close>

definition fs_stat :: "string \<Rightarrow> ('e, nat option) io" where
  "fs_stat a = io_call (\<lambda>_ d. d) (\<lambda>d. case map_of d a of None \<Rightarrow> Inl ''ENOENT''
     | Some NotRegular \<Rightarrow> Inr (None, d) | Some (Regular t) \<Rightarrow> Inr (Some (byte_length t), d))"

definition fs_read :: "string \<Rightarrow> ('e, string) io" where
  "fs_read a = io_call (\<lambda>_ d. d) (\<lambda>d. case map_of d a of None \<Rightarrow> Inl ''ENOENT''
     | Some NotRegular \<Rightarrow> Inl ''EISDIR'' | Some (Regular t) \<Rightarrow> Inr (t, d))"

definition fs_names :: "('e, string list) io" where
  "fs_names = io_call (\<lambda>_ d. d) (\<lambda>d. Inr (map fst d, d))"

definition fs_other :: "('e, unit) io" where
  "fs_other = io_call (\<lambda>_ d. d) (\<lambda>d. Inr ((), d))"

text \<open>\<open>open(path, "w")\<close> and \<open>access(path)\<close>.\<close>

definition fs_truncate :: "string \<Rightarrow> ('e, unit) io" where
  "fs_truncate a = io_call (\<lambda>_ d. d) (\<lambda>d.
     if map_of d a = Some NotRegular then Inl ''EISDIR'' else Inr ((), AList.update a (Regular []) d))"

definition fs_access :: "string \<Rightarrow> ('e, unit) io" where
  "fs_access a = io_call (\<lambda>_ d. d) (\<lambda>d. if map_of d a = None then Inl ''ENOENT'' else Inr ((), d))"

definition file_exists :: "string \<Rightarrow> ('e, bool) io" where
  "file_exists a = io_catch (io_bind (fs_access a) (\<lambda>_. io_return True)) (\<lambda>_. io_return False)"

text \<open>\<open>try ... finally { await handle.close() }\<close>: closing may throw as well.\<close>

definition io_closing :: "('e, 'a) io \<Rightarrow> ('e, 'a) io" where
  "io_closing m =
     io_bind (io_catch m (\<lambda>e. io_bind fs_other (\<lambda>_. io_throw e))) (\<lambda>x. io_bind fs_other (\<lambda>_. io_return x))"

text \<open>A call whose failure is a value, and \<open>Promise.all\<close> of two calls: both are made, and one failure is thrown.\<close>

definition io_attempt :: "('e, 'a) io \<Rightarrow> ('e, ('e io_error, 'a) result) io" where
  "io_attempt m s = (case m s of (r, s') \<Rightarrow> (Inr r, s'))"

definition io_both :: "('e, unit) io \<Rightarrow> ('e, unit) io \<Rightarrow> ('e, unit) io" where
  "io_both m n =
     io_bind (io_attempt m) (\<lambda>r. io_bind (io_attempt n) (\<lambda>q.
       case (r, q) of (Inl e, _) \<Rightarrow> io_throw e | (_, Inl e) \<Rightarrow> io_throw e | _ \<Rightarrow> io_return ()))"

text \<open>A run on a disk: result, final disk, and the disks after every call.\<close>

definition io_run :: "('e, 'a) io \<Rightarrow> fault option list \<Rightarrow> disk \<Rightarrow> ('e io_error, 'a) result \<times> disk \<times> disk list" where
  "io_run m faults d =
     (case m \<lparr>io_disk = d, io_faults = faults, io_trail = []\<rparr> of (r, s) \<Rightarrow> (r, io_disk s, io_trail s))"

text \<open>The error code a program reads from a thrown value.\<close>

fun error_code :: "'e io_error \<Rightarrow> string option" where
  "error_code (Code c) = Some c"
| "error_code (Thrown _) = None"

text \<open>Faults are real: a call is not told that a file is missing when it is there.\<close>

definition honest :: "fault option list \<Rightarrow> bool" where
  "honest fs = list_all (\<lambda>f. case f of None \<Rightarrow> True | Some (c, _) \<Rightarrow> c \<noteq> ''ENOENT'') fs"

section \<open>Triples\<close>

text \<open>From a disk with \<open>P\<close>, every disk of the trail has \<open>I\<close>; a result comes with \<open>Q\<close>, an error with \<open>E\<close>.\<close>

definition leads ::
  "(disk \<Rightarrow> bool) \<Rightarrow> ('a \<Rightarrow> disk \<Rightarrow> bool) \<Rightarrow> ('e io_error \<Rightarrow> disk \<Rightarrow> bool) \<Rightarrow> io_state \<Rightarrow>
   ('e io_error, 'a) result \<times> io_state \<Rightarrow> bool" where
  "leads I Q E s out =
     (honest (io_faults (snd out)) \<and> (\<exists>ts. io_trail (snd out) = io_trail s @ ts \<and> (\<forall>d \<in> set ts. I d)) \<and>
      (case fst out of Inr x \<Rightarrow> Q x (io_disk (snd out)) | Inl e \<Rightarrow> E e (io_disk (snd out))))"

definition triple ::
  "(disk \<Rightarrow> bool) \<Rightarrow> (disk \<Rightarrow> bool) \<Rightarrow> ('e, 'a) io \<Rightarrow> ('a \<Rightarrow> disk \<Rightarrow> bool) \<Rightarrow> ('e io_error \<Rightarrow> disk \<Rightarrow> bool) \<Rightarrow> bool" where
  "triple P I m Q E = (\<forall>s. P (io_disk s) \<longrightarrow> honest (io_faults s) \<longrightarrow> leads I Q E s (m s))"

lemma tripleI: "(\<And>s. P (io_disk s) \<Longrightarrow> honest (io_faults s) \<Longrightarrow> leads I Q E s (m s)) \<Longrightarrow> triple P I m Q E"
  by (simp add: triple_def)

lemma tripleD: "triple P I m Q E \<Longrightarrow> P (io_disk s) \<Longrightarrow> honest (io_faults s) \<Longrightarrow> leads I Q E s (m s)"
  by (simp add: triple_def)

lemma leads_refl: "honest (io_faults s) \<Longrightarrow> (case r of Inr x \<Rightarrow> Q x (io_disk s) | Inl e \<Rightarrow> E e (io_disk s)) \<Longrightarrow> leads I Q E s (r, s)"
  by (cases r) (simp_all add: leads_def)

lemma leads_trans: "leads I R S s (r, s1) \<Longrightarrow> leads I Q E s1 out \<Longrightarrow> leads I Q E s out"
  by (auto simp: leads_def)

lemma leads_mono:
  "leads I Q E s out \<Longrightarrow> (\<And>d. I d \<Longrightarrow> I' d) \<Longrightarrow> (\<And>x d. Q x d \<Longrightarrow> Q' x d) \<Longrightarrow> (\<And>e d. E e d \<Longrightarrow> E' e d) \<Longrightarrow> leads I' Q' E' s out"
  by (auto simp: leads_def split: sum.splits)

lemma triple_consequence:
  assumes "triple P I m Q E" "\<And>d. P' d \<Longrightarrow> P d" "\<And>d. I d \<Longrightarrow> I' d" "\<And>x d. Q x d \<Longrightarrow> Q' x d" "\<And>e d. E e d \<Longrightarrow> E' e d"
  shows "triple P' I' m Q' E'"
  using assms by (intro tripleI leads_mono [OF tripleD [OF assms(1)]]) auto

lemma triple_return: "(\<And>d. P d \<Longrightarrow> Q x d) \<Longrightarrow> triple P I (io_return x) Q E"
  by (auto intro!: tripleI leads_refl simp: io_return_def)

lemma triple_throw: "(\<And>d. P d \<Longrightarrow> E e d) \<Longrightarrow> triple P I (io_throw e) Q E"
  by (auto intro!: tripleI leads_refl simp: io_throw_def)

lemma triple_bind:
  assumes "triple P I m R E" "\<And>x. triple (R x) I (f x) Q E"
  shows "triple P I (io_bind m f) Q E"
proof (rule tripleI)
  fix s :: io_state
  assume "P (io_disk s)" "honest (io_faults s)"
  with assms(1) have 1: "leads I R E s (m s)" by (rule tripleD)
  obtain r s1 where m: "m s = (r, s1)" by (cases "m s") auto
  show "leads I Q E s (io_bind m f s)"
  proof (cases r)
    case (Inl e)
    with 1 m show ?thesis by (simp add: io_bind_def leads_def)
  next
    case (Inr x)
    with 1 m have "leads I Q E s1 (f x s1)" by (intro tripleD [OF assms(2)]) (simp_all add: leads_def)
    with 1 m Inr show ?thesis by (simp add: io_bind_def leads_trans)
  qed
qed

lemma triple_catch:
  assumes "triple P I m Q R" "\<And>e. triple (R e) I (h e) Q E"
  shows "triple P I (io_catch m h) Q E"
proof (rule tripleI)
  fix s :: io_state
  assume "P (io_disk s)" "honest (io_faults s)"
  with assms(1) have 1: "leads I Q R s (m s)" by (rule tripleD)
  obtain r s1 where m: "m s = (r, s1)" by (cases "m s") auto
  show "leads I Q E s (io_catch m h s)"
  proof (cases r)
    case (Inr x)
    with 1 m show ?thesis by (simp add: io_catch_def leads_def)
  next
    case (Inl e)
    with 1 m have "leads I Q E s1 (h e s1)" by (intro tripleD [OF assms(2)]) (simp_all add: leads_def)
    with 1 m Inl show ?thesis by (simp add: io_catch_def leads_trans)
  qed
qed

lemma triple_finally:
  assumes "triple P I m Q E" "\<And>x. triple (Q x) I c (\<lambda>_. Q x) (\<lambda>_. Q x)" "\<And>e. triple (E e) I c (\<lambda>_. E e) (\<lambda>_. E e)"
  shows "triple P I (io_finally m c) Q E"
proof (rule tripleI)
  fix s :: io_state
  assume "P (io_disk s)" "honest (io_faults s)"
  with assms(1) have 1: "leads I Q E s (m s)" by (rule tripleD)
  obtain r s1 where m: "m s = (r, s1)" by (cases "m s") auto
  obtain u s2 where c: "c s1 = (u, s2)" by (cases "c s1") auto
  let ?R = "\<lambda>d. case r of Inr x \<Rightarrow> Q x d | Inl e \<Rightarrow> E e d"
  have "triple ?R I c (\<lambda>_. ?R) (\<lambda>_. ?R)" using assms(2,3) by (cases r) simp_all
  moreover have "?R (io_disk s1)" "honest (io_faults s1)" using 1 m by (cases r; simp add: leads_def)+
  ultimately have "leads I (\<lambda>_. ?R) (\<lambda>_. ?R) s1 (c s1)" by (rule tripleD)
  then have "leads I Q E s1 (r, s2)" using c by (auto simp: leads_def split: sum.splits)
  with 1 m c show "leads I Q E s (io_finally m c s)" by (simp add: io_finally_def leads_trans)
qed

lemma triple_ignore: "triple P I m (\<lambda>_. Q) (\<lambda>_. Q) \<Longrightarrow> triple P I (io_ignore m) (\<lambda>_. Q) E"
  unfolding io_ignore_def by (rule triple_catch) (auto intro: triple_return)

lemma triple_lift:
  "(\<And>x d. r = Inr x \<Longrightarrow> P d \<Longrightarrow> Q x d) \<Longrightarrow> (\<And>e d. r = Inl e \<Longrightarrow> P d \<Longrightarrow> E (Thrown e) d) \<Longrightarrow> triple P I (io_lift r) Q E"
  by (cases r) (auto simp: io_lift_def intro: triple_return triple_throw)

lemma triple_each:
  "(\<And>x. x \<in> set xs \<Longrightarrow> triple P I (f x) (\<lambda>_. P) E) \<Longrightarrow> triple P I (io_each f xs) (\<lambda>_. P) E"
  by (induction xs) (auto intro!: triple_bind triple_return)

text \<open>A call: what it does without a fault, and with one.\<close>

lemma triple_call:
  assumes "\<And>d x d'. P d \<Longrightarrow> act d = Inr (x, d') \<Longrightarrow> I d' \<and> Q x d'"
    and "\<And>d c. P d \<Longrightarrow> act d = Inl c \<Longrightarrow> I d \<and> E (Code c) d"
    and "\<And>d c n. P d \<Longrightarrow> c \<noteq> ''ENOENT'' \<Longrightarrow> I (broken n d) \<and> E (Code c) (broken n d)"
  shows "triple P I (io_call broken act) Q E"
proof (rule tripleI)
  fix s :: io_state
  assume s: "P (io_disk s)" "honest (io_faults s)"
  then have rest: "honest (case io_faults s of [] \<Rightarrow> [] | f # fs \<Rightarrow> fs)"
    by (auto simp: honest_def split: list.splits)
  show "leads I Q E s (io_call broken act s)"
  proof (cases "case io_faults s of [] \<Rightarrow> None | f # fs \<Rightarrow> f")
    case (Some f)
    then obtain c n where f: "f = (c, n)" "c \<noteq> ''ENOENT''" "io_faults s = Some (c, n) # tl (io_faults s)"
      using s(2) by (cases f) (auto simp: honest_def split: list.splits)
    with assms(3) [OF s(1) f(2)] rest show ?thesis
      by (subst io_call_def) (simp add: leads_def Let_def split: list.splits)
  next
    case None
    then show ?thesis
      using assms(1,2) [OF s(1)] rest
      by (auto simp: io_call_def leads_def Let_def split: list.splits sum.splits prod.splits)
  qed
qed

text \<open>The calls, and the programs built from them.\<close>

lemma triple_absurd: "(\<And>d. \<not> P d) \<Longrightarrow> triple P I m Q E"
  by (simp add: triple_def)

lemma triple_to: "triple P I m Q E \<Longrightarrow> (\<And>e d. E e d \<Longrightarrow> F e d) \<Longrightarrow> triple P I m Q F"
  by (rule triple_consequence)

lemma triple_still:
  assumes "\<And>d. P d \<Longrightarrow> I d"
  shows "triple P I fs_other (\<lambda>_. P) (\<lambda>_. P)"
  unfolding fs_other_def using assms by (intro triple_call) auto

lemma triple_read_file:
  assumes "\<And>d. P d \<Longrightarrow> I d"
  shows "triple P I (fs_read a) (\<lambda>t d. P d \<and> map_of d a = Some (Regular t)) (\<lambda>e d. P d \<and> (error_code e = Some ''ENOENT'' \<longrightarrow> map_of d a = None))"
  unfolding fs_read_def using assms by (intro triple_call) (auto split: option.splits file_entry.splits)

lemma triple_renamed:
  assumes "\<And>d d'. P d \<Longrightarrow> rename_file a b d = Some d' \<Longrightarrow> Q d'" "\<And>d. Q d \<Longrightarrow> I d" "\<And>d. P d \<Longrightarrow> I d"
  shows "triple P I (fs_rename a b) (\<lambda>_. Q) (\<lambda>_. P)"
  unfolding fs_rename_def using assms by (intro triple_call) (auto split: if_splits option.splits)

lemma triple_removed:
  assumes "\<And>d. P d \<Longrightarrow> Q (AList.delete a d)" "\<And>d. Q d \<Longrightarrow> I d" "\<And>d. P d \<Longrightarrow> I d"
  shows "triple P I (fs_remove a) (\<lambda>_. Q) (\<lambda>_. P)"
  unfolding fs_remove_def using assms by (intro triple_call) (auto split: if_splits)

lemma triple_attempt: "triple P I m Q E \<Longrightarrow> triple P I (io_attempt m) (\<lambda>r d. case r of Inr x \<Rightarrow> Q x d | Inl e \<Rightarrow> E e d) F"
  by (fastforce intro!: tripleI dest: tripleD simp: io_attempt_def leads_def split: prod.splits sum.splits)

lemma triple_closing:
  assumes "\<And>d. Q d \<Longrightarrow> I d" "\<And>d. E d \<Longrightarrow> I d" "triple P I m (\<lambda>_. Q) (\<lambda>_. E)" "\<And>d. Q d \<Longrightarrow> E d"
  shows "triple P I (io_closing m) (\<lambda>_. Q) (\<lambda>_. E)"
  unfolding io_closing_def
proof (rule triple_bind)
  show "triple P I (io_catch m (\<lambda>e. io_bind fs_other (\<lambda>_. io_throw e))) (\<lambda>_. Q) (\<lambda>_. E)"
    by (rule triple_catch [OF assms(3)]) (rule triple_bind [OF triple_still [OF assms(2)]], assumption, rule triple_throw)
  show "triple Q I (io_bind fs_other (\<lambda>_. io_return x)) (\<lambda>_. Q) (\<lambda>_. E)" for x
  proof (rule triple_bind)
    show "triple Q I fs_other (\<lambda>_. Q) (\<lambda>_. E)"
      by (rule triple_consequence [OF triple_still [of Q I]]) (use assms(1,4) in auto)
  qed (auto intro: triple_return)
qed

lemma triple_exists:
  assumes "\<And>d. P d \<Longrightarrow> I d"
  shows "triple P I (file_exists a) (\<lambda>_. P) E"
  unfolding file_exists_def
proof (rule triple_catch)
  show "triple P I (io_bind (fs_access a) (\<lambda>_. io_return True)) (\<lambda>_. P) (\<lambda>_. P)"
    unfolding fs_access_def by (rule triple_bind [OF triple_call [where Q = "\<lambda>_. P" and E = "\<lambda>_. P"]])
      (auto intro: assms triple_return split: if_splits)
qed (auto intro: triple_return)

lemma triple_both:
  fixes m n :: "('e, unit) io"
  assumes "\<And>d. P d \<Longrightarrow> I d" "triple P I m (\<lambda>_. P) (\<lambda>_. P)" "triple P I n (\<lambda>_. P) (\<lambda>_. P)"
  shows "triple P I (io_both m n) (\<lambda>_. P) (\<lambda>_. P)"
  unfolding io_both_def
proof (rule triple_bind)
  show "triple P I (io_attempt m) (\<lambda>_. P) (\<lambda>_. P)"
    by (rule triple_consequence [OF triple_attempt [OF assms(2)]]) (auto split: sum.splits)
  show "triple P I (io_bind (io_attempt n) (\<lambda>q. case (r, q) of (Inl e, _) \<Rightarrow> io_throw e | (_, Inl e) \<Rightarrow> io_throw e | _ \<Rightarrow> io_return ()))
     (\<lambda>_. P) (\<lambda>_. P)" for r :: "('e io_error, unit) result"
  proof (rule triple_bind)
    show "triple P I (io_attempt n) (\<lambda>_. P) (\<lambda>_. P)"
      by (rule triple_consequence [OF triple_attempt [OF assms(3)]]) (auto split: sum.splits)
  qed (auto intro: triple_throw triple_return split: sum.splits)
qed

lemma bind_lift [simp]: "io_bind (io_lift (Inr x)) f = f x" "io_bind (io_lift (Inl e)) f = io_throw (Thrown e)"
  by (simp_all add: fun_eq_iff io_bind_def io_lift_def io_return_def io_throw_def)

text \<open>What a triple says of a run.\<close>

lemma triple_run:
  assumes "triple P I m Q E" "P d" "honest faults" "io_run m faults d = (r, d', trail)"
  shows "list_all I trail" "case r of Inr x \<Rightarrow> Q x d' | Inl e \<Rightarrow> E e d'"
proof -
  let ?s = "\<lparr>io_disk = d, io_faults = faults, io_trail = []\<rparr>"
  have "leads I Q E ?s (m ?s)" using assms(2,3) tripleD [OF assms(1), of ?s] by simp
  with assms(4) show "list_all I trail" "case r of Inr x \<Rightarrow> Q x d' | Inl e \<Rightarrow> E e d'"
    by (cases "m ?s"; cases r; auto simp: io_run_def leads_def list_all_iff)+
qed

section \<open>Runs without faults\<close>

text \<open>Total correctness: without faults, from a disk with \<open>P\<close> the program ends in \<open>R\<close>.\<close>

definition ends ::
  "(disk \<Rightarrow> bool) \<Rightarrow> ('e, 'a) io \<Rightarrow> (('e io_error, 'a) result \<Rightarrow> disk \<Rightarrow> bool) \<Rightarrow> bool" where
  "ends P m R = (\<forall>s. P (io_disk s) \<longrightarrow> io_faults s = [] \<longrightarrow>
     io_faults (snd (m s)) = [] \<and> R (fst (m s)) (io_disk (snd (m s))))"

abbreviation well :: "('a \<Rightarrow> disk \<Rightarrow> bool) \<Rightarrow> ('e io_error, 'a) result \<Rightarrow> disk \<Rightarrow> bool" where
  "well Q r d \<equiv> (case r of Inl _ \<Rightarrow> False | Inr x \<Rightarrow> Q x d)"

lemma ends_weaken: "ends P m R \<Longrightarrow> (\<And>d. P' d \<Longrightarrow> P d) \<Longrightarrow> (\<And>r d. R r d \<Longrightarrow> R' r d) \<Longrightarrow> ends P' m R'"
  by (simp add: ends_def)

lemma ends_return: "(\<And>d. P d \<Longrightarrow> R (Inr x) d) \<Longrightarrow> ends P (io_return x) R"
  by (simp add: ends_def io_return_def)

lemma ends_lift: "(\<And>d. P d \<Longrightarrow> case r of Inr x \<Rightarrow> R (Inr x) d | Inl e \<Rightarrow> R (Inl (Thrown e)) d) \<Longrightarrow> ends P (io_lift r) R"
  by (cases r) (simp_all add: ends_def io_lift_def io_return_def io_throw_def)

lemma ends_bind:
  assumes "ends P m S" "\<And>x. ends (S (Inr x)) (f x) R" "\<And>e d. S (Inl e) d \<Longrightarrow> R (Inl e) d"
  shows "ends P (io_bind m f) R"
  using assms by (auto simp: ends_def io_bind_def split: prod.splits sum.splits)

lemma ends_catch:
  assumes "ends P m S" "\<And>e. ends (S (Inl e)) (h e) R" "\<And>x d. S (Inr x) d \<Longrightarrow> R (Inr x) d"
  shows "ends P (io_catch m h) R"
  using assms by (auto simp: ends_def io_catch_def split: prod.splits sum.splits)

lemma ends_finally:
  assumes "ends P m S" "\<And>r. ends (S r) c (\<lambda>_. R r)"
  shows "ends P (io_finally m c) R"
  using assms by (force simp: ends_def io_finally_def split: prod.splits)

lemma ends_well_bind: "ends P m (well S) \<Longrightarrow> (\<And>x. ends (S x) (f x) R) \<Longrightarrow> ends P (io_bind m f) R"
  by (erule ends_bind) simp_all

lemma ends_well_catch: "ends P m (well Q) \<Longrightarrow> ends P (io_catch m h) (well Q)"
  by (erule ends_catch) (simp_all add: ends_def)

lemma ends_ignore: "ends P m (\<lambda>_. Q) \<Longrightarrow> ends P (io_ignore m) (well (\<lambda>_. Q))"
  unfolding io_ignore_def by (erule ends_catch) (auto intro: ends_return)

lemma ends_each: "(\<And>x. x \<in> set xs \<Longrightarrow> ends P (f x) (well (\<lambda>_. P))) \<Longrightarrow> ends P (io_each f xs) (well (\<lambda>_. P))"
  by (induction xs) (auto intro!: ends_return ends_well_bind)

lemma ends_call:
  "(\<And>d. P d \<Longrightarrow> case act d of Inl c \<Rightarrow> R (Inl (Code c)) d | Inr (x, d') \<Rightarrow> R (Inr x) d') \<Longrightarrow> ends P (io_call broken act) R"
  by (auto simp: ends_def io_call_def Let_def split: sum.splits prod.splits) force+

lemma ends_absurd: "(\<And>d. \<not> P d) \<Longrightarrow> ends P m R"
  by (simp add: ends_def)

lemma ends_still: "ends P fs_other (well (\<lambda>_. P))"
  unfolding fs_other_def by (rule ends_call) simp

lemma ends_attempt: "ends P m R \<Longrightarrow> ends P (io_attempt m) (well (\<lambda>r. R r))"
  by (auto simp: ends_def io_attempt_def split: prod.splits)

lemma ends_closing: "ends P m (well (\<lambda>_. Q)) \<Longrightarrow> ends P (io_closing m) (well (\<lambda>_. Q))"
  unfolding io_closing_def
  by (rule ends_well_bind [OF ends_well_catch], assumption, rule ends_well_bind [OF ends_still], rule ends_return) simp

lemma ends_removed:
  "(\<And>d. P d \<Longrightarrow> map_of d a \<noteq> Some NotRegular \<and> Q (AList.delete a d)) \<Longrightarrow> ends P (fs_remove a) (well (\<lambda>_. Q))"
  unfolding fs_remove_def by (rule ends_call) auto

lemma ends_renamed:
  "(\<And>d. P d \<Longrightarrow> map_of d b \<noteq> Some NotRegular \<and> (\<exists>d'. rename_file a b d = Some d' \<and> Q d')) \<Longrightarrow> ends P (fs_rename a b) (well (\<lambda>_. Q))"
  unfolding fs_rename_def by (rule ends_call) force

lemma ends_exists: "ends P (file_exists a) (well (\<lambda>x d. P d \<and> x = (map_of d a \<noteq> None)))"
  unfolding file_exists_def
proof (rule ends_catch)
  show "ends P (io_bind (fs_access a) (\<lambda>_. io_return True))
     (\<lambda>r d. case r of Inr x \<Rightarrow> x \<and> P d \<and> map_of d a \<noteq> None | Inl _ \<Rightarrow> P d \<and> map_of d a = None)"
    unfolding fs_access_def
    by (rule ends_bind, rule ends_call [where R = "\<lambda>r d. case r of Inr x \<Rightarrow> P d \<and> map_of d a \<noteq> None | Inl _ \<Rightarrow> P d \<and> map_of d a = None"])
      (auto intro: ends_return)
qed (auto intro: ends_return)

lemma ends_both:
  fixes m n :: "('e, unit) io"
  assumes "ends P m (well (\<lambda>_. R))" "ends R n (well (\<lambda>_. Q))"
  shows "ends P (io_both m n) (well (\<lambda>_. Q))"
  unfolding io_both_def
proof (rule ends_well_bind [OF ends_attempt [OF assms(1)]])
  fix r :: "('e io_error, unit) result"
  show "ends (\<lambda>d. case r of Inl _ \<Rightarrow> False | Inr _ \<Rightarrow> R d)
     (io_bind (io_attempt n) (\<lambda>q. case (r, q) of (Inl e, _) \<Rightarrow> io_throw e | (_, Inl e) \<Rightarrow> io_throw e | _ \<Rightarrow> io_return ())) (well (\<lambda>_. Q))"
  proof (cases r)
    case (Inr u)
    have "ends (\<lambda>d. case q of Inl _ \<Rightarrow> False | Inr _ \<Rightarrow> Q d) (case q of Inl e \<Rightarrow> io_throw e | Inr _ \<Rightarrow> io_return ()) (well (\<lambda>_. Q))"
      for q :: "('e io_error, unit) result"
      by (cases q) (simp_all add: ends_def io_return_def)
    with Inr show ?thesis by (simp add: ends_well_bind [OF ends_attempt [OF assms(2)]])
  qed (simp add: ends_def)
qed

lemma ends_run: "ends P m R \<Longrightarrow> P d \<Longrightarrow> R (fst (io_run m [] d)) (fst (snd (io_run m [] d)))"
  unfolding ends_def io_run_def
  by (cases "m \<lparr>io_disk = d, io_faults = [], io_trail = []\<rparr>") (metis case_prod_conv fst_conv io_state.select_convs(1,2) snd_conv)

section \<open>What a program returns\<close>

text \<open>Whatever fails on the way, a result has \<open>P\<close>.\<close>

definition gives :: "('e, 'a) io \<Rightarrow> ('a \<Rightarrow> bool) \<Rightarrow> bool" where
  "gives m P = (\<forall>s x s'. m s = (Inr x, s') \<longrightarrow> P x)"

lemma gives_any: "gives m (\<lambda>_. True)"
  by (simp add: gives_def)

lemma gives_return: "P x \<Longrightarrow> gives (io_return x) P"
  by (simp add: gives_def io_return_def)

lemma gives_throw: "gives (io_throw e) P"
  by (simp add: gives_def io_throw_def)

lemma gives_lift: "(\<And>x. r = Inr x \<Longrightarrow> P x) \<Longrightarrow> gives (io_lift r) P"
  by (cases r) (simp_all add: io_lift_def gives_return gives_throw)

lemma gives_bind: "gives m R \<Longrightarrow> (\<And>x. R x \<Longrightarrow> gives (f x) P) \<Longrightarrow> gives (io_bind m f) P"
  unfolding gives_def io_bind_def by (auto split: prod.splits sum.splits) blast

lemma gives_catch: "gives m P \<Longrightarrow> (\<And>e. gives (h e) P) \<Longrightarrow> gives (io_catch m h) P"
  unfolding gives_def io_catch_def by (auto split: prod.splits sum.splits)

lemma gives_run: "gives m P \<Longrightarrow> io_run m faults d = (Inr x, d', trail) \<Longrightarrow> P x"
  unfolding gives_def io_run_def by (auto split: prod.splits)

end
