(* ===== verification/Vault_File.thy ===== *)
theory Vault_File
  imports Token_Vault Files
begin

text \<open>
  The file of the token vault (\<open>src/main/oauth-token-vault.ts\<close>): reading with recovery from the previous
  file, the atomic write with its fallback, the removal of debris, and the operations of the vault as
  programs of file system calls. The operations run one after the other (\<open>#queue\<close>), so one program is
  one step. The names of the disk are the names in the vault's directory; the part of the temporary
  name that comes from the process and \<open>randomUUID\<close> is an argument.
\<close>

section \<open>Reading and writing\<close>

definition previous_name :: "string \<Rightarrow> string" where
  "previous_name file = file @ ''.previous''"

definition temporary_name :: "string \<Rightarrow> string \<Rightarrow> string" where
  "temporary_name file token = file @ ''.'' @ token @ ''.tmp''"

abbreviation fail :: "vault_error \<Rightarrow> (vault_error, 'a) io" where
  "fail e \<equiv> io_throw (Thrown e)"

text \<open>\<open>throw error instanceof OAuthTokenVaultError ? error : new OAuthTokenVaultError("storage-failed")\<close>.\<close>

fun rethrow :: "vault_error io_error \<Rightarrow> (vault_error, 'a) io" where
  "rethrow (Thrown e) = fail e"
| "rethrow (Code _) = fail StorageFailed"

definition parse_text :: "vault_world \<Rightarrow> string \<Rightarrow> (vault_error, vault_record list) result" where
  "parse_text w t =
     (if byte_length t > VAULT_FILE_LIMIT then Inl StorageFailed
      else (case vw_parse w t of None \<Rightarrow> Inl StorageFailed | Some j \<Rightarrow> parseDocument w j))"

definition readCandidate :: "vault_world \<Rightarrow> string \<Rightarrow> (vault_error, vault_record list) io" where
  "readCandidate w a =
     io_bind (fs_stat a) (\<lambda>information.
       case information of
         None \<Rightarrow> fail StorageFailed
       | Some bytes \<Rightarrow> if bytes > VAULT_FILE_LIMIT then fail StorageFailed
                      else io_bind (fs_read a) (\<lambda>t. io_lift (parse_text w t)))"

definition is_debris :: "string \<Rightarrow> string \<Rightarrow> bool" where
  "is_debris file name =
     (name = previous_name file \<or> (starts_with (file @ ''.'') name \<and> ends_with ''.tmp'' name))"

definition cleanupDebris :: "string \<Rightarrow> (vault_error, unit) io" where
  "cleanupDebris file =
     io_catch (io_bind fs_names (\<lambda>names. io_each (\<lambda>n. io_ignore (fs_remove n)) (filter (is_debris file) names)))
       (\<lambda>_. io_return ())"

text \<open>The error codes \<open>#syncDirectory\<close> accepts, on the calls to open the directory, to sync it and to close it.\<close>

definition sync_tolerated :: "string list" where
  "sync_tolerated = [''EACCES'', ''EBADF'', ''EINVAL'', ''EISDIR'', ''ENOTSUP'', ''EPERM'']"

definition syncDirectory :: "(vault_error, unit) io" where
  "syncDirectory =
     io_catch (io_bind fs_other (\<lambda>_.
         io_bind (io_catch fs_other (\<lambda>e. io_bind fs_other (\<lambda>_. io_throw e))) (\<lambda>_. fs_other)))
       (\<lambda>e. case error_code e of
              Some c \<Rightarrow> if c \<in> set sync_tolerated then io_return () else fail StorageFailed
            | None \<Rightarrow> fail StorageFailed)"

text \<open>\<open>if (errorCode(error) !== "ENOENT") throw ...\<close>, and otherwise the next attempt.\<close>

definition unless_missing :: "(vault_error, 'a) io \<Rightarrow> vault_error io_error \<Rightarrow> (vault_error, 'a) io" where
  "unless_missing next_try e = (if error_code e \<noteq> Some ''ENOENT'' then rethrow e else next_try)"

definition readDocument :: "vault_world \<Rightarrow> string \<Rightarrow> (vault_error, vault_record list) io" where
  "readDocument w file =
     io_bind fs_other (\<lambda>_.
     io_catch
       (io_bind (readCandidate w file) (\<lambda>rs. io_bind (cleanupDebris file) (\<lambda>_. io_return rs)))
       (unless_missing (io_catch
         (io_bind (readCandidate w (previous_name file)) (\<lambda>rs.
          io_bind (fs_rename (previous_name file) file) (\<lambda>_.
          io_bind syncDirectory (\<lambda>_. io_bind (cleanupDebris file) (\<lambda>_. io_return rs)))))
         (unless_missing (io_bind (cleanupDebris file) (\<lambda>_. io_return []))))))"

text \<open>\<open>#writeDocument\<close> in its parts: the temporary file, the first rename, and the way over the
  previous file when that rename fails with \<open>EEXIST\<close> or \<open>EPERM\<close>.\<close>

definition write_temporary :: "string \<Rightarrow> string \<Rightarrow> (vault_error, unit) io" where
  "write_temporary temporary text =
     io_bind (io_catch (fs_create temporary) (\<lambda>_. fail StorageFailed)) (\<lambda>_.
       io_finally
         (io_catch (io_bind (fs_write temporary text) (\<lambda>_. fs_other)) (\<lambda>_. fail StorageFailed))
         (io_ignore fs_other))"

definition move_into_place :: "vault_world \<Rightarrow> string \<Rightarrow> string \<Rightarrow> (vault_error, unit) io" where
  "move_into_place w file temporary =
     io_bind (fs_rename temporary file) (\<lambda>_. io_bind syncDirectory (\<lambda>_.
     io_bind (readCandidate w file) (\<lambda>_. io_return ())))"

definition replace_by_previous :: "vault_world \<Rightarrow> string \<Rightarrow> string \<Rightarrow> (vault_error, unit) io" where
  "replace_by_previous w file temporary =
     io_bind (io_ignore (fs_remove (previous_name file))) (\<lambda>_.
     io_finally
       (io_catch
         (io_bind (fs_rename file (previous_name file)) (\<lambda>_.
          io_bind
            (io_catch (move_into_place w file temporary)
              (\<lambda>_. io_bind (io_ignore (fs_remove file)) (\<lambda>_.
                    io_bind (io_ignore (fs_rename (previous_name file) file)) (\<lambda>_. fail StorageFailed))))
            (\<lambda>_. io_bind (fs_remove (previous_name file)) (\<lambda>_. syncDirectory))))
         rethrow)
       (io_ignore (fs_remove temporary)))"

definition writeDocument :: "vault_world \<Rightarrow> string \<Rightarrow> string \<Rightarrow> vault_record list \<Rightarrow> (vault_error, unit) io" where
  "writeDocument w file token rs =
     io_bind (io_lift (parseDocument w (document_json rs))) (\<lambda>validated.
     let text = vw_stringify w (document_json validated) @ [CHR 10]; temporary = temporary_name file token in
     if byte_length text > VAULT_FILE_LIMIT then fail StorageFailed
     else io_bind (write_temporary temporary text) (\<lambda>_.
       io_catch (move_into_place w file temporary)
         (\<lambda>e. if error_code e \<in> {Some ''EEXIST'', Some ''EPERM''} then replace_by_previous w file temporary
              else io_bind (io_ignore (fs_remove temporary)) (\<lambda>_. rethrow e))))"

section \<open>What a disk holds\<close>

definition vault_content :: "vault_world \<Rightarrow> file_entry \<Rightarrow> (vault_error, vault_record list) result" where
  "vault_content w e = (case e of NotRegular \<Rightarrow> Inl StorageFailed | Regular t \<Rightarrow> parse_text w t)"

text \<open>The document of the file, or of the previous file where there is none.\<close>

definition stored :: "vault_world \<Rightarrow> string \<Rightarrow> disk \<Rightarrow> (vault_error, vault_record list) result" where
  "stored w file d =
     (case map_of d file of Some e \<Rightarrow> vault_content w e
      | None \<Rightarrow> (case map_of d (previous_name file) of Some e \<Rightarrow> vault_content w e | None \<Rightarrow> Inr []))"

definition settled :: "string \<Rightarrow> disk \<Rightarrow> bool" where
  "settled file d = (map_of d file = None \<longrightarrow> map_of d (previous_name file) = None)"

lemma names_differ [simp]:
  "previous_name file \<noteq> file" "file \<noteq> previous_name file" "temporary_name file token \<noteq> file" "file \<noteq> temporary_name file token"
  "temporary_name file token \<noteq> previous_name file" "previous_name file \<noteq> temporary_name file token"
proof -
  have "length (previous_name file) \<noteq> length file" "length (temporary_name file token) \<noteq> length file"
    by (simp_all add: previous_name_def temporary_name_def)
  then show 1: "previous_name file \<noteq> file" "file \<noteq> previous_name file" "temporary_name file token \<noteq> file" "file \<noteq> temporary_name file token"
    by metis+
  have "last (temporary_name file token) = CHR ''p''" "last (previous_name file) = CHR ''s''"
    by (simp_all add: previous_name_def temporary_name_def)
  then show "temporary_name file token \<noteq> previous_name file" "previous_name file \<noteq> temporary_name file token"
    by auto
qed

lemma debris_not_file: "is_debris file n \<Longrightarrow> n \<noteq> file"
  by (auto simp: is_debris_def starts_with_append)

text \<open>Calls that leave the disk as it is.\<close>

lemma triple_other: "triple P P fs_other (\<lambda>_. P) (\<lambda>_. P)"
  by (rule triple_still)

lemma triple_stat:
  "triple P P (fs_stat a) (\<lambda>r d. P d \<and> (case r of None \<Rightarrow> map_of d a = Some NotRegular
       | Some n \<Rightarrow> \<exists>t. map_of d a = Some (Regular t) \<and> n = byte_length t))
     (\<lambda>e d. P d \<and> (e = Code ''ENOENT'' \<longrightarrow> map_of d a = None))"
  unfolding fs_stat_def by (rule triple_call) (auto split: option.splits file_entry.splits)

lemma triple_read:
  "triple P P (fs_read a) (\<lambda>t d. P d \<and> map_of d a = Some (Regular t))
     (\<lambda>e d. P d \<and> (e = Code ''ENOENT'' \<longrightarrow> map_of d a = None))"
  by (rule triple_consequence [OF triple_read_file [where P = P and I = P]]) auto

lemma triple_candidate:
  "triple P P (readCandidate w a) (\<lambda>rs d. P d \<and> (\<exists>e. map_of d a = Some e \<and> vault_content w e = Inr rs))
     (\<lambda>e d. P d \<and> (e = Code ''ENOENT'' \<longrightarrow> map_of d a = None))"
  unfolding readCandidate_def
proof (rule triple_bind [OF triple_stat])
  fix information
  show "triple (\<lambda>d. P d \<and> (case information of None \<Rightarrow> map_of d a = Some NotRegular
       | Some n \<Rightarrow> \<exists>t. map_of d a = Some (Regular t) \<and> n = byte_length t)) P
     (case information of None \<Rightarrow> fail StorageFailed | Some bytes \<Rightarrow>
        if VAULT_FILE_LIMIT < bytes then fail StorageFailed else io_bind (fs_read a) (\<lambda>t. io_lift (parse_text w t)))
     (\<lambda>rs d. P d \<and> (\<exists>e. map_of d a = Some e \<and> vault_content w e = Inr rs))
     (\<lambda>e d. P d \<and> (e = Code ''ENOENT'' \<longrightarrow> map_of d a = None))"
  proof (cases information)
    case None
    then show ?thesis by (auto intro: triple_throw)
  next
    case (Some n)
    have "triple P P (io_bind (fs_read a) (\<lambda>t. io_lift (parse_text w t)))
       (\<lambda>rs d. P d \<and> (\<exists>e. map_of d a = Some e \<and> vault_content w e = Inr rs))
       (\<lambda>e d. P d \<and> (e = Code ''ENOENT'' \<longrightarrow> map_of d a = None))"
      by (rule triple_bind [OF triple_read]) (auto intro!: triple_lift simp: vault_content_def)
    then have "triple (\<lambda>d. P d \<and> (case information of None \<Rightarrow> map_of d a = Some NotRegular
       | Some n \<Rightarrow> \<exists>t. map_of d a = Some (Regular t) \<and> n = byte_length t)) P
       (io_bind (fs_read a) (\<lambda>t. io_lift (parse_text w t)))
       (\<lambda>rs d. P d \<and> (\<exists>e. map_of d a = Some e \<and> vault_content w e = Inr rs))
       (\<lambda>e d. P d \<and> (e = Code ''ENOENT'' \<longrightarrow> map_of d a = None))"
      by (rule triple_consequence) auto
    with Some show ?thesis by (auto intro: triple_throw)
  qed
qed

lemma triple_sync: "triple P P syncDirectory (\<lambda>_. P) (\<lambda>e d. P d \<and> e = Thrown StorageFailed)"
  unfolding syncDirectory_def
proof (rule triple_catch)
  have "triple P P (io_catch fs_other (\<lambda>e. io_bind fs_other (\<lambda>_. io_throw e))) (\<lambda>_. P) (\<lambda>_. P)"
    by (rule triple_catch [OF triple_other]) (rule triple_bind [OF triple_other], rule triple_throw)
  then have "triple P P (io_bind (io_catch fs_other (\<lambda>e. io_bind fs_other (\<lambda>_. io_throw e))) (\<lambda>_. fs_other)) (\<lambda>_. P) (\<lambda>_. P)"
    by (rule triple_bind) (rule triple_other)
  then show "triple P P (io_bind fs_other (\<lambda>_. io_bind (io_catch fs_other (\<lambda>e. io_bind fs_other (\<lambda>_. io_throw e))) (\<lambda>_. fs_other)))
      (\<lambda>_. P) (\<lambda>_. P)"
    by (intro triple_bind [OF triple_other])
qed (auto intro!: triple_throw triple_return split: option.splits)

lemma triple_remove_ignored:
  "(\<And>d. P d \<Longrightarrow> Q d \<and> Q (AList.delete n d)) \<Longrightarrow> (\<And>d. Q d \<Longrightarrow> I d) \<Longrightarrow>
   triple P I (io_ignore (fs_remove n)) (\<lambda>_. Q) E"
  unfolding fs_remove_def by (intro triple_ignore triple_call) (auto split: if_splits)

lemma triple_cleanup:
  assumes "\<And>d n. P d \<Longrightarrow> is_debris file n \<Longrightarrow> P (AList.delete n d)"
  shows "triple P P (cleanupDebris file) (\<lambda>_. P) E"
  unfolding cleanupDebris_def
proof (rule triple_catch)
  have "triple P P (fs_names :: (vault_error, string list) io) (\<lambda>_. P) (\<lambda>_. P)"
    unfolding fs_names_def by (rule triple_call) auto
  then show "triple P P (io_bind fs_names (\<lambda>names. io_each (\<lambda>n. io_ignore (fs_remove n)) (filter (is_debris file) names))
       :: (vault_error, unit) io) (\<lambda>_. P) (\<lambda>_. P)"
  proof (rule triple_bind)
    fix names
    show "triple P P (io_each (\<lambda>n. io_ignore (fs_remove n)) (filter (is_debris file) names) :: (vault_error, unit) io)
        (\<lambda>_. P) (\<lambda>_. P)"
      using assms by (intro triple_each triple_remove_ignored) auto
  qed
qed (rule triple_return)

section \<open>Reading keeps the document\<close>

lemma stored_delete_debris:
  "map_of d file \<noteq> None \<Longrightarrow> is_debris file n \<Longrightarrow> stored w file (AList.delete n d) = stored w file d"
  using debris_not_file by (auto simp: stored_def map_of_delete split: option.splits)

lemma triple_rename:
  assumes "\<And>d d' e. P d \<Longrightarrow> map_of d a = Some e \<Longrightarrow> rename_file a b d = Some d' \<Longrightarrow> I d' \<and> Q d'"
    and "\<And>d. P d \<Longrightarrow> map_of d a = None \<Longrightarrow> I d \<and> E (Code ''ENOENT'') d"
    and "\<And>d c. P d \<Longrightarrow> c \<noteq> ''ENOENT'' \<Longrightarrow> I d \<and> E (Code c) d"
  shows "triple P I (fs_rename a b) (\<lambda>_. Q) E"
  unfolding fs_rename_def using assms(1,2) assms(3) [of _ "''EPERM''"] assms(3)
  by (intro triple_call) (auto simp: rename_file_def split: if_splits option.splits)

lemma triple_rethrow: "(\<And>d v. P d \<Longrightarrow> E (Thrown v) d) \<Longrightarrow> triple P I (rethrow e) Q E"
  by (cases e) (auto intro: triple_throw)

lemma triple_unless_missing:
  assumes "triple (\<lambda>d. R (Code ''ENOENT'') d) I next_try Q E" "\<And>e d v. R e d \<Longrightarrow> E (Thrown v) d"
  shows "triple (R e) I (unless_missing next_try e) Q E"
proof (cases "error_code e = Some ''ENOENT''")
  case True
  then have "e = Code ''ENOENT''" by (cases e) auto
  with assms(1) show ?thesis by (simp add: unless_missing_def)
qed (auto simp: unless_missing_def intro!: triple_rethrow assms(2))

lemma triple_read_document:
  assumes "P = (\<lambda>d. stored w file d = Inr rs)"
  shows "triple P P (readDocument w file) (\<lambda>rs' d. rs' = rs \<and> P d \<and> settled file d) (\<lambda>_. P)"
proof -
  let ?here = "\<lambda>d. P d \<and> map_of d file \<noteq> None"
  let ?empty = "\<lambda>d. P d \<and> map_of d file = None"
  let ?none = "\<lambda>d. P d \<and> map_of d file = None \<and> map_of d (previous_name file) = None"
  have cleanup: "triple ?here P (cleanupDebris file) (\<lambda>_. ?here) E" for E
    by (rule triple_consequence [OF triple_cleanup [where P = ?here]])
       (auto simp: assms stored_delete_debris map_of_delete dest: debris_not_file)
  have finish: "triple (\<lambda>d. xs = rs \<and> ?here d) P (io_bind (cleanupDebris file) (\<lambda>_. io_return xs))
      (\<lambda>rs' d. rs' = rs \<and> P d \<and> settled file d) E" for xs E
  proof (cases "xs = rs")
    case True
    have "triple ?here P (io_bind (cleanupDebris file) (\<lambda>_. io_return xs)) (\<lambda>rs' d. rs' = rs \<and> P d \<and> settled file d) E"
      by (rule triple_bind [OF cleanup]) (auto intro: triple_return simp: True settled_def)
    with True show ?thesis by simp
  qed (simp add: triple_def)
  have third: "triple ?none P (io_bind (cleanupDebris file) (\<lambda>_. io_return [])) (\<lambda>rs' d. rs' = rs \<and> P d \<and> settled file d) (\<lambda>_. P)"
  proof (rule triple_bind)
    show "triple ?none P (cleanupDebris file) (\<lambda>_. ?none) (\<lambda>_. P)"
      by (rule triple_consequence [OF triple_cleanup [where P = ?none]])
         (auto simp: assms stored_def map_of_delete)
  qed (auto intro!: triple_return simp: assms stored_def settled_def)
  have second: "triple ?empty P (io_catch
         (io_bind (readCandidate w (previous_name file)) (\<lambda>rs.
          io_bind (fs_rename (previous_name file) file) (\<lambda>_.
          io_bind syncDirectory (\<lambda>_. io_bind (cleanupDebris file) (\<lambda>_. io_return rs)))))
         (unless_missing (io_bind (cleanupDebris file) (\<lambda>_. io_return []))))
      (\<lambda>rs' d. rs' = rs \<and> P d \<and> settled file d) (\<lambda>_. P)"
  proof (rule triple_catch)
    let ?E = "\<lambda>e d. P d \<and> (e = Code ''ENOENT'' \<longrightarrow> ?none d)"
    show "triple ?empty P
         (io_bind (readCandidate w (previous_name file)) (\<lambda>rs.
          io_bind (fs_rename (previous_name file) file) (\<lambda>_.
          io_bind syncDirectory (\<lambda>_. io_bind (cleanupDebris file) (\<lambda>_. io_return rs)))))
       (\<lambda>rs' d. rs' = rs \<and> P d \<and> settled file d) ?E"
    proof (rule triple_bind)
      show "triple ?empty P (readCandidate w (previous_name file))
          (\<lambda>xs d. xs = rs \<and> ?empty d \<and> map_of d (previous_name file) \<noteq> None) ?E"
        by (rule triple_consequence [OF triple_candidate [of ?empty]]) (auto simp: assms stored_def split: option.splits)
    next
      fix xs
      have "triple (\<lambda>d. xs = rs \<and> ?empty d \<and> map_of d (previous_name file) \<noteq> None) P (fs_rename (previous_name file) file)
          (\<lambda>_ d. xs = rs \<and> ?here d) ?E"
        by (rule triple_rename) (auto simp: assms stored_def map_of_rename_file split: option.splits)
      then show "triple (\<lambda>d. xs = rs \<and> ?empty d \<and> map_of d (previous_name file) \<noteq> None) P
          (io_bind (fs_rename (previous_name file) file) (\<lambda>_.
            io_bind syncDirectory (\<lambda>_. io_bind (cleanupDebris file) (\<lambda>_. io_return xs))))
          (\<lambda>rs' d. rs' = rs \<and> P d \<and> settled file d) ?E"
      proof (rule triple_bind)
        have "triple (\<lambda>d. xs = rs \<and> ?here d) P syncDirectory (\<lambda>_ d. xs = rs \<and> ?here d) ?E"
          by (rule triple_consequence [OF triple_sync [of "\<lambda>d. xs = rs \<and> ?here d"]]) auto
        then show "triple (\<lambda>d. xs = rs \<and> ?here d) P
            (io_bind syncDirectory (\<lambda>_. io_bind (cleanupDebris file) (\<lambda>_. io_return xs)))
            (\<lambda>rs' d. rs' = rs \<and> P d \<and> settled file d) ?E"
          by (rule triple_bind) (rule finish)
      qed
    qed
    fix e
    show "triple (?E e) P (unless_missing (io_bind (cleanupDebris file) (\<lambda>_. io_return [])) e)
        (\<lambda>rs' d. rs' = rs \<and> P d \<and> settled file d) (\<lambda>_. P)"
      by (rule triple_unless_missing [where R = ?E]) (use triple_consequence [OF third] in auto)
  qed
  show ?thesis
    unfolding readDocument_def
  proof (rule triple_bind [OF triple_other], rule triple_catch)
    let ?E = "\<lambda>e d. P d \<and> (e = Code ''ENOENT'' \<longrightarrow> ?empty d)"
    show "triple P P (io_bind (readCandidate w file) (\<lambda>rs. io_bind (cleanupDebris file) (\<lambda>_. io_return rs)))
        (\<lambda>rs' d. rs' = rs \<and> P d \<and> settled file d) ?E"
    proof (rule triple_bind [OF _ finish])
      show "triple P P (readCandidate w file) (\<lambda>xs d. xs = rs \<and> ?here d) ?E"
        by (rule triple_consequence [OF triple_candidate [of P]]) (auto simp: assms stored_def split: option.splits)
    qed
    fix e
    show "triple (?E e) P (unless_missing (io_catch
         (io_bind (readCandidate w (previous_name file)) (\<lambda>rs.
          io_bind (fs_rename (previous_name file) file) (\<lambda>_.
          io_bind syncDirectory (\<lambda>_. io_bind (cleanupDebris file) (\<lambda>_. io_return rs)))))
         (unless_missing (io_bind (cleanupDebris file) (\<lambda>_. io_return [])))) e)
        (\<lambda>rs' d. rs' = rs \<and> P d \<and> settled file d) (\<lambda>_. P)"
      by (rule triple_unless_missing [where R = ?E]) (use triple_consequence [OF second] in auto)
  qed
qed

section \<open>Writing keeps one of the two documents\<close>

text \<open>Disks that hold the old or the new document.\<close>

definition either :: "vault_world \<Rightarrow> string \<Rightarrow> vault_record list \<Rightarrow> vault_record list \<Rightarrow> disk \<Rightarrow> bool" where
  "either w file old new d = (stored w file d = Inr old \<or> stored w file d = Inr new)"

text \<open>The new text is in place; the file is in place and only the previous one is beside it; the file was
  moved to the previous name.\<close>

definition in_place :: "string \<Rightarrow> string \<Rightarrow> disk \<Rightarrow> bool" where
  "in_place file t d = (map_of d file = Some (Regular t))"

definition before_move :: "vault_world \<Rightarrow> string \<Rightarrow> string \<Rightarrow> string \<Rightarrow> vault_record list \<Rightarrow> vault_record list \<Rightarrow> disk \<Rightarrow> bool" where
  "before_move w file temporary t old new d =
     (either w file old new d \<and> settled file d \<and> map_of d temporary \<in> {None, Some (Regular t)})"

definition set_aside :: "vault_world \<Rightarrow> string \<Rightarrow> string \<Rightarrow> string \<Rightarrow> vault_record list \<Rightarrow> vault_record list \<Rightarrow> disk \<Rightarrow> bool" where
  "set_aside w file temporary t old new d =
     (map_of d temporary \<in> {None, Some (Regular t)} \<and> map_of d file \<in> {None, Some (Regular t)}
      \<and> (\<exists>e. map_of d (previous_name file) = Some e \<and> vault_content w e \<in> {Inr old, Inr new}))"

lemma triple_move:
  assumes "triple P I (fs_rename temporary file :: (vault_error, unit) io) (\<lambda>_. Q) (\<lambda>_. R)" "\<And>d. Q d \<Longrightarrow> I d \<and> R d"
  shows "triple P I (move_into_place w file temporary) (\<lambda>_. Q) (\<lambda>_. R)"
  unfolding move_into_place_def
proof (rule triple_bind [OF assms(1)])
  have "triple Q I syncDirectory (\<lambda>_. Q) (\<lambda>_. R)"
    by (rule triple_consequence [OF triple_sync [of Q]]) (simp_all add: assms(2))
  then show "triple Q I (io_bind syncDirectory (\<lambda>_. io_bind (readCandidate w file) (\<lambda>_. io_return ()))) (\<lambda>_. Q) (\<lambda>_. R)"
  proof (rule triple_bind)
    have "triple Q I (readCandidate w file) (\<lambda>_. Q) (\<lambda>_. R)"
      by (rule triple_consequence [OF triple_candidate [of Q]]) (simp_all add: assms(2))
    then show "triple Q I (io_bind (readCandidate w file) (\<lambda>_. io_return ())) (\<lambda>_. Q) (\<lambda>_. R)"
      by (rule triple_bind) (auto intro: triple_return)
  qed
qed

lemma stored_other_update:
  "k \<noteq> file \<Longrightarrow> k \<noteq> previous_name file \<Longrightarrow> stored w file (AList.update k e d) = stored w file d"
  "k \<noteq> file \<Longrightarrow> k \<noteq> previous_name file \<Longrightarrow> stored w file (AList.delete k d) = stored w file d"
  "k \<noteq> file \<Longrightarrow> k \<noteq> previous_name file \<Longrightarrow> settled file (AList.update k e d) = settled file d"
  "k \<noteq> file \<Longrightarrow> k \<noteq> previous_name file \<Longrightarrow> settled file (AList.delete k d) = settled file d"
  by (auto simp: stored_def settled_def map_of_update map_of_delete split: option.splits)

lemma triple_temporary:
  assumes "\<And>e d. P d \<Longrightarrow> P (AList.update temporary e d)"
  shows "triple P P (write_temporary temporary t) (\<lambda>_ d. P d \<and> map_of d temporary = Some (Regular t)) (\<lambda>_. P)"
  unfolding write_temporary_def
proof (rule triple_bind)
  show "triple P P (io_catch (fs_create temporary) (\<lambda>_. fail StorageFailed)) (\<lambda>_. P) (\<lambda>_. P)"
    unfolding fs_create_def using assms
    by (intro triple_catch triple_call triple_throw) (auto split: if_splits)
  let ?Q = "\<lambda>d. P d \<and> map_of d temporary = Some (Regular t)"
  show "triple P P (io_finally (io_catch (io_bind (fs_write temporary t) (\<lambda>_. fs_other)) (\<lambda>_. fail StorageFailed)) (io_ignore fs_other))
      (\<lambda>_. ?Q) (\<lambda>_. P)"
  proof (rule triple_finally)
    have "triple P P (fs_write temporary t :: (vault_error, unit) io) (\<lambda>_. ?Q) (\<lambda>_. P)"
      unfolding fs_write_def using assms by (intro triple_call) (auto simp: map_of_update)
    moreover have "triple ?Q P (fs_other :: (vault_error, unit) io) (\<lambda>_. ?Q) (\<lambda>_. P)"
      by (rule triple_consequence [OF triple_other [of ?Q]]) auto
    ultimately show "triple P P (io_catch (io_bind (fs_write temporary t) (\<lambda>_. fs_other)) (\<lambda>_. fail StorageFailed)) (\<lambda>_. ?Q) (\<lambda>_. P)"
      by (intro triple_catch [OF triple_bind]) (auto intro: triple_throw)
    show "triple ?Q P (io_ignore fs_other :: (vault_error, unit) io) (\<lambda>_. ?Q) (\<lambda>_. ?Q)"
      by (rule triple_consequence [OF triple_ignore [OF triple_other [of ?Q]]]) auto
    show "triple P P (io_ignore fs_other :: (vault_error, unit) io) (\<lambda>_. P) (\<lambda>_. P)"
      by (rule triple_ignore [OF triple_other])
  qed
qed

lemma triple_replace:
  assumes new: "vault_content w (Regular t) = Inr new" and temporary: "temporary = temporary_name file token"
  shows "triple (before_move w file temporary t old new) (either w file old new) (replace_by_previous w file temporary)
    (\<lambda>_. in_place file t) (\<lambda>_. either w file old new)"
proof -
  let ?I = "either w file old new" and ?J = "before_move w file temporary t old new"
    and ?K = "set_aside w file temporary t old new" and ?T = "in_place file t"
  let ?moved = "\<lambda>d. ?K d \<and> map_of d file = None" and ?both = "\<lambda>d. ?K d \<and> ?T d"
  have T: "?T d \<Longrightarrow> ?I d" for d using new by (simp add: in_place_def either_def stored_def)
  have K: "?K d \<Longrightarrow> ?I d" for d using new by (auto simp: set_aside_def either_def stored_def split: option.splits)
  have J: "?J d \<Longrightarrow> ?I d" for d by (simp add: before_move_def)
  have names: "temporary \<noteq> file" "temporary \<noteq> previous_name file" by (simp_all add: temporary)
  have remove_temporary: "triple ?T ?I (io_ignore (fs_remove temporary)) (\<lambda>_. ?T) (\<lambda>_. ?T)"
    "triple ?I ?I (io_ignore (fs_remove temporary)) (\<lambda>_. ?I) (\<lambda>_. ?I)"
    using names T by (auto intro!: triple_remove_ignored simp: in_place_def map_of_delete either_def stored_other_update)
  have aside: "triple ?J ?I (fs_rename file (previous_name file)) (\<lambda>_. ?moved) (\<lambda>_. ?I)"
  proof (rule triple_rename)
    fix d d' e
    assume "?J d" "map_of d file = Some e" "rename_file file (previous_name file) d = Some d'"
    moreover from this names have "map_of d' temporary = map_of d temporary" "map_of d' file = None"
      "map_of d' (previous_name file) = Some e" by (simp_all add: map_of_rename_file)
    ultimately have "?moved d'" by (auto simp: before_move_def either_def stored_def set_aside_def)
    with K [of d'] show "?I d' \<and> ?moved d'" by simp
  qed (simp_all add: J)
  have move: "triple ?moved ?I (move_into_place w file temporary) (\<lambda>_. ?both) (\<lambda>_. ?K)"
  proof (rule triple_move)
    show "triple ?moved ?I (fs_rename temporary file) (\<lambda>_. ?both) (\<lambda>_. ?K)"
    proof (rule triple_rename)
      fix d d' e
      assume "?moved d" "map_of d temporary = Some e" "rename_file temporary file d = Some d'"
      moreover from this names have "map_of d' temporary = None" "map_of d' file = Some e"
        "map_of d' (previous_name file) = map_of d (previous_name file)" by (simp_all add: map_of_rename_file)
      ultimately have "?both d'" by (auto simp: set_aside_def in_place_def)
      with K [of d'] show "?I d' \<and> ?both d'" by simp
    qed (simp_all add: K)
  qed (simp_all add: K)
  have undo: "triple ?K ?I (io_bind (io_ignore (fs_remove file)) (\<lambda>_.
      io_bind (io_ignore (fs_rename (previous_name file) file)) (\<lambda>_. fail StorageFailed))) (\<lambda>_. ?both) (\<lambda>_. ?I)"
  proof (rule triple_bind)
    show "triple ?K ?I (io_ignore (fs_remove file)) (\<lambda>_. ?K) (\<lambda>_. ?I)"
      using K names by (intro triple_remove_ignored) (auto simp: set_aside_def map_of_delete)
    have "triple ?K ?I (fs_rename (previous_name file) file) (\<lambda>_. ?I) (\<lambda>_. ?I)"
    proof (rule triple_rename)
      fix d d' e
      assume "?K d" "map_of d (previous_name file) = Some e" "rename_file (previous_name file) file d = Some d'"
      then show "?I d' \<and> ?I d'" by (auto simp: either_def stored_def set_aside_def map_of_rename_file)
    qed (simp_all add: K)
    then show "triple ?K ?I (io_bind (io_ignore (fs_rename (previous_name file) file)) (\<lambda>_. fail StorageFailed)) (\<lambda>_. ?both) (\<lambda>_. ?I)"
      by (intro triple_bind [OF triple_ignore]) (auto intro: triple_throw)
  qed
  have tidy: "triple ?both ?I (io_bind (fs_remove (previous_name file)) (\<lambda>_. syncDirectory)) (\<lambda>_. ?T) (\<lambda>_. ?I)"
  proof (rule triple_bind)
    show "triple ?both ?I (fs_remove (previous_name file)) (\<lambda>_. ?T) (\<lambda>_. ?I)"
      unfolding fs_remove_def using T by (intro triple_call) (auto simp: in_place_def map_of_delete split: if_splits)
    show "triple ?T ?I syncDirectory (\<lambda>_. ?T) (\<lambda>_. ?I)"
      by (rule triple_consequence [OF triple_sync [of ?T]]) (simp_all add: T)
  qed
  show ?thesis
    unfolding replace_by_previous_def
  proof (rule triple_bind)
    show "triple ?J ?I (io_ignore (fs_remove (previous_name file))) (\<lambda>_. ?J) (\<lambda>_. ?I)"
      using J names by (intro triple_remove_ignored)
        (auto simp: before_move_def either_def stored_def settled_def map_of_delete split: option.splits)
    show "triple ?J ?I (io_finally (io_catch (io_bind (fs_rename file (previous_name file)) (\<lambda>_.
          io_bind (io_catch (move_into_place w file temporary)
              (\<lambda>_. io_bind (io_ignore (fs_remove file)) (\<lambda>_.
                    io_bind (io_ignore (fs_rename (previous_name file) file)) (\<lambda>_. fail StorageFailed))))
            (\<lambda>_. io_bind (fs_remove (previous_name file)) (\<lambda>_. syncDirectory)))) rethrow)
         (io_ignore (fs_remove temporary))) (\<lambda>_. ?T) (\<lambda>_. ?I)"
      by (intro triple_finally triple_catch [OF triple_bind [OF aside triple_bind [OF triple_catch [OF move undo] tidy]]]
          triple_rethrow remove_temporary)
  qed
qed

text \<open>What \<open>JSON.parse\<close> does with the text \<open>JSON.stringify\<close> made of a document.\<close>

definition json_law :: "vault_world \<Rightarrow> vault_record list \<Rightarrow> bool" where
  "json_law w rs = (vw_parse w (vw_stringify w (document_json rs) @ [CHR 10]) = Some (document_json rs))"

lemma triple_write_document:
  assumes "json_law w new"
  shows "triple (\<lambda>d. stored w file d = Inr old \<and> settled file d) (either w file old new) (writeDocument w file token new)
    (\<lambda>_ d. stored w file d = Inr new \<and> map_of d file \<noteq> None \<and> document_ok w new) (\<lambda>_. either w file old new)"
  unfolding writeDocument_def
proof (rule triple_bind)
  let ?P = "\<lambda>d. stored w file d = Inr old \<and> settled file d" and ?I = "either w file old new"
  let ?t = "vw_stringify w (document_json new) @ [CHR 10]" and ?temporary = "temporary_name file token"
  let ?J = "before_move w file ?temporary ?t old new"
  have I: "?P d \<Longrightarrow> ?I d" for d by (simp add: either_def)
  show "triple ?P ?I (io_lift (parseDocument w (document_json new)))
      (\<lambda>v d. v = new \<and> document_ok w new \<and> ?P d) (\<lambda>_. ?I)"
    by (rule triple_lift) (auto simp: I dest: parse_document_json)
  fix v
  show "triple (\<lambda>d. v = new \<and> document_ok w new \<and> ?P d) ?I
     (let text = vw_stringify w (document_json v) @ [CHR 10]; temporary = ?temporary
      in if VAULT_FILE_LIMIT < byte_length text then fail StorageFailed
         else io_bind (write_temporary temporary text) (\<lambda>_.
           io_catch (move_into_place w file temporary)
             (\<lambda>e. if error_code e \<in> {Some ''EEXIST'', Some ''EPERM''} then replace_by_previous w file temporary
                  else io_bind (io_ignore (fs_remove temporary)) (\<lambda>_. rethrow e))))
     (\<lambda>_ d. stored w file d = Inr new \<and> map_of d file \<noteq> None \<and> document_ok w new) (\<lambda>_. ?I)"
  proof (cases "v = new \<and> document_ok w new")
    case False
    then show ?thesis by (auto simp: triple_def)
  next
    case True
    show ?thesis
    proof (cases "VAULT_FILE_LIMIT < byte_length ?t")
      case long: True
      with True show ?thesis by (simp add: Let_def) (rule triple_throw, simp add: I)
    next
      case False
      have new: "vault_content w (Regular ?t) = Inr new"
        using False True assms parse_document_back by (simp add: vault_content_def parse_text_def json_law_def)
      have T: "in_place file ?t d \<Longrightarrow> stored w file d = Inr new \<and> map_of d file \<noteq> None" for d
        using new by (simp add: in_place_def stored_def)
      have J: "?J d \<Longrightarrow> ?I d" for d by (simp add: before_move_def)
      have remove: "triple ?J ?I (io_ignore (fs_remove ?temporary)) (\<lambda>_. ?I) E" for E
        by (rule triple_remove_ignored) (auto simp: J either_def before_move_def stored_other_update)
      let ?ready = "\<lambda>d. ?P d \<and> map_of d ?temporary = Some (Regular ?t)"
      let ?placed = "\<lambda>d. in_place file ?t d \<and> map_of d ?temporary = None"
      have rename: "triple ?ready ?I (fs_rename ?temporary file) (\<lambda>_. ?placed) (\<lambda>_. ?J)"
        by (rule triple_rename)
          (auto simp: in_place_def map_of_rename_file either_def before_move_def stored_def new)
      have placed: "?placed d \<Longrightarrow> ?I d \<and> ?J d" for d
        using T [of d] by (auto simp: either_def before_move_def settled_def in_place_def)
      have move: "triple ?ready ?I (move_into_place w file ?temporary) (\<lambda>_. ?placed) (\<lambda>_. ?J)"
        using rename placed by (rule triple_move)
      have handler: "triple ?J ?I
          (if error_code e \<in> {Some ''EEXIST'', Some ''EPERM''} then replace_by_previous w file ?temporary
           else io_bind (io_ignore (fs_remove ?temporary)) (\<lambda>_. rethrow e)) (\<lambda>_. in_place file ?t) (\<lambda>_. ?I)" for e
        using triple_replace [OF new refl] by (auto intro!: triple_bind [OF remove] triple_rethrow)
      have "triple ?ready ?I (io_catch (move_into_place w file ?temporary)
             (\<lambda>e. if error_code e \<in> {Some ''EEXIST'', Some ''EPERM''} then replace_by_previous w file ?temporary
                  else io_bind (io_ignore (fs_remove ?temporary)) (\<lambda>_. rethrow e))) (\<lambda>_. in_place file ?t) (\<lambda>_. ?I)"
        by (rule triple_catch [OF _ handler], rule triple_consequence [OF move]) simp_all
      moreover have "triple ?P ?I (write_temporary ?temporary ?t) (\<lambda>_. ?ready) (\<lambda>_. ?I)"
        by (rule triple_consequence [OF triple_temporary [of ?P]]) (simp_all add: stored_other_update I)
      ultimately have "triple ?P ?I (io_bind (write_temporary ?temporary ?t) (\<lambda>_. io_catch (move_into_place w file ?temporary)
             (\<lambda>e. if error_code e \<in> {Some ''EEXIST'', Some ''EPERM''} then replace_by_previous w file ?temporary
                  else io_bind (io_ignore (fs_remove ?temporary)) (\<lambda>_. rethrow e)))) (\<lambda>_. in_place file ?t) (\<lambda>_. ?I)"
        by (intro triple_bind)
      then have "triple ?P ?I (io_bind (write_temporary ?temporary ?t) (\<lambda>_. io_catch (move_into_place w file ?temporary)
             (\<lambda>e. if error_code e \<in> {Some ''EEXIST'', Some ''EPERM''} then replace_by_previous w file ?temporary
                  else io_bind (io_ignore (fs_remove ?temporary)) (\<lambda>_. rethrow e))))
          (\<lambda>_ d. stored w file d = Inr new \<and> map_of d file \<noteq> None \<and> document_ok w new) (\<lambda>_. ?I)"
        by (rule triple_consequence) (use True T in simp_all)
      then show ?thesis using False True by (simp add: Let_def)
    qed
  qed
qed

section \<open>Without faults\<close>

lemma ends_cases: "ends P m R \<Longrightarrow> ends P' m R \<Longrightarrow> (\<And>d. Q d \<Longrightarrow> P d \<or> P' d) \<Longrightarrow> ends Q m R"
  by (auto simp: ends_def)

lemma ends_sync: "ends P syncDirectory (well (\<lambda>_. P))"
  unfolding syncDirectory_def
  by (rule ends_well_catch [OF ends_well_bind [OF ends_still ends_well_bind [OF ends_well_catch [OF ends_still] ends_still]]])

lemma ends_cleanup:
  assumes "\<And>n d. is_debris file n \<Longrightarrow> P d \<Longrightarrow> P (AList.delete n d)"
  shows "ends P (cleanupDebris file) (well (\<lambda>_. P))"
  unfolding cleanupDebris_def
proof (rule ends_well_catch, rule ends_well_bind)
  show "ends P (fs_names :: (vault_error, string list) io) (well (\<lambda>_. P))"
    unfolding fs_names_def by (rule ends_call) simp
  show "ends P (io_each (\<lambda>n. io_ignore (fs_remove n)) (filter (is_debris file) names)) (well (\<lambda>_. P))" for names
    unfolding fs_remove_def using assms by (intro ends_each ends_ignore ends_call) auto
qed

text \<open>A candidate that is there is read, and one that is missing is reported as missing.\<close>

lemma ends_candidate:
  assumes "\<And>d. P d \<Longrightarrow> \<exists>e. map_of d a = Some e \<and> vault_content w e = Inr rs"
  shows "ends P (readCandidate w a) (well (\<lambda>rs'. \<lambda>d. rs' = rs \<and> P d))"
  unfolding readCandidate_def
proof (rule ends_well_bind)
  let ?S = "\<lambda>i d. P d \<and> (\<exists>t. map_of d a = Some (Regular t) \<and> i = Some (byte_length t) \<and> parse_text w t = Inr rs)"
  show "ends P (fs_stat a) (well ?S)"
    unfolding fs_stat_def using assms
    by (intro ends_call) (fastforce simp: vault_content_def split: option.splits file_entry.splits)
  fix information
  have small: "byte_length t \<le> VAULT_FILE_LIMIT" if "parse_text w t = Inr rs" for t
    using that by (simp add: parse_text_def split: if_splits)
  show "ends (?S information) (case information of None \<Rightarrow> fail StorageFailed
     | Some bytes \<Rightarrow> if VAULT_FILE_LIMIT < bytes then fail StorageFailed else io_bind (fs_read a) (\<lambda>t. io_lift (parse_text w t)))
     (well (\<lambda>rs' d. rs' = rs \<and> P d))"
  proof (cases "\<exists>t. information = Some (byte_length t) \<and> parse_text w t = Inr rs")
    case False
    then show ?thesis by (auto simp: ends_def)
  next
    case True
    then obtain n where n: "information = Some n" "n \<le> VAULT_FILE_LIMIT" using small by blast
    have "ends (?S information) (io_bind (fs_read a) (\<lambda>t. io_lift (parse_text w t))) (well (\<lambda>rs' d. rs' = rs \<and> P d))"
    proof (rule ends_well_bind)
      show "ends (?S information) (fs_read a) (well (\<lambda>t d. parse_text w t = Inr rs \<and> P d))"
        unfolding fs_read_def by (rule ends_call) auto
      show "ends (\<lambda>d. parse_text w t = Inr rs \<and> P d) (io_lift (parse_text w t)) (well (\<lambda>rs' d. rs' = rs \<and> P d))" for t
        by (cases "parse_text w t = Inr rs") (auto simp: ends_def io_lift_def io_return_def)
    qed
    with n show ?thesis by simp
  qed
qed

lemma ends_candidate_missing:
  assumes "\<And>d. P d \<Longrightarrow> map_of d a = None"
  shows "ends P (readCandidate w a) (\<lambda>r d. r = Inl (Code ''ENOENT'') \<and> P d)"
  unfolding readCandidate_def
proof (rule ends_bind)
  show "ends P (fs_stat a) (\<lambda>r d. r = Inl (Code ''ENOENT'') \<and> P d)"
    unfolding fs_stat_def by (rule ends_call) (simp add: assms)
qed (simp_all add: ends_def)

text \<open>Reading: the document is returned, and the file is there unless there was none to recover.\<close>

definition ready :: "vault_world \<Rightarrow> string \<Rightarrow> string \<Rightarrow> vault_record list \<Rightarrow> disk \<Rightarrow> bool" where
  "ready w file temporary rs d =
     (map_of d temporary = None \<and> (case map_of d file of Some e \<Rightarrow> vault_content w e = Inr rs | None \<Rightarrow> True))"

lemma ends_read_document:
  assumes "temporary = temporary_name file token"
  shows "ends (\<lambda>d. stored w file d = Inr rs \<and> map_of d temporary = None) (readDocument w file)
    (well (\<lambda>rs' d. rs' = rs \<and> ready w file temporary rs d))"
    (is "ends ?P _ (well ?Q)")
proof -
  let ?there = "\<lambda>d. map_of d temporary = None \<and> (\<exists>e. map_of d file = Some e \<and> vault_content w e = Inr rs)"
  let ?prior = "\<lambda>d. map_of d temporary = None \<and> map_of d file = None \<and>
      (\<exists>e. map_of d (previous_name file) = Some e \<and> vault_content w e = Inr rs)"
  let ?none = "\<lambda>d. map_of d temporary = None \<and> map_of d file = None \<and> map_of d (previous_name file) = None \<and> rs = []"
  have tidy: "ends R (io_bind (cleanupDebris file) (\<lambda>_. io_return rs)) (well ?Q)"
    if "\<And>n d. is_debris file n \<Longrightarrow> R d \<Longrightarrow> R (AList.delete n d)" "\<And>d. R d \<Longrightarrow> ready w file temporary rs d" for R
    using that by (intro ends_well_bind [OF ends_cleanup [where P = R]] ends_return) auto
  have there: "ends ?there (io_bind (cleanupDebris file) (\<lambda>_. io_return rs)) (well ?Q)"
    by (rule tidy) (auto simp: map_of_delete ready_def dest: debris_not_file)
  let ?first = "io_bind (readCandidate w file) (\<lambda>rs. io_bind (cleanupDebris file) (\<lambda>_. io_return rs))"
  have found: "ends ?there ?first (well ?Q)"
  proof (rule ends_well_bind [OF ends_candidate [where rs = rs]])
    fix rs'
    show "ends (\<lambda>d. rs' = rs \<and> ?there d) (io_bind (cleanupDebris file) (\<lambda>_. io_return rs')) (well ?Q)"
      using there by (cases "rs' = rs") (simp_all add: ends_def)
  qed auto
  have missing: "ends R ?first (\<lambda>r d. r = Inl (Code ''ENOENT'') \<and> R d)" if "\<And>d. R d \<Longrightarrow> map_of d file = None" for R
    by (rule ends_bind [OF ends_candidate_missing]) (use that in \<open>simp_all add: ends_def\<close>)
  let ?recover = "\<lambda>rs. io_bind (fs_rename (previous_name file) file) (\<lambda>_.
      io_bind syncDirectory (\<lambda>_. io_bind (cleanupDebris file) (\<lambda>_. io_return rs)))"
  have recover: "ends ?prior (io_bind (readCandidate w (previous_name file)) ?recover) (well ?Q)"
  proof (rule ends_well_bind [OF ends_candidate [where rs = rs]])
    fix rs'
    have "ends ?prior (fs_rename (previous_name file) file :: (vault_error, unit) io) (well (\<lambda>_. ?there))"
      unfolding fs_rename_def
    proof (rule ends_call)
      fix d
      assume d: "?prior d"
      then obtain d' where "rename_file (previous_name file) file d = Some d'"
        by (auto simp: rename_file_def)
      with d show "case (if map_of d (previous_name file) \<noteq> None \<and> map_of d file = Some NotRegular then Inl ''EPERM''
          else case rename_file (previous_name file) file d of None \<Rightarrow> Inl ''ENOENT'' | Some d' \<Rightarrow> Inr ((), d')) of
          Inl c \<Rightarrow> well (\<lambda>_. ?there) (Inl (Code c)) d | Inr (x, d') \<Rightarrow> well (\<lambda>_. ?there) (Inr x) d'"
        by (simp add: map_of_rename_file assms)
    qed
    then have "ends ?prior (?recover rs) (well ?Q)"
      by (rule ends_well_bind) (rule ends_well_bind [OF ends_sync there])
    then show "ends (\<lambda>d. rs' = rs \<and> ?prior d) (?recover rs') (well ?Q)"
      by (cases "rs' = rs") (simp_all add: ends_def)
  qed auto
  have absent: "ends ?none (io_bind (readCandidate w (previous_name file)) ?recover) (\<lambda>r d. r = Inl (Code ''ENOENT'') \<and> ?none d)"
    by (rule ends_bind [OF ends_candidate_missing]) (simp_all add: ends_def)
  have rest: "ends R (io_catch ?first (unless_missing (io_catch (io_bind (readCandidate w (previous_name file)) ?recover)
      (unless_missing (io_bind (cleanupDebris file) (\<lambda>_. io_return [])))))) (well ?Q)" if R: "R = ?prior \<or> R = ?none" for R
  proof (rule ends_catch [OF missing])
    fix e
    from R have "ends R (io_catch (io_bind (readCandidate w (previous_name file)) ?recover)
      (unless_missing (io_bind (cleanupDebris file) (\<lambda>_. io_return [])))) (well ?Q)"
    proof
      assume "R = ?prior"
      then show ?thesis using recover by (auto intro: ends_well_catch)
    next
      assume R: "R = ?none"
      have "ends ?none (io_bind (cleanupDebris file) (\<lambda>_. io_return [])) (well ?Q)"
        by (cases "rs = []") (use tidy [of ?none] in \<open>auto simp: map_of_delete ready_def ends_def\<close>)
      then have missed: "ends (\<lambda>d. Inl e = Inl (Code ''ENOENT'') \<and> ?none d)
          (unless_missing (io_bind (cleanupDebris file) (\<lambda>_. io_return [])) e) (well ?Q)" for e
        by (auto simp: unless_missing_def ends_def)
      show ?thesis
        unfolding R by (rule ends_catch [OF absent missed]) simp
    qed
    then show "ends (\<lambda>d. Inl e = Inl (Code ''ENOENT'') \<and> R d) (unless_missing (io_catch (io_bind (readCandidate w (previous_name file)) ?recover)
      (unless_missing (io_bind (cleanupDebris file) (\<lambda>_. io_return [])))) e) (well ?Q)"
      by (auto simp: unless_missing_def ends_def)
  qed (use R in auto)
  have either: "ends ?P (io_catch ?first (unless_missing (io_catch (io_bind (readCandidate w (previous_name file)) ?recover)
      (unless_missing (io_bind (cleanupDebris file) (\<lambda>_. io_return [])))))) (well ?Q)"
  proof (rule ends_cases [OF ends_well_catch [OF found]])
    show "ends (\<lambda>d. ?prior d \<or> ?none d) (io_catch ?first (unless_missing (io_catch (io_bind (readCandidate w (previous_name file)) ?recover)
        (unless_missing (io_bind (cleanupDebris file) (\<lambda>_. io_return [])))))) (well ?Q)"
      by (rule ends_cases [OF rest rest]) auto
  qed (auto simp: stored_def split: option.splits)
  show ?thesis unfolding readDocument_def by (rule ends_well_bind [OF ends_still either])
qed

text \<open>Writing to such a disk succeeds when the document is within its limits.\<close>

lemma ends_write_document:
  assumes json: "json_law w new" and ok: "document_ok w new"
    and small: "byte_length (vw_stringify w (document_json new) @ [CHR 10]) \<le> VAULT_FILE_LIMIT"
  shows "ends (ready w file (temporary_name file token) old) (writeDocument w file token new) (well (\<lambda>_ _. True))"
proof -
  let ?t = "vw_stringify w (document_json new) @ [CHR 10]" and ?temporary = "temporary_name file token"
  let ?P = "ready w file ?temporary old" and ?regular = "\<lambda>d. map_of d file \<noteq> Some NotRegular"
  have new: "vault_content w (Regular ?t) = Inr new"
    using small ok json parse_document_back by (simp add: vault_content_def parse_text_def json_law_def)
  have "ends ?P (fs_create ?temporary :: (vault_error, unit) io) (well (\<lambda>_. ?regular))"
    unfolding fs_create_def by (rule ends_call) (auto simp: ready_def map_of_update vault_content_def)
  then have create: "ends ?P (io_catch (fs_create ?temporary) (\<lambda>_. fail StorageFailed)) (well (\<lambda>_. ?regular))"
    by (rule ends_well_catch)
  let ?written = "\<lambda>d. ?regular d \<and> map_of d ?temporary = Some (Regular ?t)"
  have "ends ?regular (fs_write ?temporary ?t :: (vault_error, unit) io) (well (\<lambda>_. ?written))"
    unfolding fs_write_def by (rule ends_call) (auto simp: map_of_update)
  note ends_well_bind [OF this ends_still]
  then have "ends ?regular (io_catch (io_bind (fs_write ?temporary ?t) (\<lambda>_. fs_other)) (\<lambda>_. fail StorageFailed)) (well (\<lambda>_. ?written))"
    by (rule ends_well_catch)
  then have filled: "ends ?regular (io_finally
         (io_catch (io_bind (fs_write ?temporary ?t) (\<lambda>_. fs_other)) (\<lambda>_. fail StorageFailed))
         (io_ignore fs_other)) (well (\<lambda>_. ?written))"
  proof (rule ends_finally)
    fix r :: "(vault_error io_error, unit) result"
    let ?R = "well (\<lambda>_. ?written) r"
    have "ends ?R (fs_other :: (vault_error, unit) io) (\<lambda>_. ?R)"
      by (rule ends_weaken [OF ends_still [of ?R]]) (simp_all split: sum.splits)
    from ends_ignore [OF this] show "ends ?R (io_ignore fs_other :: (vault_error, unit) io) (\<lambda>_. ?R)"
      by (rule ends_weaken) (simp_all split: sum.splits)
  qed
  let ?placed = "\<lambda>d. map_of d file = Some (Regular ?t)"
  have "ends ?written (fs_rename ?temporary file :: (vault_error, unit) io) (well (\<lambda>_. ?placed))"
    unfolding fs_rename_def
  proof (rule ends_call)
    fix d
    assume d: "?written d"
    then obtain d' where "rename_file ?temporary file d = Some d'" by (auto simp: rename_file_def)
    with d show "case (if map_of d ?temporary \<noteq> None \<and> map_of d file = Some NotRegular then Inl ''EPERM''
        else case rename_file ?temporary file d of None \<Rightarrow> Inl ''ENOENT'' | Some d' \<Rightarrow> Inr ((), d')) of
        Inl c \<Rightarrow> well (\<lambda>_. ?placed) (Inl (Code c)) d | Inr (x, d') \<Rightarrow> well (\<lambda>_. ?placed) (Inr x) d'"
      by (simp add: map_of_rename_file)
  qed
  then have move: "ends ?written (move_into_place w file ?temporary) (well (\<lambda>_ _. True))"
    unfolding move_into_place_def
    by (rule ends_well_bind) (intro ends_well_bind [OF ends_sync] ends_well_bind [OF ends_candidate [where rs = new]] ends_return;
      simp add: new)
  have "ends ?P (io_bind (write_temporary ?temporary ?t) (\<lambda>_. io_catch (move_into_place w file ?temporary) h)) (well (\<lambda>_ _. True))" for h
    unfolding write_temporary_def by (intro ends_well_bind [OF ends_well_bind [OF create filled]] ends_well_catch [OF move])
  then show ?thesis
    using small parse_document_back [OF ok] unfolding writeDocument_def
    by (intro ends_well_bind [OF ends_lift [where R = "well (\<lambda>v d. v = new \<and> ?P d)"]]) (auto simp: Let_def ends_def)
qed

section \<open>Whatever happens, what is read is a document\<close>

lemma gives_candidate: "gives (readCandidate w a) (document_ok w)"
  unfolding readCandidate_def
  by (rule gives_bind [OF gives_any])
    (auto split: option.splits if_splits intro!: gives_throw gives_bind [OF gives_any] gives_lift
      simp: parse_text_def dest: parse_document_ok)

lemma gives_document: "gives (readDocument w file) (document_ok w)"
proof -
  have tidy: "gives (io_bind (readCandidate w a) (\<lambda>rs. io_bind m (\<lambda>_. io_return rs))) (document_ok w)" for a and m :: "(vault_error, unit) io"
    by (intro gives_bind [OF gives_candidate] gives_bind [OF gives_any] gives_return)
  have missing: "gives (unless_missing m e) (document_ok w)" if "gives m (document_ok w)" for m e
    using that by (cases e) (auto simp: unless_missing_def gives_throw)
  have recover: "gives (io_bind (readCandidate w a) (\<lambda>rs. io_bind m1 (\<lambda>_. io_bind m2 (\<lambda>_. io_bind m3 (\<lambda>_. io_return rs))))) (document_ok w)"
    for a and m1 m2 m3 :: "(vault_error, unit) io"
    by (rule gives_bind [OF gives_candidate]) (intro gives_bind [OF gives_any] gives_return)
  have absent: "gives (io_bind m (\<lambda>_. io_return [])) (document_ok w)" for m :: "(vault_error, unit) io"
    by (intro gives_bind [OF gives_any] gives_return) (simp add: document_ok_def)
  show ?thesis
    unfolding readDocument_def
    by (intro gives_bind [OF gives_any, where m = fs_other] gives_catch [OF tidy] gives_catch [OF recover] missing absent)
qed

end
