(* ===== verification/Vault_Operations.thy ===== *)
theory Vault_Operations
  imports Vault_File
begin

text \<open>
  The operations of the token vault (\<open>src/main/oauth-token-vault.ts\<close>) on its file, and what they
  promise: each refines a change of the document, whatever call fails and wherever the process stops;
  tokens that were saved are read back; a file that cannot be read is left alone.
\<close>

section \<open>The operations\<close>

definition vault_status ::
  "vault_world \<Rightarrow> token_vault \<Rightarrow> string \<Rightarrow> int \<Rightarrow> (vault_error, vault_snapshot) io" where
  "vault_status w v file now =
     io_catch (io_bind (readDocument w file) (\<lambda>rs. io_return (vault_snapshot_of w v now (availabilityFailure w) rs)))
       (\<lambda>_. io_return (vault_snapshot_of w v now (Some VaultStorageFailed) []))"

definition saveInitial ::
  "vault_world \<Rightarrow> token_vault \<Rightarrow> string \<Rightarrow> string \<Rightarrow> int \<Rightarrow> oauth_provider \<Rightarrow> string \<Rightarrow> token_material \<Rightarrow>
   (vault_error, vault_snapshot) io" where
  "saveInitial w v file token now p a m =
     io_bind (io_lift (save_checks w v p a m)) (\<lambda>seconds.
     io_bind (readDocument w file) (\<lambda>rs.
     io_bind (io_lift (add_record w now p a m seconds rs)) (\<lambda>new.
     io_bind (writeDocument w file token new) (\<lambda>_.
     io_return (vault_snapshot_of w v now None new)))))"

definition rotate_tokens ::
  "vault_world \<Rightarrow> token_vault \<Rightarrow> string \<Rightarrow> string \<Rightarrow> int \<Rightarrow> oauth_provider \<Rightarrow> string \<Rightarrow> token_rotation \<Rightarrow>
   (vault_error, vault_snapshot) io" where
  "rotate_tokens w v file token now p a m =
     io_bind (io_lift (rotate_checks w v p a m)) (\<lambda>seconds.
     io_bind (readDocument w file) (\<lambda>rs.
     io_bind (io_lift (rotate_record w now p a m seconds rs)) (\<lambda>new.
     io_bind (writeDocument w file token new) (\<lambda>_.
     io_return (vault_snapshot_of w v now None new)))))"

definition read_account ::
  "vault_world \<Rightarrow> string \<Rightarrow> oauth_provider \<Rightarrow> string \<Rightarrow> (vault_error, account_tokens option) io" where
  "read_account w file p a =
     io_bind (io_lift (read_checks w a)) (\<lambda>_.
     io_bind (readDocument w file) (\<lambda>rs. io_lift (read_tokens w p a rs)))"

definition forgetAccount ::
  "vault_world \<Rightarrow> string \<Rightarrow> string \<Rightarrow> oauth_provider \<Rightarrow> string \<Rightarrow> (vault_error, unit) io" where
  "forgetAccount w file token p a =
     io_bind (io_lift (requireAccountKey a)) (\<lambda>_.
     io_bind (readDocument w file) (\<lambda>rs.
       let remaining = forget_record p a rs in
       if length remaining = length rs then io_return () else writeDocument w file token remaining))"

record action_result =
  ar_provider :: oauth_provider
  ar_cleared :: nat
  ar_remote :: remote_outcome
  ar_snapshot :: vault_snapshot

text \<open>\<open>clear\<close> and \<open>revokeAndClear\<close>: the latter asks the revoker first, whose outcome the result reports.\<close>

definition clear_records ::
  "vault_world \<Rightarrow> token_vault \<Rightarrow> string \<Rightarrow> string \<Rightarrow> int \<Rightarrow> (vault_record list \<Rightarrow> remote_outcome) \<Rightarrow> oauth_provider \<Rightarrow>
   (vault_error, action_result) io" where
  "clear_records w v file token now remote p =
     io_bind (readDocument w file) (\<lambda>rs.
       let records = filter (\<lambda>r. vr_provider r = p) rs; remaining = clear_provider p rs in
       io_bind (if records \<noteq> [] then writeDocument w file token remaining else io_return ()) (\<lambda>_.
       io_return \<lparr>ar_provider = p, ar_cleared = length records, ar_remote = remote records,
         ar_snapshot = vault_snapshot_of w v now (availabilityFailure w) (if records \<noteq> [] then remaining else rs)\<rparr>))"

definition clear_vault ::
  "vault_world \<Rightarrow> token_vault \<Rightarrow> string \<Rightarrow> string \<Rightarrow> int \<Rightarrow> oauth_provider \<Rightarrow> (vault_error, action_result) io" where
  "clear_vault w v file token now p = clear_records w v file token now (\<lambda>_. NotNeeded) p"

definition revokeAndClear ::
  "vault_world \<Rightarrow> token_vault \<Rightarrow> string \<Rightarrow> string \<Rightarrow> int \<Rightarrow> (string \<Rightarrow> string \<Rightarrow> revocation) \<Rightarrow> oauth_provider \<Rightarrow>
   (vault_error, action_result) io" where
  "revokeAndClear w v file token now revoke p =
     clear_records w v file token now (remote_revocation w v revoke p) p"

section \<open>The document they change\<close>

datatype vault_operation =
  SaveInitial oauth_provider string token_material
| Rotate oauth_provider string token_rotation
| ReadAccount oauth_provider string
| ForgetAccount oauth_provider string
| ClearProvider oauth_provider
| RevokeProvider "string \<Rightarrow> string \<Rightarrow> revocation" oauth_provider
| Status

definition discard :: "(vault_error, 'a) io \<Rightarrow> (vault_error, unit) io" where
  "discard m = io_bind m (\<lambda>_. io_return ())"

fun vault_program ::
  "vault_world \<Rightarrow> token_vault \<Rightarrow> string \<Rightarrow> string \<Rightarrow> int \<Rightarrow> vault_operation \<Rightarrow> (vault_error, unit) io" where
  "vault_program w v file token now (SaveInitial p a m) = discard (saveInitial w v file token now p a m)"
| "vault_program w v file token now (Rotate p a m) = discard (rotate_tokens w v file token now p a m)"
| "vault_program w v file token now (ReadAccount p a) = discard (read_account w file p a)"
| "vault_program w v file token now (ForgetAccount p a) = forgetAccount w file token p a"
| "vault_program w v file token now (ClearProvider p) = discard (clear_vault w v file token now p)"
| "vault_program w v file token now (RevokeProvider revoke p) = discard (revokeAndClear w v file token now revoke p)"
| "vault_program w v file token now Status = discard (vault_status w v file now)"

text \<open>The specification: the new document, or the error of an operation that leaves it as it is.\<close>

fun vault_effect ::
  "vault_world \<Rightarrow> token_vault \<Rightarrow> int \<Rightarrow> vault_operation \<Rightarrow> vault_record list \<Rightarrow> (vault_error, vault_record list) result" where
  "vault_effect w v now (SaveInitial p a m) rs =
     (case save_checks w v p a m of Inl e \<Rightarrow> Inl e | Inr seconds \<Rightarrow> add_record w now p a m seconds rs)"
| "vault_effect w v now (Rotate p a m) rs =
     (case rotate_checks w v p a m of Inl e \<Rightarrow> Inl e | Inr seconds \<Rightarrow> rotate_record w now p a m seconds rs)"
| "vault_effect w v now (ReadAccount p a) rs = Inr rs"
| "vault_effect w v now (ForgetAccount p a) rs = Inr (forget_record p a rs)"
| "vault_effect w v now (ClearProvider p) rs = Inr (clear_provider p rs)"
| "vault_effect w v now (RevokeProvider revoke p) rs = Inr (clear_provider p rs)"
| "vault_effect w v now Status rs = Inr rs"

text \<open>The two documents a disk may hold during an operation.\<close>

definition survives ::
  "vault_world \<Rightarrow> string \<Rightarrow> vault_record list \<Rightarrow> (vault_error, vault_record list) result \<Rightarrow> disk \<Rightarrow> bool" where
  "survives w file old effect d =
     (stored w file d = Inr old \<or> (is_ok effect \<and> stored w file d = effect))"

section \<open>Every operation keeps one of them\<close>

abbreviation holds :: "vault_world \<Rightarrow> string \<Rightarrow> vault_record list \<Rightarrow> disk \<Rightarrow> bool" where
  "holds w file rs d \<equiv> stored w file d = Inr rs"

lemma triple_discard: "triple P I m (\<lambda>_. Q) E \<Longrightarrow> triple P I (discard m) (\<lambda>_. Q) E"
  unfolding discard_def by (rule triple_bind) (auto intro: triple_return)

lemma triple_read_then:
  assumes "triple (\<lambda>d. holds w file old d \<and> settled file d) I (f old) Q E"
    "\<And>d. holds w file old d \<Longrightarrow> I d" "\<And>e d. holds w file old d \<Longrightarrow> E e d"
  shows "triple (holds w file old) I (io_bind (readDocument w file) f) Q E"
proof (rule triple_bind)
  show "triple (holds w file old) I (readDocument w file)
      (\<lambda>rs d. rs = old \<and> holds w file old d \<and> settled file d) E"
    by (rule triple_consequence [OF triple_read_document [OF refl, where w = w and rs = old]])
      (simp_all add: assms(2,3))
  fix rs
  show "triple (\<lambda>d. rs = old \<and> holds w file old d \<and> settled file d) I (f rs) Q E"
    by (cases "rs = old") (simp_all add: assms(1), simp add: triple_def)
qed

lemma triple_write:
  assumes "json_law w new" "effect = Inr new"
  shows "triple (\<lambda>d. holds w file old d \<and> settled file d) (survives w file old effect) (writeDocument w file token new)
    (\<lambda>_ d. stored w file d = effect) (\<lambda>_. survives w file old effect)"
  by (rule triple_consequence [OF triple_write_document [OF assms(1), where old = old]])
    (auto simp: either_def survives_def assms(2))

lemma triple_checked:
  assumes "\<And>x. checks = Inr x \<Longrightarrow> triple P I (f x) Q E" "\<And>d e. P d \<Longrightarrow> E e d"
  shows "triple P I (io_bind (io_lift checks) f) Q E"
proof (cases checks)
  case (Inl e)
  then have "triple P I (io_lift checks) (\<lambda>_ _. False) E" by (intro triple_lift) (simp_all add: assms(2))
  then show ?thesis by (rule triple_bind) (simp add: triple_def)
next
  case (Inr x)
  then have "triple P I (io_lift checks) (\<lambda>y d. y = x \<and> P d) E" by (intro triple_lift) simp_all
  then show ?thesis
  proof (rule triple_bind)
    fix y
    show "triple (\<lambda>d. y = x \<and> P d) I (f y) Q E" using assms(1) [OF Inr] by (cases "y = x") (simp_all add: triple_def)
  qed
qed

lemma triple_change:
  assumes "\<And>new. effect = Inr new \<Longrightarrow> json_law w new" "effect = change old"
  shows "triple (holds w file old) (survives w file old effect)
    (io_bind (readDocument w file) (\<lambda>rs. io_bind (io_lift (change rs)) (\<lambda>new.
       io_bind (writeDocument w file token new) (\<lambda>_. io_return (out new)))))
    (\<lambda>_ d. stored w file d = effect) (\<lambda>_. survives w file old effect)"
proof (rule triple_read_then)
  show "triple (\<lambda>d. holds w file old d \<and> settled file d) (survives w file old effect)
      (io_bind (io_lift (change old)) (\<lambda>new. io_bind (writeDocument w file token new) (\<lambda>_. io_return (out new))))
      (\<lambda>_ d. stored w file d = effect) (\<lambda>_. survives w file old effect)"
  proof (rule triple_checked)
    fix new
    assume "change old = Inr new"
    with assms have "json_law w new" "effect = Inr new" by simp_all
    then show "triple (\<lambda>d. holds w file old d \<and> settled file d) (survives w file old effect)
        (io_bind (writeDocument w file token new) (\<lambda>_. io_return (out new)))
        (\<lambda>_ d. stored w file d = effect) (\<lambda>_. survives w file old effect)"
      by (intro triple_bind [OF triple_write]) (auto intro: triple_return)
  qed (simp add: survives_def)
qed (simp_all add: survives_def)

lemma triple_program:
  assumes "\<And>new. vault_effect w v now op old = Inr new \<Longrightarrow> json_law w new"
  shows "triple (holds w file old) (survives w file old (vault_effect w v now op old)) (vault_program w v file token now op)
    (\<lambda>_ d. stored w file d = vault_effect w v now op old) (\<lambda>_. survives w file old (vault_effect w v now op old))"
proof -
  have clear: "triple (holds w file old) (survives w file old (Inr (clear_provider p old)))
      (clear_records w v file token now remote p) (\<lambda>_ d. stored w file d = Inr (clear_provider p old))
      (\<lambda>_. survives w file old (Inr (clear_provider p old)))" if "json_law w (clear_provider p old)" for p remote
    unfolding clear_records_def
  proof (rule triple_read_then)
    let ?I = "survives w file old (Inr (clear_provider p old))"
    have "triple (\<lambda>d. holds w file old d \<and> settled file d) ?I
        (if filter (\<lambda>r. vr_provider r = p) old \<noteq> [] then writeDocument w file token (clear_provider p old) else io_return ())
        (\<lambda>_ d. stored w file d = Inr (clear_provider p old)) (\<lambda>_. ?I)"
      using triple_write [OF that refl] by (auto intro!: triple_return simp: clear_provider_def filter_empty_conv)
    then show "triple (\<lambda>d. holds w file old d \<and> settled file d) ?I
      (let records = filter (\<lambda>r. vr_provider r = p) old; remaining = clear_provider p old in
       io_bind (if records \<noteq> [] then writeDocument w file token remaining else io_return ()) (\<lambda>_.
       io_return \<lparr>ar_provider = p, ar_cleared = length records, ar_remote = remote records,
         ar_snapshot = vault_snapshot_of w v now (availabilityFailure w) (if records \<noteq> [] then remaining else old)\<rparr>))
      (\<lambda>_ d. stored w file d = Inr (clear_provider p old)) (\<lambda>_. ?I)"
      unfolding Let_def by (rule triple_bind) (rule triple_return)
  qed (simp_all add: survives_def)
  show ?thesis
  proof (cases op)
    case (SaveInitial p a m)
    with assms show ?thesis
      by (auto simp: saveInitial_def survives_def intro!: triple_discard triple_checked triple_change)
  next
    case (Rotate p a m)
    with assms show ?thesis
      by (auto simp: rotate_tokens_def survives_def intro!: triple_discard triple_checked triple_change)
  next
    case (ForgetAccount p a)
    have same: "forget_record p a old = old" if "length (forget_record p a old) = length old"
      using that by (simp add: forget_record_def) (metis filter_id_conv length_filter_less linorder_not_less order_refl)
    from ForgetAccount assms triple_write [of w "forget_record p a old"] show ?thesis
      by (auto simp: forgetAccount_def Let_def survives_def same intro!: triple_checked triple_read_then triple_return)
  next
    case (ReadAccount p a)
    then show ?thesis
      by (auto simp: read_account_def survives_def intro!: triple_discard triple_checked triple_read_then triple_lift)
  next
    case (ClearProvider p)
    with assms clear show ?thesis by (auto simp: clear_vault_def intro!: triple_discard)
  next
    case (RevokeProvider revoke p)
    with assms clear show ?thesis by (auto simp: revokeAndClear_def intro!: triple_discard)
  next
    case Status
    have "triple (holds w file old) (survives w file old (Inr old)) (vault_status w v file now)
        (\<lambda>_ d. stored w file d = Inr old) (\<lambda>_. survives w file old (Inr old))"
      unfolding vault_status_def
      by (rule triple_catch [OF triple_read_then [where E = "\<lambda>_. holds w file old"]])
        (auto intro: triple_return simp: survives_def)
    with Status show ?thesis by (auto intro!: triple_discard)
  qed
qed

section \<open>Crashes and failing calls\<close>

text \<open>C8: whatever calls fail and wherever the process stops, the disk holds the old document or the new
  one: after every file system call, after an error, and after success it is the new one exactly.\<close>

theorem vault_survives_crashes:
  assumes "stored w file d = Inr old" "honest faults"
    and "\<And>new. vault_effect w v now op old = Inr new \<Longrightarrow> json_law w new"
    and "io_run (vault_program w v file token now op) faults d = (r, d', trail)"
  shows "list_all (survives w file old (vault_effect w v now op old)) trail
    \<and> (if is_ok r then stored w file d' = vault_effect w v now op old
       else survives w file old (vault_effect w v now op old) d')"
  using triple_run [OF triple_program [OF assms(3)] assms(1,2,4)] by (cases r) simp_all

section \<open>Saved tokens are read back\<close>

definition tokens_of :: "token_material \<Rightarrow> vault_record \<Rightarrow> account_tokens" where
  "tokens_of m r = \<lparr>at_access = tm_access m, at_refresh = tm_refresh m, at_expires = vr_expires r, at_scopes = tm_scopes m\<rparr>"

text \<open>The platform decrypts what it encrypted.\<close>

definition encryption_law :: "vault_world \<Rightarrow> string \<Rightarrow> bool" where
  "encryption_law w t = (case vw_encrypt w t of None \<Rightarrow> True | Some c \<Rightarrow> vw_decrypt w c = Some t)"

lemma find_append: "find P (xs @ ys) = (case find P xs of None \<Rightarrow> find P ys | Some x \<Rightarrow> Some x)"
  by (induction xs) auto

lemma read_after_add:
  assumes "add_record w now p a m seconds rs = Inr new" "save_checks w v p a m = Inr seconds"
    and "encryption_law w (tm_access m)" "encryption_law w (tm_refresh m)" "document_ok w new"
  shows "read_tokens w p a new = Inr (Some (tokens_of m (last new)))"
proof -
  obtain access refresh expires stamp where parts: "protect w (tm_access m) = Inr access" "protect w (tm_refresh m) = Inr refresh"
    "\<not> has_record p a rs" "new = rs @ [\<lparr>vr_provider = p, vr_account = a, vr_access = access, vr_refresh = refresh,
       vr_expires = expires, vr_scopes = tm_scopes m, vr_generation = 1, vr_created = stamp, vr_updated = stamp\<rparr>]"
    using assms(1) by (auto simp: add_record_def split: if_splits sum.splits)
  have "isPlainBoundedText (tm_access m) TOKEN_LIMIT" "isPlainBoundedText (tm_refresh m) TOKEN_LIMIT"
    using assms(2) by (auto simp: save_checks_def validateMaterial_def validateTokenText_def split: sum.splits if_splits)
  moreover have "length access \<le> CIPHERTEXT_LIMIT" "length refresh \<le> CIPHERTEXT_LIMIT"
    using assms(5) by (auto simp: parts(4) document_ok_def record_ok_def ciphertext_ok_def)
  ultimately have "unprotect w access = Inr (tm_access m)" "unprotect w refresh = Inr (tm_refresh m)"
    using parts(1,2) assms(3,4) by (auto intro!: protect_unprotect(1) simp: encryption_law_def)
  moreover have "find (\<lambda>r. vr_provider r = p \<and> vr_account r = a) rs = None"
    unfolding find_None_iff using parts(3) by (auto simp: has_record_def list_ex_iff)
  then have "find_record p a new = Some (last new)" by (simp add: parts(4) find_record_def find_append)
  ultimately show ?thesis by (simp add: read_tokens_def tokens_of_def parts(4))
qed

lemma stored_document_ok: "stored w file d = Inr rs \<Longrightarrow> document_ok w rs"
  by (auto simp: stored_def vault_content_def parse_text_def document_ok_def [of w "[]"]
      split: option.splits file_entry.splits if_splits dest: parse_document_ok)

lemma free_temporary_name: "\<exists>token. map_of d (temporary_name file token) = None"
proof (rule ccontr)
  assume "\<not> ?thesis"
  then have "range (temporary_name file) \<subseteq> fst ` set d" by (auto simp: map_of_eq_None_iff)
  then have "finite (range (temporary_name file))" by (rule finite_subset) simp
  moreover have "inj (temporary_name file)" by (auto intro: injI simp: temporary_name_def)
  ultimately show False by (metis finite_imageD infinite_UNIV_listI)
qed

lemma read_stored:
  assumes "stored w file d = Inr rs" "read_checks w a = Inr u" "read_tokens w p a rs = Inr t"
  shows "fst (io_run (read_account w file p a) [] d) = Inr t"
proof -
  obtain token where "map_of d (temporary_name file token) = None" using free_temporary_name by blast
  with assms(1) have at: "stored w file d = Inr rs \<and> map_of d (temporary_name file token) = None" by simp
  have "ends (\<lambda>d. stored w file d = Inr rs \<and> map_of d (temporary_name file token) = None)
      (io_bind (readDocument w file) (\<lambda>rs. io_lift (read_tokens w p a rs))) (\<lambda>r _. r = Inr t)"
  proof (rule ends_well_bind [OF ends_read_document [OF refl]])
    fix rs'
    show "ends (\<lambda>d. rs' = rs \<and> ready w file (temporary_name file token) rs d) (io_lift (read_tokens w p a rs')) (\<lambda>r _. r = Inr t)"
      by (cases "rs' = rs") (simp_all add: assms(3) io_lift_def ends_return, simp add: ends_def)
  qed
  from ends_run [OF this at] show ?thesis
    using assms(2) by (simp add: read_account_def io_lift_def io_run_def io_bind_def io_return_def split: prod.splits)
qed

lemma save_then_read:
  assumes "vault_effect w v now (SaveInitial p a m) old = Inr new" "stored w file d' = Inr new"
    and "encryption_law w (tm_access m)" "encryption_law w (tm_refresh m)"
  shows "fst (io_run (read_account w file p a) [] d') = Inr (Some (tokens_of m (last new)))"
proof (rule read_stored [OF assms(2), where u = "()"])
  from assms(1) obtain seconds where seconds: "save_checks w v p a m = Inr seconds" "add_record w now p a m seconds old = Inr new"
    by (auto split: sum.splits)
  then show "read_checks w a = Inr ()"
    by (auto simp: save_checks_def read_checks_def requireProtection_def split: sum.splits if_splits)
  show "read_tokens w p a new = Inr (Some (tokens_of m (last new)))"
    using seconds assms(3,4) stored_document_ok [OF assms(2)] by (intro read_after_add)
qed

text \<open>C9: after a save that returned, whatever failed on the way, reading the account gives the tokens.\<close>

theorem saved_tokens_are_read_back:
  assumes "stored w file d = Inr old" "honest faults" "vault_effect w v now (SaveInitial p a m) old = Inr new"
    and "json_law w new" "encryption_law w (tm_access m)" "encryption_law w (tm_refresh m)"
    and "io_run (saveInitial w v file token now p a m) faults d = (Inr snapshot, d', trail)"
  shows "fst (io_run (read_account w file p a) [] d') = Inr (Some (tokens_of m (last new)))"
proof -
  have "io_run (vault_program w v file token now (SaveInitial p a m)) faults d = (Inr (), d', trail)"
    using assms(7) by (auto simp: io_run_def discard_def io_bind_def io_return_def split: prod.splits sum.splits)
  from triple_run(2) [OF triple_program assms(1,2) this] assms(3,4) have "stored w file d' = Inr new" by simp
  from save_then_read [OF assms(3) this assms(5,6)] show ?thesis .
qed

text \<open>C10: without faults a save whose document is within the limits returns, and what it saved is read.\<close>

theorem saving_succeeds:
  assumes "stored w file d = Inr old" "map_of d (temporary_name file token) = None"
    and "vault_effect w v now (SaveInitial p a m) old = Inr new" "json_law w new" "document_ok w new"
    and "byte_length (vw_stringify w (document_json new) @ [CHR 10]) \<le> VAULT_FILE_LIMIT"
    and "encryption_law w (tm_access m)" "encryption_law w (tm_refresh m)"
    and "io_run (saveInitial w v file token now p a m) [] d = (r, d', trail)"
  shows "is_ok r \<and> fst (io_run (read_account w file p a) [] d') = Inr (Some (tokens_of m (last new)))"
proof -
  let ?T = "temporary_name file token" and ?P = "\<lambda>d. stored w file d = Inr old \<and> map_of d (temporary_name file token) = None"
  obtain seconds where seconds: "save_checks w v p a m = Inr seconds" "add_record w now p a m seconds old = Inr new"
    using assms(3) by (auto split: sum.splits)
  let ?save = "\<lambda>new. io_bind (writeDocument w file token new) (\<lambda>_. io_return (vault_snapshot_of w v now None new))"
  have writing: "ends (ready w file ?T old) (?save new) (well (\<lambda>_ _. True))"
    by (rule ends_well_bind [OF ends_write_document [OF assms(4-6)]]) (simp add: ends_return)
  have change: "ends (ready w file ?T old) (io_bind (io_lift (add_record w now p a m seconds old)) ?save) (well (\<lambda>_ _. True))"
    using writing unfolding seconds(2) by (simp add: io_lift_def ends_def io_bind_def io_return_def)
  have "ends ?P (io_bind (readDocument w file) (\<lambda>rs. io_bind (io_lift (add_record w now p a m seconds rs)) ?save)) (well (\<lambda>_ _. True))"
  proof (rule ends_well_bind [OF ends_read_document [OF refl]])
    fix rs
    show "ends (\<lambda>d. rs = old \<and> ready w file ?T old d) (io_bind (io_lift (add_record w now p a m seconds rs)) ?save) (well (\<lambda>_ _. True))"
      using change by (cases "rs = old") (simp_all add: ends_def)
  qed
  then have "ends ?P (saveInitial w v file token now p a m) (well (\<lambda>_ _. True))"
    unfolding saveInitial_def seconds(1) by (simp add: io_lift_def ends_def io_bind_def io_return_def)
  from ends_run [OF this, of d] assms(1,2,9) obtain snapshot where r: "r = Inr snapshot"
    by (cases r) simp_all
  then have "io_run (vault_program w v file token now (SaveInitial p a m)) [] d = (Inr (), d', trail)"
    using assms(9) by (auto simp: io_run_def discard_def io_bind_def io_return_def split: prod.splits sum.splits)
  from triple_run(2) [OF triple_program assms(1) _ this] assms(3,4) have "stored w file d' = Inr new" by (simp add: honest_def)
  from save_then_read [OF assms(3) this assms(7,8)] r show ?thesis by simp
qed

section \<open>Files that cannot be read\<close>

lemma triple_candidate_corrupt:
  assumes "\<And>d. P d \<Longrightarrow> \<exists>e x. map_of d a = Some e \<and> vault_content w e = Inl x"
  shows "triple P P (readCandidate w a) (\<lambda>_ _. False) (\<lambda>e d. P d \<and> e \<noteq> Code ''ENOENT'')"
  by (rule triple_consequence [OF triple_candidate [of P]]) (use assms in fastforce)+

lemma triple_read_corrupt:
  assumes "\<And>d. P d \<Longrightarrow> \<exists>e x. map_of d file = Some e \<and> vault_content w e = Inl x"
  shows "triple P P (readDocument w file) (\<lambda>_ _. False) (\<lambda>_. P)"
  unfolding readDocument_def
proof (rule triple_bind)
  show "triple P P (fs_other :: (vault_error, unit) io) (\<lambda>_. P) (\<lambda>_. P)" by (rule triple_other)
  show "triple P P (io_catch (io_bind (readCandidate w file) (\<lambda>rs. io_bind (cleanupDebris file) (\<lambda>_. io_return rs)))
     (unless_missing (io_catch
         (io_bind (readCandidate w (previous_name file)) (\<lambda>rs.
          io_bind (fs_rename (previous_name file) file) (\<lambda>_.
          io_bind syncDirectory (\<lambda>_. io_bind (cleanupDebris file) (\<lambda>_. io_return rs)))))
         (unless_missing (io_bind (cleanupDebris file) (\<lambda>_. io_return [])))))) (\<lambda>_ _. False) (\<lambda>_. P)"
  proof (rule triple_catch)
    show "triple P P (io_bind (readCandidate w file) (\<lambda>rs. io_bind (cleanupDebris file) (\<lambda>_. io_return rs)))
        (\<lambda>_ _. False) (\<lambda>e d. P d \<and> e \<noteq> Code ''ENOENT'')"
      by (rule triple_bind [OF triple_candidate_corrupt [OF assms]]) (auto simp: triple_def)
    fix e :: "vault_error io_error"
    show "triple (\<lambda>d. P d \<and> e \<noteq> Code ''ENOENT'') P (unless_missing m e) (\<lambda>_ _. False) (\<lambda>_. P)" for m
      by (rule triple_unless_missing [where R = "\<lambda>e d. P d \<and> e \<noteq> Code ''ENOENT''"]) (simp_all add: triple_def)
  qed
qed

lemma triple_corrupt:
  assumes "\<And>d. P d \<Longrightarrow> \<exists>e x. map_of d file = Some e \<and> vault_content w e = Inl x" "op \<noteq> Status"
  shows "triple P P (vault_program w v file token now op) (\<lambda>_ _. False) (\<lambda>_. P)"
proof -
  have read: "triple P P (io_bind (readDocument w file) f) (\<lambda>_ _. False) (\<lambda>_. P)" for f :: "vault_record list \<Rightarrow> (vault_error, 'a) io"
    by (rule triple_bind [OF triple_read_corrupt [OF assms(1)]]) (simp_all add: triple_def)
  show ?thesis
    using assms(2)
    by (cases op)
      (auto simp: saveInitial_def rotate_tokens_def read_account_def forgetAccount_def clear_vault_def revokeAndClear_def
        clear_records_def Let_def intro!: triple_discard triple_checked read)
qed

text \<open>C12: a vault file that is not a document, or too large, or no regular file, makes every operation
  fail except the status, and no operation touches the disk: nothing is overwritten or cleaned up.\<close>

theorem corrupt_vault_is_left_alone:
  assumes "map_of d file = Some e" "vault_content w e = Inl x" "honest faults" "op \<noteq> Status"
    and "io_run (vault_program w v file token now op) faults d = (r, d', trail)"
  shows "\<not> is_ok r \<and> d' = d \<and> list_all (\<lambda>t. t = d) trail"
proof -
  have "triple (\<lambda>t. t = d) (\<lambda>t. t = d) (vault_program w v file token now op) (\<lambda>_ _. False) (\<lambda>_ t. t = d)"
    using assms(1,2,4) by (intro triple_corrupt) auto
  from triple_run [OF this refl assms(3,5)] show ?thesis by (cases r) simp_all
qed

section \<open>What is read\<close>

definition tokens_ok :: "vault_world \<Rightarrow> account_tokens \<Rightarrow> bool" where
  "tokens_ok w t =
     (isPlainBoundedText (at_access t) TOKEN_LIMIT \<and> isPlainBoundedText (at_refresh t) TOKEN_LIMIT
      \<and> timestamp_ok w (at_expires t) \<and> scopes_ok (at_scopes t))"

lemma unprotect_plain: "unprotect w c = Inr t \<Longrightarrow> isPlainBoundedText t TOKEN_LIMIT"
  by (auto simp: unprotect_def validateTokenText_def split: if_splits option.splits)

lemma read_tokens_ok:
  assumes "document_ok w rs" "read_tokens w p a rs = Inr (Some t)"
  shows "tokens_ok w t"
proof -
  obtain r access refresh where r: "find_record p a rs = Some r" "unprotect w (vr_access r) = Inr access"
    "unprotect w (vr_refresh r) = Inr refresh" "t = \<lparr>at_access = access, at_refresh = refresh, at_expires = vr_expires r, at_scopes = vr_scopes r\<rparr>"
    using assms(2) by (auto simp: read_tokens_def split: option.splits sum.splits)
  have "r \<in> set rs" using r(1) by (auto simp: find_record_def find_Some_iff)
  with assms(1) have "record_ok w r" by (auto simp: document_ok_def list_all_iff)
  with r(2-4) unprotect_plain show ?thesis by (auto simp: tokens_ok_def record_ok_def)
qed

text \<open>C11: whatever is on the disk and whatever calls fail, tokens that are read are well formed: bounded
  texts without control characters, a readable expiry, and one to fifty distinct scopes.\<close>

theorem tokens_read_are_well_formed:
  "case fst (io_run (read_account w file p a) faults d) of Inr (Some t) \<Rightarrow> tokens_ok w t | _ \<Rightarrow> True"
proof -
  have "gives (read_account w file p a) (\<lambda>t. case t of None \<Rightarrow> True | Some t \<Rightarrow> tokens_ok w t)"
    unfolding read_account_def
    by (intro gives_bind [OF gives_any, where m = "io_lift _"] gives_bind [OF gives_document] gives_lift)
      (auto split: option.splits dest: read_tokens_ok)
  from gives_run [OF this] show ?thesis
    by (cases "io_run (read_account w file p a) faults d") (fastforce split: sum.splits option.splits)
qed

section \<open>An example\<close>

text \<open>A platform that encrypts the texts \<open>a\<close> and \<open>r\<close>, and a \<open>JSON\<close> that knows one document.\<close>

definition example_record :: vault_record where
  "example_record = \<lparr>vr_provider = Google, vr_account = ''me'', vr_access = ''AQ=='', vr_refresh = ''Ag=='', vr_expires = ''U'',
     vr_scopes = [''mail''], vr_generation = 1, vr_created = ''T'', vr_updated = ''T''\<rparr>"

definition example_world :: vault_world where
  "example_world = \<lparr>vw_url = (\<lambda>_. None), vw_date = (\<lambda>t. if t = ''T'' then Some 0 else if t = ''U'' then Some 3600000 else None),
     vw_iso = (\<lambda>n. if n = 0 then ''T'' else ''U''), vw_collate = codeunit_cmp, vw_windows = True, vw_available = Some True,
     vw_encrypt = (\<lambda>t. Some (if t = ''a'' then [1] else [2])), vw_decrypt = (\<lambda>b. Some (if b = [1] then ''a'' else ''r'')),
     vw_stringify = (\<lambda>_. ''D''), vw_parse = (\<lambda>t. if t = [CHR ''D'', CHR 10] then Some (document_json [example_record]) else None)\<rparr>"

definition example_vault :: token_vault where
  "example_vault = \<lparr>tv_registrations = [(Google, \<lparr>rg_provider = Google, rg_client = ''c'', rg_token_endpoint = ''t'',
     rg_revocation_endpoint = None\<rparr>)], tv_revokers = []\<rparr>"

definition example_material :: token_material where
  "example_material = \<lparr>tm_access = ''a'', tm_refresh = ''r'', tm_seconds = 3600, tm_scopes = [''mail'']\<rparr>"

lemmas example_defs = example_world_def example_vault_def example_material_def

lemma example_base64: "base64 [1] = ''AQ=='' \<and> base64 [2] = ''Ag==''"
  by code_simp

lemma example_effect:
  "vault_effect example_world example_vault 0 (SaveInitial Google ''me'' example_material) [] = Inr [example_record]"
  by (simp add: example_defs example_record_def save_checks_def requireAccountKey_def isPlainBoundedText_def requireRegistration_def
    requireProtection_def availabilityFailure_def validateMaterial_def validateTokenText_def validateTokenLifetime_def
    validateScopes_def scopes_ok_def add_record_def has_record_def timestamp_def protect_def expiry_def
    ACCOUNT_KEY_LIMIT_def TOKEN_LIMIT_def TOKEN_LIFETIME_MAX_SECONDS_def SCOPE_LIMIT_def SCOPE_TEXT_LIMIT_def VAULT_RECORD_LIMIT_def
    CIPHERTEXT_LIMIT_def is_control_def is_space_def code_def example_base64 del: base64.simps)

lemma example_document: "document_ok example_world [example_record]"
  using base64_ciphertext [of "[1]"] base64_ciphertext [of "[2]"]
  by (simp add: document_ok_def record_ok_def example_defs example_record_def timestamp_ok_def isPlainBoundedText_def
    scopes_ok_def ACCOUNT_KEY_LIMIT_def SCOPE_LIMIT_def SCOPE_TEXT_LIMIT_def VAULT_RECORD_LIMIT_def CIPHERTEXT_LIMIT_def
    is_control_def is_space_def code_def max_safe_integer_def example_base64 del: base64.simps)

lemma example_json: "json_law example_world [example_record]"
  by (simp add: json_law_def example_defs)

lemmas io_defs = io_run_def io_bind_def io_lift_def io_return_def io_throw_def io_catch_def io_ignore_def io_finally_def io_call_def
  fs_rename_def fs_remove_def fs_create_def fs_write_def fs_stat_def fs_read_def fs_names_def fs_other_def rename_file_def

lemma example_checks: "save_checks example_world example_vault Google ''me'' example_material = Inr 3600"
  by (simp add: example_defs save_checks_def requireAccountKey_def isPlainBoundedText_def requireRegistration_def
    requireProtection_def availabilityFailure_def validateMaterial_def validateTokenText_def validateTokenLifetime_def
    validateScopes_def scopes_ok_def ACCOUNT_KEY_LIMIT_def TOKEN_LIMIT_def TOKEN_LIFETIME_MAX_SECONDS_def SCOPE_LIMIT_def
    SCOPE_TEXT_LIMIT_def is_control_def is_space_def code_def)

lemma example_added: "add_record example_world 0 Google ''me'' example_material 3600 [] = Inr [example_record]"
  using example_effect by (simp add: example_checks)

lemma example_texts:
  "vw_stringify example_world j = ''D''" "encryption_law example_world ''a''" "encryption_law example_world ''r''"
  "tm_access example_material = ''a''" "tm_refresh example_material = ''r''"
  by (simp_all add: example_defs encryption_law_def)

lemma example_small: "byte_length ([CHR ''D''] @ [CHR 10]) \<le> VAULT_FILE_LIMIT"
  by (simp add: VAULT_FILE_LIMIT_def byte_length_Cons code_def)

lemma example_parsed: "parse_text example_world [CHR ''D'', CHR 10] = Inr [example_record]"
  using parse_document_back [OF example_document] example_small by (simp add: parse_text_def) (simp add: example_defs)

lemma example_stored: "stored w ''v'' [] = Inr []"
  by (simp add: stored_def)

text \<open>The directory cannot be opened for the sync, which is tolerated.\<close>

definition example_faults :: "fault option list" where
  "example_faults = [None, None, None, None, None, None, None, None, None, Some (''EPERM'', 0)]"

lemma example_honest: "honest example_faults"
  by (simp add: honest_def example_faults_def)

lemma example_run:
  "\<exists>snapshot d' trail. io_run (saveInitial example_world example_vault ''v'' ''1'' 0 Google ''me'' example_material)
     example_faults [] = (Inr snapshot, d', trail)"
  using parse_document_back [OF example_document] unfolding example_faults_def
  by (simp add: saveInitial_def io_defs example_checks example_added example_texts(1) example_parsed Let_def readDocument_def
    writeDocument_def write_temporary_def move_into_place_def syncDirectory_def readCandidate_def unless_missing_def
    cleanupDebris_def VAULT_FILE_LIMIT_def byte_length_Cons code_def temporary_name_def previous_name_def
    sync_tolerated_def)

lemma vault_survives_crashes_witness:
  "case io_run (vault_program example_world example_vault ''v'' ''1'' 0 (SaveInitial Google ''me'' example_material)) example_faults [] of
     (r, d', trail) \<Rightarrow> list_all (survives example_world ''v'' [] (Inr [example_record])) trail
       \<and> (if is_ok r then stored example_world ''v'' d' = Inr [example_record]
          else survives example_world ''v'' [] (Inr [example_record]) d')"
  using vault_survives_crashes [OF example_stored example_honest, of example_world example_vault 0
      "SaveInitial Google ''me'' example_material", unfolded example_effect] example_json
  by (auto split: prod.splits)

lemma saved_tokens_are_read_back_witness:
  "fst (io_run (read_account example_world ''v'' Google ''me'') []
     (fst (snd (io_run (saveInitial example_world example_vault ''v'' ''1'' 0 Google ''me'' example_material) example_faults []))))
   = Inr (Some \<lparr>at_access = ''a'', at_refresh = ''r'', at_expires = ''U'', at_scopes = [''mail'']\<rparr>)"
proof -
  obtain snapshot d' trail where run: "io_run (saveInitial example_world example_vault ''v'' ''1'' 0 Google ''me'' example_material)
     example_faults [] = (Inr snapshot, d', trail)" using example_run by blast
  from saved_tokens_are_read_back [OF example_stored example_honest example_effect example_json _ _ run] run show ?thesis
    by (simp add: example_texts) (simp add: tokens_of_def example_record_def example_material_def)
qed

lemma saving_succeeds_witness:
  "is_ok (fst (io_run (saveInitial example_world example_vault ''v'' ''1'' 0 Google ''me'' example_material) [] []))"
proof -
  obtain r d' trail where run: "io_run (saveInitial example_world example_vault ''v'' ''1'' 0 Google ''me'' example_material) [] [] = (r, d', trail)"
    by (rule prod_cases3)
  from saving_succeeds [OF example_stored _ example_effect example_json example_document _ _ _ run] run example_small show ?thesis
    by (simp add: example_texts)
qed

lemma corrupt_vault_is_left_alone_witness:
  "case io_run (vault_program example_world example_vault ''v'' ''1'' 0 (ClearProvider Google)) [None, Some (''EBUSY'', 0)] [(''v'', Regular ''x'')] of
     (r, d', trail) \<Rightarrow> \<not> is_ok r \<and> d' = [(''v'', Regular ''x'')]"
proof -
  have bad: "vault_content example_world (Regular ''x'') = Inl StorageFailed"
    by (simp add: vault_content_def parse_text_def example_defs)
  have fault: "honest [None, Some (''EBUSY'', 0)]" by (simp add: honest_def)
  obtain r d' trail where run: "io_run (vault_program example_world example_vault ''v'' ''1'' 0 (ClearProvider Google))
     [None, Some (''EBUSY'', 0)] [(''v'', Regular ''x'')] = (r, d', trail)" by (rule prod_cases3)
  from corrupt_vault_is_left_alone [OF _ bad fault _ run] show ?thesis unfolding run by simp
qed

end
