(* ===== verification/External_Links.thy ===== *)
theory External_Links
  imports Encodings Regex_Lang State_Tables
begin

text \<open>
  Links that leave the application: the risk assessment (\<open>src/shared/external-link-safety.ts\<close>) and
  the queue of links waiting for the user's confirmation (\<open>src/main/external-link-review.ts\<close>). The
  URL parser is the argument \<open>url\<close>; the clock and the request ids are arguments of each call. The
  bidirectional controls of the pattern lie above the modelled code units, so that on them it is the
  test for control characters.
\<close>

section \<open>Assessment\<close>

datatype link_risk = OrdinaryLink | CautionLink | DangerousLink

datatype link_reason =
  HttpLink | LinkCredentials | IpLiteral | NonDefaultPort | Punycode | BidiControl | VisibleHostMismatch | Malformed

record link_assessment =
  la_url :: string
  la_host :: string
  la_risk :: link_risk
  la_reasons :: "link_reason list"

definition controls :: "string \<Rightarrow> bool" where
  "controls raw = list_ex is_control raw"

text \<open>\<open>/^\[?[0-9a-f:.]+\]?$/iu\<close>.\<close>

definition IP_LITERAL :: rx where
  "IP_LITERAL = rx_seq [rx_opt (rx_char (CHR ''['')),
     rx_plus (Cls (\<lambda>c. is_hex_lower (lower_char c) \<or> c = CHR '':'' \<or> c = CHR ''.'')), rx_opt (rx_char (CHR '']''))]"

definition visible_mismatch :: "web_url_parser \<Rightarrow> string \<Rightarrow> string \<Rightarrow> bool" where
  "visible_mismatch url host visible =
     (case url (if contains visible ''://'' then visible else ''https://'' @ visible) of
        None \<Rightarrow> False
      | Some v \<Rightarrow> url_hostname v \<noteq> [] \<and> lower (url_hostname v) \<noteq> lower host)"

definition link_reasons :: "web_url_parser \<Rightarrow> string \<Rightarrow> string option \<Rightarrow> web_url \<Rightarrow> link_reason list" where
  "link_reasons url raw visible u =
     (if wu_protocol u = ''http:'' then [HttpLink] else []) @
     (if url_username u \<noteq> [] \<or> url_password u \<noteq> [] then [LinkCredentials] else []) @
     (if rx_match IP_LITERAL (url_hostname u) then [IpLiteral] else []) @
     (if (wu_protocol u = ''https:'' \<and> url_port u \<noteq> [] \<and> url_port u \<noteq> ''443'')
         \<or> (wu_protocol u = ''http:'' \<and> url_port u \<noteq> [] \<and> url_port u \<noteq> ''80'') then [NonDefaultPort] else []) @
     (if contains (url_hostname u) ''xn--'' then [Punycode] else []) @
     (if controls raw then [BidiControl] else []) @
     (case visible of None \<Rightarrow> []
      | Some t \<Rightarrow> if t \<noteq> [] \<and> visible_mismatch url (url_hostname u) t then [VisibleHostMismatch] else [])"

definition malformed_link :: link_assessment where
  "malformed_link = \<lparr>la_url = [], la_host = [], la_risk = DangerousLink, la_reasons = [Malformed]\<rparr>"

definition assessExternalLink :: "web_url_parser \<Rightarrow> string \<Rightarrow> string option \<Rightarrow> link_assessment" where
  "assessExternalLink url raw visible =
     (case url raw of None \<Rightarrow> malformed_link
      | Some u \<Rightarrow>
        if wu_protocol u \<noteq> ''http:'' \<and> wu_protocol u \<noteq> ''https:'' then malformed_link
        else (let reasons = link_reasons url raw visible u in
          \<lparr>la_url = wu_href u, la_host = url_hostname u,
           la_risk = (if list_ex (\<lambda>r. r = LinkCredentials \<or> r = BidiControl) reasons then DangerousLink
                      else if reasons \<noteq> [] then CautionLink else OrdinaryLink),
           la_reasons = reasons\<rparr>))"

section \<open>The review queue\<close>

definition EXTERNAL_LINK_REVIEW_TTL_MS :: int where "EXTERNAL_LINK_REVIEW_TTL_MS = 60000"
definition MAX_PENDING_EXTERNAL_LINK_REVIEWS :: int where "MAX_PENDING_EXTERNAL_LINK_REVIEWS = 32"

record pending_review =
  pr_url :: string
  pr_expires :: int

record review_request =
  rr_id :: string
  rr_assessment :: link_assessment
  rr_expires :: int

text \<open>The queue; the last field is the log of the links handed out for opening.\<close>

record review_queue =
  rq_pending :: "(string, pending_review) entries"
  rq_ttl :: int
  rq_max :: int
  rq_confirmed :: "(string \<times> string \<times> int \<times> int) list"

definition create_queue :: "int option \<Rightarrow> int option \<Rightarrow> review_queue option" where
  "create_queue ttl max_pending =
     (let t = case_option EXTERNAL_LINK_REVIEW_TTL_MS id ttl;
          m = case_option MAX_PENDING_EXTERNAL_LINK_REVIEWS id max_pending
      in if t \<le> 0 \<or> m \<le> 0 then None
         else Some \<lparr>rq_pending = [], rq_ttl = t, rq_max = m, rq_confirmed = []\<rparr>)"

definition pruneExpired :: "int \<Rightarrow> (string, pending_review) entries \<Rightarrow> (string, pending_review) entries" where
  "pruneExpired now ps = filter (\<lambda>(_, p). now < pr_expires p) ps"

text \<open>The loop that drops the oldest review while the queue is full.\<close>

fun drop_oldest :: "int \<Rightarrow> (string, pending_review) entries \<Rightarrow> (string, pending_review) entries" where
  "drop_oldest max_pending [] = []"
| "drop_oldest max_pending ((i, p) # ps) =
     (if int (length ((i, p) # ps)) \<ge> max_pending
      then if i = [] then (i, p) # ps else drop_oldest max_pending ps
      else (i, p) # ps)"

text \<open>\<open>#validatedAssessment\<close> with the default assessor.\<close>

definition validatedAssessment :: "web_url_parser \<Rightarrow> string \<Rightarrow> link_assessment option" where
  "validatedAssessment url raw =
     (let a = assessExternalLink url raw None in
      if la_url a = [] then None
      else case url (la_url a) of None \<Rightarrow> None
      | Some u \<Rightarrow> if wu_protocol u \<noteq> ''http:'' \<and> wu_protocol u \<noteq> ''https:'' then None
                   else Some (a\<lparr>la_url := wu_href u, la_host := url_hostname u\<rparr>))"

datatype review_error = IdCollision | MissingRequest | ExpiredRequest | ProtocolNotAllowed

text \<open>Every operation gives the answer, or the error thrown, and the queue after it.\<close>

definition create_review ::
  "web_url_parser \<Rightarrow> int \<Rightarrow> string \<Rightarrow> string \<Rightarrow> review_queue
   \<Rightarrow> (review_error, review_request option) result \<times> review_queue" where
  "create_review url now new_id raw q =
     (case validatedAssessment url raw of None \<Rightarrow> (Inr None, q)
      | Some a \<Rightarrow>
        (let kept = drop_oldest (rq_max q) (pruneExpired now (rq_pending q)); q1 = q\<lparr>rq_pending := kept\<rparr> in
         if map_of kept new_id \<noteq> None then (Inl IdCollision, q1)
         else (let expires = now + rq_ttl q in
           (Inr (Some \<lparr>rr_id = new_id, rr_assessment = a, rr_expires = expires\<rparr>),
            q1\<lparr>rq_pending := AList.update new_id \<lparr>pr_url = la_url a, pr_expires = expires\<rparr> kept\<rparr>))))"

definition takeForConfirmation ::
  "web_url_parser \<Rightarrow> int \<Rightarrow> string \<Rightarrow> review_queue \<Rightarrow> (review_error, string) result \<times> review_queue" where
  "takeForConfirmation url now i q =
     (case map_of (rq_pending q) i of None \<Rightarrow> (Inl MissingRequest, q)
      | Some p \<Rightarrow>
        (let q1 = q\<lparr>rq_pending := AList.delete i (rq_pending q)\<rparr> in
         if pr_expires p \<le> now then (Inl ExpiredRequest, q1)
         else case validatedAssessment url (pr_url p) of
           None \<Rightarrow> (Inl ProtocolNotAllowed, q1)
         | Some a \<Rightarrow> (Inr (la_url a), q1\<lparr>rq_confirmed := rq_confirmed q @ [(i, la_url a, now, pr_expires p)]\<rparr>)))"

definition cancel_review :: "int \<Rightarrow> string \<Rightarrow> review_queue \<Rightarrow> bool \<times> review_queue" where
  "cancel_review now i q =
     (case map_of (rq_pending q) i of None \<Rightarrow> (False, q)
      | Some p \<Rightarrow> (now < pr_expires p, q\<lparr>rq_pending := AList.delete i (rq_pending q)\<rparr>))"

definition clear_reviews :: "review_queue \<Rightarrow> review_queue" where
  "clear_reviews q = q\<lparr>rq_pending := []\<rparr>"

datatype review_operation =
  CreateReview int string string | TakeReview int string | CancelReview int string | ClearReviews

fun review_step :: "web_url_parser \<Rightarrow> review_operation \<Rightarrow> review_queue \<Rightarrow> review_queue" where
  "review_step url (CreateReview now i raw) q = snd (create_review url now i raw q)"
| "review_step url (TakeReview now i) q = snd (takeForConfirmation url now i q)"
| "review_step url (CancelReview now i) q = snd (cancel_review now i q)"
| "review_step url ClearReviews q = clear_reviews q"

definition review_run :: "web_url_parser \<Rightarrow> review_operation list \<Rightarrow> review_queue \<Rightarrow> review_queue" where
  "review_run url ops q = foldl (\<lambda>q op. review_step url op q) q ops"

fun created_id :: "review_operation \<Rightarrow> string list" where
  "created_id (CreateReview _ i _) = [i]"
| "created_id _ = []"

section \<open>Lemmas\<close>

definition web_link :: "web_url_parser \<Rightarrow> string \<Rightarrow> bool" where
  "web_link url link = (\<exists>t u. url t = Some u \<and> wu_href u = link \<and> (wu_protocol u = ''http:'' \<or> wu_protocol u = ''https:''))"

lemma validated_web_link: "validatedAssessment url raw = Some a \<Longrightarrow> web_link url (la_url a)"
  by (auto simp: validatedAssessment_def Let_def web_link_def split: if_splits option.splits) blast+

lemma drop_oldest_suffix: "\<exists>n. drop_oldest m ps = drop n ps"
proof (induction m ps rule: drop_oldest.induct)
  case (2 m i p ps)
  show ?case
  proof (cases "int (length ((i, p) # ps)) \<ge> m \<and> i \<noteq> []")
    case True
    with 2 obtain n where "drop_oldest m ps = drop n ps" by auto
    with True show ?thesis by (intro exI [of _ "Suc n"]) simp
  next
    case False
    then show ?thesis by (intro exI [of _ 0]) auto
  qed
qed simp

lemma drop_oldest_length:
  "0 < m \<Longrightarrow> [] \<notin> set (keys_of ps) \<Longrightarrow> int (length (drop_oldest m ps)) < m"
  by (induction m ps rule: drop_oldest.induct) auto

text \<open>What holds of a queue whose reviews so far had the ids in \<open>used\<close>.\<close>

definition queue_ok :: "web_url_parser \<Rightarrow> string set \<Rightarrow> review_queue \<Rightarrow> bool" where
  "queue_ok url used q =
     (0 < rq_max q \<and> int (length (rq_pending q)) \<le> rq_max q \<and> [] \<notin> used \<and>
      distinct (keys_of (rq_pending q)) \<and> set (keys_of (rq_pending q)) \<subseteq> used \<and>
      distinct (map fst (rq_confirmed q)) \<and> set (map fst (rq_confirmed q)) \<subseteq> used \<and>
      set (keys_of (rq_pending q)) \<inter> set (map fst (rq_confirmed q)) = {} \<and>
      list_all (\<lambda>(i, link, now, expires). now < expires \<and> web_link url link) (rq_confirmed q))"

lemma queue_ok_pending:
  assumes "queue_ok url used q" "distinct (keys_of ps)" "set (keys_of ps) \<subseteq> set (keys_of (rq_pending q))"
    and "length ps \<le> length (rq_pending q)"
  shows "queue_ok url used (q\<lparr>rq_pending := ps\<rparr>)"
proof -
  have "set (keys_of ps) \<inter> set (map fst (rq_confirmed q)) = {}" "set (keys_of ps) \<subseteq> used"
    using assms(1,3) unfolding queue_ok_def by blast+
  with assms show ?thesis unfolding queue_ok_def by (simp del: set_map)
qed

lemma keys_delete: "set (keys_of (AList.delete i ps)) = set (keys_of ps) - {i}"
  by (induction ps) auto

lemma keys_update: "set (keys_of (AList.update i v ps)) = insert i (set (keys_of ps))"
  by (induction ps) auto

lemma delete_review_ok:
  assumes "queue_ok url used q"
  shows "queue_ok url used (q\<lparr>rq_pending := AList.delete i (rq_pending q)\<rparr>)"
proof (rule queue_ok_pending [OF assms])
  show "distinct (keys_of (AList.delete i (rq_pending q)))" using assms by (auto simp: queue_ok_def)
  show "set (keys_of (AList.delete i (rq_pending q))) \<subseteq> set (keys_of (rq_pending q))"
    unfolding keys_delete by blast
qed (rule length_delete_le)

lemma take_ok:
  assumes ok: "queue_ok url used q"
  shows "queue_ok url used (snd (takeForConfirmation url now i q))"
proof (cases "map_of (rq_pending q) i")
  case None
  with ok show ?thesis by (simp add: takeForConfirmation_def)
next
  case (Some p)
  then have mem: "i \<in> set (keys_of (rq_pending q))" by (force dest: map_of_SomeD)
  have del: "queue_ok url used (q\<lparr>rq_pending := AList.delete i (rq_pending q)\<rparr>)"
    by (rule delete_review_ok [OF ok])
  show ?thesis
  proof (cases "pr_expires p \<le> now \<or> validatedAssessment url (pr_url p) = None")
    case True
    with del Some show ?thesis by (auto simp: takeForConfirmation_def Let_def)
  next
    case False
    then obtain a where a: "validatedAssessment url (pr_url p) = Some a" "now < pr_expires p" by auto
    have "queue_ok url used (q\<lparr>rq_pending := AList.delete i (rq_pending q),
        rq_confirmed := rq_confirmed q @ [(i, la_url a, now, pr_expires p)]\<rparr>)"
      using del ok mem a validated_web_link [OF a(1)] unfolding queue_ok_def
      by (simp add: keys_delete del: set_map) (auto simp: keys_delete)
    then show ?thesis using Some a by (simp add: takeForConfirmation_def Let_def)
  qed
qed

lemma cancel_review_ok: "queue_ok url used q \<Longrightarrow> queue_ok url used (snd (cancel_review now i q))"
  by (auto simp: cancel_review_def delete_review_ok split: option.split)

lemma create_review_ok:
  assumes ok: "queue_ok url used q" and new: "i \<notin> used" "i \<noteq> []"
  shows "queue_ok url (insert i used) (snd (create_review url now i raw q))"
proof (cases "validatedAssessment url raw")
  case None
  with ok new show ?thesis by (auto simp: create_review_def queue_ok_def)
next
  case (Some a)
  define kept where "kept = drop_oldest (rq_max q) (pruneExpired now (rq_pending q))"
  obtain n where n: "kept = drop n (pruneExpired now (rq_pending q))" using drop_oldest_suffix kept_def by metis
  have keys: "set (keys_of kept) \<subseteq> set (keys_of (rq_pending q))"
    by (auto simp: n pruneExpired_def dest!: in_set_dropD)
  have dist: "distinct (keys_of kept)"
    unfolding n pruneExpired_def using ok by (intro distinct_keys_drop distinct_keys_filter) (simp add: queue_ok_def)
  have "[] \<notin> set (keys_of (pruneExpired now (rq_pending q)))"
    using ok by (auto simp: queue_ok_def pruneExpired_def)
  then have room: "int (length kept) < rq_max q"
    using ok drop_oldest_length unfolding kept_def by (simp add: queue_ok_def)
  have fresh: "map_of kept i = None" using keys new ok by (auto simp: queue_ok_def map_of_eq_None_iff)
  have "length (AList.update i v kept) \<le> Suc (length kept)" for v by (rule length_update_le)
  then have "int (length (AList.update i v kept)) \<le> rq_max q" for v
    using room by (smt (verit) of_nat_Suc of_nat_le_iff)
  moreover have "distinct (keys_of (AList.update i v kept))" for v using dist by auto
  moreover have "set (keys_of kept) \<subseteq> used" "set (keys_of kept) \<inter> set (map fst (rq_confirmed q)) = {}"
    using ok keys unfolding queue_ok_def by blast+
  moreover have "i \<notin> set (map fst (rq_confirmed q))" using ok new unfolding queue_ok_def by blast
  ultimately show ?thesis
    using ok new Some fresh
    by (simp add: create_review_def Let_def kept_def [symmetric] queue_ok_def keys_update del: set_map)
      blast
qed

lemma run_queue_ok:
  "queue_ok url used q \<Longrightarrow> distinct (concat (map created_id ops)) \<Longrightarrow>
   set (concat (map created_id ops)) \<inter> used = {} \<Longrightarrow> [] \<notin> set (concat (map created_id ops)) \<Longrightarrow>
   queue_ok url (used \<union> set (concat (map created_id ops))) (review_run url ops q)"
proof (induction ops arbitrary: q used)
  case (Cons op ops)
  let ?C = "set (created_id op)" and ?R = "set (concat (map created_id ops))"
  have now: "queue_ok url (used \<union> ?C) (review_step url op q)"
  proof (cases op)
    case (CreateReview t i raw)
    with Cons.prems(3,4) have "i \<notin> used" "i \<noteq> []" by auto
    with create_review_ok [OF Cons.prems(1)] CreateReview show ?thesis by simp
  next
    case ClearReviews
    with queue_ok_pending [OF Cons.prems(1), of "[]"] show ?thesis by (simp add: clear_reviews_def)
  qed (simp_all add: take_ok cancel_review_ok Cons.prems(1))
  have "?R \<inter> (used \<union> ?C) = {}" using Cons.prems(2,3) by auto
  from Cons.IH [OF now _ this] Cons.prems(2,4) show ?case
    by (simp add: review_run_def Un_assoc)
qed (simp add: review_run_def)

section \<open>Properties\<close>

lemma created_queue_ok: "create_queue ttl m = Some q \<Longrightarrow> queue_ok url {} q"
  by (auto simp: create_queue_def Let_def queue_ok_def split: if_splits)

text \<open>Parsing the serialization of a parsed URL gives that serialization again, as the URL standard has it.\<close>

definition href_stable :: "web_url_parser \<Rightarrow> bool" where
  "href_stable url = (\<forall>t u. url t = Some u \<longrightarrow> (\<exists>v. url (wu_href u) = Some v \<and> wu_href v = wu_href u))"

lemma assessed_url: "la_url (assessExternalLink url raw visible) \<noteq> [] \<Longrightarrow>
    \<exists>u. url raw = Some u \<and> la_url (assessExternalLink url raw visible) = wu_href u"
  by (auto simp: assessExternalLink_def malformed_link_def Let_def split: option.splits if_splits)

lemma validated_twice:
  assumes "href_stable url" "validatedAssessment url raw = Some a" "validatedAssessment url (la_url a) = Some b"
  shows "la_url b = la_url a"
proof -
  have "\<exists>t u. url t = Some u \<and> la_url a = wu_href u"
    using assms(2) by (force simp: validatedAssessment_def Let_def split: if_splits option.splits)
  then obtain t u where u: "url t = Some u" "la_url a = wu_href u" by blast
  then obtain v where v: "url (la_url a) = Some v" "wu_href v = la_url a" using assms(1) by (auto simp: href_stable_def)
  have "la_url (assessExternalLink url (la_url a) None) \<noteq> []"
    using assms(3) by (auto simp: validatedAssessment_def Let_def split: if_splits)
  from assessed_url [OF this] v have "la_url (assessExternalLink url (la_url a) None) = la_url a" by auto
  with assms(3) v show ?thesis by (auto simp: validatedAssessment_def Let_def split: if_splits)
qed

text \<open>The request \<open>i\<close> was reviewed with this link as the address and this time of expiry.\<close>

definition reviewed :: "web_url_parser \<Rightarrow> int \<Rightarrow> review_operation list \<Rightarrow> string \<Rightarrow> string \<Rightarrow> int \<Rightarrow> bool" where
  "reviewed url ttl ops i link expires =
     (\<exists>t raw a. CreateReview t i raw \<in> set ops \<and> validatedAssessment url raw = Some a \<and> la_url a = link \<and> expires = t + ttl)"

definition traced :: "web_url_parser \<Rightarrow> review_operation list \<Rightarrow> review_queue \<Rightarrow> bool" where
  "traced url ops q =
     ((\<forall>(i, p) \<in> set (rq_pending q). reviewed url (rq_ttl q) ops i (pr_url p) (pr_expires p))
      \<and> (\<forall>(i, link, now, expires) \<in> set (rq_confirmed q). reviewed url (rq_ttl q) ops i link expires))"

lemma reviewed_later: "reviewed url ttl ops i link expires \<Longrightarrow> reviewed url ttl (ops @ later) i link expires"
  by (auto simp: reviewed_def)

lemma traced_pending:
  assumes "traced url ops q" "set ps \<subseteq> set (rq_pending q)"
  shows "traced url (ops @ later) (q\<lparr>rq_pending := ps\<rparr>)"
  using assms by (fastforce simp: traced_def intro: reviewed_later)

lemma traced_later: "traced url ops q \<Longrightarrow> traced url (ops @ later) q"
  using traced_pending [of url ops q "rq_pending q" later] by simp

lemma created_traced:
  assumes "traced url ops q"
  shows "traced url (ops @ [CreateReview now i raw]) (snd (create_review url now i raw q))"
proof (cases "validatedAssessment url raw")
  case None
  with assms show ?thesis by (simp add: create_review_def traced_later)
next
  case (Some a)
  define kept where "kept = drop_oldest (rq_max q) (pruneExpired now (rq_pending q))"
  obtain n where "kept = drop n (pruneExpired now (rq_pending q))" using drop_oldest_suffix kept_def by metis
  then have "set kept \<subseteq> set (rq_pending q)" by (auto simp: pruneExpired_def dest!: in_set_dropD)
  from traced_pending [OF assms this] have
    kept: "traced url (ops @ [CreateReview now i raw]) (q\<lparr>rq_pending := kept\<rparr>)" .
  have new: "reviewed url (rq_ttl q) (ops @ [CreateReview now i raw]) i (la_url a) (now + rq_ttl q)"
    unfolding reviewed_def using Some by auto
  have "e = (i, v) \<or> e \<in> set kept" if "e \<in> set (AList.update i v kept)" for e v
    using that by (induction kept) (auto split: if_splits)
  with kept new Some show ?thesis
    by (auto simp: create_review_def Let_def kept_def [symmetric] traced_def) fastforce+
qed

lemma taken_traced:
  assumes "href_stable url" "traced url ops q"
  shows "traced url (ops @ [op]) (snd (takeForConfirmation url now i q))"
proof (cases "map_of (rq_pending q) i")
  case None
  with assms(2) show ?thesis by (simp add: takeForConfirmation_def traced_later)
next
  case (Some p)
  have del: "traced url (ops @ [op]) (q\<lparr>rq_pending := AList.delete i (rq_pending q)\<rparr>)"
    by (rule traced_pending [OF assms(2)]) (auto simp: AList.delete_eq)
  have mem: "(i, p) \<in> set (rq_pending q)" using Some by (rule map_of_SomeD)
  then have shown: "reviewed url (rq_ttl q) ops i (pr_url p) (pr_expires p)" using assms(2) by (auto simp: traced_def)
  show ?thesis
  proof (cases "pr_expires p \<le> now \<or> validatedAssessment url (pr_url p) = None")
    case True
    with del Some show ?thesis by (auto simp: takeForConfirmation_def Let_def)
  next
    case False
    then obtain b where b: "validatedAssessment url (pr_url p) = Some b" "\<not> pr_expires p \<le> now" by auto
    from shown obtain raw a where "validatedAssessment url raw = Some a" "la_url a = pr_url p"
      by (auto simp: reviewed_def)
    with validated_twice [OF assms(1)] b(1) have "la_url b = pr_url p" by metis
    with shown have "reviewed url (rq_ttl q) (ops @ [op]) i (la_url b) (pr_expires p)" by (simp add: reviewed_later)
    with del Some b show ?thesis by (simp add: takeForConfirmation_def Let_def traced_def)
  qed
qed

lemma step_traced: "href_stable url \<Longrightarrow> traced url ops q \<Longrightarrow> traced url (ops @ [op]) (review_step url op q)"
proof (cases op)
  case (CancelReview now i)
  assume "traced url ops q"
  from traced_pending [OF this, of "AList.delete i (rq_pending q)"] traced_later [OF this] CancelReview show ?thesis
    by (auto simp: cancel_review_def AList.delete_eq split: option.split)
next
  case ClearReviews
  assume "traced url ops q"
  from traced_pending [OF this, of "[]"] ClearReviews show ?thesis by (simp add: clear_reviews_def)
qed (simp_all add: created_traced taken_traced)

lemma run_traced: "href_stable url \<Longrightarrow> traced url done_ops q \<Longrightarrow> traced url (done_ops @ ops) (review_run url ops q)"
proof (induction ops arbitrary: done_ops q)
  case (Cons op ops)
  from Cons.IH [OF Cons.prems(1) step_traced [OF Cons.prems]] show ?case by (simp add: review_run_def)
qed (simp add: review_run_def)

lemma step_ttl: "rq_ttl (review_step url op q) = rq_ttl q"
  by (cases op) (auto simp: create_review_def takeForConfirmation_def cancel_review_def clear_reviews_def Let_def
    split: option.split)

lemma run_ttl: "rq_ttl (review_run url ops q) = rq_ttl q"
  by (induction ops arbitrary: q) (simp_all add: review_run_def step_ttl)

text \<open>C30: Whatever the sequence of reviews, cancellations and confirmations, with request ids that are
  not empty and do not repeat, and a URL parser that reads its own serializations back: the queue never
  exceeds its capacity, a request is confirmed at most once and not both confirmed and pending, always
  before it expires, and the link that is opened for it is the address that the review of this very
  request gave, the normalized form of an HTTP or HTTPS address.\<close>
theorem links_are_confirmed_once:
  assumes "href_stable url" and "create_queue ttl m = Some q0"
    and "distinct (concat (map created_id ops))" and "[] \<notin> set (concat (map created_id ops))"
    and "q = review_run url ops q0"
  shows "int (length (rq_pending q)) \<le> rq_max q
    \<and> distinct (map fst (rq_confirmed q))
    \<and> set (map fst (rq_pending q)) \<inter> set (map fst (rq_confirmed q)) = {}
    \<and> list_all (\<lambda>(i, link, now, expires). now < expires \<and> web_link url link
         \<and> reviewed url (rq_ttl q0) ops i link expires) (rq_confirmed q)"
proof -
  have "traced url [] q0" using assms(2) by (auto simp: create_queue_def Let_def traced_def split: if_splits)
  from run_traced [OF assms(1) this, of ops] have "traced url ops q" "rq_ttl q = rq_ttl q0"
    by (simp_all add: assms(5) run_ttl)
  with run_queue_ok [OF created_queue_ok [OF assms(2)] assms(3), of url] assms(4,5) show ?thesis
    by (fastforce simp: queue_ok_def traced_def list_all_iff simp del: set_map)
qed

definition one_link :: web_url_parser where
  "one_link t = (if t = ''http://h/'' then Some (simple_url ''http'' ''h'' ''/'' []) else None)"

definition two_takes :: "review_operation list" where
  "two_takes = [CreateReview 0 ''r'' ''http://h/'', TakeReview 5 ''r'', TakeReview 6 ''r'']"

theorem links_are_confirmed_once_witness:
  "case create_queue None None of None \<Rightarrow> False
   | Some q0 \<Rightarrow> map fst (rq_confirmed (review_run one_link two_takes q0)) = [''r'']
       \<and> distinct (map fst (rq_confirmed (review_run one_link two_takes q0)))"
proof -
  have v: "\<exists>a. validatedAssessment one_link ''http://h/'' = Some a \<and> la_url a = ''http://h/''"
    by (simp add: validatedAssessment_def assessExternalLink_def one_link_def simple_url_def Let_def)
  have run: "case create_queue None None of None \<Rightarrow> False
    | Some q0 \<Rightarrow> map fst (rq_confirmed (review_run one_link two_takes q0)) = [''r'']"
    using v by (auto simp: create_queue_def Let_def review_run_def two_takes_def create_review_def takeForConfirmation_def
        pruneExpired_def EXTERNAL_LINK_REVIEW_TTL_MS_def MAX_PENDING_EXTERNAL_LINK_REVIEWS_def)
  then obtain q0 where q0: "create_queue None None = Some q0" by (auto split: option.splits)
  have "href_stable one_link" by (simp add: href_stable_def one_link_def simple_url_def)
  from links_are_confirmed_once [OF this q0 _ _ refl, of two_takes] run show ?thesis
    by (simp add: q0 two_takes_def)
qed

text \<open>An assessment is ordinary exactly for a web address without any reason for caution, and a link
  with credentials or control characters is never less than dangerous.\<close>
theorem ordinary_links_have_no_reason:
  "(la_risk (assessExternalLink url raw visible) = OrdinaryLink \<longleftrightarrow>
      (\<exists>u. url raw = Some u \<and> (wu_protocol u = ''https:'') \<and> link_reasons url raw visible u = []))
   \<and> (la_risk (assessExternalLink url raw visible) = DangerousLink \<longleftrightarrow>
      (case url raw of None \<Rightarrow> True
       | Some u \<Rightarrow> wu_protocol u \<notin> {''http:'', ''https:''} \<or> url_username u @ url_password u \<noteq> [] \<or> controls raw))"
proof (cases "url raw")
  case (Some u)
  have cred: "list_ex (\<lambda>r. r = LinkCredentials \<or> r = BidiControl) (link_reasons url raw visible u) \<longleftrightarrow>
      url_username u @ url_password u \<noteq> [] \<or> controls raw"
    by (auto simp: link_reasons_def split: option.splits)
  have http: "wu_protocol u = ''http:'' \<Longrightarrow> link_reasons url raw visible u \<noteq> []"
    by (simp add: link_reasons_def)
  show ?thesis using http cred
    by (auto simp: assessExternalLink_def Some Let_def malformed_link_def)
qed (simp add: assessExternalLink_def malformed_link_def)

end
