(* ===== verification/Identities.thy ===== *)
theory Identities
  imports Mail_Data Regex_Lang
begin

text \<open>
  The identities a mail account sends from: \<open>src/shared/identities.ts\<close> up to the reply selection,
  \<open>src/main/identity-store.ts\<close>, and the repair of the stored list (\<open>identityListSchema\<close> in
  \<open>src/main/persisted-state.ts\<close>). The invariant \<open>identities_ok\<close> says that identifiers are unique
  and that every account with identities has exactly one default.
\<close>

section \<open>Data\<close>

definition IDENTITY_LIMIT_PER_ACCOUNT :: nat where "IDENTITY_LIMIT_PER_ACCOUNT = 20"
definition IDENTITY_NAME_LIMIT :: nat where "IDENTITY_NAME_LIMIT = 120"
definition IDENTITY_SIGNATURE_LIMIT :: nat where "IDENTITY_SIGNATURE_LIMIT = 8192"
definition IDENTITY_ORGANIZATION_LIMIT :: nat where "IDENTITY_ORGANIZATION_LIMIT = 200"

datatype signature_placement = BelowBody | BelowQuote

record mail_identity =
  idn_id :: string
  idn_account :: string
  idn_name :: string
  idn_email :: string
  idn_reply_to :: string
  idn_organization :: string
  idn_signature :: string
  idn_placement :: signature_placement
  idn_default :: bool
  idn_ordinal :: int

record identity_input =
  in_id :: "string option"
  in_account :: string
  in_name :: string
  in_email :: string
  in_reply_to :: "string option"
  in_organization :: "string option"
  in_signature :: "string option"
  in_placement :: "signature_placement option"
  in_default :: "bool option"

datatype identity_error =
  IDENTITY_NAME_REQUIRED | IDENTITY_EMAIL_INVALID | IDENTITY_REPLY_TO_INVALID
| IDENTITY_LIMIT_REACHED | IDENTITY_NOT_FOUND | IDENTITY_LAST_DEFAULT

section \<open>Addresses and text\<close>

definition address_char :: "char \<Rightarrow> bool" where
  "address_char c = (\<not> is_space c \<and> c \<notin> set ''@<>,;'')"

definition domain_char :: "char \<Rightarrow> bool" where
  "domain_char c = (address_char c \<and> c \<noteq> CHR ''.'')"

definition ADDRESS_PATTERN :: rx where
  "ADDRESS_PATTERN =
     rx_seq [rx_plus (Cls address_char), rx_char (CHR ''@''), rx_plus (Cls domain_char),
             rx_plus (Seq (rx_char (CHR ''.'')) (rx_plus (Cls domain_char)))]"

definition isMailAddress :: "string \<Rightarrow> bool" where
  "isMailAddress value =
     (let candidate = trim value
      in length candidate > 0 \<and> length candidate \<le> 320 \<and> rx_match ADDRESS_PATTERN candidate)"

definition identity_control :: "char \<Rightarrow> bool" where
  "identity_control c = (code c \<le> 8 \<or> (11 \<le> code c \<and> code c \<le> 31) \<or> code c = 127)"

definition normalizeIdentityText :: "js_runtime \<Rightarrow> string \<Rightarrow> nat \<Rightarrow> string" where
  "normalizeIdentityText rt value limit =
     trim (take limit (filter (\<lambda>c. \<not> identity_control c) (unix_lines (nfkc rt value))))"

text \<open>\<open>replace(/\s*\n\s*/gu, " ")\<close>: a run of white space that contains a newline is one space.\<close>

function fold_newlines :: "string \<Rightarrow> string" where
  "fold_newlines [] = []"
| "fold_newlines (c # s) =
     (if is_space c
      then let run = c # takeWhile is_space s
           in (if CHR 10 \<in> set run then '' '' else run) @ fold_newlines (dropWhile is_space s)
      else c # fold_newlines s)"
  by pat_completeness auto
termination
  by (relation "measure length") (auto simp: le_imp_less_Suc length_dropWhile_le)

definition normalizeIdentityLine :: "js_runtime \<Rightarrow> string \<Rightarrow> nat \<Rightarrow> string" where
  "normalizeIdentityLine rt value limit =
     trim (take limit (fold_newlines (normalizeIdentityText rt value limit)))"

section \<open>Lists of identities\<close>

definition identity_comparison :: "js_runtime \<Rightarrow> mail_identity comparison" where
  "identity_comparison rt =
     cmp_chain (cmp_flip (cmp_on (\<lambda>i. if idn_default i then 1 else 0) int_cmp))
       (cmp_chain (cmp_on idn_ordinal int_cmp)
         (cmp_chain (cmp_on idn_name (collate rt)) (cmp_on idn_id (collate rt))))"

definition sortIdentities :: "js_runtime \<Rightarrow> mail_identity list \<Rightarrow> mail_identity list" where
  "sortIdentities rt ids = js_sort (identity_comparison rt) ids"

definition identitiesForAccount :: "js_runtime \<Rightarrow> mail_identity list \<Rightarrow> string \<Rightarrow> mail_identity list" where
  "identitiesForAccount rt ids account = sortIdentities rt (filter (\<lambda>i. idn_account i = account) ids)"

definition first_of :: "'a list \<Rightarrow> 'a option" where
  "first_of xs = (case xs of [] \<Rightarrow> None | x # _ \<Rightarrow> Some x)"

definition defaultIdentityFor :: "js_runtime \<Rightarrow> mail_identity list \<Rightarrow> string \<Rightarrow> mail_identity option" where
  "defaultIdentityFor rt ids account = first_of (identitiesForAccount rt ids account)"

definition trimmed_or_empty :: "string option \<Rightarrow> string" where
  "trimmed_or_empty v = (case v of None \<Rightarrow> [] | Some s \<Rightarrow> trim s)"

definition given :: "string option \<Rightarrow> string" where
  "given v = (case v of None \<Rightarrow> [] | Some s \<Rightarrow> s)"

definition validateIdentityInput :: "js_runtime \<Rightarrow> identity_input \<Rightarrow> (identity_error, unit) result" where
  "validateIdentityInput rt input =
     (if normalizeIdentityLine rt (in_name input) IDENTITY_NAME_LIMIT = [] then Inl IDENTITY_NAME_REQUIRED
      else if \<not> isMailAddress (in_email input) then Inl IDENTITY_EMAIL_INVALID
      else let replyTo = trimmed_or_empty (in_reply_to input)
           in if replyTo \<noteq> [] \<and> \<not> isMailAddress replyTo then Inl IDENTITY_REPLY_TO_INVALID else Inr ())"

definition with_id :: "mail_identity list \<Rightarrow> string \<Rightarrow> mail_identity option" where
  "with_id ids i = List.find (\<lambda>x. idn_id x = i) ids"

definition current_identity :: "mail_identity list \<Rightarrow> identity_input \<Rightarrow> mail_identity option" where
  "current_identity existing input = (if given (in_id input) = [] then None else with_id existing (given (in_id input)))"

definition promote :: "string \<Rightarrow> mail_identity list \<Rightarrow> mail_identity list" where
  "promote i ids = map (\<lambda>x. if idn_id x = i then x\<lparr>idn_default := True\<rparr> else x) ids"

definition demote :: "string \<Rightarrow> mail_identity list \<Rightarrow> mail_identity list" where
  "demote account ids = map (\<lambda>x. if idn_account x = account then x\<lparr>idn_default := False\<rparr> else x) ids"

definition new_identity ::
  "js_runtime \<Rightarrow> mail_identity list \<Rightarrow> identity_input \<Rightarrow> string \<Rightarrow> mail_identity" where
  "new_identity rt existing input newId =
     (let forAccount = identitiesForAccount rt existing (in_account input);
          current = current_identity existing input;
          isDefault = (case in_default input of Some b \<Rightarrow> b
                       | None \<Rightarrow> (case current of Some c \<Rightarrow> idn_default c | None \<Rightarrow> forAccount = []))
      in \<lparr>idn_id = (case current of Some c \<Rightarrow> idn_id c | None \<Rightarrow> newId),
          idn_account = in_account input,
          idn_name = normalizeIdentityLine rt (in_name input) IDENTITY_NAME_LIMIT,
          idn_email = trim (in_email input),
          idn_reply_to = trimmed_or_empty (in_reply_to input),
          idn_organization = normalizeIdentityLine rt (given (in_organization input)) IDENTITY_ORGANIZATION_LIMIT,
          idn_signature = normalizeIdentityText rt (given (in_signature input)) IDENTITY_SIGNATURE_LIMIT,
          idn_placement = (case in_placement input of Some p \<Rightarrow> p
                           | None \<Rightarrow> (case current of Some c \<Rightarrow> idn_placement c | None \<Rightarrow> BelowBody)),
          idn_default = (if forAccount = [] then True else isDefault),
          idn_ordinal = (case current of Some c \<Rightarrow> idn_ordinal c
                         | None \<Rightarrow> foldl max (-1) (map idn_ordinal forAccount) + 1)\<rparr>)"

definition settle_default :: "js_runtime \<Rightarrow> string \<Rightarrow> mail_identity list \<Rightarrow> mail_identity list" where
  "settle_default rt account nxt =
     (let accountIdentities = filter (\<lambda>x. idn_account x = account) nxt
      in if \<not> list_ex idn_default accountIdentities
         then case first_of (sortIdentities rt accountIdentities) of
                Some f \<Rightarrow> promote (idn_id f) nxt | None \<Rightarrow> nxt
         else nxt)"

definition place_identity :: "js_runtime \<Rightarrow> mail_identity list \<Rightarrow> mail_identity \<Rightarrow> mail_identity list" where
  "place_identity rt existing identity =
     (let others = filter (\<lambda>x. idn_id x \<noteq> idn_id identity) existing;
          normalized = (if idn_default identity then demote (idn_account identity) others else others)
      in settle_default rt (idn_account identity) (normalized @ [identity]))"

definition buildIdentity ::
  "js_runtime \<Rightarrow> mail_identity list \<Rightarrow> identity_input \<Rightarrow> string \<Rightarrow> (identity_error, mail_identity list) result" where
  "buildIdentity rt existing input newId =
     (case validateIdentityInput rt input of
        Inl e \<Rightarrow> Inl e
      | Inr _ \<Rightarrow>
        if given (in_id input) \<noteq> [] \<and> current_identity existing input = None then Inl IDENTITY_NOT_FOUND
        else if current_identity existing input = None
             \<and> length (identitiesForAccount rt existing (in_account input)) \<ge> IDENTITY_LIMIT_PER_ACCOUNT
        then Inl IDENTITY_LIMIT_REACHED
        else Inr (place_identity rt existing (new_identity rt existing input newId)))"

definition removeIdentity ::
  "js_runtime \<Rightarrow> mail_identity list \<Rightarrow> string \<Rightarrow> (identity_error, mail_identity list) result" where
  "removeIdentity rt existing i =
     (case with_id existing i of
        None \<Rightarrow> Inl IDENTITY_NOT_FOUND
      | Some identity \<Rightarrow>
        (let remaining = filter (\<lambda>x. idn_id x \<noteq> i) existing;
             siblings = filter (\<lambda>x. idn_account x = idn_account identity) remaining
         in if idn_default identity \<and> siblings = [] then Inl IDENTITY_LAST_DEFAULT
            else if \<not> idn_default identity \<or> siblings = [] then Inr remaining
            else Inr (case first_of (sortIdentities rt siblings) of
                        Some p \<Rightarrow> promote (idn_id p) remaining | None \<Rightarrow> remaining)))"

section \<open>Choosing an identity\<close>

definition address_set :: "address list \<Rightarrow> string set" where
  "address_set as = set (filter (\<lambda>s. s \<noteq> []) (map (\<lambda>a. lower (trim (ad_address a))) as))"

definition identityForReply ::
  "js_runtime \<Rightarrow> mail_identity list \<Rightarrow> string \<Rightarrow> (address list \<times> address list) option \<Rightarrow> mail_identity option" where
  "identityForReply rt ids account msg =
     (let candidates = identitiesForAccount rt ids account
      in if candidates = [] then None
         else case msg of
           None \<Rightarrow> first_of candidates
         | Some (tos, ccs) \<Rightarrow>
             (case List.find (\<lambda>i. lower (idn_email i) \<in> address_set tos) candidates of
                Some i \<Rightarrow> Some i
              | None \<Rightarrow> (case List.find (\<lambda>i. lower (idn_email i) \<in> address_set ccs) candidates of
                           Some i \<Rightarrow> Some i
                         | None \<Rightarrow> defaultIdentityFor rt ids account)))"

definition resolveIdentity ::
  "js_runtime \<Rightarrow> mail_identity list \<Rightarrow> string \<Rightarrow> string option \<Rightarrow> mail_identity option" where
  "resolveIdentity rt ids account identityId =
     (let candidates = identitiesForAccount rt ids account
      in if candidates = [] then None
         else case (if given identityId = [] then None else with_id candidates (given identityId)) of
           Some i \<Rightarrow> Some i
         | None \<Rightarrow> defaultIdentityFor rt ids account)"

definition identitySender :: "mail_identity \<Rightarrow> address" where
  "identitySender i = \<lparr>ad_name = idn_name i, ad_address = idn_email i\<rparr>"

definition identityReplyTo :: "mail_identity \<Rightarrow> address option" where
  "identityReplyTo i =
     (let replyTo = trim (idn_reply_to i)
      in if replyTo = [] \<or> lower replyTo = lower (trim (idn_email i)) then None
         else Some \<lparr>ad_name = idn_name i, ad_address = replyTo\<rparr>)"

section \<open>The store\<close>

definition promoteIdentityToDefault :: "mail_identity list \<Rightarrow> string \<Rightarrow> (identity_error, mail_identity list) result" where
  "promoteIdentityToDefault ids i =
     (case with_id ids i of
        None \<Rightarrow> Inl IDENTITY_NOT_FOUND
      | Some identity \<Rightarrow>
          Inr (map (\<lambda>x. if idn_account x = idn_account identity
                        then x\<lparr>idn_default := idn_id x = i\<rparr> else x) ids))"

definition seedAccountIdentity ::
  "js_runtime \<Rightarrow> mail_identity list \<Rightarrow> string \<Rightarrow> string \<Rightarrow> string \<Rightarrow> string
   \<Rightarrow> (identity_error, mail_identity list) result" where
  "seedAccountIdentity rt ids account displayName email newId =
     (if list_ex (\<lambda>i. idn_account i = account) ids then Inr ids
      else buildIdentity rt ids
        \<lparr>in_id = None, in_account = account,
         in_name = (let n = normalizeIdentityLine rt displayName IDENTITY_NAME_LIMIT in if n \<noteq> [] then n else email),
         in_email = email, in_reply_to = None, in_organization = None, in_signature = None,
         in_placement = None, in_default = Some True\<rparr> newId)"

definition forgetAccountIdentities :: "mail_identity list \<Rightarrow> string \<Rightarrow> mail_identity list" where
  "forgetAccountIdentities ids account = filter (\<lambda>i. idn_account i \<noteq> account) ids"

text \<open>The repair of a stored list: later defaults of an account are demoted, then the first identity
  of an account without a default is promoted.\<close>

fun demote_extra :: "string set \<Rightarrow> mail_identity list \<Rightarrow> mail_identity list" where
  "demote_extra claimed [] = []"
| "demote_extra claimed (i # ids) =
     (if \<not> idn_default i then i # demote_extra claimed ids
      else if idn_account i \<in> claimed then i\<lparr>idn_default := False\<rparr> # demote_extra claimed ids
      else i # demote_extra (insert (idn_account i) claimed) ids)"

fun promote_missing :: "string set \<Rightarrow> mail_identity list \<Rightarrow> mail_identity list" where
  "promote_missing served [] = []"
| "promote_missing served (i # ids) =
     (if idn_account i \<in> served then i # promote_missing served ids
      else i\<lparr>idn_default := True\<rparr> # promote_missing (insert (idn_account i) served) ids)"

definition repair_identities :: "mail_identity list \<Rightarrow> mail_identity list" where
  "repair_identities ids =
     promote_missing (idn_account ` set (filter idn_default ids)) (demote_extra {} ids)"

section \<open>Header values hold no line break\<close>

lemma set_fold_newlines: "set (fold_newlines s) \<subseteq> insert CHR '' '' (set s)"
  by (induction s rule: fold_newlines.induct)
    (auto simp: Let_def split: if_splits dest!: subsetD set_takeWhileD set_dropWhileD)

lemma fold_newlines_no_newline: "CHR 10 \<notin> set (fold_newlines s)"
  by (induction s rule: fold_newlines.induct) (auto simp: Let_def is_space_def code_def)

lemma set_normalizeIdentityText: "c \<in> set (normalizeIdentityText rt v n) \<Longrightarrow> \<not> identity_control c"
  using set_trim unfolding normalizeIdentityText_def by (force dest!: in_set_takeD)

lemma normalizeIdentityLine_safe:
  assumes "c \<in> set (normalizeIdentityLine rt v n)"
  shows "\<not> identity_control c \<and> c \<noteq> CHR 10"
proof -
  have c: "c \<in> set (fold_newlines (normalizeIdentityText rt v n))"
    using assms set_trim unfolding normalizeIdentityLine_def by (force dest!: in_set_takeD)
  then have "c \<noteq> CHR 10" using fold_newlines_no_newline by blast
  moreover from c have "c = CHR '' '' \<or> c \<in> set (normalizeIdentityText rt v n)"
    using set_fold_newlines by blast
  then have "\<not> identity_control c"
    using set_normalizeIdentityText by (auto simp: identity_control_def code_def)
  ultimately show ?thesis by blast
qed

definition domain_label :: rx where
  "domain_label = Seq (rx_char (CHR ''.'')) (rx_plus (Cls domain_char))"

lemma domain_label_lang:
  "u \<in> lang domain_label \<longleftrightarrow> (\<exists>v. u = CHR ''.'' # v \<and> v \<noteq> [] \<and> (\<forall>c \<in> set v. domain_char c))"
  unfolding domain_label_def by (auto simp: rx_char_def plus_class)

lemma address_dot: "address_char (CHR ''.'')"
  by (simp add: address_char_def is_space_def code_def)

lemma domain_char_address: "domain_char c \<Longrightarrow> address_char c"
  by (simp add: domain_char_def)

lemma domain_label_chars:
  assumes "u \<in> lang domain_label"
  shows "\<forall>c \<in> set u. address_char c"
proof -
  obtain v where u: "u = CHR ''.'' # v" and v: "\<forall>c \<in> set v. domain_char c"
    using assms unfolding domain_label_lang by blast
  show ?thesis
    unfolding u set_simps using v address_dot domain_char_address by blast
qed

lemma address_lang:
  assumes "s \<in> lang ADDRESS_PATTERN"
  shows "\<exists>user domain. s = user @ CHR ''@'' # domain \<and> user \<noteq> [] \<and> CHR ''.'' \<in> set domain
    \<and> (\<forall>c \<in> set (user @ domain). address_char c)"
proof -
  obtain user label tail where s: "s = user @ CHR ''@'' # label @ tail"
    and user: "user \<in> lang (rx_plus (Cls address_char))" and label: "label \<in> lang (rx_plus (Cls domain_char))"
    and tail: "tail \<in> lang (rx_plus domain_label)"
    using assms unfolding ADDRESS_PATTERN_def domain_label_def [symmetric] rx_seq.simps seq_lang char_lang
    by fastforce
  from tail obtain u us where u: "u \<in> lang domain_label" "set us \<subseteq> lang domain_label" "tail = u @ concat us"
    unfolding plus_lang lang.simps(6) by blast
  have "\<forall>c \<in> set tail. address_char c"
    unfolding u(3) set_append set_concat using u(1,2) domain_label_chars by blast
  moreover obtain v where "u = CHR ''.'' # v" using u(1) unfolding domain_label_lang by blast
  then have "CHR ''.'' \<in> set tail" unfolding u(3) by simp
  moreover have "user \<noteq> []" "\<forall>c \<in> set user. address_char c" "\<forall>c \<in> set label. address_char c"
    using user label domain_char_address unfolding plus_class by blast+
  ultimately have "s = user @ CHR ''@'' # (label @ tail) \<and> user \<noteq> [] \<and> CHR ''.'' \<in> set (label @ tail)
      \<and> (\<forall>c \<in> set (user @ label @ tail). address_char c)"
    unfolding set_append using s by blast
  then show ?thesis by blast
qed

section \<open>Defaults\<close>

definition defaults_of :: "string \<Rightarrow> mail_identity list \<Rightarrow> mail_identity list" where
  "defaults_of account ids = filter (\<lambda>i. idn_account i = account \<and> idn_default i) ids"

definition account_count :: "string \<Rightarrow> mail_identity list \<Rightarrow> nat" where
  "account_count account ids = length (filter (\<lambda>a. a = account) (map idn_account ids))"

definition identities_ok :: "mail_identity list \<Rightarrow> bool" where
  "identities_ok ids =
     (distinct (map idn_id ids)
      \<and> (\<forall>a \<in> idn_account ` set ids. length (defaults_of a ids) = 1)
      \<and> (\<forall>a \<in> idn_account ` set ids. account_count a ids \<le> IDENTITY_LIMIT_PER_ACCOUNT))"

lemma promote_same [simp]:
  "map idn_id (promote i ids) = map idn_id ids" "map idn_account (promote i ids) = map idn_account ids"
  by (simp_all add: promote_def comp_def cong: map_cong)

lemma demote_same [simp]:
  "map idn_id (demote a ids) = map idn_id ids" "map idn_account (demote a ids) = map idn_account ids"
  by (simp_all add: demote_def comp_def cong: map_cong)

lemma accounts_map: "idn_account ` set ids = set (map idn_account ids)"
  by simp

lemma defaults_demote: "defaults_of b (demote a ids) = (if b = a then [] else defaults_of b ids)"
  by (induction ids) (auto simp: defaults_of_def demote_def)

lemma promote_other: "i \<notin> idn_id ` set ids \<Longrightarrow> promote i ids = ids"
  by (auto simp: promote_def intro!: map_idI)

lemma defaults_promote:
  "distinct (map idn_id ids) \<Longrightarrow> f \<in> set ids \<Longrightarrow> defaults_of (idn_account f) ids = [] \<Longrightarrow>
   defaults_of b (promote (idn_id f) ids) = (if b = idn_account f then [f\<lparr>idn_default := True\<rparr>] else defaults_of b ids)"
proof (induction ids)
  case (Cons i ids)
  show ?case
  proof (cases "i = f")
    case True
    then have rest: "promote (idn_id f) ids = ids"
      using Cons.prems(1) by (intro promote_other) auto
    have "promote (idn_id f) (i # ids) = f\<lparr>idn_default := True\<rparr> # ids"
      using True rest by (simp add: promote_def)
    with Cons.prems(3) True show ?thesis by (auto simp: defaults_of_def split: if_splits)
  next
    case False
    with Cons.prems have "idn_id i \<noteq> idn_id f" "f \<in> set ids" by force+
    with Cons show ?thesis by (auto simp: defaults_of_def promote_def split: if_splits)
  qed
qed simp

lemma first_of_sort: "xs \<noteq> [] \<Longrightarrow> \<exists>f. first_of (js_sort c xs) = Some f \<and> f \<in> set xs"
proof -
  assume "xs \<noteq> []"
  then have "js_sort c xs \<noteq> []" using length_js_sort [of c xs] by (metis length_0_conv)
  then obtain f fs where f: "js_sort c xs = f # fs" by (cases "js_sort c xs") auto
  then have "f \<in> set xs" using set_js_sort [of c xs] by (metis list.set_intros(1))
  with f show ?thesis by (simp add: first_of_def)
qed

lemma first_of_sort_mem: "first_of (js_sort c xs) = Some f \<Longrightarrow> f \<in> set xs"
  using first_of_sort [of xs c] by (cases "xs = []") (auto simp: first_of_def)

lemma with_id_Some: "with_id ids i = Some x \<Longrightarrow> x \<in> set ids \<and> idn_id x = i"
  unfolding with_id_def by (drule find_Some_mem) simp

lemma with_id_None: "with_id ids i = None \<longleftrightarrow> i \<notin> idn_id ` set ids"
  unfolding with_id_def find_None_none by auto

lemma defaults_filter_id:
  "distinct (map idn_id ids) \<Longrightarrow> defaults_of b (filter (\<lambda>x. idn_id x \<noteq> i) ids) = filter (\<lambda>x. idn_id x \<noteq> i) (defaults_of b ids)"
  by (simp add: defaults_of_def conj_ac)

lemma defaults_promote_first:
  assumes "distinct (map idn_id ids)" and "a \<in> idn_account ` set ids" and "defaults_of a ids = []"
    and "first_of (js_sort c (filter (\<lambda>x. idn_account x = a) ids)) = Some f"
  shows "length (defaults_of b (promote (idn_id f) ids)) = (if b = a then 1 else length (defaults_of b ids))"
proof -
  have "filter (\<lambda>x. idn_account x = a) ids \<noteq> []" using assms(2) by (auto simp: filter_empty_conv)
  from first_of_sort [OF this, of c] assms(4) have "f \<in> set ids" "idn_account f = a" by auto
  with defaults_promote [OF assms(1), of f b] assms(3) show ?thesis by simp
qed

lemma sort_first_exists:
  "a \<in> idn_account ` set ids \<Longrightarrow> \<exists>f. first_of (js_sort c (filter (\<lambda>x. idn_account x = a) ids)) = Some f"
  using first_of_sort [of "filter (\<lambda>x. idn_account x = a) ids" c] by (auto simp: filter_empty_conv)

lemma account_count_append [simp]: "account_count a (xs @ ys) = account_count a xs + account_count a ys"
  by (simp add: account_count_def)

lemma account_count_filter_le: "account_count a (filter P ids) \<le> account_count a ids"
  by (induction ids) (auto simp: account_count_def)

lemma account_count_map: "map idn_account ids = map idn_account js \<Longrightarrow> account_count a ids = account_count a js"
  by (simp only: account_count_def)

lemma account_count_remove:
  "distinct (map idn_id ids) \<Longrightarrow> x \<in> set ids \<Longrightarrow>
   account_count a ids = account_count a (filter (\<lambda>y. idn_id y \<noteq> idn_id x) ids) + (if idn_account x = a then 1 else 0)"
proof (induction ids)
  case (Cons i ids)
  show ?case
  proof (cases "i = x")
    case True
    then have "filter (\<lambda>y. idn_id y \<noteq> idn_id x) ids = ids"
      using Cons.prems(1) by (intro filter_True) (force simp: image_iff)
    with True show ?thesis by (simp add: account_count_def)
  next
    case False
    with Cons.prems have "idn_id i \<noteq> idn_id x" "x \<in> set ids" by force+
    with Cons show ?thesis by (simp add: account_count_def)
  qed
qed simp

lemma defaults_of_append [simp]: "defaults_of a (xs @ ys) = defaults_of a xs @ defaults_of a ys"
  by (simp add: defaults_of_def)

lemma defaults_other_account:
  "(\<And>x. x \<in> set ids \<Longrightarrow> idn_id x = i \<Longrightarrow> idn_account x \<noteq> b) \<Longrightarrow>
   defaults_of b (filter (\<lambda>x. idn_id x \<noteq> i) ids) = defaults_of b ids"
  unfolding defaults_of_def filter_filter by (rule filter_cong) auto

lemma defaults_filter_le: "length (defaults_of b (filter P ids)) \<le> length (defaults_of b ids)"
  by (induction ids) (auto simp: defaults_of_def)

lemma some_default: "list_ex idn_default (filter (\<lambda>x. idn_account x = a) ids) \<longleftrightarrow> defaults_of a ids \<noteq> []"
  by (auto simp: list_ex_iff defaults_of_def filter_empty_conv)

lemma defaults_account: "defaults_of a ids \<noteq> [] \<Longrightarrow> a \<in> idn_account ` set ids"
  by (auto simp: defaults_of_def filter_empty_conv)

text \<open>One account settled, the others as they were.\<close>

definition settled :: "string \<Rightarrow> mail_identity list \<Rightarrow> mail_identity list \<Rightarrow> bool" where
  "settled a before after =
     (distinct (map idn_id after) \<and> length (defaults_of a after) = 1
      \<and> account_count a after \<le> IDENTITY_LIMIT_PER_ACCOUNT
      \<and> (\<forall>b. b \<noteq> a \<longrightarrow> defaults_of b after = defaults_of b before \<and> account_count b after = account_count b before))"

lemma account_count_pos: "a \<in> idn_account ` set ids \<longleftrightarrow> 0 < account_count a ids"
  by (auto simp: account_count_def filter_empty_conv)

lemma identities_okD:
  assumes "identities_ok ids" and "a \<in> idn_account ` set ids"
  shows "length (defaults_of a ids) = 1" and "account_count a ids \<le> IDENTITY_LIMIT_PER_ACCOUNT"
  using assms unfolding identities_ok_def by blast+

lemma settled_ok: "identities_ok before \<Longrightarrow> settled a before after \<Longrightarrow> identities_ok after"
  unfolding identities_ok_def settled_def Ball_def account_count_pos by metis

lemma place_identity_settled:
  assumes ok: "identities_ok existing"
    and own: "\<And>x. x \<in> set existing \<Longrightarrow> idn_id x = idn_id n \<Longrightarrow> idn_account x = idn_account n"
    and room: "idn_id n \<in> idn_id ` set existing \<or> account_count (idn_account n) existing < IDENTITY_LIMIT_PER_ACCOUNT"
  shows "settled (idn_account n) existing (place_identity rt existing n)"
proof -
  let ?a = "idn_account n" and ?others = "filter (\<lambda>x. idn_id x \<noteq> idn_id n) existing"
  define nxt where "nxt = (if idn_default n then demote ?a ?others else ?others) @ [n]"
  have settle: "place_identity rt existing n = settle_default rt ?a nxt"
    unfolding place_identity_def Let_def nxt_def ..
  have dist: "distinct (map idn_id existing)" using ok by (simp add: identities_ok_def)
  have ids: "map idn_id nxt = map idn_id ?others @ [idn_id n]" and accounts: "map idn_account nxt = map idn_account ?others @ [?a]"
    by (simp_all add: nxt_def)
  have dist': "distinct (map idn_id nxt)"
    using dist unfolding ids by (auto simp: distinct_map inj_on_def)
  have count: "account_count b nxt = account_count b ?others + (if b = ?a then 1 else 0)" for b
    using accounts by (auto simp: account_count_def)
  have others: "defaults_of b ?others = defaults_of b existing" "account_count b ?others = account_count b existing" if "b \<noteq> ?a" for b
  proof -
    show "defaults_of b ?others = defaults_of b existing"
      using own that by (intro defaults_other_account) auto
    show "account_count b ?others = account_count b existing"
      using own that unfolding account_count_def filter_map length_map filter_filter
      by (intro arg_cong [where f = length] filter_cong) auto
  qed
  have limit: "account_count ?a nxt \<le> IDENTITY_LIMIT_PER_ACCOUNT"
  proof (cases "idn_id n \<in> idn_id ` set existing")
    case True
    then obtain x where x: "x \<in> set existing" "idn_id x = idn_id n" by auto
    then have "?a \<in> idn_account ` set existing" using own by (metis image_eqI)
    then have "account_count ?a existing \<le> IDENTITY_LIMIT_PER_ACCOUNT" by (rule identities_okD [OF ok])
    with account_count_remove [OF dist x(1), of ?a] own x show ?thesis by (simp add: count)
  next
    case False
    with room have "account_count ?a existing < IDENTITY_LIMIT_PER_ACCOUNT" by simp
    with account_count_filter_le [of ?a "\<lambda>x. idn_id x \<noteq> idn_id n" existing] show ?thesis
      by (simp add: count)
  qed
  have other: "b \<noteq> ?a \<Longrightarrow> defaults_of b nxt = defaults_of b existing" for b
    using others by (auto simp: nxt_def defaults_demote defaults_of_def [of _ "[n]"])
  show ?thesis
  proof (cases "defaults_of ?a nxt = []")
    case False
    then have place: "place_identity rt existing n = nxt"
      by (simp only: settle settle_default_def Let_def some_default) simp
    have "length (defaults_of ?a nxt) = 1"
    proof (cases "idn_default n")
      case True
      then show ?thesis by (simp add: nxt_def defaults_demote) (simp add: defaults_of_def)
    next
      case False
      then have eq: "defaults_of ?a nxt = defaults_of ?a ?others" by (simp add: nxt_def) (simp add: defaults_of_def)
      with \<open>defaults_of ?a nxt \<noteq> []\<close> have "?a \<in> idn_account ` set existing"
        using defaults_account [of ?a ?others] by auto
      then have "length (defaults_of ?a existing) = 1" by (rule identities_okD [OF ok])
      with defaults_filter_le [of ?a _ existing] eq \<open>defaults_of ?a nxt \<noteq> []\<close> show ?thesis
        by (metis One_nat_def le_antisym length_greater_0_conv Suc_leI)
    qed
    then show ?thesis
      unfolding place settled_def using dist' limit other count others by auto
  next
    case True
    have "?a \<in> idn_account ` set nxt" by (simp add: nxt_def)
    then obtain f where f: "first_of (js_sort (identity_comparison rt) (filter (\<lambda>x. idn_account x = ?a) nxt)) = Some f"
      using sort_first_exists by blast
    with True have place: "place_identity rt existing n = promote (idn_id f) nxt"
      by (simp only: settle settle_default_def Let_def some_default sortIdentities_def) simp
    have fm: "f \<in> set nxt" "idn_account f = ?a"
      using first_of_sort_mem [OF f] by auto
    have "defaults_of b (promote (idn_id f) nxt) = (if b = ?a then [f\<lparr>idn_default := True\<rparr>] else defaults_of b nxt)" for b
      using defaults_promote [OF dist' fm(1), of b] fm(2) True by simp
    then show ?thesis
      unfolding place settled_def using dist' limit other count others
      by (auto simp: account_count_map [of "promote (idn_id f) nxt" nxt])
  qed
qed

lemma length_identitiesForAccount: "length (identitiesForAccount rt ids a) = account_count a ids"
  by (simp add: identitiesForAccount_def sortIdentities_def account_count_def filter_map comp_def)

lemma buildIdentity_settled:
  assumes "identities_ok existing" and "buildIdentity rt existing input newId = Inr ids"
    and "newId \<notin> idn_id ` set existing"
    and "\<And>c. current_identity existing input = Some c \<Longrightarrow> idn_account c = in_account input"
  shows "settled (in_account input) existing ids"
proof -
  let ?n = "new_identity rt existing input newId"
  have acct: "idn_account ?n = in_account input" by (simp add: new_identity_def Let_def)
  have ids: "ids = place_identity rt existing ?n"
    and room: "current_identity existing input = None \<Longrightarrow> account_count (in_account input) existing < IDENTITY_LIMIT_PER_ACCOUNT"
    using assms(2) by (auto simp: buildIdentity_def length_identitiesForAccount split: sum.splits if_splits)
  have dist: "distinct (map idn_id existing)" using assms(1) by (simp add: identities_ok_def)
  show ?thesis
  proof (cases "current_identity existing input")
    case None
    then have "idn_id ?n = newId" by (simp add: new_identity_def Let_def)
    then show ?thesis
      unfolding ids acct [symmetric] using assms(1,3) room [OF None]
      by (intro place_identity_settled) (auto simp: acct)
  next
    case (Some c)
    then have c: "c \<in> set existing" "idn_id ?n = idn_id c"
      by (auto simp: current_identity_def new_identity_def Let_def split: if_splits dest: with_id_Some)
    have "x = c" if "x \<in> set existing" "idn_id x = idn_id c" for x
      using dist c(1) that by (auto simp: distinct_map inj_on_def)
    then show ?thesis
      unfolding ids acct [symmetric] using assms(1,4) Some c
      by (intro place_identity_settled) (auto simp: acct)
  qed
qed

lemma identities_ok_filter:
  assumes "identities_ok ids" and "\<And>a. a \<in> idn_account ` set (filter P ids) \<Longrightarrow> length (defaults_of a (filter P ids)) = 1"
  shows "identities_ok (filter P ids)"
  unfolding identities_ok_def
proof (intro conjI ballI)
  show "distinct (map idn_id (filter P ids))" using assms(1) by (simp add: identities_ok_def distinct_map_filter)
next
  fix a assume a: "a \<in> idn_account ` set (filter P ids)"
  then show "length (defaults_of a (filter P ids)) = 1" by (rule assms(2))
  have "a \<in> idn_account ` set ids" using a by auto
  from identities_okD(2) [OF assms(1) this] account_count_filter_le [of a P ids]
  show "account_count a (filter P ids) \<le> IDENTITY_LIMIT_PER_ACCOUNT" by (rule order.trans [rotated])
qed

lemma forgetAccountIdentities_ok: "identities_ok ids \<Longrightarrow> identities_ok (forgetAccountIdentities ids account)"
  unfolding forgetAccountIdentities_def
proof (rule identities_ok_filter)
  fix a assume ok: "identities_ok ids" and a: "a \<in> idn_account ` set (filter (\<lambda>i. idn_account i \<noteq> account) ids)"
  then have "a \<noteq> account" "a \<in> idn_account ` set ids" by auto
  moreover from this have "defaults_of a (filter (\<lambda>i. idn_account i \<noteq> account) ids) = defaults_of a ids"
    unfolding defaults_of_def filter_filter by (intro filter_cong) auto
  ultimately show "length (defaults_of a (filter (\<lambda>i. idn_account i \<noteq> account) ids)) = 1"
    using identities_okD(1) [OF ok] by simp
qed

lemma removeIdentity_ok:
  assumes ok: "identities_ok ids" and rm: "removeIdentity rt ids i = Inr js"
  shows "identities_ok js \<and> (\<forall>a \<in> idn_account ` set ids. a \<in> idn_account ` set js)"
proof -
  obtain x where x: "with_id ids i = Some x" using rm by (auto simp: removeIdentity_def split: option.splits)
  then have xm: "x \<in> set ids" "idn_id x = i" by (auto dest: with_id_Some)
  let ?rem = "filter (\<lambda>y. idn_id y \<noteq> i) ids" and ?a = "idn_account x"
  let ?sib = "filter (\<lambda>y. idn_account y = ?a) ?rem"
  have dist: "distinct (map idn_id ids)" using ok by (simp add: identities_ok_def)
  then have dist': "distinct (map idn_id ?rem)" by (simp add: distinct_map_filter)
  have uniq: "y = x" if "y \<in> set ids" "idn_id y = i" for y
    using dist xm that by (auto simp: distinct_map inj_on_def)
  have other: "b \<noteq> ?a \<Longrightarrow> defaults_of b ?rem = defaults_of b ids" for b
    using uniq by (intro defaults_other_account) auto
  have one: "length (defaults_of ?a ids) = 1" using xm by (intro identities_okD [OF ok]) auto
  have xdef: "x \<in> set (defaults_of ?a ids) \<longleftrightarrow> idn_default x" using xm by (simp add: defaults_of_def)
  have accounts: "b \<in> idn_account ` set ?rem" if "b \<in> idn_account ` set ids" "b \<noteq> ?a" for b
    using that uniq by auto
  show ?thesis
  proof (cases "idn_default x")
    case False
    then have js: "js = ?rem" using rm x by (simp add: removeIdentity_def Let_def)
    have kept: "defaults_of ?a ?rem = defaults_of ?a ids"
      unfolding defaults_of_def filter_filter using uniq False by (intro filter_cong) auto
    have "?a \<in> idn_account ` set ?rem"
      using one kept defaults_account [of ?a ?rem] by fastforce
    moreover have "length (defaults_of b ?rem) = 1" if "b \<in> idn_account ` set ?rem" for b
    proof -
      have "b \<in> idn_account ` set ids" using that by auto
      from identities_okD(1) [OF ok this] show ?thesis using other [of b] kept by (cases "b = ?a") simp_all
    qed
    then have "identities_ok ?rem" by (rule identities_ok_filter [OF ok])
    ultimately show ?thesis unfolding js using accounts by metis
  next
    case True
    then have sib: "?sib \<noteq> []" using rm x by (auto simp: removeIdentity_def Let_def split: if_splits)
    then obtain f where f: "first_of (js_sort (identity_comparison rt) ?sib) = Some f" "f \<in> set ?sib"
      using first_of_sort by blast
    have js: "js = promote (idn_id f) ?rem"
      using rm x sib f True by (auto simp: removeIdentity_def Let_def sortIdentities_def split: if_splits)
    have none: "defaults_of ?a ?rem = []"
    proof -
      obtain d where "defaults_of ?a ids = [d]" using one by (auto simp: length_Suc_conv)
      moreover from this have "d = x" using xdef True by auto
      ultimately show ?thesis using xm by (simp add: defaults_filter_id [OF dist])
    qed
    have a: "?a \<in> idn_account ` set ?rem" using f(2) by (auto intro: image_eqI [of _ _ f])
    have "length (defaults_of b js) = 1" if "b \<in> idn_account ` set js" for b
    proof -
      have "b \<in> idn_account ` set ids" using that unfolding js accounts_map promote_same by auto
      from identities_okD(1) [OF ok this] show ?thesis
        unfolding js defaults_promote_first [OF dist' a none f(1)] using other by simp
    qed
    moreover have "account_count b js \<le> IDENTITY_LIMIT_PER_ACCOUNT" if "b \<in> idn_account ` set js" for b
    proof -
      have "b \<in> idn_account ` set ids" using that unfolding js accounts_map promote_same by auto
      from identities_okD(2) [OF ok this] account_count_filter_le [of b "\<lambda>y. idn_id y \<noteq> i" ids]
      show ?thesis unfolding js account_count_def promote_same by linarith
    qed
    ultimately have "identities_ok js"
      unfolding identities_ok_def using dist' unfolding js promote_same by blast
    moreover have "idn_account ` set js = idn_account ` set ?rem"
      unfolding accounts_map js promote_same ..
    ultimately show ?thesis using accounts a by metis
  qed
qed

section \<open>The default, the seed and the repair\<close>

lemma promoteIdentityToDefault_ok:
  assumes ok: "identities_ok ids" and res: "promoteIdentityToDefault ids i = Inr js"
  shows "identities_ok js"
proof -
  obtain x where x: "with_id ids i = Some x" using res by (auto simp: promoteIdentityToDefault_def split: option.splits)
  then have xm: "x \<in> set ids" "idn_id x = i" by (auto dest: with_id_Some)
  let ?f = "\<lambda>y. if idn_account y = idn_account x then y\<lparr>idn_default := idn_id y = i\<rparr> else y"
  have js: "js = map ?f ids" using res x by (simp add: promoteIdentityToDefault_def)
  have same: "map idn_id js = map idn_id ids" "map idn_account js = map idn_account ids"
    by (simp_all add: js comp_def cong: map_cong)
  have dist: "distinct (map idn_id ids)" using ok by (simp add: identities_ok_def)
  have other: "b \<noteq> idn_account x \<Longrightarrow> defaults_of b (map ?f us) = defaults_of b us" for b us
    by (induction us) (auto simp: defaults_of_def)
  have own: "defaults_of (idn_account x) (map ?f us)
      = map ?f (filter (\<lambda>y. idn_account y = idn_account x \<and> idn_id y = i) us)" for us
    by (induction us) (auto simp: defaults_of_def)
  have "length (filter (\<lambda>y. idn_account y = idn_account x \<and> idn_id y = i) ids) = 1"
    using dist xm
  proof (induction ids)
    case (Cons y ys)
    then show ?case
      by (cases "y = x") (auto simp: filter_empty_conv image_iff)
  qed simp
  then have "length (defaults_of (idn_account x) js) = 1" by (simp only: js own length_map)
  moreover have "account_count (idn_account x) js \<le> IDENTITY_LIMIT_PER_ACCOUNT"
    using identities_okD(2) [OF ok] xm by (metis account_count_map image_eqI same(2))
  ultimately have "settled (idn_account x) ids js"
    using dist other by (simp add: settled_def same account_count_map [OF same(2)]) (simp add: js)
  with ok show ?thesis by (rule settled_ok)
qed

lemma seedAccountIdentity_ok:
  assumes "identities_ok ids" and "seedAccountIdentity rt ids account name email newId = Inr js"
    and "newId \<notin> idn_id ` set ids"
  shows "identities_ok js \<and> account \<in> idn_account ` set js"
proof (cases "list_ex (\<lambda>i. idn_account i = account) ids")
  case True
  with assms show ?thesis by (auto simp: seedAccountIdentity_def list_ex_iff)
next
  case False
  let ?input = "\<lparr>in_id = None, in_account = account,
    in_name = (let n = normalizeIdentityLine rt name IDENTITY_NAME_LIMIT in if n \<noteq> [] then n else email),
    in_email = email, in_reply_to = None, in_organization = None, in_signature = None,
    in_placement = None, in_default = Some True\<rparr>"
  have "buildIdentity rt ids ?input newId = Inr js"
    using assms(2) False unfolding seedAccountIdentity_def by simp
  from buildIdentity_settled [OF assms(1) this assms(3)]
  have "settled account ids js" by (simp add: current_identity_def given_def)
  moreover from this have "defaults_of account js \<noteq> []" by (auto simp: settled_def)
  ultimately show ?thesis
    using settled_ok [OF assms(1)] defaults_account by blast
qed

lemma defaults_demote_extra:
  "defaults_of a (demote_extra claimed ids) = (if a \<in> claimed then [] else take 1 (defaults_of a ids))"
  by (induction claimed ids rule: demote_extra.induct) (auto simp: defaults_of_def)

lemma demote_extra_same [simp]:
  "map idn_id (demote_extra claimed ids) = map idn_id ids"
  "map idn_account (demote_extra claimed ids) = map idn_account ids"
  by (induction claimed ids rule: demote_extra.induct) auto

lemma promote_missing_same [simp]:
  "map idn_id (promote_missing served ids) = map idn_id ids"
  "map idn_account (promote_missing served ids) = map idn_account ids"
  by (induction served ids rule: promote_missing.induct) auto

lemma defaults_of_Cons:
  "defaults_of a (i # ids) = (if idn_account i = a \<and> idn_default i then i # defaults_of a ids else defaults_of a ids)"
  by (simp add: defaults_of_def)

lemma defaults_promote_missing_served:
  "a \<in> served \<Longrightarrow> defaults_of a (promote_missing served ids) = defaults_of a ids"
proof (induction ids arbitrary: served)
  case (Cons i ids)
  from Cons.IH [OF Cons.prems] Cons.IH [of "insert (idn_account i) served"] Cons.prems
  show ?case by (cases "idn_account i \<in> served") (auto simp: defaults_of_Cons)
qed simp

lemma defaults_promote_missing:
  "a \<notin> served \<Longrightarrow> defaults_of a ids = [] \<Longrightarrow> length (defaults_of a (promote_missing served ids))
     = (if a \<in> idn_account ` set ids then 1 else 0)"
proof (induction ids arbitrary: served)
  case (Cons i ids)
  then have rest: "defaults_of a ids = []" by (simp add: defaults_of_Cons split: if_splits)
  show ?case
  proof (cases "idn_account i = a")
    case True
    then show ?thesis
      using Cons.prems(1) rest by (simp add: defaults_of_Cons defaults_promote_missing_served)
  next
    case False
    then show ?thesis
      using Cons.prems(1) Cons.IH [OF _ rest, of served] Cons.IH [OF _ rest, of "insert (idn_account i) served"]
      by (auto simp: defaults_of_Cons image_iff split: if_splits)
  qed
qed (simp add: defaults_of_def)

lemma repair_defaults:
  assumes "a \<in> idn_account ` set ids"
  shows "length (defaults_of a (repair_identities ids)) = 1"
proof (cases "defaults_of a ids = []")
  case True
  then have "a \<notin> idn_account ` set (filter idn_default ids)" by (auto simp: defaults_of_def filter_empty_conv)
  moreover have "a \<in> idn_account ` set (demote_extra {} ids)" using assms by (metis accounts_map demote_extra_same(2))
  ultimately show ?thesis
    unfolding repair_identities_def using True
    by (simp add: defaults_promote_missing defaults_demote_extra)
next
  case False
  then have "a \<in> idn_account ` set (filter idn_default ids)" by (auto simp: defaults_of_def filter_empty_conv)
  then show ?thesis
    unfolding repair_identities_def using False
    by (cases "defaults_of a ids") (simp_all add: defaults_promote_missing_served defaults_demote_extra)
qed

section \<open>Header safety and selection\<close>

definition header_safe :: "mail_identity \<Rightarrow> bool" where
  "header_safe i =
     (list_all (\<lambda>c. \<not> identity_control c \<and> c \<noteq> CHR 10) (idn_name i)
      \<and> list_all (\<lambda>c. \<not> identity_control c \<and> c \<noteq> CHR 10) (idn_organization i)
      \<and> isMailAddress (idn_email i) \<and> (idn_reply_to i = [] \<or> isMailAddress (idn_reply_to i)))"

lemma header_safe_default [simp]: "header_safe (i\<lparr>idn_default := b\<rparr>) = header_safe i"
  by (simp add: header_safe_def)

lemma header_safe_promote: "list_all header_safe (promote i ids) = list_all header_safe ids"
  unfolding promote_def by (induction ids) auto

lemma header_safe_demote: "list_all header_safe (demote a ids) = list_all header_safe ids"
  unfolding demote_def by (induction ids) auto

lemma isMailAddress_trim [simp]: "isMailAddress (trim v) = isMailAddress v"
  by (simp add: isMailAddress_def)

lemma new_identity_safe:
  assumes "validateIdentityInput rt input = Inr u"
  shows "header_safe (new_identity rt existing input newId)"
proof -
  have "isMailAddress (in_email input)"
    and "trimmed_or_empty (in_reply_to input) = [] \<or> isMailAddress (trimmed_or_empty (in_reply_to input))"
    using assms by (auto simp: validateIdentityInput_def Let_def split: if_splits)
  then show ?thesis
    by (auto simp: header_safe_def new_identity_def Let_def list_all_iff dest: normalizeIdentityLine_safe)
qed

lemma place_identity_safe:
  "list_all header_safe existing \<Longrightarrow> header_safe n \<Longrightarrow> list_all header_safe (place_identity rt existing n)"
  unfolding place_identity_def settle_default_def Let_def
  by (auto simp: header_safe_promote header_safe_demote split: option.split) (auto simp: list_all_iff)

lemma default_sorts_first:
  assumes "comparator (collate rt)" and "identities_ok ids"
    and "defaultIdentityFor rt ids account = Some i"
  shows "idn_default i"
proof -
  let ?mine = "filter (\<lambda>x. idn_account x = account) ids"
  obtain rest where sorted: "js_sort (identity_comparison rt) ?mine = i # rest"
    using assms(3)
    by (auto simp: defaultIdentityFor_def identitiesForAccount_def sortIdentities_def first_of_def split: list.splits)
  then have "i \<in> set ?mine" by (metis list.set_intros(1) set_js_sort)
  then have "account \<in> idn_account ` set ids" by auto
  then have "length (defaults_of account ids) = 1" by (rule identities_okD [OF assms(2)])
  then obtain d where "defaults_of account ids = [d]" by (auto simp: length_Suc_conv)
  then have "d \<in> set (defaults_of account ids)" by simp
  then have d: "d \<in> set ?mine" "idn_default d" by (auto simp: defaults_of_def)
  have "comparator (identity_comparison rt)"
    unfolding identity_comparison_def
    by (intro comparator_chain comparator_flip comparator_on assms(1) ints.comparator_axioms)
  from comparator.head_least [OF this sorted d(1)] d(2)
  show ?thesis
    by (cases "idn_default i")
      (auto simp: identity_comparison_def cmp_chain_def cmp_or_def cmp_flip_def cmp_on_def int_cmp_def)
qed

section \<open>Properties\<close>

definition sample_input :: "string \<Rightarrow> string option \<Rightarrow> identity_input" where
  "sample_input account i = \<lparr>in_id = i, in_account = account, in_name = ''Ann'', in_email = ''a@b.c'',
     in_reply_to = None, in_organization = None, in_signature = None, in_placement = None, in_default = None\<rparr>"

definition saved_identity :: "string \<Rightarrow> string \<Rightarrow> mail_identity" where
  "saved_identity i account = \<lparr>idn_id = i, idn_account = account, idn_name = ''Ann'', idn_email = ''a@b.c'',
     idn_reply_to = [], idn_organization = [], idn_signature = [], idn_placement = BelowBody,
     idn_default = True, idn_ordinal = 0\<rparr>"

lemma sample_saved: "buildIdentity ascii_runtime [] (sample_input ''x'' None) ''i'' = Inr [saved_identity ''i'' ''x'']"
  by code_simp

text \<open>
  C23: saving an identity, a new one or one that is edited within its own account, keeps identifiers unique, exactly one
  default for every account that has identities, and at most the limit's identities per account;
  the account saved to has a default afterwards and no other account's default changes.
\<close>

theorem saving_keeps_one_default:
  assumes "identities_ok existing" and "buildIdentity rt existing input newId = Inr ids"
    and "newId \<notin> idn_id ` set existing"
    and "\<forall>c. current_identity existing input = Some c \<longrightarrow> idn_account c = in_account input"
  shows "identities_ok ids \<and> length (defaults_of (in_account input) ids) = 1
    \<and> (\<forall>b. b \<noteq> in_account input \<longrightarrow> defaults_of b ids = defaults_of b existing)"
  using buildIdentity_settled [OF assms(1-3)] assms(1,4) settled_ok by (fastforce simp: settled_def)

theorem saving_keeps_one_default_witness:
  "identities_ok [saved_identity ''i'' ''x'']"
  using saving_keeps_one_default [OF _ sample_saved]
  by (simp add: identities_ok_def sample_input_def current_identity_def given_def)

lemma promote_elsewhere:
  assumes "distinct (map idn_id ids)" "f \<in> set ids" "idn_account f \<noteq> b"
  shows "filter (\<lambda>x. idn_account x = b) (promote (idn_id f) ids) = filter (\<lambda>x. idn_account x = b) ids"
proof -
  have "x = f" if "x \<in> set ids" "idn_id x = idn_id f" for x
    using assms(1,2) that by (metis distinct_map inj_on_eq_iff)
  with assms(3) have "idn_account x \<noteq> b \<or> idn_id x \<noteq> idn_id f" if "x \<in> set ids" for x using that by blast
  then show ?thesis unfolding promote_def by (induction ids) auto
qed

lemma settle_elsewhere:
  assumes "distinct (map idn_id ids)" "a \<noteq> b"
  shows "filter (\<lambda>x. idn_account x = b) (settle_default rt a ids) = filter (\<lambda>x. idn_account x = b) ids"
proof -
  have "filter (\<lambda>x. idn_account x = b) (promote (idn_id f) ids) = filter (\<lambda>x. idn_account x = b) ids"
    if "first_of (sortIdentities rt (filter (\<lambda>x. idn_account x = a) ids)) = Some f" for f
  proof (rule promote_elsewhere [OF assms(1)])
    from that have "f \<in> set (sortIdentities rt (filter (\<lambda>x. idn_account x = a) ids))"
      by (cases "sortIdentities rt (filter (\<lambda>x. idn_account x = a) ids)") (simp_all add: first_of_def)
    then show "f \<in> set ids" "idn_account f \<noteq> b" using assms(2) by (auto simp: sortIdentities_def)
  qed
  then show ?thesis by (simp add: settle_default_def Let_def split: option.split)
qed

text \<open>
  C38: the code does not require that an edited identity stays in its account. Saving a default
  identity under another account succeeds and leaves its old account with the identities it had
  besides, none of which is a default.
\<close>

theorem moving_an_identity_strands_its_account:
  assumes "identities_ok existing" and "buildIdentity rt existing input newId = Inr ids"
    and "current_identity existing input = Some c" and "idn_account c \<noteq> in_account input" and "idn_default c"
  shows "filter (\<lambda>x. idn_account x = idn_account c) ids
      = filter (\<lambda>x. idn_account x = idn_account c \<and> idn_id x \<noteq> idn_id c) existing
    \<and> defaults_of (idn_account c) ids = []"
proof -
  let ?n = "new_identity rt existing input newId" and ?a = "in_account input" and ?b = "idn_account c"
  let ?others = "filter (\<lambda>x. idn_id x \<noteq> idn_id c) existing"
  define nxt where "nxt = (if idn_default ?n then demote ?a ?others else ?others) @ [?n]"
  have n: "idn_id ?n = idn_id c" "idn_account ?n = ?a" using assms(3) by (simp_all add: new_identity_def Let_def)
  have ids: "ids = settle_default rt ?a nxt"
    using assms(2) n by (auto simp: buildIdentity_def place_identity_def nxt_def Let_def split: sum.splits if_splits)
  have dist: "distinct (map idn_id existing)" using assms(1) by (simp add: identities_ok_def)
  have c: "c \<in> set existing" using assms(3) by (auto simp: current_identity_def with_id_def dest: find_Some_mem split: if_splits)
  have "map idn_id nxt = map idn_id ?others @ [idn_id c]" by (simp add: nxt_def n)
  moreover have "distinct (map idn_id ?others @ [idn_id c])" using dist by (auto intro: distinct_map_filter)
  ultimately have "distinct (map idn_id nxt)" by simp
  from settle_elsewhere [OF this assms(4) [symmetric]]
  have "filter (\<lambda>x. idn_account x = ?b) ids = filter (\<lambda>x. idn_account x = ?b) nxt" by (simp add: ids)
  also have "\<dots> = filter (\<lambda>x. idn_account x = ?b) ?others"
  proof -
    have "filter (\<lambda>x. idn_account x = ?b) (demote ?a xs) = filter (\<lambda>x. idn_account x = ?b) xs" for xs
      using assms(4) by (induction xs) (auto simp: demote_def)
    with n assms(4) show ?thesis by (simp add: nxt_def)
  qed
  finally have kept: "filter (\<lambda>x. idn_account x = ?b) ids
      = filter (\<lambda>x. idn_account x = ?b \<and> idn_id x \<noteq> idn_id c) existing"
    by (simp add: conj_commute)
  have "length (defaults_of ?b existing) = 1" using identities_okD(1) [OF assms(1)] c by blast
  moreover have "c \<in> set (defaults_of ?b existing)" using c assms(5) by (simp add: defaults_of_def)
  ultimately have "defaults_of ?b existing = [c]" by (cases "defaults_of ?b existing") auto
  then have "set (defaults_of ?b existing) = {c}" by simp
  then have "idn_id x = idn_id c" if "x \<in> set existing" "idn_account x = ?b" "idn_default x" for x
    using that by (auto simp: defaults_of_def)
  moreover have "defaults_of ?b ids = filter idn_default (filter (\<lambda>x. idn_account x = ?b) ids)"
    by (simp add: defaults_of_def conj_commute)
  ultimately have "defaults_of ?b ids = []" unfolding kept by (auto simp: filter_empty_conv)
  with kept show ?thesis by blast
qed

theorem moving_an_identity_strands_its_account_witness:
  "\<exists>ids. buildIdentity ascii_runtime [saved_identity ''i'' ''x'', saved_identity ''j'' ''y'',
       (saved_identity ''k'' ''y'')\<lparr>idn_default := False\<rparr>] (sample_input ''x'' (Some ''j'')) ''n'' = Inr ids
     \<and> filter (\<lambda>x. idn_account x = ''y'') ids = [(saved_identity ''k'' ''y'')\<lparr>idn_default := False\<rparr>]
     \<and> defaults_of ''y'' ids = []"
proof -
  let ?ids = "[saved_identity ''i'' ''x'', saved_identity ''j'' ''y'', (saved_identity ''k'' ''y'')\<lparr>idn_default := False\<rparr>]"
  have ok: "identities_ok ?ids"
    by (simp add: identities_ok_def defaults_of_def account_count_def saved_identity_def IDENTITY_LIMIT_PER_ACCOUNT_def)
  have saved: "buildIdentity ascii_runtime ?ids (sample_input ''x'' (Some ''j'')) ''n''
     = Inr [(saved_identity ''i'' ''x'')\<lparr>idn_default := False\<rparr>, (saved_identity ''k'' ''y'')\<lparr>idn_default := False\<rparr>,
            saved_identity ''j'' ''x'']" by code_simp
  have current: "current_identity ?ids (sample_input ''x'' (Some ''j'')) = Some (saved_identity ''j'' ''y'')" by code_simp
  from moving_an_identity_strands_its_account [OF ok saved current] saved
  show ?thesis by (simp add: saved_identity_def sample_input_def)
qed

text \<open>
  removing an identity keeps the invariant, and an account that had an identity still has one: the
  last default of an account is refused and a removed default is replaced.
\<close>

theorem removal_keeps_every_account_served:
  assumes "identities_ok ids" and "removeIdentity rt ids i = Inr js"
  shows "identities_ok js \<and> idn_account ` set ids \<subseteq> idn_account ` set js"
  using removeIdentity_ok [OF assms] by blast

theorem removal_keeps_every_account_served_witness:
  "identities_ok [saved_identity ''i'' ''x'', (saved_identity ''j'' ''x'')\<lparr>idn_default := False\<rparr>]
   \<and> removeIdentity ascii_runtime [saved_identity ''i'' ''x'', (saved_identity ''j'' ''x'')\<lparr>idn_default := False\<rparr>] ''i''
       = Inr [saved_identity ''j'' ''x''] \<and> identities_ok [saved_identity ''j'' ''x'']"
proof -
  let ?ids = "[saved_identity ''i'' ''x'', (saved_identity ''j'' ''x'')\<lparr>idn_default := False\<rparr>]"
  have ok: "identities_ok ?ids"
    by (simp add: identities_ok_def defaults_of_def account_count_def saved_identity_def IDENTITY_LIMIT_PER_ACCOUNT_def)
  have rm: "removeIdentity ascii_runtime ?ids ''i'' = Inr [saved_identity ''j'' ''x'']" by code_simp
  from removal_keeps_every_account_served [OF ok rm] ok rm show ?thesis by blast
qed

lemma demote_extra_kept:
  "map (\<lambda>i. i\<lparr>idn_default := False\<rparr>) (demote_extra claimed ids) = map (\<lambda>i. i\<lparr>idn_default := False\<rparr>) ids"
  "defaults_of a ids = [] \<Longrightarrow> filter (\<lambda>i. idn_account i = a) (demote_extra claimed ids) = filter (\<lambda>i. idn_account i = a) ids"
  by (induction claimed ids rule: demote_extra.induct) (auto simp: defaults_of_def split: if_splits)

lemma promote_missing_kept:
  "map (\<lambda>i. i\<lparr>idn_default := False\<rparr>) (promote_missing served ids) = map (\<lambda>i. i\<lparr>idn_default := False\<rparr>) ids"
  by (induction served ids rule: promote_missing.induct) auto

lemma defaults_promoted:
  "a \<notin> served \<Longrightarrow> defaults_of a ids = [] \<Longrightarrow> defaults_of a (promote_missing served ids)
     = map (\<lambda>i. i\<lparr>idn_default := True\<rparr>) (take 1 (filter (\<lambda>i. idn_account i = a) ids))"
proof (induction ids arbitrary: served)
  case (Cons i ids)
  then have rest: "defaults_of a ids = []" by (simp add: defaults_of_Cons split: if_splits)
  with Cons show ?case
    by (cases "idn_account i = a") (auto simp: defaults_of_Cons defaults_promote_missing_served split: if_splits)
qed (simp add: defaults_of_def)

text \<open>
  C24: the repair of a stored list, whatever it holds, changes nothing but default marks. An account
  with defaults keeps the first of them and no other; an account without one gets its first identity
  as the default.
\<close>

theorem repair_settles_every_account:
  "map (\<lambda>i. i\<lparr>idn_default := False\<rparr>) (repair_identities ids) = map (\<lambda>i. i\<lparr>idn_default := False\<rparr>) ids
    \<and> defaults_of a (repair_identities ids) =
        (case defaults_of a ids of
           d # _ \<Rightarrow> [d]
         | [] \<Rightarrow> map (\<lambda>i. i\<lparr>idn_default := True\<rparr>) (take 1 (filter (\<lambda>i. idn_account i = a) ids)))"
proof -
  let ?served = "idn_account ` set (filter idn_default ids)"
  have served: "a \<in> ?served \<longleftrightarrow> defaults_of a ids \<noteq> []" by (auto simp: defaults_of_def filter_empty_conv)
  have "defaults_of a (demote_extra {} ids) = take 1 (defaults_of a ids)" by (simp add: defaults_demote_extra)
  with served show ?thesis
    using defaults_promoted [of a ?served "demote_extra {} ids"] defaults_promote_missing_served [of a ?served "demote_extra {} ids"]
    by (auto simp: repair_identities_def promote_missing_kept demote_extra_kept split: list.split)
qed

text \<open>
  no identity can carry a header injection: if every stored name and organisation is free of
  control characters and newlines and every stored address is well formed, the same holds after any
  successful save, whatever was typed.
\<close>

theorem saved_identities_are_header_safe:
  assumes "list_all header_safe existing" and "buildIdentity rt existing input newId = Inr ids"
  shows "list_all header_safe ids"
proof -
  obtain u where "validateIdentityInput rt input = Inr u"
    and ids: "ids = place_identity rt existing (new_identity rt existing input newId)"
    using assms(2) by (auto simp: buildIdentity_def split: sum.splits if_splits)
  then show ?thesis using place_identity_safe [OF assms(1) new_identity_safe] by blast
qed

theorem saved_identities_are_header_safe_witness:
  "list_all header_safe [saved_identity ''i'' ''x'']"
  using saved_identities_are_header_safe [OF _ sample_saved] by simp

text \<open>
  the identity a draft sends from always belongs to the draft's account, is the requested one
  whenever that account has it, and is otherwise the account's default; there is none only for an
  account without identities.
\<close>

theorem resolved_identity_is_own_or_default:
  assumes "comparator (collate rt)" and "identities_ok ids"
  shows "case resolveIdentity rt ids account requested of
      None \<Rightarrow> account \<notin> idn_account ` set ids
    | Some i \<Rightarrow> i \<in> set ids \<and> idn_account i = account
        \<and> (if \<exists>x \<in> set ids. idn_account x = account \<and> requested = Some (idn_id x) \<and> idn_id x \<noteq> []
           then requested = Some (idn_id i) else idn_default i)"
proof (cases "identitiesForAccount rt ids account = []")
  case True
  then have "filter (\<lambda>i. idn_account i = account) ids = []"
    using length_js_sort [of "identity_comparison rt" "filter (\<lambda>i. idn_account i = account) ids"]
    by (simp add: identitiesForAccount_def sortIdentities_def)
  with True show ?thesis by (auto simp: resolveIdentity_def filter_empty_conv)
next
  case False
  have mem: "x \<in> set (identitiesForAccount rt ids account) \<longleftrightarrow> x \<in> set ids \<and> idn_account x = account" for x
    by (auto simp: identitiesForAccount_def sortIdentities_def)
  obtain d where d: "defaultIdentityFor rt ids account = Some d" "d \<in> set (identitiesForAccount rt ids account)"
    using False by (cases "identitiesForAccount rt ids account") (auto simp: defaultIdentityFor_def first_of_def)
  show ?thesis
  proof (cases "if given requested = [] then None else with_id (identitiesForAccount rt ids account) (given requested)")
    case None
    then have "resolveIdentity rt ids account requested = Some d"
      using False d by (simp add: resolveIdentity_def Let_def)
    moreover have "\<not> (\<exists>x \<in> set ids. idn_account x = account \<and> requested = Some (idn_id x) \<and> idn_id x \<noteq> [])"
    proof
      assume "\<exists>x \<in> set ids. idn_account x = account \<and> requested = Some (idn_id x) \<and> idn_id x \<noteq> []"
      then obtain x where x: "x \<in> set ids" "idn_account x = account" "requested = Some (idn_id x)" "idn_id x \<noteq> []"
        by blast
      then have "idn_id x \<in> idn_id ` set (identitiesForAccount rt ids account)" using mem by blast
      with None x(3,4) show False by (simp add: given_def with_id_None)
    qed
    ultimately show ?thesis
      using d mem default_sorts_first [OF assms d(1)] by auto
  next
    case (Some i)
    then have "resolveIdentity rt ids account requested = Some i"
      using False by (simp add: resolveIdentity_def Let_def)
    moreover have "i \<in> set (identitiesForAccount rt ids account)" "idn_id i = given requested" "given requested \<noteq> []"
      using Some by (auto split: if_splits dest: with_id_Some)
    ultimately show ?thesis
      using mem by (auto simp: given_def split: option.splits)
  qed
qed

theorem resolved_identity_is_own_or_default_witness:
  "case resolveIdentity ascii_runtime [saved_identity ''i'' ''x''] ''x'' (Some ''j'') of
     None \<Rightarrow> False | Some i \<Rightarrow> idn_account i = ''x''"
proof -
  have ok: "identities_ok [saved_identity ''i'' ''x'']"
    by (simp add: identities_ok_def defaults_of_def account_count_def saved_identity_def IDENTITY_LIMIT_PER_ACCOUNT_def)
  have "comparator (collate ascii_runtime)" using codeunits.comparator_axioms by simp
  from resolved_identity_is_own_or_default [OF this ok, of "''x''" "Some ''j''"]
  show ?thesis by (auto simp: saved_identity_def split: option.splits)
qed

end
