(* ===== verification/Junk_Classifier.thy ===== *)
theory Junk_Classifier
  imports Mail_Data
begin

text \<open>
  The junk classifier (\<open>src/shared/junk-classifier.ts\<close>): tokens of a message, training and untraining
  of the token counts, and the assessment. Counts are natural numbers, capped where the code caps
  them. The assessment is modelled over the reals: rounding of the JavaScript numbers in the
  probabilities, logarithms and the exponential is not modelled.
\<close>

section \<open>The model\<close>

definition JUNK_MODEL_TOKEN_LIMIT :: nat where "JUNK_MODEL_TOKEN_LIMIT = 20000"
definition JUNK_TOKENS_PER_MESSAGE_LIMIT :: nat where "JUNK_TOKENS_PER_MESSAGE_LIMIT = 200"
definition JUNK_TOKEN_LENGTH_MIN :: nat where "JUNK_TOKEN_LENGTH_MIN = 3"
definition JUNK_TOKEN_LENGTH_MAX :: nat where "JUNK_TOKEN_LENGTH_MAX = 32"
definition JUNK_SAMPLE_CHARACTER_LIMIT :: nat where "JUNK_SAMPLE_CHARACTER_LIMIT = 20000"
definition JUNK_TRAINING_MINIMUM :: nat where "JUNK_TRAINING_MINIMUM = 5"

record token_counts =
  tc_junk :: nat
  tc_good :: nat

record junk_model =
  jm_junk :: nat
  jm_good :: nat
  jm_tokens :: "(string, token_counts) entries"

datatype junk_verdict = VerdictJunk | VerdictNotJunk | VerdictUncertain | VerdictUntrained
datatype junk_label = LabelJunk | LabelGood

record junk_assessment =
  ja_verdict :: junk_verdict
  ja_score :: real
  ja_threshold :: real
  ja_token_count :: nat
  ja_trained_junk :: nat
  ja_trained_good :: nat

record training_sample =
  ts_subject :: string
  ts_from :: "address list"
  ts_body :: string

definition emptyJunkModel :: junk_model where
  "emptyJunkModel = \<lparr>jm_junk = 0, jm_good = 0, jm_tokens = []\<rparr>"

section \<open>Tokens\<close>

text \<open>\<open>WORD_PATTERN\<close>; of its signs only those below code unit 256 occur in the modelled texts.\<close>

definition is_word_char :: "char \<Rightarrow> bool" where
  "is_word_char c =
     (is_letter c \<or> is_number c \<or> c \<in> set ''$!%-'' \<or> code c \<in> {0xA3, 0xA5, 39})"

text \<open>The maximal runs of word characters, \<open>bounded.matchAll(WORD_PATTERN)\<close>.\<close>

function word_runs :: "string \<Rightarrow> string list" where
  "word_runs [] = []"
| "word_runs (c # s) =
     (if is_word_char c then (c # takeWhile is_word_char s) # word_runs (dropWhile is_word_char s)
      else word_runs s)"
  by pat_completeness auto
termination
  by (relation "measure length") (auto simp: le_imp_less_Suc length_dropWhile_le)

definition tokenize :: "js_runtime \<Rightarrow> string \<Rightarrow> string \<Rightarrow> string list" where
  "tokenize rt source pre =
     (let bounded = lower (take JUNK_SAMPLE_CHARACTER_LIMIT (nfkc rt source))
      in take JUNK_TOKENS_PER_MESSAGE_LIMIT
           (map (\<lambda>v. pre @ '':'' @ v)
             (filter (\<lambda>v. JUNK_TOKEN_LENGTH_MIN \<le> length v \<and> length v \<le> JUNK_TOKEN_LENGTH_MAX)
               (word_runs bounded))))"

definition address_tokens :: "js_runtime \<Rightarrow> address list \<Rightarrow> string list" where
  "address_tokens rt addresses =
     concat (map (\<lambda>a.
       (case split_on (CHR ''@'') (ad_address a) of
          _ # domain # _ \<Rightarrow> if domain \<noteq> [] then [''domain:'' @ take JUNK_TOKEN_LENGTH_MAX (lower domain)] else []
        | _ \<Rightarrow> [])
       @ tokenize rt (ad_name a @ '' '' @ ad_address a) ''from'') (take 50 addresses))"

definition junkTokens :: "js_runtime \<Rightarrow> training_sample \<Rightarrow> string list" where
  "junkTokens rt sample =
     take JUNK_TOKENS_PER_MESSAGE_LIMIT
       (unique (address_tokens rt (ts_from sample) @ tokenize rt (ts_subject sample) ''subject''
                @ tokenize rt (ts_body sample) ''body''))"

definition junkSampleFromMessage :: "message_summary \<Rightarrow> string option \<Rightarrow> training_sample" where
  "junkSampleFromMessage m body =
     \<lparr>ts_subject = ms_subject m, ts_from = ms_from m,
      ts_body = (case body of Some b \<Rightarrow> b | None \<Rightarrow> ms_preview m)\<rparr>"

section \<open>Training\<close>

definition informative_first :: "js_runtime \<Rightarrow> (string \<times> token_counts) comparison" where
  "informative_first rt =
     cmp_chain (cmp_flip (cmp_on (\<lambda>(_, c). int (tc_junk c + tc_good c)) int_cmp)) (cmp_on fst (collate rt))"

definition pruneTokens :: "js_runtime \<Rightarrow> (string, token_counts) entries \<Rightarrow> (string, token_counts) entries" where
  "pruneTokens rt tokens =
     (if length tokens \<le> JUNK_MODEL_TOKEN_LIMIT then tokens
      else take JUNK_MODEL_TOKEN_LIMIT (js_sort (informative_first rt) tokens))"

definition add_count :: "junk_label \<Rightarrow> token_counts \<Rightarrow> token_counts" where
  "add_count label c =
     (case label of
        LabelJunk \<Rightarrow> c\<lparr>tc_junk := min (tc_junk c + 1) (nat max_safe_integer)\<rparr>
      | LabelGood \<Rightarrow> c\<lparr>tc_good := min (tc_good c + 1) (nat max_safe_integer)\<rparr>)"

definition train_token ::
  "junk_label \<Rightarrow> (string, token_counts) entries \<Rightarrow> string \<Rightarrow> (string, token_counts) entries" where
  "train_token label tokens token =
     AList.update token
       (add_count label (case map_of tokens token of Some c \<Rightarrow> c | None \<Rightarrow> \<lparr>tc_junk = 0, tc_good = 0\<rparr>)) tokens"

definition trainJunkModel :: "js_runtime \<Rightarrow> junk_model \<Rightarrow> training_sample \<Rightarrow> junk_label \<Rightarrow> junk_model" where
  "trainJunkModel rt m sample label =
     \<lparr>jm_junk = jm_junk m + (if label = LabelJunk then 1 else 0),
      jm_good = jm_good m + (if label = LabelGood then 1 else 0),
      jm_tokens = pruneTokens rt (foldl (train_token label) (jm_tokens m) (junkTokens rt sample))\<rparr>"

definition drop_count :: "junk_label \<Rightarrow> token_counts \<Rightarrow> token_counts" where
  "drop_count label c =
     (case label of LabelJunk \<Rightarrow> c\<lparr>tc_junk := tc_junk c - 1\<rparr> | LabelGood \<Rightarrow> c\<lparr>tc_good := tc_good c - 1\<rparr>)"

definition untrain_token ::
  "junk_label \<Rightarrow> (string, token_counts) entries \<Rightarrow> string \<Rightarrow> (string, token_counts) entries" where
  "untrain_token label tokens token =
     (case map_of tokens token of
        None \<Rightarrow> tokens
      | Some c \<Rightarrow> (let nxt = drop_count label c
                   in if tc_junk nxt = 0 \<and> tc_good nxt = 0 then AList.delete token tokens
                      else AList.update token nxt tokens))"

definition untrainJunkModel :: "js_runtime \<Rightarrow> junk_model \<Rightarrow> training_sample \<Rightarrow> junk_label \<Rightarrow> junk_model" where
  "untrainJunkModel rt m sample label =
     \<lparr>jm_junk = jm_junk m - (if label = LabelJunk then 1 else 0),
      jm_good = jm_good m - (if label = LabelGood then 1 else 0),
      jm_tokens = foldl (untrain_token label) (jm_tokens m) (junkTokens rt sample)\<rparr>"

section \<open>Assessment\<close>

definition tokenProbability :: "token_counts \<Rightarrow> nat \<Rightarrow> nat \<Rightarrow> real" where
  "tokenProbability c junkMessages goodMessages =
     (let junkRate = (if junkMessages > 0 then min 1 (real (tc_junk c) / real junkMessages) else 0);
          goodRate = (if goodMessages > 0 then min 1 (real (tc_good c) / real goodMessages) else 0)
      in if junkRate + goodRate = 0 then 1 / 2
         else let raw = junkRate / (junkRate + goodRate); strength = real (tc_junk c + tc_good c)
              in (1 * (1 / 2) + strength * raw) / (1 + strength))"

definition interestingness :: "real \<Rightarrow> real" where
  "interestingness p = \<bar>p - 1 / 2\<bar>"

definition real_cmp :: "real comparison" where
  "real_cmp x y = (if x < y then - 1 else if y < x then 1 else 0)"

definition clamped :: "real \<Rightarrow> real" where
  "clamped p = min (99 / 100) (max (1 / 100) p)"

definition log_step :: "real \<times> real \<Rightarrow> real \<Rightarrow> real \<times> real" where
  "log_step logs p = (fst logs + ln (clamped p), snd logs + ln (1 - clamped p))"

definition combined_score :: "real list \<Rightarrow> real" where
  "combined_score ps =
     (let (junkLog, goodLog) = foldl log_step (0, 0) ps in 1 / (1 + exp (goodLog - junkLog)))"

definition token_probabilities :: "js_runtime \<Rightarrow> junk_model \<Rightarrow> training_sample \<Rightarrow> real list" where
  "token_probabilities rt m sample =
     take 25 (js_sort (cmp_flip (cmp_on interestingness real_cmp))
       (map (\<lambda>c. tokenProbability c (jm_junk m) (jm_good m))
         (List.map_filter (\<lambda>t. map_of (jm_tokens m) t) (junkTokens rt sample))))"

definition assessJunk :: "js_runtime \<Rightarrow> junk_model \<Rightarrow> training_sample \<Rightarrow> real \<Rightarrow> junk_assessment" where
  "assessJunk rt m sample threshold =
     (let bounded = min (999 / 1000) (max (1 / 2) threshold);
          result = (\<lambda>verdict score n. \<lparr>ja_verdict = verdict, ja_score = score, ja_threshold = bounded,
            ja_token_count = n, ja_trained_junk = jm_junk m, ja_trained_good = jm_good m\<rparr>);
          ps = token_probabilities rt m sample; score = combined_score ps
      in if jm_junk m < JUNK_TRAINING_MINIMUM \<or> jm_good m < JUNK_TRAINING_MINIMUM
         then result VerdictUntrained (1 / 2) 0
         else if ps = [] then result VerdictUncertain (1 / 2) 0
         else result (if score \<ge> bounded then VerdictJunk
                      else if score \<le> 1 - bounded then VerdictNotJunk else VerdictUncertain)
                score (length ps))"

definition junk_model_ready :: "junk_model \<Rightarrow> bool" where
  "junk_model_ready m = (jm_junk m \<ge> JUNK_TRAINING_MINIMUM \<and> jm_good m \<ge> JUNK_TRAINING_MINIMUM)"

section \<open>Invariant\<close>

definition counts_ok :: "token_counts \<Rightarrow> bool" where
  "counts_ok c = (0 < tc_junk c + tc_good c
     \<and> int (tc_junk c) \<le> max_safe_integer \<and> int (tc_good c) \<le> max_safe_integer)"

definition junk_tokens_ok :: "(string, token_counts) entries \<Rightarrow> bool" where
  "junk_tokens_ok ts = (distinct (keys_of ts) \<and> list_all (\<lambda>(_, c). counts_ok c) ts)"

definition junk_model_ok :: "junk_model \<Rightarrow> bool" where
  "junk_model_ok m = (junk_tokens_ok (jm_tokens m) \<and> length (jm_tokens m) \<le> JUNK_MODEL_TOKEN_LIMIT)"



lemma junk_tokens_ok_update:
  "junk_tokens_ok ts \<Longrightarrow> counts_ok c \<Longrightarrow> junk_tokens_ok (AList.update t c ts)"
  by (auto simp: junk_tokens_ok_def list_all_iff dest!: update_entry_cases)

lemma junk_tokens_ok_delete: "junk_tokens_ok ts \<Longrightarrow> junk_tokens_ok (AList.delete t ts)"
  by (auto simp: junk_tokens_ok_def list_all_iff dest!: delete_entry)

lemma junk_tokens_ok_lookup: "junk_tokens_ok ts \<Longrightarrow> map_of ts t = Some c \<Longrightarrow> counts_ok c"
  by (auto simp: junk_tokens_ok_def list_all_iff dest!: map_of_SomeD)

lemma counts_ok_add: "counts_ok c \<or> c = \<lparr>tc_junk = 0, tc_good = 0\<rparr> \<Longrightarrow> counts_ok (add_count label c)"
  by (cases label) (auto simp: counts_ok_def add_count_def max_safe_integer_def)

lemma counts_ok_drop:
  "counts_ok c \<Longrightarrow> tc_junk (drop_count label c) \<noteq> 0 \<or> tc_good (drop_count label c) \<noteq> 0 \<Longrightarrow>
   counts_ok (drop_count label c)"
  by (cases label) (auto simp: counts_ok_def drop_count_def)

lemma train_token_ok: "junk_tokens_ok ts \<Longrightarrow> junk_tokens_ok (train_token label ts t)"
  unfolding train_token_def
  by (cases "map_of ts t")
    (auto intro!: junk_tokens_ok_update counts_ok_add intro: junk_tokens_ok_lookup)

lemma untrain_token_ok: "junk_tokens_ok ts \<Longrightarrow> junk_tokens_ok (untrain_token label ts t)"
  by (cases "map_of ts t")
    (auto simp: untrain_token_def Let_def
      intro!: junk_tokens_ok_delete junk_tokens_ok_update counts_ok_drop intro: junk_tokens_ok_lookup)

lemma foldl_ok: "(\<And>ts t. P ts \<Longrightarrow> P (f ts t)) \<Longrightarrow> P ts \<Longrightarrow> P (foldl f ts us)"
  by (induction us arbitrary: ts) auto

lemma pruneTokens_ok: "junk_tokens_ok ts \<Longrightarrow> junk_tokens_ok (pruneTokens rt ts)"
  by (auto simp: pruneTokens_def junk_tokens_ok_def list_all_iff distinct_take take_map [symmetric]
      dest!: in_set_takeD)

lemma untrain_token_length: "length (untrain_token label ts t) \<le> length ts"
proof -
  have "length (AList.update t c ts) = length ts" if "map_of ts t = Some d" for c d
    using that by (induction ts) auto
  then show ?thesis
    by (auto simp: untrain_token_def Let_def length_delete_le split: option.split)
qed

section \<open>What training does to each token\<close>








section \<open>The log-space score is the Bayesian product\<close>

lemma clamped_bounds: "0 < clamped p" "clamped p < 1"
  by (auto simp: clamped_def)

lemma log_fold:
  "foldl log_step (a, b) ps
   = (a + (\<Sum>p\<leftarrow>ps. ln (clamped p)), b + (\<Sum>p\<leftarrow>ps. ln (1 - clamped p)))"
  by (induction ps arbitrary: a b) (auto simp: log_step_def)

lemma exp_sum_ln: "(\<And>x. x \<in> set xs \<Longrightarrow> 0 < (f x :: real)) \<Longrightarrow> exp (\<Sum>x\<leftarrow>xs. ln (f x)) = (\<Prod>x\<leftarrow>xs. f x)"
  by (induction xs) (auto simp: exp_add)

lemma prod_list_pos: "(\<And>x. x \<in> set xs \<Longrightarrow> 0 < (f x :: real)) \<Longrightarrow> 0 < (\<Prod>x\<leftarrow>xs. f x)"
  by (induction xs) auto

lemma combined_score_product:
  "combined_score ps =
   (\<Prod>p\<leftarrow>ps. clamped p) / ((\<Prod>p\<leftarrow>ps. clamped p) + (\<Prod>p\<leftarrow>ps. 1 - clamped p))"
proof -
  let ?j = "\<Prod>p\<leftarrow>ps. clamped p" and ?g = "\<Prod>p\<leftarrow>ps. 1 - clamped p"
  have pos: "0 < ?j" "0 < ?g"
    using clamped_bounds by (auto intro!: prod_list_pos)
  have "combined_score ps = 1 / (1 + ?g / ?j)"
    using clamped_bounds by (simp add: combined_score_def log_fold exp_diff exp_sum_ln)
  with pos show ?thesis by (simp add: field_simps)
qed

lemma combined_score_bounds: "0 < combined_score ps" "combined_score ps < 1"
  unfolding combined_score_def by (auto simp: case_prod_beta add_pos_pos)

lemma train_keeps_ok:
  assumes "junk_model_ok m"
  shows "junk_model_ok (trainJunkModel rt m sample label)"
proof -
  have "junk_tokens_ok (foldl (train_token label) (jm_tokens m) (junkTokens rt sample))"
    by (rule foldl_ok) (use assms in \<open>auto intro: train_token_ok simp: junk_model_ok_def\<close>)
  then show ?thesis
    using pruneTokens_ok by (auto simp: junk_model_ok_def trainJunkModel_def pruneTokens_def)
qed

lemma untrain_keeps_ok:
  assumes "junk_model_ok m"
  shows "junk_model_ok (untrainJunkModel rt m sample label)"
proof -
  have "junk_tokens_ok (foldl (untrain_token label) (jm_tokens m) (junkTokens rt sample))"
    by (rule foldl_ok) (use assms in \<open>auto intro: untrain_token_ok simp: junk_model_ok_def\<close>)
  moreover have "length (foldl (untrain_token label) (jm_tokens m) (junkTokens rt sample)) \<le> JUNK_MODEL_TOKEN_LIMIT"
    by (rule foldl_ok)
      (use assms untrain_token_length in \<open>auto simp: junk_model_ok_def intro: order.trans\<close>)
  ultimately show ?thesis by (simp add: junk_model_ok_def untrainJunkModel_def)
qed

section \<open>Properties\<close>

text \<open>
  training a model keeps its invariant: no token twice, no token without a count, every count a
  safe integer, and at most the limit's tokens whatever the model and the message were; untraining
  keeps it too.
\<close>

theorem junk_training_keeps_model_ok:
  assumes "junk_model_ok m"
  shows "junk_model_ok (trainJunkModel rt m sample label) \<and> junk_model_ok (untrainJunkModel rt m sample label)"
  using train_keeps_ok [OF assms] untrain_keeps_ok [OF assms] by blast

theorem junk_training_keeps_model_ok_witness:
  "junk_model_ok (trainJunkModel ascii_runtime emptyJunkModel \<lparr>ts_subject = ''win'', ts_from = [], ts_body = ''cash''\<rparr> LabelJunk)"
  using junk_training_keeps_model_ok [of emptyJunkModel]
  by (simp add: emptyJunkModel_def junk_model_ok_def junk_tokens_ok_def)



text \<open>
  The assessment in exact arithmetic (the code computes with floating-point numbers, so that for instance
  a score may be rounded to 1): it answers "untrained" exactly for a model that is not ready; otherwise it decides
  by the Bayesian combination of at most 25 clamped token probabilities (the product form the
  log-space loop stands for), the score lies strictly between 0 and 1, the threshold between 0.5 and
  0.999, and a verdict of junk and one of not junk need scores on opposite sides of a half.
\<close>

theorem assessment_is_bayesian:
  "let a = assessJunk rt m sample threshold; ps = token_probabilities rt m sample in
     (ja_verdict a = VerdictUntrained \<longleftrightarrow> \<not> junk_model_ready m)
   \<and> ja_score a = (if junk_model_ready m \<and> ps \<noteq> []
       then (\<Prod>p\<leftarrow>ps. clamped p) / ((\<Prod>p\<leftarrow>ps. clamped p) + (\<Prod>p\<leftarrow>ps. 1 - clamped p))
       else 1 / 2)
   \<and> 0 < ja_score a \<and> ja_score a < 1 \<and> 1 / 2 \<le> ja_threshold a \<and> ja_threshold a \<le> 999 / 1000
   \<and> \<not> (ja_verdict a = VerdictJunk \<and> ja_score a < 1 / 2)
   \<and> \<not> (ja_verdict a = VerdictNotJunk \<and> ja_score a > 1 / 2)
   \<and> length ps \<le> 25"
  using combined_score_bounds [of "token_probabilities rt m sample"]
  by (auto simp: assessJunk_def Let_def junk_model_ready_def combined_score_product [symmetric]
        token_probabilities_def)

end
