(* ===== verification/Message_Tags.thy ===== *)
theory Message_Tags
  imports Mail_Data
begin

text \<open>
  \<open>src/shared/message-tags.ts\<close>: the tag catalogue and the assignment of tags to messages. Errors
  are the codes of \<open>MessageTagError\<close>; a state-changing function returns the next state. The
  invariant \<open>tag_state_ok\<close> is what every operation preserves.
\<close>

section \<open>Data\<close>

definition MESSAGE_TAG_NAME_LIMIT :: nat where "MESSAGE_TAG_NAME_LIMIT = 64"
definition MESSAGE_TAG_CATALOG_LIMIT :: nat where "MESSAGE_TAG_CATALOG_LIMIT = 64"
definition MESSAGE_TAGS_PER_MESSAGE_LIMIT :: nat where "MESSAGE_TAGS_PER_MESSAGE_LIMIT = 20"
definition MESSAGE_TAG_ASSIGNMENT_LIMIT :: nat where "MESSAGE_TAG_ASSIGNMENT_LIMIT = 20000"

lemmas tag_limits = MESSAGE_TAG_NAME_LIMIT_def MESSAGE_TAG_CATALOG_LIMIT_def
  MESSAGE_TAGS_PER_MESSAGE_LIMIT_def MESSAGE_TAG_ASSIGNMENT_LIMIT_def

record message_tag =
  tag_id :: string
  tag_name :: string
  tag_colour :: string
  tag_ordinal :: int
  tag_built_in :: bool

type_synonym tag_assignments = "(string, string list) entries"

record tag_state =
  catalog :: "message_tag list"
  assignments :: tag_assignments

datatype tag_error =
  TAG_NAME_REQUIRED | TAG_COLOUR_INVALID | TAG_LIMIT_REACHED | TAG_NAME_TAKEN | TAG_NOT_FOUND | TAG_BUILT_IN

definition built_in_tag :: "string \<Rightarrow> string \<Rightarrow> string \<Rightarrow> int \<Rightarrow> message_tag" where
  "built_in_tag i n c k =
     \<lparr>tag_id = i, tag_name = n, tag_colour = c, tag_ordinal = k, tag_built_in = True\<rparr>"

definition builtInMessageTags :: "message_tag list" where
  "builtInMessageTags =
     [built_in_tag ''important'' ''Important'' ''#c62828'' 0,
      built_in_tag ''work'' ''Work'' ''#1565c0'' 1,
      built_in_tag ''personal'' ''Personal'' ''#2e7d32'' 2,
      built_in_tag ''to-do'' ''To Do'' ''#ef6c00'' 3,
      built_in_tag ''later'' ''Later'' ''#6a1b9a'' 4]"

definition emptyMessageTagState :: tag_state where
  "emptyMessageTagState = \<lparr>catalog = builtInMessageTags, assignments = []\<rparr>"

section \<open>Keys\<close>

definition messageTagKey :: "string \<Rightarrow> string \<Rightarrow> nat \<Rightarrow> string option \<Rightarrow> string" where
  "messageTagKey acct path uid validity =
     join [nul] [acct, path, (case validity of None \<Rightarrow> [] | Some v \<Rightarrow> v), nat_text uid]"

definition messageTagKeyFor :: "message_summary \<Rightarrow> string" where
  "messageTagKeyFor m = messageTagKey (ms_account m) (ms_folder m) (ms_uid m) (ms_uid_validity m)"

definition messageTagKeyAccountId :: "string \<Rightarrow> string option" where
  "messageTagKeyAccountId key =
     (let parts = split_on nul key
      in if length parts = 4 \<and> parts ! 0 \<noteq> [] then Some (parts ! 0) else None)"

definition messageTagKeyFolderPath :: "string \<Rightarrow> string option" where
  "messageTagKeyFolderPath key =
     (let parts = split_on nul key in if length parts = 4 then Some (parts ! 1) else None)"

section \<open>Names, colours and identifiers\<close>

definition normalizeMessageTagName :: "js_runtime \<Rightarrow> string \<Rightarrow> string" where
  "normalizeMessageTagName rt value =
     take MESSAGE_TAG_NAME_LIMIT (trim (collapse_runs is_space '' '' (nfkc rt value)))"

definition is_colour :: "nat \<Rightarrow> string \<Rightarrow> bool" where
  "is_colour n s = (case s of [] \<Rightarrow> False | c # cs \<Rightarrow> c = CHR ''#'' \<and> length cs = n \<and> list_all is_hex_lower cs)"

definition normalizeMessageTagColour :: "string \<Rightarrow> string option" where
  "normalizeMessageTagColour value =
     (let candidate = lower (trim value);
          expanded = (if is_colour 3 candidate
                      then CHR ''#'' # concat (map (\<lambda>c. [c, c]) (tl candidate)) else candidate)
      in if is_colour 6 expanded then Some expanded else None)"

text \<open>\<open>replace(/^-+|-+$/gu, "")\<close>.\<close>

definition strip_hyphens :: "string \<Rightarrow> string" where
  "strip_hyphens s =
     rev (dropWhile (\<lambda>c. c = CHR ''-'') (rev (dropWhile (\<lambda>c. c = CHR ''-'') s)))"

definition messageTagId :: "js_runtime \<Rightarrow> string \<Rightarrow> string" where
  "messageTagId rt name =
     (let slug = take MESSAGE_TAG_NAME_LIMIT
                   (strip_hyphens
                     (collapse_runs (\<lambda>c. \<not> is_letter c \<and> \<not> is_number c) ''-''
                       (lower (normalizeMessageTagName rt name))))
      in if slug = [] then ''tag'' else slug)"

definition suffixed :: "string \<Rightarrow> nat \<Rightarrow> string" where
  "suffixed candidate suffix = candidate @ ''-'' @ nat_text suffix"

text \<open>The loop over suffixes 2 to 65 takes the first free one; \<open>taken\<close> lists the identifiers in use.\<close>

definition uniqueTagId :: "string \<Rightarrow> string list \<Rightarrow> string" where
  "uniqueTagId candidate taken =
     (if candidate \<notin> set taken then candidate
      else case List.find (\<lambda>k. suffixed candidate k \<notin> set taken) [2..<MESSAGE_TAG_CATALOG_LIMIT + 2] of
             Some k \<Rightarrow> suffixed candidate k
           | None \<Rightarrow> suffixed candidate (length (unique taken) + 1))"

definition tag_comparison :: "js_runtime \<Rightarrow> message_tag comparison" where
  "tag_comparison rt =
     cmp_chain (cmp_on tag_ordinal int_cmp)
       (cmp_chain (cmp_on tag_name (collate rt)) (cmp_on tag_id (collate rt)))"

definition sortMessageTags :: "js_runtime \<Rightarrow> message_tag list \<Rightarrow> message_tag list" where
  "sortMessageTags rt tags = js_sort (tag_comparison rt) tags"

section \<open>Catalogue operations\<close>

definition assertName :: "js_runtime \<Rightarrow> string \<Rightarrow> (tag_error, string) result" where
  "assertName rt name =
     (let normalized = normalizeMessageTagName rt name
      in if normalized = [] then Inl TAG_NAME_REQUIRED else Inr normalized)"

definition assertColour :: "string \<Rightarrow> (tag_error, string) result" where
  "assertColour colour =
     (case normalizeMessageTagColour colour of None \<Rightarrow> Inl TAG_COLOUR_INVALID | Some c \<Rightarrow> Inr c)"

definition name_taken :: "message_tag list \<Rightarrow> string \<Rightarrow> string option \<Rightarrow> bool" where
  "name_taken tags name except =
     list_ex (\<lambda>t. Some (tag_id t) \<noteq> except \<and> lower (tag_name t) = lower name) tags"

definition next_ordinal :: "int list \<Rightarrow> int" where
  "next_ordinal ordinals = foldl max (-1) ordinals + 1"

definition createMessageTag ::
  "js_runtime \<Rightarrow> message_tag list \<Rightarrow> string \<Rightarrow> string \<Rightarrow> (tag_error, message_tag) result" where
  "createMessageTag rt tags name colour =
     (if length tags \<ge> MESSAGE_TAG_CATALOG_LIMIT then Inl TAG_LIMIT_REACHED
      else case assertName rt name of Inl e \<Rightarrow> Inl e
      | Inr n \<Rightarrow>
        (if name_taken tags n None then Inl TAG_NAME_TAKEN
         else case assertColour colour of Inl e \<Rightarrow> Inl e
         | Inr c \<Rightarrow> Inr \<lparr>tag_id = uniqueTagId (messageTagId rt n) (map tag_id tags),
                         tag_name = n, tag_colour = c,
                         tag_ordinal = next_ordinal (map tag_ordinal tags), tag_built_in = False\<rparr>))"

record tag_patch =
  tp_name :: "string option"
  tp_colour :: "string option"
  tp_ordinal :: "int option"

definition updateMessageTag ::
  "js_runtime \<Rightarrow> message_tag list \<Rightarrow> string \<Rightarrow> tag_patch \<Rightarrow> (tag_error, message_tag list) result" where
  "updateMessageTag rt tags i patch =
     (case List.find (\<lambda>t. tag_id t = i) tags of None \<Rightarrow> Inl TAG_NOT_FOUND
      | Some existing \<Rightarrow>
        (case (case tp_name patch of None \<Rightarrow> Inr (tag_name existing) | Some n \<Rightarrow> assertName rt n) of
           Inl e \<Rightarrow> Inl e
         | Inr name \<Rightarrow>
           (if tp_name patch \<noteq> None \<and> name_taken tags name (Some i) then Inl TAG_NAME_TAKEN
            else case (case tp_colour patch of None \<Rightarrow> Inr (tag_colour existing) | Some c \<Rightarrow> assertColour c) of
              Inl e \<Rightarrow> Inl e
            | Inr colour \<Rightarrow>
              (let ordinal = (case tp_ordinal patch of None \<Rightarrow> tag_ordinal existing
                              | Some k \<Rightarrow> if \<not> is_safe_integer k then tag_ordinal existing
                                          else max 0 (min (int MESSAGE_TAG_CATALOG_LIMIT) k))
               in Inr (sortMessageTags rt
                    (map (\<lambda>t. if tag_id t = i
                              then t\<lparr>tag_name := name, tag_colour := colour, tag_ordinal := ordinal\<rparr>
                              else t) tags))))))"

definition deleteMessageTag :: "tag_state \<Rightarrow> string \<Rightarrow> (tag_error, tag_state) result" where
  "deleteMessageTag state i =
     (case List.find (\<lambda>t. tag_id t = i) (catalog state) of None \<Rightarrow> Inl TAG_NOT_FOUND
      | Some existing \<Rightarrow>
        (if tag_built_in existing then Inl TAG_BUILT_IN
         else Inr \<lparr>catalog = filter (\<lambda>t. tag_id t \<noteq> i) (catalog state),
                   assignments = filter (\<lambda>(k, ids). ids \<noteq> [])
                     (map (\<lambda>(k, ids). (k, filter (\<lambda>v. v \<noteq> i) ids)) (assignments state))\<rparr>))"

section \<open>Assignments\<close>

definition ids_at :: "tag_state \<Rightarrow> string \<Rightarrow> string list" where
  "ids_at state key = (case map_of (assignments state) key of None \<Rightarrow> [] | Some ids \<Rightarrow> ids)"

definition messageTagsFor :: "js_runtime \<Rightarrow> tag_state \<Rightarrow> string \<Rightarrow> message_tag list" where
  "messageTagsFor rt state key =
     sortMessageTags rt (filter (\<lambda>t. tag_id t \<in> set (ids_at state key)) (catalog state))"

definition boundAssignments :: "tag_assignments \<Rightarrow> tag_assignments" where
  "boundAssignments es =
     (if length es \<le> MESSAGE_TAG_ASSIGNMENT_LIMIT then es
      else last_entries MESSAGE_TAG_ASSIGNMENT_LIMIT es)"

definition setMessageTags :: "js_runtime \<Rightarrow> tag_state \<Rightarrow> string \<Rightarrow> string list \<Rightarrow> tag_state" where
  "setMessageTags rt state key tagIds =
     (let known = map tag_id (catalog state);
          ordered = map tag_id (sortMessageTags rt
            (filter (\<lambda>t. tag_id t \<in> set tagIds \<and> tag_id t \<in> set known) (catalog state)));
          bounded = take MESSAGE_TAGS_PER_MESSAGE_LIMIT ordered;
          es = (if bounded \<noteq> [] then AList.update key bounded (assignments state)
                else AList.delete key (assignments state))
      in \<lparr>catalog = catalog state, assignments = boundAssignments es\<rparr>)"

definition toggleMessageTag ::
  "js_runtime \<Rightarrow> tag_state \<Rightarrow> string \<Rightarrow> string \<Rightarrow> bool \<Rightarrow> (tag_error, tag_state) result" where
  "toggleMessageTag rt state key i applied =
     (if \<not> list_ex (\<lambda>t. tag_id t = i) (catalog state) then Inl TAG_NOT_FOUND
      else let current = ids_at state key;
               nxt = (if applied then unique (current @ [i]) else filter (\<lambda>v. v \<noteq> i) current)
           in Inr (setMessageTags rt state key nxt))"

definition retagMovedMessage :: "tag_state \<Rightarrow> string \<Rightarrow> string option \<Rightarrow> tag_state" where
  "retagMovedMessage state fromKey toKey =
     (case map_of (assignments state) fromKey of None \<Rightarrow> state
      | Some ids \<Rightarrow>
        (let es = AList.delete fromKey (assignments state);
             es' = (case toKey of None \<Rightarrow> es | Some k \<Rightarrow> if k = [] then es else AList.update k ids es)
         in \<lparr>catalog = catalog state, assignments = boundAssignments es'\<rparr>))"

definition forgetMessageTags :: "tag_state \<Rightarrow> (string \<Rightarrow> bool) \<Rightarrow> tag_state" where
  "forgetMessageTags state predicate =
     \<lparr>catalog = catalog state, assignments = filter (\<lambda>(k, _). \<not> predicate k) (assignments state)\<rparr>"

definition messageTagUsageCounts :: "tag_state \<Rightarrow> (string, nat) entries" where
  "messageTagUsageCounts state =
     foldl (\<lambda>counts (k, ids).
              foldl (\<lambda>acc i. case map_of acc i of None \<Rightarrow> acc | Some n \<Rightarrow> AList.update i (n + 1) acc)
                counts (unique ids))
       (map (\<lambda>t. (tag_id t, 0)) (catalog state)) (assignments state)"

section \<open>Keys can be read back\<close>

lemma messageTagKey_parts:
  assumes "nul \<notin> set acct" and "nul \<notin> set path" and "\<And>v. validity = Some v \<Longrightarrow> nul \<notin> set v"
  shows "split_on nul (messageTagKey acct path uid validity)
    = [acct, path, (case validity of None \<Rightarrow> [] | Some v \<Rightarrow> v), nat_text uid]"
proof -
  have "nul \<notin> set (nat_text uid)"
    using nat_text_digits [of nul uid] by (auto simp: nul_def is_digit_def code_def)
  with assms show ?thesis
    unfolding messageTagKey_def by (intro split_on_join) (auto split: option.splits)
qed

section \<open>Identifiers are fresh\<close>

lemma suffixed_inj: "inj (suffixed c)"
  by (auto simp: inj_def suffixed_def nat_text_inj)

lemma uniqueTagId_fresh:
  assumes "length taken < MESSAGE_TAG_CATALOG_LIMIT"
  shows "uniqueTagId candidate taken \<notin> set taken"
proof (cases "List.find (\<lambda>k. suffixed candidate k \<notin> set taken) [2..<MESSAGE_TAG_CATALOG_LIMIT + 2]")
  case None
  then have "suffixed candidate ` {2..<MESSAGE_TAG_CATALOG_LIMIT + 2} \<subseteq> set taken"
    unfolding find_None_none set_upt by blast
  then have "card (suffixed candidate ` {2..<MESSAGE_TAG_CATALOG_LIMIT + 2}) \<le> length taken"
    by (meson card_length card_mono finite_set order_trans)
  then show ?thesis
    using assms by (simp add: card_image inj_on_subset [OF suffixed_inj])
next
  case (Some k)
  then show ?thesis
    using find_Some_mem [OF Some] by (auto simp: uniqueTagId_def)
qed

section \<open>The catalogue and assignment invariant\<close>

definition tag_catalog_ok :: "message_tag list \<Rightarrow> bool" where
  "tag_catalog_ok tags =
     (length tags \<le> MESSAGE_TAG_CATALOG_LIMIT
      \<and> distinct (map tag_id tags)
      \<and> distinct (map (\<lambda>t. lower (tag_name t)) tags)
      \<and> list_all (\<lambda>t. tag_name t \<noteq> [] \<and> length (tag_name t) \<le> MESSAGE_TAG_NAME_LIMIT
                      \<and> is_colour 6 (tag_colour t) \<and> 0 \<le> tag_ordinal t) tags)"

definition tag_assignments_ok :: "message_tag list \<Rightarrow> tag_assignments \<Rightarrow> bool" where
  "tag_assignments_ok tags es =
     (length es \<le> MESSAGE_TAG_ASSIGNMENT_LIMIT
      \<and> distinct (keys_of es)
      \<and> list_all (\<lambda>(_, ids). ids \<noteq> [] \<and> length ids \<le> MESSAGE_TAGS_PER_MESSAGE_LIMIT \<and> distinct ids
                             \<and> set ids \<subseteq> set (map tag_id tags)) es)"

definition tag_state_ok :: "tag_state \<Rightarrow> bool" where
  "tag_state_ok st = (tag_catalog_ok (catalog st) \<and> tag_assignments_ok (catalog st) (assignments st))"

lemma tag_state_ok_empty: "tag_state_ok emptyMessageTagState"
  by code_simp

lemma set_sortMessageTags [simp, list_ops]: "set (sortMessageTags rt tags) = set tags"
  by (simp add: sortMessageTags_def)

lemma length_sortMessageTags [simp, list_ops]: "length (sortMessageTags rt tags) = length tags"
  by (simp add: sortMessageTags_def)

lemma distinct_map_sortMessageTags [simp, list_ops]:
  "distinct (map f (sortMessageTags rt tags)) = distinct (map f tags)"
  by (simp add: sortMessageTags_def)

lemma tag_catalog_ok_sort [simp]: "tag_catalog_ok (sortMessageTags rt tags) = tag_catalog_ok tags"
  by (simp add: tag_catalog_ok_def list_all_iff)

lemma normalized_name_length: "length (normalizeMessageTagName rt v) \<le> MESSAGE_TAG_NAME_LIMIT"
  by (simp add: normalizeMessageTagName_def)

lemma assertName_ok:
  "assertName rt v = Inr n \<Longrightarrow> n \<noteq> [] \<and> length n \<le> MESSAGE_TAG_NAME_LIMIT \<and> n = normalizeMessageTagName rt v"
  using normalized_name_length [of rt v] by (auto simp: assertName_def Let_def split: if_splits)

lemma assertColour_ok: "assertColour v = Inr c \<Longrightarrow> is_colour 6 c"
  by (auto simp: assertColour_def normalizeMessageTagColour_def Let_def split: option.splits if_splits)

lemma foldl_max_ge: "(a::int) \<le> foldl max a xs"
  by (induction xs arbitrary: a) (auto intro: order_trans [OF max.cobounded1])

lemma foldl_max_mem: "x \<in> set xs \<Longrightarrow> (x::int) \<le> foldl max a xs"
proof (induction xs arbitrary: a)
  case (Cons y ys)
  then show ?case
    using foldl_max_ge [of "max a y" ys] by auto
qed simp

lemma next_ordinal_nonneg: "0 \<le> next_ordinal xs"
  using foldl_max_ge [of "-1" xs] by (simp add: next_ordinal_def)

lemma next_ordinal_above: "x \<in> set xs \<Longrightarrow> x < next_ordinal xs"
  using foldl_max_mem [of x xs "-1"] by (simp add: next_ordinal_def)

lemma createMessageTag_ok:
  assumes ok: "tag_catalog_ok tags" and mk: "createMessageTag rt tags name colour = Inr t"
  shows "tag_catalog_ok (tags @ [t])" and "tag_id t \<notin> set (map tag_id tags)"
proof -
  from mk obtain n c where len: "length tags < MESSAGE_TAG_CATALOG_LIMIT"
    and n: "assertName rt name = Inr n" and c: "assertColour colour = Inr c"
    and free: "\<not> name_taken tags n None"
    and t: "t = \<lparr>tag_id = uniqueTagId (messageTagId rt n) (map tag_id tags), tag_name = n,
                tag_colour = c, tag_ordinal = next_ordinal (map tag_ordinal tags), tag_built_in = False\<rparr>"
    by (auto simp: createMessageTag_def split: if_splits sum.splits)
  show fresh: "tag_id t \<notin> set (map tag_id tags)"
    using uniqueTagId_fresh [of "map tag_id tags"] len by (simp add: t)
  show "tag_catalog_ok (tags @ [t])"
    using ok len free fresh assertName_ok [OF n] assertColour_ok [OF c]
      next_ordinal_nonneg [of "map tag_ordinal tags"]
    by (auto simp: tag_catalog_ok_def t name_taken_def list_all_iff list_ex_iff)
qed

lemma distinct_map_replace:
  assumes "distinct (map key xs)" and "distinct (map f xs)"
    and "\<And>x. x \<in> set xs \<Longrightarrow> key x \<noteq> i \<Longrightarrow> f x \<noteq> v"
    and "\<And>x. x \<in> set xs \<Longrightarrow> g x = (if key x = i then v else f x)"
  shows "distinct (map g xs)"
  using assms
proof (induction xs)
  case (Cons x xs)
  have "distinct (map g xs)"
    using Cons.prems by (intro Cons.IH) auto
  moreover have "g x \<notin> g ` set xs"
  proof
    assume "g x \<in> g ` set xs"
    then obtain y where y: "y \<in> set xs" "g x = g y" by blast
    show False
      using y Cons.prems(1,2) Cons.prems(3) [of x] Cons.prems(3) [of y]
        Cons.prems(4) [of x] Cons.prems(4) [of y]
      by (auto split: if_splits)
  qed
  ultimately show ?case by simp
qed simp

lemma updateMessageTag_ok:
  assumes ok: "tag_catalog_ok tags" and up: "updateMessageTag rt tags i patch = Inr tags'"
  shows "tag_catalog_ok tags'" and "set (map tag_id tags') = set (map tag_id tags)"
proof -
  from up obtain existing name colour ordinal where
    found: "List.find (\<lambda>t. tag_id t = i) tags = Some existing" and
    name: "(case tp_name patch of None \<Rightarrow> Inr (tag_name existing) | Some n \<Rightarrow> assertName rt n) = Inr name" and
    free: "tp_name patch = None \<or> \<not> name_taken tags name (Some i)" and
    colour: "(case tp_colour patch of None \<Rightarrow> Inr (tag_colour existing) | Some c \<Rightarrow> assertColour c) = Inr colour" and
    ordinal: "ordinal = (case tp_ordinal patch of None \<Rightarrow> tag_ordinal existing
                         | Some k \<Rightarrow> if \<not> is_safe_integer k then tag_ordinal existing
                                     else max 0 (min (int MESSAGE_TAG_CATALOG_LIMIT) k))" and
    tags': "tags' = sortMessageTags rt
       (map (\<lambda>t. if tag_id t = i then t\<lparr>tag_name := name, tag_colour := colour, tag_ordinal := ordinal\<rparr> else t) tags)"
    (is "_ = sortMessageTags rt (map ?g tags)")
    by (auto simp: updateMessageTag_def Let_def split: option.splits sum.splits if_splits)
  have ex: "existing \<in> set tags" "tag_id existing = i"
    using find_Some_mem [OF found] by auto
  have ids: "map tag_id (map ?g tags) = map tag_id tags"
    by auto
  have nm: "name \<noteq> [] \<and> length name \<le> MESSAGE_TAG_NAME_LIMIT"
    using name ok ex assertName_ok by (auto simp: tag_catalog_ok_def list_all_iff split: option.splits)
  have cl: "is_colour 6 colour"
    using colour ok ex assertColour_ok by (auto simp: tag_catalog_ok_def list_all_iff split: option.splits)
  have od: "0 \<le> ordinal"
    using ordinal ok ex by (auto simp: tag_catalog_ok_def list_all_iff split: option.splits if_splits)
  have other: "lower (tag_name t) \<noteq> lower name" if "t \<in> set tags" "tag_id t \<noteq> i" for t
  proof (cases "tp_name patch")
    case None
    with name have "name = tag_name existing" by simp
    with ok ex that show ?thesis
      by (auto simp: tag_catalog_ok_def distinct_map inj_on_def)
  next
    case (Some n)
    with free that show ?thesis by (auto simp: name_taken_def list_ex_iff)
  qed
  have names: "distinct (map (\<lambda>t. lower (tag_name (?g t))) tags)"
    by (rule distinct_map_replace [where key = tag_id and f = "\<lambda>t. lower (tag_name t)" and i = i and v = "lower name"])
      (use ok other in \<open>auto simp: tag_catalog_ok_def\<close>)
  have "distinct (map (\<lambda>t. lower (tag_name t)) (map ?g tags))"
    using names by (simp only: map_map comp_def)
  then show "tag_catalog_ok tags'"
    using ok nm cl od ids by (auto simp: tag_catalog_ok_def list_all_iff tags' simp del: map_map)
  show "set (map tag_id tags') = set (map tag_id tags)"
    using arg_cong [OF ids, of set] by (simp add: tags' del: map_map)
qed

lemma tag_assignments_ok_mono:
  "tag_assignments_ok tags es \<Longrightarrow> set (map tag_id tags) \<subseteq> set (map tag_id tags') \<Longrightarrow> tag_assignments_ok tags' es"
  by (fastforce simp: tag_assignments_ok_def list_all_iff)

lemma tag_assignments_ok_subset:
  "tag_assignments_ok tags es \<Longrightarrow> set es' \<subseteq> set es \<Longrightarrow> distinct (keys_of es') \<Longrightarrow> length es' \<le> length es
   \<Longrightarrow> tag_assignments_ok tags es'"
  unfolding tag_assignments_ok_def list_all_iff by (meson le_trans subset_iff)

lemma tag_assignments_ok_bound:
  assumes "distinct (keys_of es)"
    and "\<And>k ids. (k, ids) \<in> set es \<Longrightarrow> ids \<noteq> [] \<and> length ids \<le> MESSAGE_TAGS_PER_MESSAGE_LIMIT \<and> distinct ids
                       \<and> set ids \<subseteq> set (map tag_id tags)"
  shows "tag_assignments_ok tags (boundAssignments es)"
proof -
  have "set (boundAssignments es) \<subseteq> set es"
    by (auto simp: boundAssignments_def last_entries_def dest: in_set_dropD)
  moreover have "length (boundAssignments es) \<le> MESSAGE_TAG_ASSIGNMENT_LIMIT"
    by (simp add: boundAssignments_def length_last_entries)
  moreover have "distinct (keys_of (boundAssignments es))"
    using assms(1) by (auto simp: boundAssignments_def last_entries_def)
  ultimately show ?thesis
    using assms(2) by (fastforce simp: tag_assignments_ok_def list_all_iff)
qed

lemma assignment_entry_ok:
  "tag_assignments_ok tags es \<Longrightarrow> (k, ids) \<in> set es \<Longrightarrow>
   ids \<noteq> [] \<and> length ids \<le> MESSAGE_TAGS_PER_MESSAGE_LIMIT \<and> distinct ids \<and> set ids \<subseteq> set (map tag_id tags)"
  by (fastforce simp: tag_assignments_ok_def list_all_iff)

lemma assignment_keys_distinct: "tag_assignments_ok tags es \<Longrightarrow> distinct (keys_of es)"
  by (simp add: tag_assignments_ok_def)

lemma deleteMessageTag_ok:
  assumes "tag_state_ok st" and del: "deleteMessageTag st i = Inr st'"
  shows "tag_state_ok st'"
proof -
  let ?cut = "map (\<lambda>(k, ids). (k, filter (\<lambda>v. v \<noteq> i) ids)) (assignments st)"
  from del have st': "catalog st' = filter (\<lambda>t. tag_id t \<noteq> i) (catalog st)"
    "assignments st' = filter (\<lambda>(k, ids). ids \<noteq> []) ?cut"
    by (auto simp: deleteMessageTag_def split: option.splits if_splits)
  have cat: "tag_catalog_ok (catalog st)" and asg: "tag_assignments_ok (catalog st) (assignments st)"
    using assms by (auto simp: tag_state_ok_def)
  have "tag_catalog_ok (catalog st')"
    using cat by (auto simp: tag_catalog_ok_def st' list_all_iff distinct_map_filter intro: le_trans [OF length_filter_le])
  moreover have keys: "keys_of ?cut = keys_of (assignments st)"
    by auto
  have "distinct (keys_of (assignments st'))"
    unfolding st' using assignment_keys_distinct [OF asg] by (intro distinct_keys_filter) (simp only: keys)
  moreover have "length (assignments st') \<le> MESSAGE_TAG_ASSIGNMENT_LIMIT"
    using asg le_trans [OF length_filter_le] by (force simp: tag_assignments_ok_def st')
  moreover have "ids \<noteq> [] \<and> length ids \<le> MESSAGE_TAGS_PER_MESSAGE_LIMIT \<and> distinct ids
      \<and> set ids \<subseteq> set (map tag_id (catalog st'))" if mem: "(k, ids) \<in> set (assignments st')" for k ids
  proof -
    from mem obtain ids0 where ids0: "(k, ids0) \<in> set (assignments st)" "ids = filter (\<lambda>v. v \<noteq> i) ids0" "ids \<noteq> []"
      by (auto simp: st')
    with assignment_entry_ok [OF asg ids0(1)] show ?thesis
      by (auto simp: st' intro: le_trans [OF length_filter_le])
  qed
  ultimately show ?thesis
    by (fastforce simp: tag_state_ok_def tag_assignments_ok_def list_all_iff)
qed

definition wanted_ids :: "js_runtime \<Rightarrow> message_tag list \<Rightarrow> string list \<Rightarrow> string list" where
  "wanted_ids rt tags wanted =
     take MESSAGE_TAGS_PER_MESSAGE_LIMIT
       (map tag_id (filter (\<lambda>t. tag_id t \<in> set wanted) (sortMessageTags rt tags)))"

lemma sort_insert_filter:
  assumes "comparator c" and "sorted_wrt (\<lambda>x y. c x y \<le> 0) xs"
  shows "filter P (sort_insert c x xs) = (if P x then sort_insert c x (filter P xs) else filter P xs)"
  using assms(2)
proof (induction xs)
  case (Cons y ys)
  have "c x y \<le> 0 \<Longrightarrow> sort_insert c x (filter P ys) = x # filter P ys"
    using Cons.prems comparator.le_trans [OF assms(1), of x y]
    by (intro comparator.sort_insert_front [OF assms(1)]) auto
  with Cons show ?case by auto
qed simp

lemma js_sort_filter: "comparator c \<Longrightarrow> js_sort c (filter P xs) = filter P (js_sort c xs)"
  by (induction xs) (auto simp: sort_insert_filter comparator.ordered_sort)

lemma comparator_tags: "comparator (collate rt) \<Longrightarrow> comparator (tag_comparison rt)"
  unfolding tag_comparison_def
  by (intro comparator_chain comparator_on ints.comparator_axioms)

lemma setMessageTags_entries:
  assumes "comparator (collate rt)"
  shows "setMessageTags rt st key ids =
    (let bounded = wanted_ids rt (catalog st) ids
     in \<lparr>catalog = catalog st,
         assignments = boundAssignments
           (if bounded \<noteq> [] then AList.update key bounded (assignments st)
            else AList.delete key (assignments st))\<rparr>)"
proof -
  have "filter (\<lambda>t. tag_id t \<in> set ids \<and> tag_id t \<in> set (map tag_id (catalog st))) (catalog st)
      = filter (\<lambda>t. tag_id t \<in> set ids) (catalog st)"
    by (rule filter_cong) auto
  then show ?thesis
    unfolding setMessageTags_def wanted_ids_def sortMessageTags_def Let_def
    by (simp only: js_sort_filter [OF comparator_tags [OF assms]])
qed

lemma setMessageTags_ok:
  assumes "tag_state_ok st"
  shows "tag_state_ok (setMessageTags rt st key ids)"
proof -
  define sel where "sel = take MESSAGE_TAGS_PER_MESSAGE_LIMIT (map tag_id (sortMessageTags rt
     (filter (\<lambda>t. tag_id t \<in> set ids \<and> tag_id t \<in> set (map tag_id (catalog st))) (catalog st))))"
  have cat: "tag_catalog_ok (catalog st)" and asg: "tag_assignments_ok (catalog st) (assignments st)"
    using assms by (auto simp: tag_state_ok_def)
  have sel: "length sel \<le> MESSAGE_TAGS_PER_MESSAGE_LIMIT" "distinct sel" "set sel \<subseteq> set (map tag_id (catalog st))"
    using cat by (auto simp: sel_def tag_catalog_ok_def distinct_map_filter dest!: in_set_takeD)
  let ?es = "if sel \<noteq> [] then AList.update key sel (assignments st) else AList.delete key (assignments st)"
  have "tag_assignments_ok (catalog st) (boundAssignments ?es)"
  proof (rule tag_assignments_ok_bound)
    show "distinct (keys_of ?es)"
      using assignment_keys_distinct [OF asg] by auto
    fix k v assume "(k, v) \<in> set ?es"
    then have "(k, v) \<in> set (assignments st) \<or> v = sel \<and> sel \<noteq> []"
      by (auto split: if_splits dest: update_entry_cases delete_entry)
    then show "v \<noteq> [] \<and> length v \<le> MESSAGE_TAGS_PER_MESSAGE_LIMIT \<and> distinct v \<and> set v \<subseteq> set (map tag_id (catalog st))"
      using sel assignment_entry_ok [OF asg] by blast
  qed
  with cat show ?thesis
    unfolding tag_state_ok_def setMessageTags_def sel_def [symmetric] Let_def by simp
qed

lemma retagMovedMessage_ok:
  assumes "tag_state_ok st"
  shows "tag_state_ok (retagMovedMessage st fromKey toKey)"
proof (cases "map_of (assignments st) fromKey")
  case None
  with assms show ?thesis by (simp add: retagMovedMessage_def)
next
  case (Some ids)
  have cat: "tag_catalog_ok (catalog st)" and asg: "tag_assignments_ok (catalog st) (assignments st)"
    using assms by (auto simp: tag_state_ok_def)
  define es where "es = (case toKey of None \<Rightarrow> AList.delete fromKey (assignments st)
    | Some k \<Rightarrow> if k = [] then AList.delete fromKey (assignments st)
               else AList.update k ids (AList.delete fromKey (assignments st)))"
  have "tag_assignments_ok (catalog st) (boundAssignments es)"
  proof (rule tag_assignments_ok_bound)
    show "distinct (keys_of es)"
      using assignment_keys_distinct [OF asg] by (auto simp: es_def split: option.splits)
    fix k v assume "(k, v) \<in> set es"
    then have "(k, v) \<in> set (assignments st) \<or> v = ids"
      by (auto simp: es_def split: option.splits if_splits dest: update_entry_cases delete_entry)
    then show "v \<noteq> [] \<and> length v \<le> MESSAGE_TAGS_PER_MESSAGE_LIMIT \<and> distinct v \<and> set v \<subseteq> set (map tag_id (catalog st))"
      using assignment_entry_ok [OF asg] map_of_SomeD [OF Some] by blast
  qed
  moreover have "retagMovedMessage st fromKey toKey = \<lparr>catalog = catalog st, assignments = boundAssignments es\<rparr>"
    using Some by (simp add: retagMovedMessage_def es_def Let_def)
  ultimately show ?thesis
    using cat by (simp add: tag_state_ok_def)
qed

lemma forgetMessageTags_ok: "tag_state_ok st \<Longrightarrow> tag_state_ok (forgetMessageTags st p)"
proof -
  assume ok: "tag_state_ok st"
  then have asg: "tag_assignments_ok (catalog st) (assignments st)" by (simp add: tag_state_ok_def)
  have "tag_assignments_ok (catalog st) (filter (\<lambda>(k, _). \<not> p k) (assignments st))"
    by (rule tag_assignments_ok_subset [OF asg])
      (simp_all add: distinct_keys_filter assignment_keys_distinct [OF asg])
  with ok show "tag_state_ok (forgetMessageTags st p)"
    by (simp add: tag_state_ok_def forgetMessageTags_def)
qed

lemma toggleMessageTag_ok:
  "tag_state_ok st \<Longrightarrow> toggleMessageTag rt st key i b = Inr st' \<Longrightarrow> tag_state_ok st'"
  by (auto simp: toggleMessageTag_def Let_def intro: setMessageTags_ok split: if_splits)

section \<open>Reading assignments back\<close>

lemma ids_at_update: "ids_at (st\<lparr>assignments := AList.update k v es\<rparr>) k' = (if k' = k then v else ids_at (st\<lparr>assignments := es\<rparr>) k')"
  by (simp add: ids_at_def map_of_update)

lemma update_new_key: "k \<notin> set (keys_of es) \<Longrightarrow> AList.update k v es = es @ [(k, v)]"
  by (induction es) auto

lemma boundAssignments_id: "length es \<le> MESSAGE_TAG_ASSIGNMENT_LIMIT \<Longrightarrow> boundAssignments es = es"
  by (simp add: boundAssignments_def)

lemma boundAssignments_one_over:
  "length es = Suc MESSAGE_TAG_ASSIGNMENT_LIMIT \<Longrightarrow> boundAssignments es = tl es"
  by (simp add: boundAssignments_def last_entries_def drop_Suc)

lemma length_update_old: "k \<in> set (keys_of es) \<Longrightarrow> length (AList.update k v es) = length es"
  by (induction es) auto

lemma length_delete_mem: "k \<in> set (keys_of es) \<Longrightarrow> Suc (length (AList.delete k es)) \<le> length es"
proof (induction es)
  case (Cons e es)
  then show ?case
    using length_delete_le [of k es] by (cases e) auto
qed simp

lemma map_of_tl:
  "distinct (keys_of es) \<Longrightarrow> es \<noteq> [] \<Longrightarrow> map_of (tl es) k = (if k = fst (hd es) then None else map_of es k)"
  by (cases es) (auto simp: map_of_eq_None_iff)

lemma bounded_update_lookup:
  assumes ok: "tag_assignments_ok tags es"
  shows "map_of (boundAssignments (AList.update key v es)) key = Some v"
    and "k \<noteq> key \<Longrightarrow> map_of (boundAssignments (AList.update key v es)) k = map_of es k
       \<or> length es = MESSAGE_TAG_ASSIGNMENT_LIMIT \<and> key \<notin> set (keys_of es) \<and> k = fst (hd es)
         \<and> map_of (boundAssignments (AList.update key v es)) k = None"
proof -
  have len: "length es \<le> MESSAGE_TAG_ASSIGNMENT_LIMIT" and dist: "distinct (keys_of es)"
    using ok by (auto simp: tag_assignments_ok_def)
  have "map_of (boundAssignments (AList.update key v es)) key = Some v \<and>
    (k \<noteq> key \<longrightarrow> map_of (boundAssignments (AList.update key v es)) k = map_of es k
       \<or> length es = MESSAGE_TAG_ASSIGNMENT_LIMIT \<and> key \<notin> set (keys_of es) \<and> k = fst (hd es)
         \<and> map_of (boundAssignments (AList.update key v es)) k = None)" for k
  proof (cases "key \<in> set (keys_of es) \<or> length es < MESSAGE_TAG_ASSIGNMENT_LIMIT")
    case True
    then have "length (AList.update key v es) \<le> MESSAGE_TAG_ASSIGNMENT_LIMIT"
      using len length_update_old [of key es v] length_update_le [of key v es] by linarith
    then show ?thesis by (simp add: boundAssignments_id map_of_update)
  next
    case False
    then have new: "AList.update key v es = es @ [(key, v)]" and full: "length es = MESSAGE_TAG_ASSIGNMENT_LIMIT"
      using len by (auto simp: update_new_key)
    then have ne: "es \<noteq> []" by (auto simp: MESSAGE_TAG_ASSIGNMENT_LIMIT_def)
    have "boundAssignments (AList.update key v es) = tl es @ [(key, v)]"
      using full ne by (simp add: new boundAssignments_one_over)
    moreover have "key \<notin> set (keys_of es)" using False by blast
    moreover have "map_of (tl es) key = None"
      using map_of_tl [OF dist ne, of key] \<open>key \<notin> set (keys_of es)\<close> by (simp add: map_of_eq_None_iff)
    ultimately show ?thesis
      using full map_of_tl [OF dist ne, of k] by (auto simp: map_add_def split: option.splits)
  qed
  then show "map_of (boundAssignments (AList.update key v es)) key = Some v"
    and "k \<noteq> key \<Longrightarrow> map_of (boundAssignments (AList.update key v es)) k = map_of es k
       \<or> length es = MESSAGE_TAG_ASSIGNMENT_LIMIT \<and> key \<notin> set (keys_of es) \<and> k = fst (hd es)
         \<and> map_of (boundAssignments (AList.update key v es)) k = None"
    by blast+
qed

lemma bounded_delete_lookup:
  assumes "tag_assignments_ok tags es"
  shows "map_of (boundAssignments (AList.delete key es)) k = (if k = key then None else map_of es k)"
proof -
  have "length (AList.delete key es) \<le> MESSAGE_TAG_ASSIGNMENT_LIMIT"
    using assms length_delete_le [of key es] by (simp add: tag_assignments_ok_def)
  then show ?thesis by (simp add: boundAssignments_id map_of_delete)
qed

section \<open>Properties\<close>

text \<open>a tag that \<open>createMessageTag\<close> returns is new to the catalogue: its identifier is not in
  use, its name (normalized, not empty, at most 64 code units) differs from every other name even
  ignoring case, its colour is a canonical six-digit value and it sorts after all other ordinals.\<close>

theorem created_tag_is_fresh:
  assumes "createMessageTag rt tags name colour = Inr t"
  shows "tag_id t \<notin> tag_id ` set tags
    \<and> tag_name t = normalizeMessageTagName rt name \<and> tag_name t \<noteq> [] \<and> length (tag_name t) \<le> 64
    \<and> (\<forall>u \<in> set tags. lower (tag_name u) \<noteq> lower (tag_name t) \<and> tag_ordinal u < tag_ordinal t)
    \<and> is_colour 6 (tag_colour t) \<and> \<not> tag_built_in t \<and> length tags < 64"
proof -
  from assms obtain n c where "length tags < MESSAGE_TAG_CATALOG_LIMIT"
    and n: "assertName rt name = Inr n" and c: "assertColour colour = Inr c"
    and "\<not> name_taken tags n None"
    and "t = \<lparr>tag_id = uniqueTagId (messageTagId rt n) (map tag_id tags), tag_name = n,
                tag_colour = c, tag_ordinal = next_ordinal (map tag_ordinal tags), tag_built_in = False\<rparr>"
    by (auto simp: createMessageTag_def split: if_splits sum.splits)
  then show ?thesis
    using uniqueTagId_fresh [of "map tag_id tags" "messageTagId rt n"] assertName_ok [OF n] assertColour_ok [OF c]
      next_ordinal_above [of _ "map tag_ordinal tags"]
    by (auto simp: name_taken_def list_ex_iff tag_limits)
qed

theorem created_tag_is_fresh_witness:
  "\<exists>t. createMessageTag ascii_runtime builtInMessageTags ''  To   read '' ''#ABC'' = Inr t
     \<and> tag_id t \<notin> tag_id ` set builtInMessageTags \<and> tag_name t = ''To read'' \<and> tag_colour t = ''#aabbcc''"
proof -
  have mk: "createMessageTag ascii_runtime builtInMessageTags ''  To   read '' ''#ABC''
      = Inr \<lparr>tag_id = ''to-read'', tag_name = ''To read'', tag_colour = ''#aabbcc'', tag_ordinal = 5, tag_built_in = False\<rparr>"
    by code_simp
  from created_tag_is_fresh [OF mk] mk show ?thesis by auto
qed

text \<open>a tag key determines the mailbox message it was built for: the account and the folder can be
  read back, and two keys are equal only for the same account, folder, UID and UID validity.\<close>

theorem messageTagKey_identifies:
  assumes "nul \<notin> set a" and "nul \<notin> set p" and "\<And>v. validity = Some v \<Longrightarrow> nul \<notin> set v" and "a \<noteq> []"
    and "nul \<notin> set a'" and "nul \<notin> set p'" and "\<And>v. validity' = Some v \<Longrightarrow> nul \<notin> set v"
  shows "messageTagKeyAccountId (messageTagKey a p u validity) = Some a
    \<and> messageTagKeyFolderPath (messageTagKey a p u validity) = Some p
    \<and> (messageTagKey a p u validity = messageTagKey a' p' u' validity' \<longleftrightarrow>
        a = a' \<and> p = p' \<and> u = u' \<and> (case validity of None \<Rightarrow> [] | Some v \<Rightarrow> v) = (case validity' of None \<Rightarrow> [] | Some v \<Rightarrow> v))"
proof -
  note parts = messageTagKey_parts [OF assms(1-3), where uid = u] messageTagKey_parts [OF assms(5-7), where uid = u']
  have "messageTagKey a p u validity = messageTagKey a' p' u' validity' \<longleftrightarrow>
     [a, p, (case validity of None \<Rightarrow> [] | Some v \<Rightarrow> v), nat_text u]
     = [a', p', (case validity' of None \<Rightarrow> [] | Some v \<Rightarrow> v), nat_text u']"
    using parts by (metis join_split_on)
  then show ?thesis
    using assms(4) by (auto simp: messageTagKeyAccountId_def messageTagKeyFolderPath_def parts nat_text_inj Let_def)
qed

theorem messageTagKey_identifies_witness:
  "messageTagKeyFolderPath (messageTagKey ''acc'' ''INBOX'' 42 (Some ''7'')) = Some ''INBOX''"
  using messageTagKey_identifies [where a = "''acc''" and p = "''INBOX''" and validity = "Some ''7''" and u = 42
    and a' = "''acc''" and p' = "''INBOX''" and validity' = "Some ''7''" and u' = 42]
  by (simp add: nul_def)

text \<open>setting the tags of a message stores exactly the requested tags that exist, in catalogue
  order and at most 20, and touches no other message, except that a full table (20,000 messages)
  drops its oldest entry when a new message is tagged.\<close>

theorem setMessageTags_stores:
  fixes key :: string and wanted :: "string list"
  assumes "comparator (collate rt)" and "tag_state_ok st"
  defines "st' \<equiv> setMessageTags rt st key wanted"
  shows "ids_at st' key = wanted_ids rt (catalog st) wanted \<and> catalog st' = catalog st
    \<and> (\<forall>k. k \<noteq> key \<longrightarrow> ids_at st' k = ids_at st k
         \<or> length (assignments st) = 20000 \<and> k = fst (hd (assignments st)) \<and> ids_at st key = [] \<and> ids_at st' k = [])"
proof -
  have asg: "tag_assignments_ok (catalog st) (assignments st)"
    using assms(2) by (simp add: tag_state_ok_def)
  note upd = bounded_update_lookup [OF asg, where key = key] and del = bounded_delete_lookup [OF asg, where key = key]
  have st': "st' = \<lparr>catalog = catalog st, assignments = boundAssignments
      (if wanted_ids rt (catalog st) wanted \<noteq> [] then AList.update key (wanted_ids rt (catalog st) wanted) (assignments st)
       else AList.delete key (assignments st))\<rparr>"
    by (simp add: st'_def setMessageTags_entries [OF assms(1)] Let_def)
  have absent: "ids_at st key = []" if "key \<notin> set (keys_of (assignments st))"
    using that by (simp add: ids_at_def map_of_eq_None_iff [THEN iffD2])
  have "ids_at st' k = ids_at st k \<or> length (assignments st) = 20000 \<and> k = fst (hd (assignments st))
      \<and> ids_at st key = [] \<and> ids_at st' k = []" if "k \<noteq> key" for k
  proof (cases "wanted_ids rt (catalog st) wanted = []")
    case True
    then show ?thesis using that del [of k] by (simp add: st' ids_at_def)
  next
    case False
    then show ?thesis
      using that upd(2) [where k = k and v = "wanted_ids rt (catalog st) wanted"] absent
      by (auto simp: st' ids_at_def MESSAGE_TAG_ASSIGNMENT_LIMIT_def)
  qed
  moreover have "ids_at st' key = wanted_ids rt (catalog st) wanted"
    using upd(1) del [of key] by (simp add: st' ids_at_def)
  ultimately show ?thesis by (simp add: st')
qed

theorem setMessageTags_stores_witness:
  "ids_at (setMessageTags ascii_runtime emptyMessageTagState ''k'' [''work'', ''gone'', ''important'']) ''k''
   = [''important'', ''work'']"
proof -
  have "wanted_ids ascii_runtime (catalog emptyMessageTagState) [''work'', ''gone'', ''important'']
      = [''important'', ''work'']" by code_simp
  with setMessageTags_stores [where rt = ascii_runtime and st = emptyMessageTagState and key = "''k''"
    and wanted = "[''work'', ''gone'', ''important'']"]
  show ?thesis by (simp add: tag_state_ok_empty codeunits.comparator_axioms)
qed

text \<open>when a move produces a new key the tags follow the message to it, the old key is forgotten and
  every other message keeps its tags; when the destination is unknown the assignment is dropped.\<close>

theorem retag_follows_the_message:
  assumes "tag_state_ok st" and "fromKey \<noteq> k" and "toKey \<noteq> []"
    and "map_of (assignments st) fromKey = Some ids"
  shows "ids_at (retagMovedMessage st fromKey (Some toKey)) toKey = ids
    \<and> (fromKey \<noteq> toKey \<longrightarrow> ids_at (retagMovedMessage st fromKey (Some toKey)) fromKey = [])
    \<and> (k \<noteq> toKey \<longrightarrow> ids_at (retagMovedMessage st fromKey (Some toKey)) k = ids_at st k)
    \<and> ids_at (retagMovedMessage st fromKey None) fromKey = []
    \<and> ids_at (retagMovedMessage st fromKey None) k = ids_at st k"
proof -
  have asg: "tag_assignments_ok (catalog st) (assignments st)"
    using assms(1) by (simp add: tag_state_ok_def)
  have mem: "fromKey \<in> set (keys_of (assignments st))"
    using assms(4) by (metis domI dom_map_of_conv_image_fst list.set_map)
  then have "Suc (length (AList.delete fromKey (assignments st))) \<le> length (assignments st)"
    by (rule length_delete_mem)
  then have short: "length (AList.update toKey ids (AList.delete fromKey (assignments st))) \<le> MESSAGE_TAG_ASSIGNMENT_LIMIT"
    using length_update_le [of toKey ids "AList.delete fromKey (assignments st)"] asg
    by (simp add: tag_assignments_ok_def)
  then have short': "length (AList.delete fromKey (assignments st)) \<le> MESSAGE_TAG_ASSIGNMENT_LIMIT"
    using length_delete_le [of fromKey "assignments st"] asg by (simp add: tag_assignments_ok_def)
  show ?thesis
    using assms(2,3,4)
    by (auto simp: retagMovedMessage_def Let_def ids_at_def boundAssignments_id [OF short]
        boundAssignments_id [OF short'] map_of_update map_of_delete)
qed

theorem retag_follows_the_message_witness:
  "ids_at (retagMovedMessage \<lparr>catalog = builtInMessageTags, assignments = [(''old'', [''work''])]\<rparr> ''old'' (Some ''new'')) ''new''
   = [''work'']"
proof -
  have "tag_state_ok \<lparr>catalog = builtInMessageTags, assignments = [(''old'', [''work''])]\<rparr>" by code_simp
  from retag_follows_the_message [OF this, where fromKey = "''old''" and k = "''x''" and toKey = "''new''" and ids = "[''work'']"]
  show ?thesis by simp
qed

end
