(* ===== verification/Message_Filters.thy ===== *)
theory Message_Filters
  imports Regex_Guard
begin

text \<open>
  \<open>src/shared/message-filters.ts\<close>: the filter language, its validation, the evaluation of a
  condition, a filter and a filter list on one message, the collapsing of matched actions and the
  plan of a bounded run. Sizes, ages and the numbers in conditions are rationals.
\<close>

section \<open>Data\<close>

definition MESSAGE_FILTER_LIMIT :: nat where "MESSAGE_FILTER_LIMIT = 200"
definition MESSAGE_FILTER_CONDITION_LIMIT :: nat where "MESSAGE_FILTER_CONDITION_LIMIT = 20"
definition MESSAGE_FILTER_ACTION_LIMIT :: nat where "MESSAGE_FILTER_ACTION_LIMIT = 20"
definition MESSAGE_FILTER_NAME_LIMIT :: nat where "MESSAGE_FILTER_NAME_LIMIT = 120"
definition MESSAGE_FILTER_VALUE_LIMIT :: nat where "MESSAGE_FILTER_VALUE_LIMIT = 2048"
definition MESSAGE_FILTER_RUN_LIMIT :: nat where "MESSAGE_FILTER_RUN_LIMIT = 5000"

lemmas filter_limits = MESSAGE_FILTER_LIMIT_def MESSAGE_FILTER_CONDITION_LIMIT_def
  MESSAGE_FILTER_ACTION_LIMIT_def MESSAGE_FILTER_NAME_LIMIT_def MESSAGE_FILTER_VALUE_LIMIT_def
  MESSAGE_FILTER_RUN_LIMIT_def

datatype filter_field =
    FromField | ToField | CcField | RecipientField | SubjectField | BodyField | AccountField
  | FolderField | TagField | SizeField | AgeDaysField | AttachmentsField | ReadStateField | StarStateField

datatype filter_operator =
    Contains | NotContains | Is | IsNot | StartsWith | EndsWith | RegexOp | GreaterThan | LessThan

datatype action_kind =
    MarkRead | MarkUnread | Star_action | Unstar | AddTag | RemoveTag | Move | ArchiveAction
  | TrashAction | MarkJunk | MarkNotJunk | Stop

record filter_condition =
  fc_field :: filter_field
  fc_operator :: filter_operator
  fc_value :: string
  fc_case_sensitive :: bool

record filter_action =
  fa_kind :: action_kind
  fa_value :: string

datatype filter_match = MatchAll | MatchAny

record message_filter =
  mf_id :: string
  mf_name :: string
  mf_enabled :: bool
  mf_ordinal :: int
  mf_match :: filter_match
  mf_run_on_sync :: bool
  mf_account :: "string option"
  mf_conditions :: "filter_condition list"
  mf_actions :: "filter_action list"

record filter_subject =
  sb_message :: message_summary
  sb_account_email :: string
  sb_folder_name :: string
  sb_tag_ids :: "string list"
  sb_body :: "string option"

record filter_outcome =
  fo_filter_id :: string
  fo_filter_name :: string
  fo_actions :: "filter_action list"
  fo_stopped :: bool

record filter_evaluation =
  fe_matched :: bool
  fe_outcomes :: "filter_outcome list"
  fe_effective :: "filter_action list"

datatype filter_error =
    FILTER_NAME_REQUIRED | FILTER_CONDITION_REQUIRED | FILTER_ACTION_REQUIRED
  | FILTER_OPERATOR_UNSUPPORTED | FILTER_VALUE_REQUIRED | FILTER_VALUE_INVALID
  | FILTER_PATTERN_INVALID | FILTER_LIMIT_REACHED | FILTER_NOT_FOUND

section \<open>Fields and operators\<close>

datatype field_kind = TextKind | NumericKind | BooleanKind | TagKind

fun messageFilterFieldKind :: "filter_field \<Rightarrow> field_kind" where
  "messageFilterFieldKind SizeField = NumericKind"
| "messageFilterFieldKind AgeDaysField = NumericKind"
| "messageFilterFieldKind AttachmentsField = BooleanKind"
| "messageFilterFieldKind ReadStateField = BooleanKind"
| "messageFilterFieldKind StarStateField = BooleanKind"
| "messageFilterFieldKind TagField = TagKind"
| "messageFilterFieldKind _ = TextKind"

definition messageFilterOperators :: "filter_field \<Rightarrow> filter_operator list" where
  "messageFilterOperators field =
     (case messageFilterFieldKind field of
        TextKind \<Rightarrow> [Contains, NotContains, Is, IsNot, StartsWith, EndsWith, RegexOp]
      | NumericKind \<Rightarrow> [GreaterThan, LessThan, Is, IsNot]
      | BooleanKind \<Rightarrow> [Is, IsNot]
      | TagKind \<Rightarrow> [Is, IsNot])"

definition valueless :: "action_kind \<Rightarrow> bool" where
  "valueless k = (k \<in> {MarkRead, MarkUnread, Star_action, Unstar, ArchiveAction, TrashAction,
                       MarkJunk, MarkNotJunk, Stop})"

section \<open>Validation\<close>

definition condition_flags :: "filter_condition \<Rightarrow> string" where
  "condition_flags c = (if fc_case_sensitive c then ''u'' else ''iu'')"

definition validateMessageFilterCondition ::
  "js_runtime \<Rightarrow> filter_condition \<Rightarrow> (filter_error, unit) result" where
  "validateMessageFilterCondition rt c =
     (if fc_operator c \<notin> set (messageFilterOperators (fc_field c)) then Inl FILTER_OPERATOR_UNSUPPORTED
      else let value = trim (fc_value c) in
        case messageFilterFieldKind (fc_field c) of
          NumericKind \<Rightarrow>
            (case parse_number rt value of
               None \<Rightarrow> Inl FILTER_VALUE_INVALID
             | Some n \<Rightarrow> if value = [] \<or> n < 0 then Inl FILTER_VALUE_INVALID else Inr ())
        | BooleanKind \<Rightarrow>
            (if value \<noteq> ''true'' \<and> value \<noteq> ''false'' then Inl FILTER_VALUE_INVALID else Inr ())
        | _ \<Rightarrow>
            (if value = [] then Inl FILTER_VALUE_REQUIRED
             else if fc_operator c = RegexOp
               \<and> \<not> rv_valid (validatePattern (regexp rt)
                     \<lparr>mo_mode = RegexMode, mo_pattern = value, mo_flags = condition_flags c\<rparr>)
               then Inl FILTER_PATTERN_INVALID
             else Inr ()))"

definition validateMessageFilterAction :: "filter_action \<Rightarrow> (filter_error, unit) result" where
  "validateMessageFilterAction a =
     (if valueless (fa_kind a) then Inr ()
      else if trim (fa_value a) = [] then Inl FILTER_VALUE_REQUIRED else Inr ())"

definition validateMessageFilter :: "js_runtime \<Rightarrow> message_filter \<Rightarrow> (filter_error, unit) result" where
  "validateMessageFilter rt f =
     (if trim (mf_name f) = [] then Inl FILTER_NAME_REQUIRED
      else if mf_conditions f = [] then Inl FILTER_CONDITION_REQUIRED
      else if mf_actions f = [] then Inl FILTER_ACTION_REQUIRED
      else case check_all (validateMessageFilterCondition rt)
                  (take MESSAGE_FILTER_CONDITION_LIMIT (mf_conditions f)) of
             Inl e \<Rightarrow> Inl e
           | Inr _ \<Rightarrow> check_all validateMessageFilterAction
                        (take MESSAGE_FILTER_ACTION_LIMIT (mf_actions f)))"

section \<open>Evaluating a condition\<close>

definition address_text :: "address list \<Rightarrow> string" where
  "address_text addresses =
     join '', '' (map (\<lambda>a. if ad_name a \<noteq> [] then ad_name a @ '' <'' @ ad_address a @ ''>''
                           else ad_address a) addresses)"

fun textFor :: "filter_field \<Rightarrow> filter_subject \<Rightarrow> string" where
  "textFor FromField s = address_text (ms_from (sb_message s))"
| "textFor ToField s = address_text (ms_to (sb_message s))"
| "textFor CcField s = address_text (ms_cc (sb_message s))"
| "textFor RecipientField s =
     join '', '' (filter (\<lambda>t. t \<noteq> []) [address_text (ms_to (sb_message s)), address_text (ms_cc (sb_message s))])"
| "textFor SubjectField s = ms_subject (sb_message s)"
| "textFor BodyField s = (case sb_body s of Some b \<Rightarrow> b | None \<Rightarrow> ms_preview (sb_message s))"
| "textFor AccountField s = sb_account_email s"
| "textFor FolderField s = sb_folder_name s @ '' '' @ ms_folder (sb_message s)"
| "textFor _ s = []"

definition numberFor :: "js_runtime \<Rightarrow> filter_field \<Rightarrow> filter_subject \<Rightarrow> int \<Rightarrow> rat" where
  "numberFor rt field s now =
     (if field = SizeField then of_int (ms_size (sb_message s))
      else case parse_date rt (ms_date (sb_message s)) of
             None \<Rightarrow> 0
           | Some parsed \<Rightarrow> max 0 (of_int (now - parsed) / 86400000))"

definition booleanFor :: "filter_field \<Rightarrow> filter_subject \<Rightarrow> bool" where
  "booleanFor field s =
     (if field = AttachmentsField then ms_has_attachments (sb_message s)
      else if field = ReadStateField then \<not> ms_unread (sb_message s)
      else ms_starred (sb_message s))"

text \<open>\<open>Math.trunc\<close>.\<close>

definition truncate_rat :: "rat \<Rightarrow> int" where
  "truncate_rat r = (if r < 0 then \<lceil>r\<rceil> else \<lfloor>r\<rfloor>)"

text \<open>\<^const>\<open>None\<close> is an exception of the engine.\<close>

definition compareText :: "js_runtime \<Rightarrow> filter_condition \<Rightarrow> string \<Rightarrow> bool option" where
  "compareText rt c haystack =
     (let bounded = take 50000 haystack;
          needle = take MESSAGE_FILTER_VALUE_LIMIT (trim (fc_value c));
          left = (if fc_case_sensitive c then bounded else lower bounded);
          right = (if fc_case_sensitive c then needle else lower needle)
      in case fc_operator c of
           RegexOp \<Rightarrow> map_option (\<lambda>m. m bounded)
             (createMatcher (regexp rt) \<lparr>mo_mode = RegexMode, mo_pattern = needle, mo_flags = condition_flags c\<rparr>)
         | Contains \<Rightarrow> Some (contains left right)
         | NotContains \<Rightarrow> Some (\<not> contains left right)
         | Is \<Rightarrow> Some (trim left = right)
         | IsNot \<Rightarrow> Some (trim left \<noteq> right)
         | StartsWith \<Rightarrow> Some (starts_with right (trim_start left))
         | EndsWith \<Rightarrow> Some (ends_with right (trim_end left))
         | _ \<Rightarrow> Some False)"

definition evaluateMessageFilterCondition ::
  "js_runtime \<Rightarrow> filter_condition \<Rightarrow> filter_subject \<Rightarrow> int \<Rightarrow> bool option" where
  "evaluateMessageFilterCondition rt c s now =
     (case messageFilterFieldKind (fc_field c) of
        TextKind \<Rightarrow> compareText rt c (textFor (fc_field c) s)
      | NumericKind \<Rightarrow>
          (let actual = numberFor rt (fc_field c) s now in
           case parse_number rt (trim (fc_value c)) of
             None \<Rightarrow> Some False
           | Some expected \<Rightarrow>
             (case fc_operator c of
                GreaterThan \<Rightarrow> Some (actual > expected)
              | LessThan \<Rightarrow> Some (actual < expected)
              | Is \<Rightarrow> Some (truncate_rat actual = truncate_rat expected)
              | IsNot \<Rightarrow> Some (truncate_rat actual \<noteq> truncate_rat expected)
              | _ \<Rightarrow> Some False))
      | BooleanKind \<Rightarrow>
          (let actual = booleanFor (fc_field c) s; expected = (trim (fc_value c) = ''true'')
           in Some (if fc_operator c = Is then actual = expected else actual \<noteq> expected))
      | TagKind \<Rightarrow>
          (let has = trim (fc_value c) \<in> set (sb_tag_ids s)
           in Some (if fc_operator c = Is then has else \<not> has)))"

definition messageFilterMatches :: "js_runtime \<Rightarrow> message_filter \<Rightarrow> filter_subject \<Rightarrow> int \<Rightarrow> bool" where
  "messageFilterMatches rt f s now =
     (if (case mf_account f of None \<Rightarrow> False | Some a \<Rightarrow> a \<noteq> [] \<and> a \<noteq> ms_account (sb_message s)) then False
      else let conditions = take MESSAGE_FILTER_CONDITION_LIMIT (mf_conditions f)
      in if conditions = [] then False
         else let results = map (\<lambda>c. evaluateMessageFilterCondition rt c s now = Some True) conditions
         in if mf_match f = MatchAll then list_all id results else list_ex id results)"

section \<open>Collapsing actions\<close>

fun contradiction :: "action_kind \<Rightarrow> action_kind option" where
  "contradiction MarkRead = Some MarkUnread"
| "contradiction MarkUnread = Some MarkRead"
| "contradiction Star_action = Some Unstar"
| "contradiction Unstar = Some Star_action"
| "contradiction MarkJunk = Some MarkNotJunk"
| "contradiction MarkNotJunk = Some MarkJunk"
| "contradiction _ = None"

definition is_destination :: "action_kind \<Rightarrow> bool" where
  "is_destination k = (k = Move \<or> k = ArchiveAction \<or> k = TrashAction)"

text \<open>Whether \<open>action\<close>, coming later, removes \<open>existing\<close>.\<close>

definition supersedes :: "filter_action \<Rightarrow> filter_action \<Rightarrow> bool" where
  "supersedes action existing =
     ((fa_kind existing = fa_kind action \<and> fa_value existing = fa_value action)
      \<or> contradiction (fa_kind action) = Some (fa_kind existing)
      \<or> (is_destination (fa_kind action) \<and> is_destination (fa_kind existing))
      \<or> (fa_kind action = AddTag \<and> fa_kind existing = RemoveTag \<and> fa_value existing = fa_value action)
      \<or> (fa_kind action = RemoveTag \<and> fa_kind existing = AddTag \<and> fa_value existing = fa_value action))"

text \<open>The inner loop, from index \<open>n - 1\<close> down to 0, with \<open>collapsed.splice(index, 1)\<close>; an index past the
  end is skipped.\<close>

fun splice_superseded :: "filter_action \<Rightarrow> nat \<Rightarrow> filter_action list \<Rightarrow> filter_action list" where
  "splice_superseded action 0 collapsed = collapsed"
| "splice_superseded action (Suc index) collapsed =
     splice_superseded action index
       (if index < length collapsed \<and> supersedes action (collapsed ! index)
        then take index collapsed @ drop (index + 1) collapsed else collapsed)"

definition collapse_step :: "filter_action list \<Rightarrow> filter_action \<Rightarrow> filter_action list" where
  "collapse_step collapsed action =
     (if fa_kind action = Stop then collapsed
      else splice_superseded action (length collapsed) collapsed @ [action])"

definition collapseMessageFilterActions :: "filter_action list \<Rightarrow> filter_action list" where
  "collapseMessageFilterActions actions = foldl collapse_step [] actions"

section \<open>Evaluating filters on a message\<close>

definition filter_comparison :: "js_runtime \<Rightarrow> message_filter comparison" where
  "filter_comparison rt =
     cmp_chain (cmp_on mf_ordinal int_cmp)
       (cmp_chain (cmp_on mf_name (collate rt)) (cmp_on mf_id (collate rt)))"

definition sortMessageFilters :: "js_runtime \<Rightarrow> message_filter list \<Rightarrow> message_filter list" where
  "sortMessageFilters rt fs = js_sort (filter_comparison rt) fs"

definition bounded_actions :: "message_filter \<Rightarrow> filter_action list" where
  "bounded_actions f = take MESSAGE_FILTER_ACTION_LIMIT (mf_actions f)"

definition has_stop :: "filter_action list \<Rightarrow> bool" where
  "has_stop = list_ex (\<lambda>a. fa_kind a = Stop)"

definition outcome_of :: "message_filter \<Rightarrow> filter_outcome" where
  "outcome_of f = \<lparr>fo_filter_id = mf_id f, fo_filter_name = mf_name f,
     fo_actions = bounded_actions f, fo_stopped = has_stop (bounded_actions f)\<rparr>"

text \<open>The loop over the sorted filters: outcomes and collected actions, until a filter stops.\<close>

fun evaluate_in_order ::
  "js_runtime \<Rightarrow> filter_subject \<Rightarrow> int \<Rightarrow> message_filter list \<Rightarrow> filter_outcome list \<times> filter_action list" where
  "evaluate_in_order rt s now [] = ([], [])"
| "evaluate_in_order rt s now (f # fs) =
     (if \<not> mf_enabled f \<or> \<not> messageFilterMatches rt f s now then evaluate_in_order rt s now fs
      else let actions = bounded_actions f;
               collected = takeWhile (\<lambda>a. fa_kind a \<noteq> Stop) actions;
               (outcomes, later) = (if has_stop actions then ([], []) else evaluate_in_order rt s now fs)
           in (outcome_of f # outcomes, collected @ later))"

definition evaluateMessageFilters ::
  "js_runtime \<Rightarrow> message_filter list \<Rightarrow> filter_subject \<Rightarrow> int \<Rightarrow> filter_evaluation" where
  "evaluateMessageFilters rt fs s now =
     (let (outcomes, collected) =
        evaluate_in_order rt s now (take MESSAGE_FILTER_LIMIT (sortMessageFilters rt fs))
      in \<lparr>fe_matched = outcomes \<noteq> [], fe_outcomes = outcomes,
          fe_effective = collapseMessageFilterActions collected\<rparr>)"

section \<open>Planning a run\<close>

record run_plan =
  rp_entries :: "(filter_subject \<times> filter_evaluation) list"
  rp_considered :: nat
  rp_matched :: nat
  rp_limit_reached :: bool

definition planMessageFilterRun ::
  "js_runtime \<Rightarrow> message_filter list \<Rightarrow> filter_subject list \<Rightarrow> int \<Rightarrow> bool \<Rightarrow> run_plan" where
  "planMessageFilterRun rt fs subjects now runOnSyncOnly =
     (let applicable = filter (\<lambda>f. if runOnSyncOnly then mf_run_on_sync f else True) fs;
          bounded = take MESSAGE_FILTER_RUN_LIMIT subjects;
          entries = filter (\<lambda>(s, e). fe_matched e \<and> fe_effective e \<noteq> [])
                      (map (\<lambda>s. (s, evaluateMessageFilters rt applicable s now)) bounded)
      in \<lparr>rp_entries = entries, rp_considered = length bounded, rp_matched = length entries,
          rp_limit_reached = length subjects > MESSAGE_FILTER_RUN_LIMIT\<rparr>)"

section \<open>Collapsing keeps the last decision\<close>

text \<open>The specification of the collapse, by what comes later: an action survives unless a later
  action supersedes it.\<close>

fun survivors :: "filter_action list \<Rightarrow> filter_action list" where
  "survivors [] = []"
| "survivors (a # as) =
     (if fa_kind a = Stop \<or> list_ex (\<lambda>b. fa_kind b \<noteq> Stop \<and> supersedes b a) as then survivors as
      else a # survivors as)"

lemma splice_filter:
  "n \<le> length xs \<Longrightarrow> splice_superseded a n xs = filter (\<lambda>e. \<not> supersedes a e) (take n xs) @ drop n xs"
proof (induction n arbitrary: xs)
  case (Suc n)
  then have split: "xs = take n xs @ xs ! n # drop (Suc n) xs" by (simp add: id_take_nth_drop)
  have taken: "take n (take n xs @ drop (Suc n) xs) = take n xs" "drop n (take n xs @ drop (Suc n) xs) = drop (Suc n) xs"
    using Suc.prems by simp_all
  have "take (Suc n) xs = take n xs @ [xs ! n]" "drop n xs = xs ! n # drop (Suc n) xs"
    using Suc.prems by (simp_all add: take_Suc_conv_app_nth Cons_nth_drop_Suc)
  with Suc taken show ?case by simp
qed simp

lemma collapse_step_filter:
  "collapse_step xs a = (if fa_kind a = Stop then xs else filter (\<lambda>e. \<not> supersedes a e) xs @ [a])"
  by (simp add: collapse_step_def splice_filter)

lemma survivors_snoc: "survivors (as @ [b]) = collapse_step (survivors as) b"
  by (induction as) (auto simp: collapse_step_filter)

lemma collapse_survivors: "collapseMessageFilterActions as = survivors as"
  unfolding collapseMessageFilterActions_def
  by (induction as rule: rev_induct) (simp_all add: survivors_snoc)

lemma contradiction_sym: "contradiction k = Some l \<Longrightarrow> contradiction l = Some k"
  by (cases k) auto

lemma supersedes_sym: "supersedes a b \<Longrightarrow> supersedes b a"
  by (auto simp: supersedes_def dest: contradiction_sym)

definition compatible :: "filter_action list \<Rightarrow> bool" where
  "compatible = sorted_wrt (\<lambda>a b. \<not> supersedes b a \<and> \<not> supersedes a b)"

lemma compatible_step: "compatible as \<Longrightarrow> compatible (collapse_step as b)"
  by (auto simp: compatible_def collapse_step_filter sorted_wrt_append sorted_wrt_filter dest: supersedes_sym)

lemma compatible_collapse: "compatible (collapseMessageFilterActions as)"
proof -
  have "compatible (foldl collapse_step acc as)" if "compatible acc" for acc
    using that by (induction as arbitrary: acc) (auto intro: compatible_step)
  then show ?thesis
    unfolding collapseMessageFilterActions_def by (simp add: compatible_def)
qed

lemma survivors_subset: "set (survivors as) \<subseteq> {a \<in> set as. fa_kind a \<noteq> Stop}"
  by (induction as) auto

lemma survivors_id: "compatible as \<Longrightarrow> (\<forall>a \<in> set as. fa_kind a \<noteq> Stop) \<Longrightarrow> survivors as = as"
  by (induction as) (auto simp: compatible_def list_ex_iff)

lemma compatible_unique:
  assumes "compatible as" and "a \<in> set as" and "b \<in> set as" and "supersedes a b" and "a \<noteq> b"
  shows False
  using assms
  by (induction as) (auto simp: compatible_def)

lemma compatible_distinct: "compatible as \<Longrightarrow> distinct as"
  by (induction as) (auto simp: compatible_def supersedes_def)

section \<open>Stopping\<close>

lemma evaluate_in_order_append:
  "evaluate_in_order rt s now (fs @ gs) =
     (let (outcomes, collected) = evaluate_in_order rt s now fs;
          (later_outcomes, later) = (if list_ex fo_stopped outcomes then ([], []) else evaluate_in_order rt s now gs)
      in (outcomes @ later_outcomes, collected @ later))"
  by (induction fs) (auto simp: Let_def outcome_of_def split: prod.splits)

lemma evaluate_in_order_skip:
  "(\<forall>f \<in> set fs. \<not> mf_enabled f \<or> \<not> messageFilterMatches rt f s now) \<Longrightarrow>
   evaluate_in_order rt s now fs = ([], [])"
  by (induction fs) auto

lemma evaluate_outcomes_enabled:
  "evaluate_in_order rt s now fs = (os, c) \<Longrightarrow> oc \<in> set os \<Longrightarrow>
   \<exists>f \<in> set fs. mf_enabled f \<and> messageFilterMatches rt f s now \<and> oc = outcome_of f"
  by (induction fs arbitrary: os c) (auto simp: Let_def split: if_splits prod.splits)

lemma evaluate_collected:
  "evaluate_in_order rt s now fs = (os, c) \<Longrightarrow>
   c = concat (map (\<lambda>oc. takeWhile (\<lambda>a. fa_kind a \<noteq> Stop) (fo_actions oc)) os)"
  by (induction fs arbitrary: os c) (auto simp: Let_def outcome_of_def split: if_splits prod.splits)

lemma evaluate_only_last_stops:
  "evaluate_in_order rt s now fs = (os, c) \<Longrightarrow> list_all (\<lambda>oc. \<not> fo_stopped oc) (butlast os)"
  by (induction fs arbitrary: os c)
     (auto simp: Let_def outcome_of_def split: if_splits prod.splits)

section \<open>Validated conditions\<close>

lemma rv_valid_compiles:
  assumes "rv_valid (validatePattern e \<lparr>mo_mode = RegexMode, mo_pattern = p, mo_flags = fl\<rparr>)"
  shows "createMatcher e \<lparr>mo_mode = RegexMode, mo_pattern = p, mo_flags = fl\<rparr> \<noteq> None"
    and "length p \<le> MAX_PATTERN_LENGTH"
  using assms
  by (auto simp: createMatcher_def validatePattern_def matcher_source_def Let_def split: if_splits option.splits)

lemma validated_value_short:
  assumes "validateMessageFilterCondition rt c = Inr ()" and "messageFilterFieldKind (fc_field c) = TextKind"
    and "fc_operator c = RegexOp"
  shows "rv_valid (validatePattern (regexp rt)
     \<lparr>mo_mode = RegexMode, mo_pattern = trim (fc_value c), mo_flags = condition_flags c\<rparr>)"
  using assms by (auto simp: validateMessageFilterCondition_def Let_def split: if_splits)

section \<open>Properties\<close>

text \<open>What an action decides: whether the message is read, whether it is starred, whether it is junk,
  where it goes, or whether it carries a tag. (Validation asks for no value of the other actions.)\<close>

datatype action_topic = ReadState | StarState | JunkState | Destination | Tagging string | NoTopic

fun topic_of :: "action_kind \<Rightarrow> string \<Rightarrow> action_topic" where
  "topic_of MarkRead v = ReadState"
| "topic_of MarkUnread v = ReadState"
| "topic_of Star_action v = StarState"
| "topic_of Unstar v = StarState"
| "topic_of MarkJunk v = JunkState"
| "topic_of MarkNotJunk v = JunkState"
| "topic_of Move v = Destination"
| "topic_of ArchiveAction v = Destination"
| "topic_of TrashAction v = Destination"
| "topic_of AddTag v = Tagging v"
| "topic_of RemoveTag v = Tagging v"
| "topic_of Stop v = NoTopic"

definition topic :: "filter_action \<Rightarrow> action_topic" where
  "topic a = topic_of (fa_kind a) (fa_value a)"

fun last_decisions :: "filter_action list \<Rightarrow> filter_action list" where
  "last_decisions [] = []"
| "last_decisions (a # as) =
     (if topic a = NoTopic \<or> topic a \<in> topic ` set as then last_decisions as else a # last_decisions as)"

definition plain_action :: "filter_action \<Rightarrow> bool" where
  "plain_action a = (valueless (fa_kind a) \<longrightarrow> fa_value a = [])"

lemma topic_stop: "topic a = NoTopic \<longleftrightarrow> fa_kind a = Stop"
  by (cases "fa_kind a") (simp_all add: topic_def)

lemma supersedes_topic:
  assumes "plain_action a" "plain_action b" "fa_kind a \<noteq> Stop"
  shows "supersedes a b \<longleftrightarrow> topic a = topic b"
  using assms
  by (cases "fa_kind a"; cases "fa_kind b")
    (auto simp: supersedes_def topic_def plain_action_def valueless_def is_destination_def)

lemma survivors_last_decisions: "list_all plain_action as \<Longrightarrow> survivors as = last_decisions as"
proof (induction as)
  case (Cons a as)
  have "list_ex (\<lambda>b. fa_kind b \<noteq> Stop \<and> supersedes b a) as \<longleftrightarrow> topic a \<in> topic ` set as" if "fa_kind a \<noteq> Stop"
    using Cons.prems that supersedes_topic [of _ a] topic_stop
    by (auto simp: list_ex_iff list_all_iff) (metis imageI)+
  with Cons show ?case by (cases "fa_kind a = Stop") (simp_all add: topic_stop)
qed simp

text \<open>C21: for actions whose kind takes no value and that carry none, the loop that splices the collected
  actions leaves, in their order, the last decision on every topic: read or unread, starred or not, junk
  or not, where the message goes, and each tag. Nothing else and no stop is left.\<close>

theorem collapse_keeps_last_decisions:
  assumes "list_all plain_action as"
  shows "collapseMessageFilterActions as = last_decisions as"
  using assms by (simp add: collapse_survivors survivors_last_decisions)

theorem collapse_keeps_last_decisions_witness:
  "collapseMessageFilterActions
     [\<lparr>fa_kind = MarkRead, fa_value = []\<rparr>, \<lparr>fa_kind = AddTag, fa_value = ''a''\<rparr>, \<lparr>fa_kind = Move, fa_value = ''f''\<rparr>,
      \<lparr>fa_kind = MarkUnread, fa_value = []\<rparr>, \<lparr>fa_kind = RemoveTag, fa_value = ''a''\<rparr>, \<lparr>fa_kind = TrashAction, fa_value = []\<rparr>]
   = [\<lparr>fa_kind = MarkUnread, fa_value = []\<rparr>, \<lparr>fa_kind = RemoveTag, fa_value = ''a''\<rparr>, \<lparr>fa_kind = TrashAction, fa_value = []\<rparr>]"
  by (subst collapse_keeps_last_decisions) (simp_all add: plain_action_def valueless_def topic_def)

text \<open>the collapsed actions never ask for two different things: no action appears twice, at most
  one changes the destination, and read and unread, star and unstar, junk and not junk, adding and
  removing the same tag never occur together. Collapsing again changes nothing.\<close>

theorem collapse_consistent:
  defines "c \<equiv> \<lambda>as. collapseMessageFilterActions as"
  shows "distinct (c as) \<and> c (c as) = c as
    \<and> length (filter (\<lambda>a. is_destination (fa_kind a)) (c as)) \<le> 1
    \<and> \<not> (\<exists>a \<in> set (c as). \<exists>b \<in> set (c as). contradiction (fa_kind a) = Some (fa_kind b))
    \<and> \<not> (\<exists>a \<in> set (c as). \<exists>b \<in> set (c as).
           fa_kind a = AddTag \<and> fa_kind b = RemoveTag \<and> fa_value a = fa_value b)"
proof -
  have comp: "compatible (c as)" and no_stop: "\<forall>a \<in> set (c as). fa_kind a \<noteq> Stop"
    using compatible_collapse survivors_subset [of as] by (auto simp: c_def collapse_survivors)
  have one: "length (filter (\<lambda>a. is_destination (fa_kind a)) xs) \<le> 1" if "compatible xs" for xs
    using that
  proof (induction xs)
    case (Cons x xs)
    show ?case
    proof (cases "is_destination (fa_kind x)")
      case True
      then have "filter (\<lambda>a. is_destination (fa_kind a)) xs = []"
        using Cons.prems by (auto simp: compatible_def supersedes_def filter_empty_conv)
      with True show ?thesis by simp
    next
      case False
      with Cons show ?thesis by (simp add: compatible_def)
    qed
  qed simp
  have no_pair: "\<not> supersedes a b" if "a \<in> set (c as)" "b \<in> set (c as)" "a \<noteq> b" for a b
    using compatible_unique [OF comp that(1,2)] that(3) by blast
  have "contradiction k \<noteq> Some k" for k by (cases k) auto
  then have "\<not> (\<exists>a \<in> set (c as). \<exists>b \<in> set (c as). contradiction (fa_kind a) = Some (fa_kind b))"
    using no_pair by (metis supersedes_def)
  moreover have "\<not> (\<exists>a \<in> set (c as). \<exists>b \<in> set (c as).
      fa_kind a = AddTag \<and> fa_kind b = RemoveTag \<and> fa_value a = fa_value b)"
  proof clarify
    fix a b
    assume ab: "a \<in> set (c as)" "b \<in> set (c as)" and k: "fa_kind a = AddTag" "fa_kind b = RemoveTag" "fa_value a = fa_value b"
    then have "a \<noteq> b" by auto
    with no_pair [OF ab] k show False by (simp add: supersedes_def)
  qed
  moreover have "c (c as) = c as"
    using survivors_id [OF comp no_stop] by (simp add: c_def collapse_survivors)
  ultimately show ?thesis
    using one [OF comp] compatible_distinct [OF comp] by blast
qed

text \<open>a condition that validation accepts never throws when it is evaluated, so the \<open>catch\<close>
  in the matcher is never taken for a stored filter.\<close>

theorem validated_condition_never_throws:
  assumes "validateMessageFilterCondition rt c = Inr ()"
  shows "\<exists>b. evaluateMessageFilterCondition rt c s now = Some b"
proof (cases "messageFilterFieldKind (fc_field c) = TextKind \<and> fc_operator c = RegexOp")
  case True
  then have v: "rv_valid (validatePattern (regexp rt)
      \<lparr>mo_mode = RegexMode, mo_pattern = trim (fc_value c), mo_flags = condition_flags c\<rparr>)"
    using validated_value_short [OF assms] by blast
  from rv_valid_compiles [OF v] have
    "take MESSAGE_FILTER_VALUE_LIMIT (trim (fc_value c)) = trim (fc_value c)"
    by (simp add: MESSAGE_FILTER_VALUE_LIMIT_def MAX_PATTERN_LENGTH_def)
  with rv_valid_compiles(1) [OF v] True show ?thesis
    by (auto simp: evaluateMessageFilterCondition_def compareText_def Let_def)
next
  case False
  then show ?thesis
    by (cases "messageFilterFieldKind (fc_field c)"; cases "fc_operator c")
      (auto simp: evaluateMessageFilterCondition_def compareText_def Let_def split: option.split)
qed

theorem validated_condition_never_throws_witness:
  "\<exists>b. evaluateMessageFilterCondition ascii_runtime
     \<lparr>fc_field = SizeField, fc_operator = GreaterThan, fc_value = ''12'', fc_case_sensitive = False\<rparr>
     \<lparr>sb_message = blank_message, sb_account_email = [], sb_folder_name = [], sb_tag_ids = [], sb_body = None\<rparr> 0
     = Some b"
proof -
  have "decimal ''12'' = Some 12" "trim ''12'' = ''12''" by code_simp+
  then have "validateMessageFilterCondition ascii_runtime
     \<lparr>fc_field = SizeField, fc_operator = GreaterThan, fc_value = ''12'', fc_case_sensitive = False\<rparr> = Inr ()"
    by (simp add: validateMessageFilterCondition_def messageFilterOperators_def ascii_runtime_def)
  then show ?thesis by (rule validated_condition_never_throws)
qed

text \<open>C22: the effective actions of a message come only from enabled filters that match it, each read
  up to its stop, and only the last filter that contributes can have stopped the evaluation.\<close>

theorem evaluate_only_matching_filters:
  "let e = evaluateMessageFilters rt fs s now in
   list_all (\<lambda>oc. \<exists>f \<in> set fs. mf_enabled f \<and> messageFilterMatches rt f s now \<and> oc = outcome_of f) (fe_outcomes e)
   \<and> list_all (\<lambda>oc. \<not> fo_stopped oc) (butlast (fe_outcomes e))
   \<and> fe_effective e = survivors (concat (map (\<lambda>oc. takeWhile (\<lambda>a. fa_kind a \<noteq> Stop) (fo_actions oc)) (fe_outcomes e)))
   \<and> (fe_matched e \<longleftrightarrow> fe_outcomes e \<noteq> [])"
proof -
  obtain os c where ev: "evaluate_in_order rt s now (take MESSAGE_FILTER_LIMIT (sortMessageFilters rt fs)) = (os, c)"
    by fastforce
  have "set (take MESSAGE_FILTER_LIMIT (sortMessageFilters rt fs)) \<subseteq> set fs"
    by (auto simp: sortMessageFilters_def dest: in_set_takeD)
  then show ?thesis
    using evaluate_outcomes_enabled [OF ev] evaluate_only_last_stops [OF ev] evaluate_collected [OF ev]
    by (fastforce simp: evaluateMessageFilters_def ev Let_def collapse_survivors list_all_iff)
qed

lemma survivors_nonempty: "survivors as = [] \<longleftrightarrow> list_all (\<lambda>a. fa_kind a = Stop) as"
  by (induction as) (auto simp: list_ex_iff list_all_iff)

lemma collapse_nonempty: "collapseMessageFilterActions as \<noteq> [] \<longleftrightarrow> list_ex (\<lambda>a. fa_kind a \<noteq> Stop) as"
  by (auto simp: collapse_survivors survivors_nonempty list_all_iff list_ex_iff)

text \<open>A filter acts on a message when it is enabled and matches, its first action is not a stop, and no
  enabled matching filter before it stops.\<close>

definition matching :: "js_runtime \<Rightarrow> filter_subject \<Rightarrow> int \<Rightarrow> message_filter \<Rightarrow> bool" where
  "matching rt s now f = (mf_enabled f \<and> messageFilterMatches rt f s now)"

definition starts_acting :: "message_filter \<Rightarrow> bool" where
  "starts_acting f = (case mf_actions f of [] \<Rightarrow> False | a # _ \<Rightarrow> fa_kind a \<noteq> Stop)"

fun some_filter_acts :: "js_runtime \<Rightarrow> filter_subject \<Rightarrow> int \<Rightarrow> message_filter list \<Rightarrow> bool" where
  "some_filter_acts rt s now [] = False"
| "some_filter_acts rt s now (f # fs) =
     (if \<not> matching rt s now f then some_filter_acts rt s now fs
      else starts_acting f \<or> (\<not> has_stop (bounded_actions f) \<and> some_filter_acts rt s now fs))"

lemma first_acts: "takeWhile (\<lambda>a. fa_kind a \<noteq> Stop) (bounded_actions f) \<noteq> [] \<longleftrightarrow> starts_acting f"
  by (cases "mf_actions f") (simp_all add: bounded_actions_def starts_acting_def MESSAGE_FILTER_ACTION_LIMIT_def take_Cons')

lemma collected_acts:
  "snd (evaluate_in_order rt s now fs) \<noteq> [] \<longleftrightarrow> some_filter_acts rt s now fs"
  "list_all (\<lambda>a. fa_kind a \<noteq> Stop) (snd (evaluate_in_order rt s now fs))"
proof (induction fs)
  case (Cons f fs)
  { case 1 show ?case using Cons(1) first_acts [of f]
      by (auto simp: matching_def Let_def split: prod.splits) }
  { case 2 show ?case using Cons(2)
      by (auto simp: Let_def list_all_iff dest: set_takeWhileD split: prod.splits) }
qed simp_all

lemma effective_acts:
  "fe_matched (evaluateMessageFilters rt fs s now) \<and> fe_effective (evaluateMessageFilters rt fs s now) \<noteq> []
     \<longleftrightarrow> some_filter_acts rt s now (take MESSAGE_FILTER_LIMIT (sortMessageFilters rt fs))"
proof -
  obtain os c where ev: "evaluate_in_order rt s now (take MESSAGE_FILTER_LIMIT (sortMessageFilters rt fs)) = (os, c)"
    by fastforce
  have "os \<noteq> []" if "c \<noteq> []" using evaluate_collected [OF ev] that by auto
  moreover have "fe_effective (evaluateMessageFilters rt fs s now) \<noteq> [] \<longleftrightarrow> c \<noteq> []"
    using collected_acts(2) [of rt s now "take MESSAGE_FILTER_LIMIT (sortMessageFilters rt fs)"]
    by (auto simp: evaluateMessageFilters_def ev collapse_nonempty list_ex_iff list_all_iff) (use list.set_sel(1) in blast)
  ultimately show ?thesis
    using collected_acts(1) [of rt s now "take MESSAGE_FILTER_LIMIT (sortMessageFilters rt fs)"] ev
    by (auto simp: evaluateMessageFilters_def)
qed

text \<open>C20: a run plan has exactly those of the first 5000 messages, in their order, on which some filter
  acts: among the first two hundred of the applicable filters in their order, one that is enabled and matches
  the message, whose first action is not a stop, and before which no enabled matching filter stops. The
  plan says how many messages it looked at and whether there are more.\<close>

theorem plan_lists_what_filters_act_on:
  "let p = planMessageFilterRun rt fs subjects now sync;
       applicable = filter (\<lambda>f. if sync then mf_run_on_sync f else True) fs in
   map fst (rp_entries p) =
     filter (\<lambda>s. some_filter_acts rt s now (take 200 (sortMessageFilters rt applicable))) (take 5000 subjects)
   \<and> rp_matched p = length (rp_entries p)
   \<and> rp_considered p = min 5000 (length subjects)
   \<and> (rp_limit_reached p \<longleftrightarrow> rp_considered p < length subjects)"
proof -
  define applicable where "applicable = filter (\<lambda>f. if sync then mf_run_on_sync f else True) fs"
  have listed: "map fst (filter (\<lambda>(s, e). fe_matched e \<and> fe_effective e \<noteq> [])
        (map (\<lambda>s. (s, evaluateMessageFilters rt applicable s now)) xs))
      = filter (\<lambda>s. some_filter_acts rt s now (take 200 (sortMessageFilters rt applicable))) xs" for xs
    using effective_acts [of rt applicable] by (induction xs) (simp_all add: MESSAGE_FILTER_LIMIT_def)
  show ?thesis
    unfolding Let_def planMessageFilterRun_def applicable_def [symmetric]
    by (simp add: MESSAGE_FILTER_RUN_LIMIT_def listed) linarith
qed

end
