(* ===== verification/Mail_Organization.thy ===== *)
theory Mail_Organization
  imports Message_Tags Message_Filters Junk_Classifier
begin

text \<open>
  \<open>src/main/mail-organization.ts\<close>: tags, filters and the junk model inside the persisted state, and
  the schemas of \<open>src/main/persisted-state.ts\<close> that these parts must satisfy to be loaded again. The
  record holds the fields of \<open>PersistedState\<close> that this file reads or writes; the schema gives them
  defaults, so they are always present. A function that changes the draft returns the next state; the
  store discards the draft when the function throws.
\<close>

section \<open>State\<close>

record organized =
  og_tags :: tag_state
  og_filters :: "message_filter list"
  og_junk :: junk_model
  og_messages :: "(string, message_summary list) entries"
  og_details :: "(string, string) entries"

definition initial_organized :: "(string, message_summary list) entries \<Rightarrow> (string, string) entries \<Rightarrow> organized" where
  "initial_organized messages details =
     \<lparr>og_tags = emptyMessageTagState, og_filters = [], og_junk = emptyJunkModel,
      og_messages = messages, og_details = details\<rparr>"

definition cachedMessages :: "organized \<Rightarrow> string option \<Rightarrow> string option \<Rightarrow> message_summary list" where
  "cachedMessages st account folder =
     concat (map (\<lambda>(key, messages).
       case index_of [nul] key of
         None \<Rightarrow> []
       | Some separator \<Rightarrow>
           if separator = 0 then []
           else if (case account of None \<Rightarrow> False | Some a \<Rightarrow> take separator key \<noteq> a) then []
           else if (case folder of None \<Rightarrow> False | Some f \<Rightarrow> drop (separator + 1) key \<noteq> f) then []
           else messages) (og_messages st))"

section \<open>Tags\<close>

definition tagIdsForMessage :: "organized \<Rightarrow> message_summary \<Rightarrow> string list" where
  "tagIdsForMessage st m = ids_at (og_tags st) (messageTagKeyFor m)"

text \<open>The loop of \<open>tagAssignmentMapOf\<close>: message identifiers to their tags, later messages overwriting.\<close>

definition tagAssignmentMapOf :: "organized \<Rightarrow> (string, string list) entries" where
  "tagAssignmentMapOf st =
     foldl (\<lambda>es m. if tagIdsForMessage st m \<noteq> [] then AList.update (ms_id m) (tagIdsForMessage st m) es else es)
       [] (cachedMessages st None None)"

definition tagCatalogOf :: "js_runtime \<Rightarrow> organized \<Rightarrow> message_tag list \<times> (string, nat) entries" where
  "tagCatalogOf rt st = (sortMessageTags rt (catalog (og_tags st)), messageTagUsageCounts (og_tags st))"

definition addMessageTag :: "js_runtime \<Rightarrow> organized \<Rightarrow> string \<Rightarrow> string \<Rightarrow> (tag_error, organized) result" where
  "addMessageTag rt st name colour =
     (case createMessageTag rt (catalog (og_tags st)) name colour of
        Inl e \<Rightarrow> Inl e
      | Inr t \<Rightarrow> Inr (st\<lparr>og_tags := \<lparr>catalog = sortMessageTags rt (catalog (og_tags st) @ [t]),
                                     assignments = assignments (og_tags st)\<rparr>\<rparr>))"

definition editMessageTag :: "js_runtime \<Rightarrow> organized \<Rightarrow> string \<Rightarrow> tag_patch \<Rightarrow> (tag_error, organized) result" where
  "editMessageTag rt st i patch =
     (case updateMessageTag rt (catalog (og_tags st)) i patch of
        Inl e \<Rightarrow> Inl e
      | Inr tags \<Rightarrow> Inr (st\<lparr>og_tags := \<lparr>catalog = tags, assignments = assignments (og_tags st)\<rparr>\<rparr>))"

definition removeMessageTag :: "organized \<Rightarrow> string \<Rightarrow> (tag_error, organized) result" where
  "removeMessageTag st i =
     (case deleteMessageTag (og_tags st) i of Inl e \<Rightarrow> Inl e | Inr tags \<Rightarrow> Inr (st\<lparr>og_tags := tags\<rparr>))"

definition applyMessageTags :: "js_runtime \<Rightarrow> organized \<Rightarrow> message_summary \<Rightarrow> string list \<Rightarrow> organized \<times> string list" where
  "applyMessageTags rt st m tagIds =
     (let key = messageTagKeyFor m; nxt = setMessageTags rt (og_tags st) key tagIds
      in (st\<lparr>og_tags := nxt\<rparr>, ids_at nxt key))"

definition tag_name_of :: "message_tag list \<Rightarrow> string \<Rightarrow> string list" where
  "tag_name_of tags i =
     (case List.find (\<lambda>t. tag_id t = i) tags of
        None \<Rightarrow> [] | Some t \<Rightarrow> if tag_name t \<noteq> [] then [tag_name t] else [])"

definition previewMessageTagNames :: "js_runtime \<Rightarrow> organized \<Rightarrow> message_summary \<Rightarrow> string list \<Rightarrow> string list" where
  "previewMessageTagNames rt st m tagIds =
     (let key = messageTagKeyFor m; nxt = setMessageTags rt (og_tags st) key tagIds
      in concat (map (tag_name_of (catalog (og_tags st))) (ids_at nxt key)))"

record message_place =
  mp_account :: string
  mp_folder :: string
  mp_uid :: nat
  mp_validity :: "string option"

record move_target =
  mt_folder :: string
  mt_uid :: "nat option"
  mt_validity :: "string option"

definition carryTagsThroughMove :: "organized \<Rightarrow> message_place \<Rightarrow> move_target option \<Rightarrow> organized" where
  "carryTagsThroughMove st source target =
     (let fromKey = messageTagKey (mp_account source) (mp_folder source) (mp_uid source) (mp_validity source);
          toKey = (case target of None \<Rightarrow> None
                   | Some t \<Rightarrow> map_option (\<lambda>uid. messageTagKey (mp_account source) (mt_folder t) uid (mt_validity t)) (mt_uid t))
      in st\<lparr>og_tags := retagMovedMessage (og_tags st) fromKey toKey\<rparr>)"

definition forgetAccountTags :: "organized \<Rightarrow> string \<Rightarrow> organized" where
  "forgetAccountTags st account =
     st\<lparr>og_tags := forgetMessageTags (og_tags st) (\<lambda>key. messageTagKeyAccountId key = Some account)\<rparr>"

definition forgetFolderTags :: "organized \<Rightarrow> string \<Rightarrow> string \<Rightarrow> organized" where
  "forgetFolderTags st account path =
     st\<lparr>og_tags := forgetMessageTags (og_tags st)
       (\<lambda>key. messageTagKeyAccountId key = Some account \<and> messageTagKeyFolderPath key = Some path)\<rparr>"

section \<open>Filters\<close>

record filter_input =
  fi_id :: "string option"
  fi_name :: string
  fi_enabled :: bool
  fi_match :: filter_match
  fi_run_on_sync :: bool
  fi_account :: "string option"
  fi_conditions :: "filter_condition list"
  fi_actions :: "filter_action list"

definition listFilters :: "js_runtime \<Rightarrow> organized \<Rightarrow> message_filter list" where
  "listFilters rt st = sortMessageFilters rt (og_filters st)"

definition filter_with_id :: "message_filter list \<Rightarrow> string option \<Rightarrow> message_filter option" where
  "filter_with_id fs i =
     (case i of None \<Rightarrow> None | Some v \<Rightarrow> if v = [] then None else List.find (\<lambda>f. mf_id f = v) fs)"

definition filter_candidate :: "message_filter list \<Rightarrow> filter_input \<Rightarrow> string \<Rightarrow> message_filter" where
  "filter_candidate existing input newId =
     (let current = filter_with_id existing (fi_id input)
      in \<lparr>mf_id = (case current of Some c \<Rightarrow> mf_id c | None \<Rightarrow> newId),
          mf_name = take MESSAGE_FILTER_NAME_LIMIT (trim (fi_name input)),
          mf_enabled = fi_enabled input,
          mf_ordinal = (case current of Some c \<Rightarrow> mf_ordinal c | None \<Rightarrow> next_ordinal (map mf_ordinal existing)),
          mf_match = fi_match input, mf_run_on_sync = fi_run_on_sync input, mf_account = fi_account input,
          mf_conditions = take MESSAGE_FILTER_CONDITION_LIMIT (fi_conditions input),
          mf_actions = take MESSAGE_FILTER_ACTION_LIMIT (fi_actions input)\<rparr>)"

definition upsertFilter ::
  "js_runtime \<Rightarrow> organized \<Rightarrow> filter_input \<Rightarrow> string \<Rightarrow> (filter_error, organized) result" where
  "upsertFilter rt st input newId =
     (let existing = listFilters rt st; current = filter_with_id existing (fi_id input);
          candidate = filter_candidate existing input newId
      in if (case fi_id input of None \<Rightarrow> False | Some i \<Rightarrow> i \<noteq> []) \<and> current = None then Inl FILTER_NOT_FOUND
         else if current = None \<and> length existing \<ge> MESSAGE_FILTER_LIMIT then Inl FILTER_LIMIT_REACHED
         else case validateMessageFilter rt candidate of
           Inl e \<Rightarrow> Inl e
         | Inr _ \<Rightarrow> Inr (st\<lparr>og_filters := sortMessageFilters rt
                            (filter (\<lambda>f. mf_id f \<noteq> mf_id candidate) existing @ [candidate])\<rparr>))"

definition renumber :: "message_filter list \<Rightarrow> message_filter list" where
  "renumber fs = map (\<lambda>(i, f). f\<lparr>mf_ordinal := int i\<rparr>) (enumerate 0 fs)"

definition removeFilter :: "js_runtime \<Rightarrow> organized \<Rightarrow> string \<Rightarrow> (filter_error, organized) result" where
  "removeFilter rt st i =
     (let existing = listFilters rt st
      in if \<not> list_ex (\<lambda>f. mf_id f = i) existing then Inl FILTER_NOT_FOUND
         else Inr (st\<lparr>og_filters := renumber (filter (\<lambda>f. mf_id f \<noteq> i) existing)\<rparr>))"

text \<open>The loop over the ordered ids; \<open>taken\<close> are those already placed.\<close>

fun pick_ordered :: "message_filter list \<Rightarrow> string set \<Rightarrow> string list \<Rightarrow> message_filter list" where
  "pick_ordered existing taken [] = []"
| "pick_ordered existing taken (i # ids) =
     (case List.find (\<lambda>f. mf_id f = i) (rev existing) of
        None \<Rightarrow> pick_ordered existing taken ids
      | Some f \<Rightarrow> if i \<in> taken then pick_ordered existing taken ids
                  else f # pick_ordered existing (insert i taken) ids)"

definition reorderFilters :: "js_runtime \<Rightarrow> organized \<Rightarrow> string list \<Rightarrow> organized" where
  "reorderFilters rt st orderedIds =
     (let existing = listFilters rt st; ordered = pick_ordered existing {} orderedIds
      in st\<lparr>og_filters := renumber (ordered @ filter (\<lambda>f. mf_id f \<notin> mf_id ` set ordered) existing)\<rparr>)"

record run_context =
  rc_account :: string
  rc_folder :: string
  rc_email :: string
  rc_folders :: "folder_summary list"

definition buildFilterSubjects :: "organized \<Rightarrow> run_context \<Rightarrow> string set option \<Rightarrow> filter_subject list" where
  "buildFilterSubjects st context wanted =
     (let folderName = (case List.find (\<lambda>f. fs_path f = rc_folder context) (rc_folders context) of
                          Some f \<Rightarrow> fs_name f | None \<Rightarrow> rc_folder context)
      in map (\<lambda>m. \<lparr>sb_message = m, sb_account_email = rc_email context, sb_folder_name = folderName,
                   sb_tag_ids = tagIdsForMessage st m,
                   sb_body = (case map_of (og_details st) (ms_id m) of
                                Some text \<Rightarrow> if text = [] then None else Some text | None \<Rightarrow> None)\<rparr>)
           (filter (\<lambda>m. case wanted of None \<Rightarrow> True | Some ids \<Rightarrow> ms_id m \<in> ids)
             (cachedMessages st (Some (rc_account context)) (Some (rc_folder context)))))"

definition planFilterRun ::
  "js_runtime \<Rightarrow> organized \<Rightarrow> run_context \<Rightarrow> int \<Rightarrow> bool \<Rightarrow> string set option \<Rightarrow> run_plan" where
  "planFilterRun rt st context now runOnSyncOnly wanted =
     planMessageFilterRun rt (listFilters rt st) (buildFilterSubjects st context wanted) now runOnSyncOnly"

section \<open>Junk\<close>

definition classifyJunk :: "js_runtime \<Rightarrow> organized \<Rightarrow> message_summary \<Rightarrow> string option \<Rightarrow> junk_assessment" where
  "classifyJunk rt st m body = assessJunk rt (og_junk st) (junkSampleFromMessage m body) (9 / 10)"

definition trainJunk :: "js_runtime \<Rightarrow> organized \<Rightarrow> message_summary \<Rightarrow> junk_label \<Rightarrow> string option \<Rightarrow> organized" where
  "trainJunk rt st m label body =
     st\<lparr>og_junk := trainJunkModel rt (og_junk st) (junkSampleFromMessage m body) label\<rparr>"

definition resetJunk :: "organized \<Rightarrow> organized" where
  "resetJunk st = st\<lparr>og_junk := emptyJunkModel\<rparr>"

section \<open>The schema of the stored state\<close>

definition tag_id_valid :: "string \<Rightarrow> bool" where
  "tag_id_valid i =
     (1 \<le> length i \<and> length i \<le> MESSAGE_TAG_NAME_LIMIT
      \<and> list_all (\<lambda>c. is_letter c \<or> is_number c \<or> c = CHR ''-'') i)"

definition tag_valid :: "message_tag \<Rightarrow> bool" where
  "tag_valid t =
     (tag_id_valid (tag_id t) \<and> 1 \<le> length (tag_name t) \<and> length (tag_name t) \<le> MESSAGE_TAG_NAME_LIMIT
      \<and> is_colour 6 (tag_colour t) \<and> 0 \<le> tag_ordinal t \<and> tag_ordinal t \<le> int MESSAGE_TAG_CATALOG_LIMIT)"

text \<open>\<open>messageTagStateSchema.parse\<close>: \<^const>\<open>None\<close> is a rejection; dangling references are dropped.\<close>

definition parse_tag_state :: "tag_state \<Rightarrow> tag_state option" where
  "parse_tag_state st =
     (if length (catalog st) \<le> MESSAGE_TAG_CATALOG_LIMIT \<and> list_all tag_valid (catalog st)
         \<and> length (assignments st) \<le> MESSAGE_TAG_ASSIGNMENT_LIMIT
         \<and> list_all (\<lambda>(k, ids). 1 \<le> length k \<and> length k \<le> 4096 \<and> list_all tag_id_valid ids
                     \<and> 1 \<le> length ids \<and> length ids \<le> MESSAGE_TAGS_PER_MESSAGE_LIMIT) (assignments st)
      then Some \<lparr>catalog = catalog st,
                 assignments = filter (\<lambda>(_, ids). ids \<noteq> [])
                   (map (\<lambda>(k, ids). (k, filter (\<lambda>i. i \<in> tag_id ` set (catalog st)) (unique ids))) (assignments st))\<rparr>
      else None)"

section \<open>Filter lists stay numbered\<close>

definition filters_ok :: "js_runtime \<Rightarrow> message_filter list \<Rightarrow> bool" where
  "filters_ok rt fs =
     (length fs \<le> MESSAGE_FILTER_LIMIT \<and> distinct (map mf_id fs)
      \<and> mset (map mf_ordinal fs) = mset (map int [0..<length fs])
      \<and> list_all (\<lambda>f. validateMessageFilter rt f = Inr () \<and> length (mf_name f) \<le> MESSAGE_FILTER_NAME_LIMIT
                      \<and> length (mf_conditions f) \<le> MESSAGE_FILTER_CONDITION_LIMIT
                      \<and> length (mf_actions f) \<le> MESSAGE_FILTER_ACTION_LIMIT) fs)"

lemma filters_ok_mset: "mset fs = mset gs \<Longrightarrow> filters_ok rt fs = filters_ok rt gs"
proof -
  assume m: "mset fs = mset gs"
  then have "length fs = length gs" "set fs = set gs" "mset (map mf_ordinal fs) = mset (map mf_ordinal gs)"
    "mset (map mf_id fs) = mset (map mf_id gs)"
    by (auto dest: mset_eq_length mset_eq_setD)
  then show ?thesis
    using mset_eq_imp_distinct_iff [of "map mf_id fs" "map mf_id gs"] by (simp add: filters_ok_def list_all_iff)
qed

lemma mset_sortMessageFilters [simp]: "mset (sortMessageFilters rt fs) = mset fs"
  by (simp add: sortMessageFilters_def)

lemma filters_ok_sort [simp]: "filters_ok rt (sortMessageFilters rt' fs) = filters_ok rt fs"
  by (rule filters_ok_mset) simp

lemma filters_ok_list: "filters_ok rt (og_filters st) \<Longrightarrow> filters_ok rt (listFilters rt st)"
  by (simp add: listFilters_def)

lemma foldl_max_le: "(a::int) \<le> b \<Longrightarrow> (\<And>x. x \<in> set xs \<Longrightarrow> x \<le> b) \<Longrightarrow> foldl max a xs \<le> b"
  by (induction xs arbitrary: a) auto

lemma next_ordinal_numbered:
  assumes "mset os = mset (map int [0..<n])"
  shows "next_ordinal os = int n"
proof -
  have os: "set os = int ` {0..<n}" using mset_eq_setD [OF assms] by simp
  have "foldl max (-1) os \<le> int n - 1" by (rule foldl_max_le) (auto simp: os)
  moreover have "int n - 1 \<le> foldl max (-1) os"
  proof (cases n)
    case 0
    then show ?thesis using foldl_max_ge [of "-1" os] by simp
  next
    case (Suc k)
    then have "int k \<in> set os" by (auto simp: os)
    from foldl_max_mem [OF this] Suc show ?thesis by simp
  qed
  ultimately show ?thesis by (simp add: next_ordinal_def)
qed

lemma ordinal_range:
  "filters_ok rt fs \<Longrightarrow> f \<in> set fs \<Longrightarrow> 0 \<le> mf_ordinal f \<and> mf_ordinal f < int MESSAGE_FILTER_LIMIT"
proof -
  assume ok: "filters_ok rt fs" and f: "f \<in> set fs"
  then have "mf_ordinal f \<in> set (map int [0..<length fs])"
    using mset_eq_setD [of "map mf_ordinal fs" "map int [0..<length fs]"] by (auto simp: filters_ok_def)
  with ok show ?thesis by (auto simp: filters_ok_def)
qed

lemma renumber_from:
  "map mf_id (map (\<lambda>(i, f). f\<lparr>mf_ordinal := int i\<rparr>) (enumerate k fs)) = map mf_id fs"
  "map mf_ordinal (map (\<lambda>(i, f). f\<lparr>mf_ordinal := int i\<rparr>) (enumerate k fs)) = map int [k..<k + length fs]"
proof -
  have step: "[k..<Suc (k + n)] = k # [Suc k..<Suc (k + n)]" for k n
    by (subst upt_conv_Cons) auto
  show "map mf_id (map (\<lambda>(i, f). f\<lparr>mf_ordinal := int i\<rparr>) (enumerate k fs)) = map mf_id fs"
    by (induction fs arbitrary: k) simp_all
  show "map mf_ordinal (map (\<lambda>(i, f). f\<lparr>mf_ordinal := int i\<rparr>) (enumerate k fs)) = map int [k..<k + length fs]"
    by (induction fs arbitrary: k) (simp_all add: step del: upt_Suc)
qed

lemma renumber_same:
  "map mf_id (renumber fs) = map mf_id fs" "length (renumber fs) = length fs"
  "map mf_ordinal (renumber fs) = map int [0..<length fs]"
  using renumber_from [of 0 fs] by (simp_all only: renumber_def length_map length_enumerate add_0)

lemma set_renumber: "g \<in> set (renumber fs) \<Longrightarrow> \<exists>f i. f \<in> set fs \<and> g = f\<lparr>mf_ordinal := i\<rparr>"
  unfolding renumber_def by (force simp: in_set_enumerate_eq)

lemma validate_ordinal [simp]: "validateMessageFilter rt (f\<lparr>mf_ordinal := i\<rparr>) = validateMessageFilter rt f"
  by (auto simp: validateMessageFilter_def split: sum.split)

lemma filters_ok_renumber:
  assumes "filters_ok rt fs" and "set gs \<subseteq> set fs" and "distinct (map mf_id gs)"
  shows "filters_ok rt (renumber gs)"
proof -
  have "distinct gs" using assms(3) by (simp add: distinct_map)
  moreover have "distinct fs" using assms(1) by (simp add: filters_ok_def distinct_map)
  ultimately have "length gs \<le> length fs"
    using assms(2) by (metis List.finite_set card_mono distinct_card)
  then show ?thesis
    using assms unfolding filters_ok_def renumber_same
    by (auto simp: list_all_iff dest!: set_renumber)
qed

lemma filters_ok_remove:
  assumes "filters_ok rt fs" shows "filters_ok rt (renumber (filter P fs))"
  using assms by (intro filters_ok_renumber [OF assms]) (auto simp: filters_ok_def distinct_map_filter)

lemma pick_ordered_set: "set (pick_ordered fs taken ids) \<subseteq> {f \<in> set fs. mf_id f \<in> set ids - taken}"
proof (induction fs taken ids rule: pick_ordered.induct)
  case (2 fs taken i ids)
  show ?case
  proof (cases "List.find (\<lambda>f. mf_id f = i) (rev fs)")
    case (Some f)
    then show ?thesis using 2 find_Some_mem [OF Some] by auto
  qed (use 2 in auto)
qed simp

lemma pick_ordered_distinct: "distinct (map mf_id (pick_ordered fs taken ids))"
proof (induction fs taken ids rule: pick_ordered.induct)
  case (2 fs taken i ids)
  show ?case
  proof (cases "List.find (\<lambda>f. mf_id f = i) (rev fs)")
    case (Some f)
    then show ?thesis
      using 2 find_Some_mem [OF Some] pick_ordered_set [of fs "insert i taken" ids] by auto
  qed (use 2 in auto)
qed simp

definition reordered :: "message_filter list \<Rightarrow> string list \<Rightarrow> message_filter list" where
  "reordered fs ids = (let o' = pick_ordered fs {} ids in o' @ filter (\<lambda>f. mf_id f \<notin> mf_id ` set o') fs)"

lemma reordered_ok: "filters_ok rt fs \<Longrightarrow> filters_ok rt (renumber (reordered fs ids))"
  unfolding reordered_def Let_def
proof (rule filters_ok_renumber, assumption)
  assume ok: "filters_ok rt fs"
  let ?o = "pick_ordered fs {} ids"
  show "set (?o @ filter (\<lambda>f. mf_id f \<notin> mf_id ` set ?o) fs) \<subseteq> set fs"
    using pick_ordered_set [of fs "{}" ids] by auto
  show "distinct (map mf_id (?o @ filter (\<lambda>f. mf_id f \<notin> mf_id ` set ?o) fs))"
    using pick_ordered_distinct [of fs "{}" ids] ok
    by (auto simp: filters_ok_def distinct_map_filter) (metis image_eqI)
qed

lemma mset_replace_ordinal:
  "distinct (map mf_id fs) \<Longrightarrow> c \<in> set fs \<Longrightarrow>
   add_mset (mf_ordinal c) (mset (map mf_ordinal (filter (\<lambda>f. mf_id f \<noteq> mf_id c) fs))) = mset (map mf_ordinal fs)"
proof (induction fs)
  case (Cons f fs)
  show ?case
  proof (cases "f = c")
    case True
    then have "filter (\<lambda>g. mf_id g \<noteq> mf_id c) fs = fs"
      using Cons.prems(1) by (intro filter_True) (force simp: image_iff)
    with True show ?thesis by simp
  next
    case False
    with Cons.prems have "mf_id f \<noteq> mf_id c" "c \<in> set fs" by force+
    with Cons show ?thesis by (simp add: add_mset_commute)
  qed
qed simp

lemma filter_with_id_mem: "filter_with_id fs i = Some c \<Longrightarrow> c \<in> set fs"
  by (auto simp: filter_with_id_def split: option.splits if_splits dest: find_Some_mem)

lemma upsertFilter_ok:
  assumes ok: "filters_ok rt (og_filters st)" and res: "upsertFilter rt st input newId = Inr st'"
    and fresh: "newId \<notin> mf_id ` set (og_filters st)"
  shows "filters_ok rt (og_filters st')"
proof -
  let ?fs = "listFilters rt st" and ?c = "filter_candidate (listFilters rt st) input newId"
  have fs: "filters_ok rt ?fs" using ok by (rule filters_ok_list)
  then have dist: "distinct (map mf_id ?fs)" by (simp add: filters_ok_def)
  have st': "st' = st\<lparr>og_filters := sortMessageFilters rt (filter (\<lambda>f. mf_id f \<noteq> mf_id ?c) ?fs @ [?c])\<rparr>"
    and room: "filter_with_id ?fs (fi_id input) = None \<Longrightarrow> length ?fs < MESSAGE_FILTER_LIMIT"
    and valid: "validateMessageFilter rt ?c = Inr ()"
    using res by (auto simp: upsertFilter_def Let_def split: if_splits sum.splits option.splits)
  have bounds: "length (mf_name ?c) \<le> MESSAGE_FILTER_NAME_LIMIT"
    "length (mf_conditions ?c) \<le> MESSAGE_FILTER_CONDITION_LIMIT" "length (mf_actions ?c) \<le> MESSAGE_FILTER_ACTION_LIMIT"
    by (simp_all add: filter_candidate_def Let_def)
  let ?gs = "filter (\<lambda>f. mf_id f \<noteq> mf_id ?c) ?fs @ [?c]"
  have "mset (map mf_ordinal ?gs) = mset (map int [0..<length ?gs]) \<and> length ?gs \<le> MESSAGE_FILTER_LIMIT"
  proof (cases "filter_with_id ?fs (fi_id input)")
    case None
    then have c: "mf_id ?c = newId" "mf_ordinal ?c = next_ordinal (map mf_ordinal ?fs)"
      by (simp_all add: filter_candidate_def Let_def)
    have "newId \<notin> mf_id ` set ?fs" using fresh by (simp add: listFilters_def sortMessageFilters_def)
    then have same: "filter (\<lambda>f. mf_id f \<noteq> mf_id ?c) ?fs = ?fs" unfolding c by (intro filter_True) auto
    have ords: "mset (map mf_ordinal ?fs) = mset (map int [0..<length ?fs])" using fs by (simp add: filters_ok_def)
    show ?thesis
      unfolding same using ords room [OF None] next_ordinal_numbered [OF ords] c(2) by simp
  next
    case (Some d)
    then have d: "d \<in> set ?fs" "mf_id ?c = mf_id d" "mf_ordinal ?c = mf_ordinal d"
      by (simp_all add: filter_candidate_def Let_def filter_with_id_mem)
    have "mset (map mf_ordinal ?gs) = mset (map mf_ordinal ?fs)"
      using mset_replace_ordinal [OF dist d(1)] d(2,3) by simp
    moreover from this have "length ?gs = length ?fs" by (metis mset_eq_length length_map)
    ultimately show ?thesis using fs by (simp add: filters_ok_def)
  qed
  moreover have "distinct (map mf_id ?gs)" using dist by (auto simp: distinct_map_filter)
  ultimately have "filters_ok rt ?gs"
    using fs valid bounds by (auto simp: filters_ok_def list_all_iff)
  then show ?thesis by (simp add: st')
qed

section \<open>Every operation keeps the stored organisation well formed\<close>

definition organized_ok :: "js_runtime \<Rightarrow> organized \<Rightarrow> bool" where
  "organized_ok rt st =
     (tag_state_ok (og_tags st) \<and> filters_ok rt (og_filters st) \<and> junk_model_ok (og_junk st))"

text \<open>
  The operations of this file as steps of the stored state. A failing operation leaves it as it was;
  the identifier of a new filter comes from \<open>randomUUID\<close> and is not in use.
\<close>

inductive organize :: "js_runtime \<Rightarrow> organized \<Rightarrow> organized \<Rightarrow> bool" for rt :: js_runtime where
  add_tag: "addMessageTag rt st name colour = Inr st' \<Longrightarrow> organize rt st st'"
| edit_tag: "editMessageTag rt st i patch = Inr st' \<Longrightarrow> organize rt st st'"
| remove_tag: "removeMessageTag st i = Inr st' \<Longrightarrow> organize rt st st'"
| apply_tags: "organize rt st (fst (applyMessageTags rt st m tagIds))"
| carry_tags: "organize rt st (carryTagsThroughMove st source target)"
| forget_account: "organize rt st (forgetAccountTags st account)"
| forget_folder: "organize rt st (forgetFolderTags st account path)"
| upsert_filter: "upsertFilter rt st input newId = Inr st' \<Longrightarrow> newId \<notin> mf_id ` set (og_filters st) \<Longrightarrow> organize rt st st'"
| remove_filter: "removeFilter rt st i = Inr st' \<Longrightarrow> organize rt st st'"
| reorder_filters: "organize rt st (reorderFilters rt st ids)"
| train_junk: "organize rt st (trainJunk rt st m label body)"
| reset_junk: "organize rt st (resetJunk st)"

lemma addMessageTag_state:
  "tag_state_ok (og_tags st) \<Longrightarrow> addMessageTag rt st name colour = Inr st' \<Longrightarrow>
   tag_state_ok (og_tags st') \<and> og_filters st' = og_filters st \<and> og_junk st' = og_junk st"
  by (auto simp: addMessageTag_def tag_state_ok_def split: sum.splits
      dest: createMessageTag_ok intro: tag_assignments_ok_mono)

lemma editMessageTag_state:
  "tag_state_ok (og_tags st) \<Longrightarrow> editMessageTag rt st i patch = Inr st' \<Longrightarrow>
   tag_state_ok (og_tags st') \<and> og_filters st' = og_filters st \<and> og_junk st' = og_junk st"
  using updateMessageTag_ok [of "catalog (og_tags st)" rt i patch]
  by (fastforce simp: editMessageTag_def tag_state_ok_def split: sum.splits intro: tag_assignments_ok_mono)

lemma reorderFilters_eq: "reorderFilters rt st ids = st\<lparr>og_filters := renumber (reordered (listFilters rt st) ids)\<rparr>"
  by (simp add: reorderFilters_def reordered_def Let_def)

lemma junk_model_ok_empty: "junk_model_ok emptyJunkModel"
  by (simp add: emptyJunkModel_def junk_model_ok_def junk_tokens_ok_def)

lemma organize_ok: "organize rt st st' \<Longrightarrow> organized_ok rt st \<Longrightarrow> organized_ok rt st'"
proof (induction rule: organize.induct)
  case (add_tag st name colour st')
  then show ?case using addMessageTag_state by (fastforce simp: organized_ok_def)
next
  case (edit_tag st i patch st')
  then show ?case using editMessageTag_state by (fastforce simp: organized_ok_def)
next
  case (remove_tag st i st')
  then show ?case by (auto simp: organized_ok_def removeMessageTag_def split: sum.splits intro: deleteMessageTag_ok)
next
  case (upsert_filter st input newId st')
  moreover from this have "og_tags st' = og_tags st \<and> og_junk st' = og_junk st"
    by (auto simp: upsertFilter_def Let_def split: if_splits sum.splits option.splits)
  ultimately show ?case using upsertFilter_ok by (auto simp: organized_ok_def)
next
  case (remove_filter st i st')
  then show ?case
    by (auto simp: organized_ok_def removeFilter_def Let_def split: if_splits intro!: filters_ok_remove filters_ok_list)
next
  case (reorder_filters st ids)
  then show ?case by (simp add: organized_ok_def reorderFilters_eq reordered_ok filters_ok_list)
qed (simp_all add: organized_ok_def applyMessageTags_def carryTagsThroughMove_def forgetAccountTags_def
    forgetFolderTags_def trainJunk_def resetJunk_def Let_def setMessageTags_ok retagMovedMessage_ok
    forgetMessageTags_ok train_keeps_ok junk_model_ok_empty)

lemma organized_ok_initial: "organized_ok rt (initial_organized ms ds)"
  by (simp add: organized_ok_def initial_organized_def tag_state_ok_empty filters_ok_def junk_model_ok_empty)

lemma organize_steps_ok: "(organize rt)\<^sup>*\<^sup>* st st' \<Longrightarrow> organized_ok rt st \<Longrightarrow> organized_ok rt st'"
  by (induction rule: rtranclp_induct) (auto intro: organize_ok)

lemma ids_at_forget: "ids_at (forgetMessageTags st P) k = (if P k then [] else ids_at st k)"
proof -
  have "map_of (filter (\<lambda>(k, _). \<not> P k) es) k = (if P k then None else map_of es k)" for es :: tag_assignments
    by (induction es) auto
  then show ?thesis by (simp add: ids_at_def forgetMessageTags_def)
qed

section \<open>Order of filters\<close>

lemma comparator_filters: "comparator (collate rt) \<Longrightarrow> comparator (filter_comparison rt)"
  unfolding filter_comparison_def
  by (intro comparator_chain comparator_on ints.comparator_axioms)

lemma sort_renumber:
  assumes "comparator (collate rt)"
  shows "sortMessageFilters rt (renumber fs) = renumber fs"
proof -
  have "sorted_wrt (\<lambda>x y. mf_ordinal x < mf_ordinal y) (renumber fs)"
    using renumber_same(3) [of fs] unfolding sorted_wrt_map [of _ mf_ordinal, symmetric]
    by (simp add: sorted_wrt_iff_nth_less)
  then have "sorted_wrt (\<lambda>x y. filter_comparison rt x y \<le> 0) (renumber fs)"
    by (rule sorted_wrt_mono_rel [rotated])
      (auto simp: filter_comparison_def cmp_chain_def cmp_or_def cmp_on_def int_cmp_def)
  then show ?thesis
    unfolding sortMessageFilters_def by (rule comparator.sort_ordered_id [OF comparator_filters [OF assms]])
qed

lemma pick_ordered_ids:
  "taken \<subseteq> mf_id ` set fs \<Longrightarrow> set seen \<inter> mf_id ` set fs = taken \<Longrightarrow>
   map mf_id (pick_ordered fs taken ids) = filter (\<lambda>i. i \<in> mf_id ` set fs) (unique_from seen ids)"
proof (induction fs taken ids arbitrary: seen rule: pick_ordered.induct)
  case (2 fs taken i ids)
  show ?case
  proof (cases "List.find (\<lambda>f. mf_id f = i) (rev fs)")
    case None
    then have absent: "i \<notin> mf_id ` set fs" unfolding find_None_none by auto
    then have "set (i # seen) \<inter> mf_id ` set fs = taken" using 2 by auto
    with 2(1) [OF None 2(4), of "i # seen"] 2(1) [OF None 2(4,5)] None absent show ?thesis
      by (cases "i \<in> set seen") auto
  next
    case (Some f)
    then have f: "mf_id f = i" "i \<in> mf_id ` set fs" using find_Some_mem [OF Some] by auto
    show ?thesis
    proof (cases "i \<in> taken")
      case True
      then have "i \<in> set seen" using 2 by auto
      with True Some 2(2) [OF Some True 2(4,5)] show ?thesis by simp
    next
      case False
      then have "i \<notin> set seen" using 2(5) f by auto
      moreover have "set (i # seen) \<inter> mf_id ` set fs = insert i taken" using 2(5) f by auto
      with 2(3) [OF Some False, of "i # seen"] 2(4) f
      have "map mf_id (pick_ordered fs (insert i taken) ids) = filter (\<lambda>i. i \<in> mf_id ` set fs) (unique_from (i # seen) ids)"
        by simp
      ultimately show ?thesis using Some False f by simp
    qed
  qed
qed simp

section \<open>Properties\<close>

text \<open>
  C1: whatever sequence of tag, filter and junk operations runs from the initial state, and whichever
  of them fail, the stored organisation stays well formed: the tag catalogue and assignments satisfy
  their limits and references, filters are valid, unique, at most 200 and numbered 0, 1, 2 up to
  their count, and the junk model keeps its bounds.
\<close>

theorem reachable_organization_ok:
  assumes "(organize rt)\<^sup>*\<^sup>* (initial_organized messages details) st"
  shows "tag_state_ok (og_tags st) \<and> junk_model_ok (og_junk st) \<and> filters_ok rt (og_filters st)
    \<and> (\<forall>f \<in> set (og_filters st). 0 \<le> mf_ordinal f \<and> mf_ordinal f < int MESSAGE_FILTER_LIMIT)"
  using organize_steps_ok [OF assms organized_ok_initial] ordinal_range by (auto simp: organized_ok_def)

lemma next_ordinal_top: "x \<in> set xs \<Longrightarrow> x = n \<Longrightarrow> \<forall>y \<in> set xs. y \<le> n \<Longrightarrow> 0 \<le> n \<Longrightarrow> next_ordinal xs = n + 1"
proof -
  have "foldl max a xs = n" if "a \<le> n" "\<forall>y \<in> set xs. y \<le> n" "a = n \<or> n \<in> set xs" for a :: int and xs
    using that by (induction xs arbitrary: a) auto
  then show "x \<in> set xs \<Longrightarrow> x = n \<Longrightarrow> \<forall>y \<in> set xs. y \<le> n \<Longrightarrow> 0 \<le> n \<Longrightarrow> ?thesis"
    by (simp add: next_ordinal_def)
qed

definition later_ordinal :: tag_patch where
  "later_ordinal = \<lparr>tp_name = None, tp_colour = None, tp_ordinal = Some 64\<rparr>"

definition two_edits :: "organized option" where
  "two_edits =
     (case editMessageTag ascii_runtime (initial_organized [] []) ''later'' later_ordinal of
        Inl _ \<Rightarrow> None
      | Inr st \<Rightarrow> (case addMessageTag ascii_runtime st ''Bills'' ''#112233'' of Inl _ \<Rightarrow> None | Inr st' \<Rightarrow> Some st'))"

lemma two_edits_value:
  "map_option (\<lambda>st. map tag_ordinal (catalog (og_tags st))) two_edits = Some [0, 1, 2, 3, 64, 65]"
  by code_simp

lemma two_edits_reachable:
  assumes "two_edits = Some st"
  shows "(organize ascii_runtime)\<^sup>*\<^sup>* (initial_organized [] []) st"
proof -
  obtain s1 where s1: "editMessageTag ascii_runtime (initial_organized [] []) ''later'' later_ordinal = Inr s1"
    and s2: "addMessageTag ascii_runtime s1 ''Bills'' ''#112233'' = Inr st"
    using assms by (auto simp: two_edits_def split: sum.splits)
  from edit_tag [OF s1] add_tag [OF s2] show ?thesis by simp
qed

theorem reachable_organization_ok_witness:
  "\<exists>st. two_edits = Some st \<and> tag_state_ok (og_tags st)"
proof -
  obtain st where st: "two_edits = Some st" using two_edits_value by auto
  with reachable_organization_ok [OF two_edits_reachable [OF st]] show ?thesis by blast
qed

text \<open>
  the bound of the stored-state schema on tag ordinals is not kept by the operations. When every
  tag of the catalogue is valid and one has the largest ordinal, 64, which an edit can give it, then
  adding a tag, if it is accepted, gives the new tag the ordinal 65. It is the one tag above the bound,
  and for its sake the schema rejects the whole tag state when it is loaded again.
\<close>

theorem tag_ordinals_outgrow_the_schema:
  assumes "addMessageTag rt st name colour = Inr st'"
    and "list_all tag_valid (catalog (og_tags st))" and "t \<in> set (catalog (og_tags st))" and "tag_ordinal t = 64"
  shows "(\<exists>new. tag_ordinal new = 65 \<and> filter (\<lambda>u. tag_ordinal u > 64) (catalog (og_tags st')) = [new])
    \<and> parse_tag_state (og_tags st') = None"
proof -
  let ?tags = "catalog (og_tags st)"
  obtain new where new: "createMessageTag rt ?tags name colour = Inr new"
    and st': "catalog (og_tags st') = sortMessageTags rt (?tags @ [new])"
    using assms(1) by (auto simp: addMessageTag_def split: sum.splits)
  have "next_ordinal (map tag_ordinal ?tags) = 65"
    using next_ordinal_top [of "tag_ordinal t" "map tag_ordinal ?tags" 64] assms(2-4)
    by (auto simp: list_all_iff tag_valid_def MESSAGE_TAG_CATALOG_LIMIT_def)
  with new have ordinal: "tag_ordinal new = 65"
    by (auto simp: createMessageTag_def split: if_splits sum.splits)
  have low: "filter (\<lambda>u. tag_ordinal u > 64) ?tags = []"
    using assms(2) by (auto simp: filter_empty_conv list_all_iff tag_valid_def MESSAGE_TAG_CATALOG_LIMIT_def)
  have one: "xs = [x]" if "mset xs = mset [x]" for xs and x :: message_tag
    using that by simp
  have "mset (filter (\<lambda>u. tag_ordinal u > 64) (catalog (og_tags st'))) = mset (filter (\<lambda>u. tag_ordinal u > 64) (?tags @ [new]))"
    by (simp only: st' sortMessageTags_def mset_filter mset_js_sort)
  also have "filter (\<lambda>u. tag_ordinal u > 64) (?tags @ [new]) = [new]"
    using ordinal low by simp
  finally have above: "filter (\<lambda>u. tag_ordinal u > 64) (catalog (og_tags st')) = [new]"
    by (rule one)
  then have "new \<in> set (filter (\<lambda>u. tag_ordinal u > 64) (catalog (og_tags st')))" by simp
  then have "new \<in> set (catalog (og_tags st'))" by (rule filter_is_subset [THEN subsetD])
  with ordinal have "\<not> list_all tag_valid (catalog (og_tags st'))"
    by (auto simp: list_all_iff tag_valid_def MESSAGE_TAG_CATALOG_LIMIT_def intro!: bexI [of _ new])
  then have "parse_tag_state (og_tags st') = None" by (auto simp: parse_tag_state_def)
  with above ordinal show ?thesis by blast
qed

theorem tag_ordinals_outgrow_the_schema_witness:
  "\<exists>st. (organize ascii_runtime)\<^sup>*\<^sup>* (initial_organized [] []) st \<and> parse_tag_state (og_tags st) = None"
proof -
  obtain st where st: "two_edits = Some st" using two_edits_value by auto
  obtain s1 where s1: "editMessageTag ascii_runtime (initial_organized [] []) ''later'' later_ordinal = Inr s1"
    and s2: "addMessageTag ascii_runtime s1 ''Bills'' ''#112233'' = Inr st"
    using st by (auto simp: two_edits_def split: sum.splits)
  have edited: "case editMessageTag ascii_runtime (initial_organized [] []) ''later'' later_ordinal of
      Inl _ \<Rightarrow> False | Inr s \<Rightarrow> list_all tag_valid (catalog (og_tags s)) \<and> list_ex (\<lambda>t. tag_ordinal t = 64) (catalog (og_tags s))"
    by code_simp
  then obtain t where "list_all tag_valid (catalog (og_tags s1))" "t \<in> set (catalog (og_tags s1))" "tag_ordinal t = 64"
    by (auto simp: s1 list_ex_iff)
  from tag_ordinals_outgrow_the_schema [OF s2 this] two_edits_reachable [OF st] show ?thesis by blast
qed

text \<open>
  loading a stored tag state keeps its catalogue and never keeps a tag on a message that the
  catalogue does not define, an empty tag list, or a repeated tag.
\<close>

theorem loaded_tags_are_defined:
  assumes "parse_tag_state stored = Some st"
  shows "catalog st = catalog stored
    \<and> (\<forall>(k, ids) \<in> set (assignments st). ids \<noteq> [] \<and> distinct ids \<and> set ids \<subseteq> tag_id ` set (catalog st))"
  using assms by (auto simp: parse_tag_state_def split: if_splits)

theorem loaded_tags_are_defined_witness:
  "\<exists>st. parse_tag_state \<lparr>catalog = [], assignments = [(''k'', [''gone''])]\<rparr> = Some st \<and> catalog st = []"
proof -
  have "parse_tag_state \<lparr>catalog = [], assignments = [(''k'', [''gone''])]\<rparr> = Some \<lparr>catalog = [], assignments = []\<rparr>"
    by code_simp
  with loaded_tags_are_defined [OF this] show ?thesis by auto
qed

text \<open>
  reordering lists the filters in the requested order, unknown and repeated ids ignored, then
  every filter that was not mentioned in its previous order; none is lost.
\<close>

theorem reorder_gives_requested_order:
  assumes "comparator (collate rt)" and "filters_ok rt (og_filters st)"
  shows "map mf_id (listFilters rt (reorderFilters rt st ids))
    = filter (\<lambda>i. i \<in> mf_id ` set (og_filters st)) (unique ids)
      @ filter (\<lambda>i. i \<notin> set ids) (map mf_id (listFilters rt st))"
proof -
  let ?fs = "listFilters rt st"
  have set_fs: "set ?fs = set (og_filters st)" by (simp add: listFilters_def sortMessageFilters_def)
  have picked: "map mf_id (pick_ordered ?fs {} ids) = filter (\<lambda>i. i \<in> mf_id ` set ?fs) (unique ids)"
    using pick_ordered_ids [of "{}" ?fs "[]" ids] by (simp add: unique_def)
  then have mem: "mf_id ` set (pick_ordered ?fs {} ids) = mf_id ` set ?fs \<inter> set ids"
    by (subst set_map [symmetric], subst picked) auto
  have "map mf_id (filter (\<lambda>f. mf_id f \<notin> mf_id ` set (pick_ordered ?fs {} ids)) ?fs)
      = filter (\<lambda>i. i \<notin> set ids) (map mf_id ?fs)"
    unfolding mem filter_map comp_def by (intro arg_cong [where f = "map mf_id"] filter_cong) auto
  then have "map mf_id (reordered ?fs ids)
      = filter (\<lambda>i. i \<in> mf_id ` set (og_filters st)) (unique ids) @ filter (\<lambda>i. i \<notin> set ids) (map mf_id ?fs)"
    by (simp add: reordered_def Let_def picked set_fs)
  then show ?thesis
    unfolding reorderFilters_eq listFilters_def [of rt "st\<lparr>og_filters := _\<rparr>"]
    by (simp add: sort_renumber [OF assms(1)] renumber_same)
qed

theorem reorder_gives_requested_order_witness:
  "map mf_id (listFilters ascii_runtime (reorderFilters ascii_runtime (initial_organized [] []) [''x''])) = []"
  using reorder_gives_requested_order [of ascii_runtime "initial_organized [] []" "[''x'']"] codeunits.comparator_axioms
  by (simp add: initial_organized_def filters_ok_def listFilters_def sortMessageFilters_def)

text \<open>
  forgetting a folder removes the tags of exactly the messages of that folder and account, for
  every message whose account and folder names contain no NUL.
\<close>

theorem forget_folder_is_exact:
  assumes "nul \<notin> set a" and "nul \<notin> set p" and "\<forall>v. validity = Some v \<longrightarrow> nul \<notin> set v" and "a \<noteq> []"
  shows "ids_at (og_tags (forgetFolderTags st account path)) (messageTagKey a p uid validity)
    = (if a = account \<and> p = path then [] else ids_at (og_tags st) (messageTagKey a p uid validity))"
proof -
  have parts: "split_on nul (messageTagKey a p uid validity)
      = [a, p, (case validity of None \<Rightarrow> [] | Some v \<Rightarrow> v), nat_text uid]"
    by (rule messageTagKey_parts) (use assms in auto)
  have "messageTagKeyAccountId (messageTagKey a p uid validity) = Some a"
    "messageTagKeyFolderPath (messageTagKey a p uid validity) = Some p"
    using assms(4) by (simp_all add: messageTagKeyAccountId_def messageTagKeyFolderPath_def parts Let_def)
  then have "(messageTagKeyAccountId (messageTagKey a p uid validity) = Some account
      \<and> messageTagKeyFolderPath (messageTagKey a p uid validity) = Some path) \<longleftrightarrow> a = account \<and> p = path"
    by simp
  moreover have "og_tags (forgetFolderTags st account path) = forgetMessageTags (og_tags st)
       (\<lambda>key. messageTagKeyAccountId key = Some account \<and> messageTagKeyFolderPath key = Some path)"
    by (simp add: forgetFolderTags_def)
  ultimately show ?thesis by (simp only: ids_at_forget)
qed

theorem forget_folder_is_exact_witness:
  "ids_at (og_tags (forgetFolderTags (initial_organized [] []) ''a'' ''INBOX'')) (messageTagKey ''a'' ''INBOX'' 1 None) = []"
  using forget_folder_is_exact [of "''a''" "''INBOX''" None "initial_organized [] []" "''a''" "''INBOX''" 1]
  by (simp add: nul_def)

end
