(* ===== verification/Pim_Foundation.thy ===== *)
theory Pim_Foundation
  imports Content_Lines State_Tables Regex_Lang
begin

text \<open>
  The local foundation for calendar and contact providers (\<open>src/main/pim/provider-foundation.ts\<close>):
  the state machine with its log, the check of a provider address, the capability report, and the
  bounded inspection and export of vCard and iCalendar documents. Nothing here contacts a server.
  The URL parser is the argument \<open>url\<close>; an issue or an error is a constructor for its message.
\<close>

section \<open>Data\<close>

definition PIM_PROVIDER_ENDPOINT_LIMIT :: nat where "PIM_PROVIDER_ENDPOINT_LIMIT = 2048"
definition PIM_INTERCHANGE_MAX_BYTES :: nat where "PIM_INTERCHANGE_MAX_BYTES = 1048576"
definition PIM_INTERCHANGE_MAX_LINES :: nat where "PIM_INTERCHANGE_MAX_LINES = 20000"

datatype provider_kind = CardDav | CalDav | IcsFile
datatype provider_auth = NoAuth | BasicAuth | OAuth2Auth

record provider_profile =
  pp_kind :: provider_kind
  pp_endpoint :: string
  pp_auth :: provider_auth

datatype foundation_state = PimIdle | PimValidating | PimReview | PimReady | PimRejected
datatype foundation_event = StartEvent | AcceptProfile | RejectProfile | InspectCapabilities | Finish

record foundation_transition =
  ft_sequence :: nat
  ft_from :: foundation_state
  ft_event :: foundation_event
  ft_to :: foundation_state

datatype capability_name =
  LocalVcard | LocalIcalendar | CollectionDiscovery | EtagConcurrency | SyncToken | RemoteRead
| RemoteWrite | Scheduling | RecurrenceExpansion | CredentialUse

datatype capability_evidence = BoundedLocalParser | NotImplemented

record capability_status =
  cs_name :: capability_name
  cs_available :: bool
  cs_used :: bool
  cs_evidence :: capability_evidence

datatype foundation_boundary = LocalValidationOnly | InvalidLocalProfile

datatype endpoint_issue =
  EnterUrl | UrlTooLong | UrlControlCharacter | UrlNotAbsolute | UrlCredentials | UrlQuery | UrlFragment
| IcsNeedsNoAuth | IcsNeedsFileUrl | IcsNetworkLocation | IcsNeedsDrivePath | IcsNeedsExtension
| DavNeedsHttps | DavNeedsHost

record foundation_snapshot =
  fo_profile :: "provider_profile option"
  fo_state :: foundation_state
  fo_issues :: "endpoint_issue list"
  fo_capabilities :: "capability_status list"
  fo_transitions :: "foundation_transition list"
  fo_server_contacted :: bool
  fo_credentials_used :: bool
  fo_state_persisted :: bool
  fo_live_sync :: bool
  fo_recurrence_expanded :: bool
  fo_boundary :: foundation_boundary

section \<open>The state machine\<close>

fun NEXT_STATE :: "foundation_state \<Rightarrow> foundation_event \<Rightarrow> foundation_state option" where
  "NEXT_STATE PimIdle StartEvent = Some PimValidating"
| "NEXT_STATE PimValidating AcceptProfile = Some PimReview"
| "NEXT_STATE PimValidating RejectProfile = Some PimRejected"
| "NEXT_STATE PimReview InspectCapabilities = Some PimReview"
| "NEXT_STATE PimReview Finish = Some PimReady"
| "NEXT_STATE _ _ = None"

record foundation_machine =
  fm_state :: foundation_state
  fm_log :: "foundation_transition list"

definition new_machine :: foundation_machine where
  "new_machine = \<lparr>fm_state = PimIdle, fm_log = []\<rparr>"

definition machine_transition :: "foundation_event \<Rightarrow> foundation_machine \<Rightarrow> foundation_machine option" where
  "machine_transition event m =
     (case NEXT_STATE (fm_state m) event of None \<Rightarrow> None
      | Some to \<Rightarrow> Some \<lparr>fm_state = to,
          fm_log = fm_log m @ [\<lparr>ft_sequence = length (fm_log m) + 1, ft_from = fm_state m,
                                ft_event = event, ft_to = to\<rparr>]\<rparr>)"

section \<open>The provider address\<close>

definition is_ascii_letter :: "char \<Rightarrow> bool" where
  "is_ascii_letter c = (is_ascii_upper c \<or> is_ascii_lower c)"

text \<open>\<open>/^\/[A-Za-z]:\//u\<close> and \<open>/\.ics$/iu\<close>.\<close>

definition has_drive_path :: "string \<Rightarrow> bool" where
  "has_drive_path p = (case p of a # b # c # d # _ \<Rightarrow>
       a = CHR ''/'' \<and> is_ascii_letter b \<and> c = CHR '':'' \<and> d = CHR ''/'' | _ \<Rightarrow> False)"

definition has_ics_extension :: "string \<Rightarrow> bool" where
  "has_ics_extension p = ends_with ''.ics'' (lower p)"

definition endpoint_text_issues :: "string \<Rightarrow> endpoint_issue list" where
  "endpoint_text_issues t =
     (if t = [] then [EnterUrl] else []) @
     (if length t > PIM_PROVIDER_ENDPOINT_LIMIT then [UrlTooLong] else []) @
     (if list_ex is_control t then [UrlControlCharacter] else [])"

definition endpoint_url_issues :: "provider_profile \<Rightarrow> web_url \<Rightarrow> endpoint_issue list" where
  "endpoint_url_issues input u =
     (if url_username u \<noteq> [] \<or> url_password u \<noteq> [] then [UrlCredentials] else []) @
     (if url_search u \<noteq> [] then [UrlQuery] else []) @
     (if url_hash u \<noteq> [] then [UrlFragment] else []) @
     (if pp_kind input = IcsFile then
        (if pp_auth input \<noteq> NoAuth then [IcsNeedsNoAuth] else []) @
        (if wu_protocol u \<noteq> ''file:'' then [IcsNeedsFileUrl] else []) @
        (if url_hostname u \<noteq> [] then [IcsNetworkLocation] else []) @
        (if \<not> has_drive_path (url_pathname u) then [IcsNeedsDrivePath] else []) @
        (if \<not> has_ics_extension (url_pathname u) then [IcsNeedsExtension] else [])
      else
        (if wu_protocol u \<noteq> ''https:'' then [DavNeedsHttps] else []) @
        (if url_hostname u = [] then [DavNeedsHost] else []))"

definition parseEndpoint ::
  "web_url_parser \<Rightarrow> provider_profile \<Rightarrow> provider_profile option \<times> endpoint_issue list" where
  "parseEndpoint url input =
     (let t = trim (pp_endpoint input); issues = endpoint_text_issues t in
      if issues \<noteq> [] then (None, issues)
      else case url t of None \<Rightarrow> (None, [UrlNotAbsolute])
      | Some u \<Rightarrow>
          (let more = endpoint_url_issues input u in
           if more = [] then (Some (input\<lparr>pp_endpoint := wu_href u\<rparr>), []) else (None, more)))"

text \<open>The message thrown is the issues, joined.\<close>

definition validatePimProviderProfile ::
  "web_url_parser \<Rightarrow> provider_profile \<Rightarrow> (endpoint_issue list, provider_profile) result" where
  "validatePimProviderProfile url input =
     (case parseEndpoint url input of
        (Some p, _) \<Rightarrow> Inr p | (None, issues) \<Rightarrow> Inl issues)"

definition CAPABILITY_NAMES :: "capability_name list" where
  "CAPABILITY_NAMES = [LocalVcard, LocalIcalendar, CollectionDiscovery, EtagConcurrency, SyncToken,
     RemoteRead, RemoteWrite, Scheduling, RecurrenceExpansion, CredentialUse]"

definition locally_available :: "provider_kind option \<Rightarrow> capability_name list" where
  "locally_available kind =
     (if kind = Some CardDav then [LocalVcard] else []) @
     (if kind = Some CalDav \<or> kind = Some IcsFile then [LocalIcalendar] else [])"

definition capabilitiesFor :: "provider_kind option \<Rightarrow> capability_status list" where
  "capabilitiesFor kind = map (\<lambda>n.
     let available = n \<in> set (locally_available kind) in
     \<lparr>cs_name = n, cs_available = available, cs_used = False,
      cs_evidence = (if available then BoundedLocalParser else NotImplemented)\<rparr>) CAPABILITY_NAMES"

definition foundation_snapshot_of ::
  "provider_profile option \<Rightarrow> endpoint_issue list \<Rightarrow> foundation_boundary \<Rightarrow> foundation_machine \<Rightarrow> foundation_snapshot" where
  "foundation_snapshot_of profile issues boundary m =
     \<lparr>fo_profile = profile, fo_state = fm_state m, fo_issues = issues,
      fo_capabilities = capabilitiesFor (map_option pp_kind profile), fo_transitions = fm_log m,
      fo_server_contacted = False, fo_credentials_used = False, fo_state_persisted = False,
      fo_live_sync = False, fo_recurrence_expanded = False, fo_boundary = boundary\<rparr>"

definition runPimProviderFoundation :: "web_url_parser \<Rightarrow> provider_profile \<Rightarrow> foundation_snapshot option" where
  "runPimProviderFoundation url input =
     (case machine_transition StartEvent new_machine of None \<Rightarrow> None
      | Some m \<Rightarrow>
        (case parseEndpoint url input of
           (None, issues) \<Rightarrow>
             map_option (foundation_snapshot_of None issues InvalidLocalProfile) (machine_transition RejectProfile m)
         | (Some profile, _) \<Rightarrow>
             map_option (foundation_snapshot_of (Some profile) [] LocalValidationOnly)
               (run_changes machine_transition [AcceptProfile, InspectCapabilities, Finish] m)))"

section \<open>Interchange documents\<close>

datatype interchange_error =
  EmptyDocument | TooManyBytes | NulByte | TooManyLines | LineTooLong | FoldWithoutProperty
| NoSeparator | MalformedName | UnsupportedComponent string | Unbalanced string | OutsideComponent
| NotClosed string | WrongComponentCount string nat | CardCount | CardVersion | CalendarVersion
| SchedulingMethod | HasAttachment | ItemCount | MissingUid | DuplicateUid

datatype interchange_format = VCardFormat | ICalendarFormat

definition normalizedLines :: "string \<Rightarrow> string list" where
  "normalizedLines source = split_on (CHR 10) (unix_lines source)"

definition assertSourceBounds :: "string \<Rightarrow> (interchange_error, nat \<times> string list) result" where
  "assertSourceBounds source =
     (let bytes = byte_length source; ls = normalizedLines source in
      if bytes = 0 then Inl EmptyDocument
      else if bytes > PIM_INTERCHANGE_MAX_BYTES then Inl TooManyBytes
      else if nul \<in> set source then Inl NulByte
      else if length ls > PIM_INTERCHANGE_MAX_LINES then Inl TooManyLines
      else if list_ex (\<lambda>l. byte_length l > 8192) ls then Inl LineTooLong
      else Inr (bytes, ls))"

text \<open>The state of the loop: the open components (innermost first), the counts and the values of
  every property name, and whether the last line can be continued by a folded one.\<close>

record inspection =
  ip_stack :: "string list"
  ip_counts :: "(string, nat) entries"
  ip_properties :: "(string, string list) entries"
  ip_previous :: bool

definition PROPERTY_NAME :: rx where
  "PROPERTY_NAME = rx_seq
     [Cls is_ascii_letter, Star (Cls (\<lambda>c. is_ascii_letter c \<or> is_digit c \<or> c = CHR ''-'')),
      Star (Seq (rx_char (CHR '';'')) (rx_plus (rx_none_of '':'')))]"

datatype line_kind = BlankLine | FoldedLine | BadLine interchange_error | PropertyLine string string

definition classify_line :: "string \<Rightarrow> line_kind" where
  "classify_line raw =
     (if raw = [] then BlankLine
      else if hd raw = CHR '' '' \<or> hd raw = CHR 9 then FoldedLine
      else case index_of '':'' raw of
        None \<Rightarrow> BadLine NoSeparator
      | Some colon \<Rightarrow>
          if colon < 1 then BadLine NoSeparator
          else if \<not> rx_match PROPERTY_NAME (take colon raw) then BadLine MalformedName
          else PropertyLine (upper (hd (split_on (CHR '';'') (take colon raw)))) (trim (drop (colon + 1) raw)))"

definition inspect_line ::
  "string list \<Rightarrow> string \<Rightarrow> inspection \<Rightarrow> (interchange_error, inspection) result" where
  "inspect_line allowed raw st =
     (case classify_line raw of
        BlankLine \<Rightarrow> Inr (st\<lparr>ip_previous := False\<rparr>)
      | FoldedLine \<Rightarrow> if ip_previous st then Inr st else Inl FoldWithoutProperty
      | BadLine e \<Rightarrow> Inl e
      | PropertyLine name v \<Rightarrow>
          if name = ''BEGIN'' then
            (let c = upper v in
             if c \<notin> set allowed then Inl (UnsupportedComponent c)
             else Inr (st\<lparr>ip_stack := c # ip_stack st,
                          ip_counts := AList.update c (case_option 0 id (map_of (ip_counts st) c) + 1) (ip_counts st),
                          ip_previous := True\<rparr>))
          else if name = ''END'' then
            (let c = upper v in
             case ip_stack st of
               opened # rest \<Rightarrow> if opened = c then Inr (st\<lparr>ip_stack := rest, ip_previous := True\<rparr>) else Inl (Unbalanced c)
             | [] \<Rightarrow> Inl (Unbalanced c))
          else if ip_stack st = [] then Inl OutsideComponent
          else Inr (st\<lparr>ip_properties :=
                          AList.update name (case_option [] id (map_of (ip_properties st) name) @ [v]) (ip_properties st),
                       ip_previous := True\<rparr>))"

fun inspect_lines ::
  "string list \<Rightarrow> string list \<Rightarrow> inspection \<Rightarrow> (interchange_error, inspection) result" where
  "inspect_lines allowed [] st = Inr st"
| "inspect_lines allowed (l # ls) st =
     (case inspect_line allowed l st of Inl e \<Rightarrow> Inl e | Inr st' \<Rightarrow> inspect_lines allowed ls st')"

definition no_inspection :: inspection where
  "no_inspection = \<lparr>ip_stack = [], ip_counts = [], ip_properties = [], ip_previous = False\<rparr>"

definition inspectComponents :: "string list \<Rightarrow> string list \<Rightarrow> (interchange_error, inspection) result" where
  "inspectComponents ls allowed =
     (case inspect_lines allowed ls no_inspection of Inl e \<Rightarrow> Inl e
      | Inr st \<Rightarrow> (case ip_stack st of [] \<Rightarrow> Inr st | c # _ \<Rightarrow> Inl (NotClosed c)))"

definition count_of :: "inspection \<Rightarrow> string \<Rightarrow> nat" where
  "count_of i c = case_option 0 id (map_of (ip_counts i) c)"

definition values_of :: "inspection \<Rightarrow> string \<Rightarrow> string list" where
  "values_of i name = case_option [] id (map_of (ip_properties i) name)"

record interchange_inspection =
  ii_format :: interchange_format
  ii_bytes :: nat
  ii_lines :: nat
  ii_contacts :: nat
  ii_events :: nat
  ii_tasks :: nat
  ii_time_zones :: nat
  ii_recurrence_rules :: nat

definition inspect_vcard :: "nat \<Rightarrow> string list \<Rightarrow> (interchange_error, interchange_inspection) result" where
  "inspect_vcard bytes ls =
     (case inspectComponents ls [''VCARD''] of Inl e \<Rightarrow> Inl e
      | Inr i \<Rightarrow>
        (let contacts = count_of i ''VCARD''; versions = values_of i ''VERSION'' in
         if contacts < 1 \<or> contacts > 2000 then Inl CardCount
         else if length versions \<noteq> contacts \<or> list_ex (\<lambda>v. v \<noteq> ''3.0'' \<and> v \<noteq> ''4.0'') versions then Inl CardVersion
         else Inr \<lparr>ii_format = VCardFormat, ii_bytes = bytes, ii_lines = length ls, ii_contacts = contacts,
                   ii_events = 0, ii_tasks = 0, ii_time_zones = 0, ii_recurrence_rules = 0\<rparr>))"

definition CALENDAR_COMPONENTS :: "string list" where
  "CALENDAR_COMPONENTS =
     [''VCALENDAR'', ''VEVENT'', ''VTODO'', ''VTIMEZONE'', ''VALARM'', ''STANDARD'', ''DAYLIGHT'']"

definition inspect_icalendar :: "nat \<Rightarrow> string list \<Rightarrow> (interchange_error, interchange_inspection) result" where
  "inspect_icalendar bytes ls =
     (case inspectComponents ls CALENDAR_COMPONENTS of Inl e \<Rightarrow> Inl e
      | Inr i \<Rightarrow>
        if count_of i ''VCALENDAR'' \<noteq> 1 then Inl (WrongComponentCount ''VCALENDAR'' 1)
        else if values_of i ''VERSION'' \<noteq> [''2.0''] then Inl CalendarVersion
        else if values_of i ''METHOD'' \<noteq> [] then Inl SchedulingMethod
        else if values_of i ''ATTACH'' \<noteq> [] then Inl HasAttachment
        else
          (let events = count_of i ''VEVENT''; tasks = count_of i ''VTODO''; uids = values_of i ''UID'' in
           if events + tasks < 1 \<or> events + tasks > 5000 then Inl ItemCount
           else if length uids \<noteq> events + tasks \<or> list_ex (\<lambda>u. u = [] \<or> length u > 512) uids then Inl MissingUid
           else if \<not> distinct uids then Inl DuplicateUid
           else Inr \<lparr>ii_format = ICalendarFormat, ii_bytes = bytes, ii_lines = length ls, ii_contacts = 0,
                     ii_events = events, ii_tasks = tasks, ii_time_zones = count_of i ''VTIMEZONE'',
                     ii_recurrence_rules = length (values_of i ''RRULE'')\<rparr>))"

definition inspectPimInterchange ::
  "interchange_format \<Rightarrow> string \<Rightarrow> (interchange_error, interchange_inspection) result" where
  "inspectPimInterchange format source =
     (case assertSourceBounds source of Inl e \<Rightarrow> Inl e
      | Inr (bytes, ls) \<Rightarrow>
          (case format of VCardFormat \<Rightarrow> inspect_vcard bytes ls | ICalendarFormat \<Rightarrow> inspect_icalendar bytes ls))"

text \<open>\<open>replace(/(?:\r\n)+$/u, "")\<close>.\<close>

fun strip_crlf_rev :: "string \<Rightarrow> string" where
  "strip_crlf_rev (a # b # s) = (if a = CHR 10 \<and> b = CHR 13 then strip_crlf_rev s else a # b # s)"
| "strip_crlf_rev s = s"

definition kept_lines :: "string list \<Rightarrow> string list" where
  "kept_lines ls = butlast ls @ (if last ls = [] then [] else [last ls])"

definition normalizePimInterchangeForExport ::
  "interchange_format \<Rightarrow> string \<Rightarrow> (interchange_error, string) result" where
  "normalizePimInterchangeForExport format source =
     (case inspectPimInterchange format source of Inl e \<Rightarrow> Inl e
      | Inr _ \<Rightarrow> Inr (rev (strip_crlf_rev (rev (join crlf (kept_lines (normalizedLines source))))) @ crlf))"

section \<open>The machine keeps to its table\<close>

interpretation foundation: state_table
  "\<lambda>p q. \<exists>s e. p = Some s \<and> NEXT_STATE s e = q \<and> q \<noteq> None"
  "\<lambda>m. Some (fm_state m)" "\<lambda>e m. NEXT_STATE (fm_state m) e" machine_transition
  by unfold_locales (auto simp: machine_transition_def split: option.splits)

text \<open>The log read as a path: numbered from one, starting in the idle state, each step from where the
  last one ended, ending in the present state.\<close>

definition log_faithful :: "foundation_event list \<Rightarrow> foundation_machine \<Rightarrow> bool" where
  "log_faithful es m =
     (map ft_event (fm_log m) = es \<and>
      map ft_sequence (fm_log m) = [1..<Suc (length es)] \<and>
      map ft_from (fm_log m) @ [fm_state m] = PimIdle # map ft_to (fm_log m) \<and>
      list_all (\<lambda>t. NEXT_STATE (ft_from t) (ft_event t) = Some (ft_to t)) (fm_log m))"

lemma log_faithful_step:
  assumes "log_faithful es m" "machine_transition e m = Some m'"
  shows "log_faithful (es @ [e]) m'"
proof -
  from assms(2) obtain s where s: "NEXT_STATE (fm_state m) e = Some s"
    "m' = \<lparr>fm_state = s, fm_log = fm_log m @ [\<lparr>ft_sequence = length (fm_log m) + 1, ft_from = fm_state m,
             ft_event = e, ft_to = s\<rparr>]\<rparr>"
    by (auto simp: machine_transition_def split: option.splits)
  have "length (fm_log m) = length es"
    using assms(1) unfolding log_faithful_def by (metis length_map)
  then show ?thesis using assms(1) s by (simp add: log_faithful_def)
qed

lemma log_faithful_run:
  "log_faithful es m \<Longrightarrow> run_changes machine_transition fs m = Some m' \<Longrightarrow> log_faithful (es @ fs) m'"
proof (induction fs arbitrary: es m)
  case (Cons f fs)
  then obtain m1 where "machine_transition f m = Some m1" "run_changes machine_transition fs m1 = Some m'"
    by (auto split: option.splits)
  with Cons.IH [of "es @ [f]" m1] log_faithful_step [OF Cons.prems(1)] show ?case by simp
qed simp

section \<open>Balanced components\<close>

datatype tag = Open string | Close string

definition tag_of :: "string \<Rightarrow> tag list" where
  "tag_of raw = (case classify_line raw of
      PropertyLine name v \<Rightarrow> if name = ''BEGIN'' then [Open (upper v)]
                             else if name = ''END'' then [Close (upper v)] else []
    | _ \<Rightarrow> [])"

definition tags_of :: "string list \<Rightarrow> tag list" where
  "tags_of ls = concat (map tag_of ls)"

inductive balanced :: "tag list \<Rightarrow> bool" where
  balanced_empty: "balanced []"
| balanced_component: "balanced u \<Longrightarrow> balanced v \<Longrightarrow> balanced (Open c # u @ Close c # v)"

text \<open>What is left of a document when the components of a stack are still open.\<close>

fun closes :: "string list \<Rightarrow> tag list \<Rightarrow> bool" where
  "closes st [] = (st = [])"
| "closes st (Open c # ts) = closes (c # st) ts"
| "closes st (Close c # ts) = (case st of [] \<Rightarrow> False | d # st' \<Rightarrow> c = d \<and> closes st' ts)"

lemma closes_split:
  "closes (st @ c # st') ts \<Longrightarrow> \<exists>u v. ts = u @ Close c # v \<and> closes st u \<and> closes st' v"
proof (induction "st @ c # st'" ts arbitrary: st rule: closes.induct)
  case (2 d ts)
  from 2(1) [of "d # st"] 2(2) obtain u v where "ts = u @ Close c # v" "closes (d # st) u" "closes st' v"
    by auto
  then show ?case by (intro exI [of _ "Open d # u"] exI [of _ v]) simp
next
  case (3 d ts)
  show ?case
  proof (cases st)
    case Nil
    with 3(2) show ?thesis by (intro exI [of _ "[]"] exI [of _ ts]) simp
  next
    case (Cons e st1)
    with 3 obtain u v where "ts = u @ Close c # v" "closes st1 u" "closes st' v" "e = d" by auto
    with Cons show ?thesis by (intro exI [of _ "Close d # u"] exI [of _ v]) simp
  qed
qed simp

lemma closes_balanced: "closes [] ts \<Longrightarrow> balanced ts"
proof (induction ts rule: length_induct)
  case (1 ts)
  show ?case
  proof (cases ts)
    case Nil
    then show ?thesis by (simp add: balanced_empty)
  next
    case (Cons t ts')
    with 1(2) obtain c where t: "t = Open c" and "closes ([] @ c # []) ts'" by (cases t) auto
    from closes_split [OF this(2)] obtain u v where uv: "ts' = u @ Close c # v" "closes [] u" "closes [] v"
      by blast
    with 1(1) Cons have "balanced u" "balanced v" by auto
    with Cons t uv show ?thesis by (simp add: balanced_component)
  qed
qed

lemma inspect_line_effect:
  assumes "inspect_line allowed l st = Inr st'"
  shows "closes (ip_stack st') ts \<Longrightarrow> closes (ip_stack st) (tag_of l @ ts)"
    and "count_of st' c = count_of st c + count_list (tag_of l) (Open c)"
    and "Open d \<in> set (tag_of l) \<Longrightarrow> d \<in> set allowed"
  using assms
  by (auto simp: inspect_line_def tag_of_def count_of_def map_of_update Let_def
      split: line_kind.splits if_splits list.splits)

lemma inspect_lines_effect:
  "inspect_lines allowed ls st = Inr st' \<Longrightarrow>
   (closes (ip_stack st') ts \<longrightarrow> closes (ip_stack st) (tags_of ls @ ts)) \<and>
   count_of st' c = count_of st c + count_list (tags_of ls) (Open c) \<and>
   (Open d \<in> set (tags_of ls) \<longrightarrow> d \<in> set allowed)"
proof (induction ls arbitrary: st)
  case (Cons l ls)
  then obtain st1 where st1: "inspect_line allowed l st = Inr st1" "inspect_lines allowed ls st1 = Inr st'"
    by (auto split: sum.splits)
  from Cons.IH [OF st1(2)] inspect_line_effect [OF st1(1)] show ?case
    by (auto simp: tags_of_def)
qed (simp add: tags_of_def)

lemma inspectComponents_Inr:
  "inspectComponents ls allowed = Inr i \<longleftrightarrow>
     inspect_lines allowed ls no_inspection = Inr i \<and> ip_stack i = []"
  by (auto simp: inspectComponents_def split: sum.splits list.splits)

section \<open>Exported lines\<close>

lemma normalizedLines_physical: "normalizedLines = physical_lines"
  by (simp add: normalizedLines_def physical_lines_def fun_eq_iff)

lemmas normalizedLines_text = physical_lines_text [folded normalizedLines_physical]
lemmas normalizedLines_subset = physical_lines_subset [folded normalizedLines_physical]
lemmas normalizedLines_join = physical_lines_join [folded normalizedLines_physical]

lemma normalizedLines_nonempty [simp]: "normalizedLines s \<noteq> []"
  by (simp add: normalizedLines_def)

text \<open>The lines without the empty ones at the end.\<close>

definition drop_blank :: "string list \<Rightarrow> string list" where
  "drop_blank ls = rev (dropWhile (\<lambda>l. l = []) (rev ls))"

lemma drop_blank_simps [simp]:
  "drop_blank [] = []" "drop_blank (ls @ [[]]) = drop_blank ls" "l \<noteq> [] \<Longrightarrow> drop_blank (ls @ [l]) = ls @ [l]"
  "drop_blank [[]] = []"
  by (simp_all add: drop_blank_def)

lemma drop_blank_subset: "set (drop_blank ls) \<subseteq> set ls"
  by (induction ls rule: rev_induct) (auto simp: drop_blank_def dest: set_dropWhileD)

lemma drop_blank_idem [simp]: "drop_blank (drop_blank ls) = drop_blank ls"
  by (simp add: drop_blank_def)

lemma drop_blank_kept: "ls \<noteq> [] \<Longrightarrow> drop_blank (kept_lines ls) = drop_blank ls"
  by (cases ls rule: rev_cases) (auto simp: kept_lines_def)

lemma drop_blank_decomp: "\<exists>n. ls = drop_blank ls @ replicate n []"
proof (induction ls rule: rev_induct)
  case (snoc l ls)
  show ?case
  proof (cases "l = []")
    case True
    from snoc obtain n where "ls = drop_blank ls @ replicate n []" by blast
    with True have "ls @ [l] = drop_blank (ls @ [l]) @ replicate (Suc n) []"
      by (metis append.assoc drop_blank_simps(2) replicate_Suc replicate_append_same)
    then show ?thesis by blast
  next
    case False
    then show ?thesis by (intro exI [of _ 0]) simp
  qed
qed simp

lemma join_snoc_rev: "l \<noteq> [] \<Longrightarrow> \<exists>s. rev (join crlf (ls @ [l])) = last l # s"
  by (cases "ls = []"; cases l rule: rev_cases) (simp_all add: join_append_one)

lemma strip_crlf_join:
  "\<forall>l \<in> set ls. line_text l \<Longrightarrow> rev (strip_crlf_rev (rev (join crlf ls))) = join crlf (drop_blank ls)"
proof (induction ls rule: rev_induct)
  case (snoc l ls)
  show ?case
  proof (cases "l = []")
    case True
    with snoc show ?thesis by (cases "ls = []") (simp_all add: join_append_one crlf_def)
  next
    case False
    then obtain s where s: "rev (join crlf (ls @ [l])) = last l # s" using join_snoc_rev by blast
    have "CHR 10 \<notin> set l" using snoc.prems by (simp add: line_text_def)
    then have "last l \<noteq> CHR 10" using last_in_set [OF False] by metis
    then have "strip_crlf_rev (last l # s) = last l # s" by (cases s) simp_all
    with s False show ?thesis by simp
  qed
qed simp

lemma export_text:
  assumes "normalizePimInterchangeForExport f src = Inr out"
  shows "out = join crlf (drop_blank (normalizedLines src)) @ crlf"
proof -
  have "set (kept_lines (normalizedLines src)) \<subseteq> set (normalizedLines src)"
    by (auto simp: kept_lines_def dest: in_set_butlastD)
  then have "\<forall>l \<in> set (kept_lines (normalizedLines src)). line_text l"
    using normalizedLines_text by blast
  from strip_crlf_join [OF this] assms show ?thesis
    by (auto simp: normalizePimInterchangeForExport_def drop_blank_kept split: sum.splits)
qed

lemma export_lines:
  assumes "normalizePimInterchangeForExport f src = Inr out" "drop_blank (normalizedLines src) \<noteq> []"
  shows "normalizedLines out = drop_blank (normalizedLines src) @ [[]]"
proof -
  let ?d = "drop_blank (normalizedLines src)"
  have "out = join crlf (?d @ [[]])" using export_text [OF assms(1)] assms(2) by (simp add: join_append_one)
  moreover have "\<forall>l \<in> set (?d @ [[]]). line_text l"
    using drop_blank_subset [of "normalizedLines src"] normalizedLines_text [of _ src]
    by (auto simp: line_text_def)
  ultimately show ?thesis using normalizedLines_join [of "?d @ [[]]"] by simp
qed

lemma inspect_lines_append:
  "inspect_lines allowed (ls @ ms) st =
     (case inspect_lines allowed ls st of Inl e \<Rightarrow> Inl e | Inr st' \<Rightarrow> inspect_lines allowed ms st')"
  by (induction ls arbitrary: st) (auto split: sum.splits)

lemma inspect_blank: "inspect_line allowed [] st = Inr (st\<lparr>ip_previous := False\<rparr>)"
  by (simp add: inspect_line_def classify_line_def)

lemma inspect_blanks:
  "inspect_lines allowed (replicate n []) st = Inr (if n = 0 then st else st\<lparr>ip_previous := False\<rparr>)"
  by (induction n arbitrary: st) (auto simp: inspect_blank)

lemma inspect_drop_blank:
  assumes "inspectComponents ls allowed = Inr i"
  shows "inspectComponents (drop_blank ls @ [[]]) allowed = Inr (i\<lparr>ip_previous := False\<rparr>)"
proof -
  from drop_blank_decomp obtain n where "ls = drop_blank ls @ replicate n []" by blast
  with assms have "inspect_lines allowed (drop_blank ls @ replicate n []) no_inspection = Inr i" "ip_stack i = []"
    by (simp_all add: inspectComponents_Inr)
  then show ?thesis
    by (auto simp: inspectComponents_Inr inspect_lines_append inspect_blanks inspect_blank split: sum.splits if_splits)
qed

lemma count_values_previous [simp]:
  "count_of (i\<lparr>ip_previous := b\<rparr>) c = count_of i c" "values_of (i\<lparr>ip_previous := b\<rparr>) c = values_of i c"
  by (simp_all add: count_of_def values_of_def)

lemma inspect_vcard_drop_blank:
  assumes "inspect_vcard bytes ls = Inr r"
  shows "inspect_vcard bytes' (drop_blank ls @ [[]])
    = Inr (r\<lparr>ii_bytes := bytes', ii_lines := length (drop_blank ls) + 1\<rparr>)"
proof (cases "inspectComponents ls [''VCARD'']")
  case (Inr i)
  from assms show ?thesis
    unfolding inspect_vcard_def Inr inspect_drop_blank [OF Inr] sum.case Let_def count_values_previous
    by (simp split: if_splits) auto
qed (use assms in \<open>simp add: inspect_vcard_def\<close>)

lemma inspect_icalendar_drop_blank:
  assumes "inspect_icalendar bytes ls = Inr r"
  shows "inspect_icalendar bytes' (drop_blank ls @ [[]])
    = Inr (r\<lparr>ii_bytes := bytes', ii_lines := length (drop_blank ls) + 1\<rparr>)"
proof (cases "inspectComponents ls CALENDAR_COMPONENTS")
  case (Inr i)
  from assms show ?thesis
    unfolding inspect_icalendar_def Inr inspect_drop_blank [OF Inr] sum.case Let_def count_values_previous
    by (simp split: if_splits) auto
qed (use assms in \<open>simp add: inspect_icalendar_def\<close>)

lemma blank_not_inspected:
  assumes "inspectPimInterchange f src = Inr r"
  shows "drop_blank (normalizedLines src) \<noteq> []"
proof
  assume none: "drop_blank (normalizedLines src) = []"
  from drop_blank_decomp [of "normalizedLines src"] none obtain n where
    "normalizedLines src = replicate n []" by auto
  then have "inspectComponents (normalizedLines src) allowed =
      Inr (if n = 0 then no_inspection else no_inspection\<lparr>ip_previous := False\<rparr>)" for allowed
    by (simp add: inspectComponents_def inspect_blanks no_inspection_def)
  then show False using assms
    by (cases f) (auto simp: inspectPimInterchange_def assertSourceBounds_def inspect_vcard_def
        inspect_icalendar_def Let_def count_of_def no_inspection_def split: if_splits)
qed

lemma assert_bounds_Inr:
  "assertSourceBounds s = Inr (b, ls) \<longleftrightarrow>
     b = byte_length s \<and> ls = normalizedLines s \<and> 0 < b \<and> b \<le> PIM_INTERCHANGE_MAX_BYTES \<and> nul \<notin> set s
     \<and> length ls \<le> PIM_INTERCHANGE_MAX_LINES \<and> (\<forall>l \<in> set ls. byte_length l \<le> 8192)"
  by (auto simp: assertSourceBounds_def Let_def list_ex_iff not_less not_le)

lemma set_join: "set (join sep ls) \<subseteq> set sep \<union> \<Union> (set ` set ls)"
  by (induction sep ls rule: join.induct) auto

lemma export_in_bounds:
  assumes "normalizePimInterchangeForExport f src = Inr out" "assertSourceBounds src = Inr (b, ls)"
    and "drop_blank ls \<noteq> []"
    and "byte_length out \<le> PIM_INTERCHANGE_MAX_BYTES" "length (normalizedLines out) \<le> PIM_INTERCHANGE_MAX_LINES"
  shows "assertSourceBounds out = Inr (byte_length out, drop_blank ls @ [[]])"
proof -
  from assms(2) have ls: "ls = normalizedLines src" "nul \<notin> set src" "\<forall>l \<in> set ls. byte_length l \<le> 8192"
    by (simp_all add: assert_bounds_Inr)
  have lines: "normalizedLines out = drop_blank ls @ [[]]"
    using export_lines [OF assms(1)] assms(3) ls(1) by simp
  have out: "out = join crlf (drop_blank ls) @ crlf" using export_text [OF assms(1)] ls(1) by simp
  have "nul \<notin> set l" if "l \<in> set (drop_blank ls)" for l
    using that drop_blank_subset [of ls] normalizedLines_subset [of l src] ls(1,2) by (auto simp: nul_def)
  then have "nul \<notin> set out"
    using set_join [of crlf "drop_blank ls"] by (auto simp: out crlf_def nul_def)
  moreover have "\<forall>l \<in> set (normalizedLines out). byte_length l \<le> 8192"
    using lines ls(3) drop_blank_subset [of ls] by auto
  moreover have "0 < byte_length out" by (simp add: out byte_length_append byte_length_Cons crlf_def)
  ultimately show ?thesis using assms(4,5) lines by (simp add: assert_bounds_Inr)
qed

lemma issue_if: "(if c then [x] else []) = [] \<longleftrightarrow> \<not> c"
  by simp

section \<open>Properties\<close>

text \<open>Whatever sequence of events a machine accepted, its log is that sequence, numbered from one, and
  a path of the transition table from the idle state to the present one.\<close>
theorem foundation_log_is_a_path:
  assumes "run_changes machine_transition es new_machine = Some m"
  shows "map ft_event (fm_log m) = es
    \<and> map ft_sequence (fm_log m) = [1..<Suc (length es)]
    \<and> map ft_from (fm_log m) @ [fm_state m] = PimIdle # map ft_to (fm_log m)
    \<and> list_all (\<lambda>t. NEXT_STATE (ft_from t) (ft_event t) = Some (ft_to t)) (fm_log m)"
proof -
  have "log_faithful [] new_machine" by (simp add: log_faithful_def new_machine_def)
  from log_faithful_run [OF this assms] show ?thesis by (simp add: log_faithful_def)
qed

theorem foundation_log_is_a_path_witness:
  "\<exists>m. run_changes machine_transition [StartEvent, AcceptProfile, Finish] new_machine = Some m
     \<and> map ft_sequence (fm_log m) = [1, 2, 3]"
proof -
  obtain m where m: "run_changes machine_transition [StartEvent, AcceptProfile, Finish] new_machine = Some m"
    by (simp add: machine_transition_def new_machine_def)
  from foundation_log_is_a_path [OF m] m show ?thesis by (auto simp: upt_rec)
qed

text \<open>The foundation always comes to a verdict: ready, with a profile and no issue, exactly for a
  provider address that is bounded plain text, parses, carries no credentials, query or fragment, and
  is an absolute Windows file ending in .ics without credentials, or an HTTPS address with a host.
  Otherwise it is rejected with an issue. In both cases it reports no contact, use or persistence.\<close>
theorem foundation_verdict:
  "\<exists>s. runPimProviderFoundation url input = Some s
    \<and> (fo_state s = PimReady \<longleftrightarrow>
        (let t = trim (pp_endpoint input) in
         t \<noteq> [] \<and> length t \<le> 2048 \<and> \<not> list_ex is_control t \<and>
         (\<exists>u. url t = Some u \<and> url_username u = [] \<and> url_password u = [] \<and> url_search u = [] \<and> url_hash u = []
           \<and> (if pp_kind input = IcsFile
              then pp_auth input = NoAuth \<and> wu_protocol u = ''file:'' \<and> url_hostname u = []
                \<and> has_drive_path (url_pathname u) \<and> has_ics_extension (url_pathname u)
              else wu_protocol u = ''https:'' \<and> url_hostname u \<noteq> []))))
    \<and> (if fo_state s = PimReady then fo_issues s = [] \<and> fo_profile s \<noteq> None
       else fo_state s = PimRejected \<and> fo_issues s \<noteq> [] \<and> fo_profile s = None)
    \<and> \<not> fo_server_contacted s \<and> \<not> fo_credentials_used s \<and> \<not> fo_state_persisted s
    \<and> \<not> list_ex cs_used (fo_capabilities s)"
proof -
  have unused: "\<not> list_ex cs_used (capabilitiesFor k)" for k
    by (simp add: capabilitiesFor_def list_ex_iff Let_def)
  obtain r issues where parsed: "parseEndpoint url input = (r, issues)" by fastforce
  have ready: "r \<noteq> None \<longleftrightarrow> (let t = trim (pp_endpoint input) in
         t \<noteq> [] \<and> length t \<le> 2048 \<and> \<not> list_ex is_control t \<and>
         (\<exists>u. url t = Some u \<and> endpoint_url_issues input u = []))"
    using parsed unfolding parseEndpoint_def Let_def endpoint_text_issues_def PIM_PROVIDER_ENDPOINT_LIMIT_def
    by (auto split: if_splits option.splits)
  have clean: "endpoint_url_issues input u = [] \<longleftrightarrow>
      url_username u = [] \<and> url_password u = [] \<and> url_search u = [] \<and> url_hash u = []
      \<and> (if pp_kind input = IcsFile
         then pp_auth input = NoAuth \<and> wu_protocol u = ''file:'' \<and> url_hostname u = []
           \<and> has_drive_path (url_pathname u) \<and> has_ics_extension (url_pathname u)
         else wu_protocol u = ''https:'' \<and> url_hostname u \<noteq> [])" for u
    by (cases "pp_kind input = IcsFile")
      (simp_all add: endpoint_url_issues_def issue_if append_is_Nil_conv split del: if_split)
  have issues: "r = None \<Longrightarrow> issues \<noteq> []"
    using parsed by (auto simp: parseEndpoint_def Let_def split: if_splits option.splits)
  show ?thesis unfolding clean [symmetric] ready [symmetric]
    using parsed issues unused
    by (cases r) (simp_all add: runPimProviderFoundation_def machine_transition_def new_machine_def
        foundation_snapshot_of_def)
qed

text \<open>C31: In a document that the inspection accepts the BEGIN and END lines nest properly, only allowed
  components are opened, and the count reported for a component is the number of its BEGIN lines.\<close>
theorem accepted_components_are_balanced:
  assumes "inspectComponents ls allowed = Inr i"
  shows "balanced (tags_of ls) \<and> {d. Open d \<in> set (tags_of ls)} \<subseteq> set allowed
    \<and> count_of i c = count_list (tags_of ls) (Open c)"
proof -
  from assms have i: "inspect_lines allowed ls no_inspection = Inr i" "ip_stack i = []"
    by (simp_all add: inspectComponents_Inr)
  from inspect_lines_effect [OF i(1), of "[]" c] i(2) have
    "closes [] (tags_of ls)" "count_of i c = count_list (tags_of ls) (Open c)"
    by (simp_all add: no_inspection_def count_of_def)
  with inspect_lines_effect [OF i(1), of "[]" c] closes_balanced show ?thesis by auto
qed

theorem accepted_components_are_balanced_witness:
  "balanced (tags_of [''BEGIN:VCARD'', ''VERSION:4.0'', ''END:VCARD''])"
proof -
  have "case inspectComponents [''BEGIN:VCARD'', ''VERSION:4.0'', ''END:VCARD''] [''VCARD''] of
      Inl _ \<Rightarrow> False | Inr _ \<Rightarrow> True" by code_simp
  then obtain i where "inspectComponents [''BEGIN:VCARD'', ''VERSION:4.0'', ''END:VCARD''] [''VCARD''] = Inr i"
    by (auto split: sum.splits)
  from accepted_components_are_balanced [OF this] show ?thesis by simp
qed

text \<open>An export that stays within the size limits is accepted again with the same content counts, and
  exporting it again gives the same text: normalization is idempotent.\<close>
theorem export_is_idempotent:
  assumes "normalizePimInterchangeForExport f src = Inr out"
    and "byte_length out \<le> PIM_INTERCHANGE_MAX_BYTES"
    and "length (normalizedLines out) \<le> PIM_INTERCHANGE_MAX_LINES"
  shows "normalizePimInterchangeForExport f out = Inr out
    \<and> (\<exists>r. inspectPimInterchange f src = Inr r
        \<and> inspectPimInterchange f out
          = Inr (r\<lparr>ii_bytes := byte_length out, ii_lines := length (normalizedLines out)\<rparr>))"
proof -
  from assms(1) obtain r where r: "inspectPimInterchange f src = Inr r"
    by (auto simp: normalizePimInterchangeForExport_def split: sum.splits)
  then obtain b ls where b: "assertSourceBounds src = Inr (b, ls)"
    by (auto simp: inspectPimInterchange_def split: sum.splits)
  then have ls: "ls = normalizedLines src" by (simp add: assert_bounds_Inr)
  have d: "drop_blank ls \<noteq> []" using blank_not_inspected [OF r] ls by simp
  note out_bounds = export_in_bounds [OF assms(1) b d assms(2,3)]
  then have out_lines: "normalizedLines out = drop_blank ls @ [[]]" by (simp add: assert_bounds_Inr)
  have again: "inspectPimInterchange f out
      = Inr (r\<lparr>ii_bytes := byte_length out, ii_lines := length (drop_blank ls) + 1\<rparr>)"
    using r inspect_vcard_drop_blank [of b ls] inspect_icalendar_drop_blank [of b ls]
    by (cases f) (simp_all add: inspectPimInterchange_def b out_bounds)
  then obtain r' where "inspectPimInterchange f out = Inr r'" by blast
  then obtain out' where out': "normalizePimInterchangeForExport f out = Inr out'"
    by (simp add: normalizePimInterchangeForExport_def)
  have "out' = join crlf (drop_blank (drop_blank ls @ [[]])) @ crlf"
    using export_text [OF out'] by (simp only: out_lines)
  then have "out' = out" using export_text [OF assms(1)] ls by simp
  with out' r again out_lines show ?thesis by simp
qed

text \<open>A small document is within the bounds.\<close>

lemma length_split_on: "length (split_on c s) \<le> length s + 1"
  by (induction s) (auto split: list.splits)

lemma length_split_part: "p \<in> set (split_on c s) \<Longrightarrow> length p \<le> length s"
proof (induction s arbitrary: p)
  case (Cons x xs)
  obtain q qs where q: "split_on c xs = q # qs" by (meson list.exhaust split_on_nonempty)
  with Cons have "length r \<le> length xs" if "r = q \<or> r \<in> set qs" for r using that by auto
  with Cons.prems q show ?case by (fastforce split: if_splits)
qed simp

lemma length_unix_lines: "length (unix_lines_from cr s) \<le> length s"
  by (induction cr s rule: unix_lines_from.induct) auto

lemma small_document:
  assumes "s \<noteq> []" "length s \<le> 1000" "nul \<notin> set s"
  shows "assertSourceBounds s = Inr (byte_length s, normalizedLines s)"
proof -
  note u = length_unix_lines [of False s]
  have "length (normalizedLines s) \<le> 1001"
    using length_split_on [of "CHR 10" "unix_lines s"] u assms(2)
    by (simp add: normalizedLines_def unix_lines_def)
  moreover have "byte_length l \<le> 8192" if "l \<in> set (normalizedLines s)" for l
    using length_split_part [of l "CHR 10" "unix_lines s"] u assms(2) that byte_length_bounds [of l]
    by (simp add: normalizedLines_def unix_lines_def)
  moreover have "0 < length s" using assms(1) by simp
  then have "0 < byte_length s \<and> byte_length s \<le> 2000" using byte_length_bounds [of s] assms(2) by linarith
  ultimately show ?thesis using assms(3)
    by (simp add: assert_bounds_Inr PIM_INTERCHANGE_MAX_BYTES_def PIM_INTERCHANGE_MAX_LINES_def)
qed

definition sample_card :: string where
  "sample_card = join [CHR 10] [''BEGIN:VCARD'', ''VERSION:4.0'', ''END:VCARD'', [], []]"

lemma sample_card_inspected: "is_ok (inspectPimInterchange VCardFormat sample_card)"
proof -
  have "sample_card \<noteq> [] \<and> length sample_card \<le> 1000 \<and> nul \<notin> set sample_card" by code_simp
  moreover have "is_ok (inspect_vcard b (normalizedLines sample_card))" for b
    by (simp add: inspect_vcard_def) code_simp
  ultimately show ?thesis using small_document [of sample_card]
    by (simp add: inspectPimInterchange_def)
qed

theorem export_is_idempotent_witness:
  "case normalizePimInterchangeForExport VCardFormat sample_card of Inl _ \<Rightarrow> False
   | Inr out \<Rightarrow> normalizePimInterchangeForExport VCardFormat out = Inr out"
proof -
  obtain out where out: "normalizePimInterchangeForExport VCardFormat sample_card = Inr out"
    using sample_card_inspected by (auto simp: is_ok_def normalizePimInterchangeForExport_def split: sum.splits)
  have d: "drop_blank (normalizedLines sample_card) = [''BEGIN:VCARD'', ''VERSION:4.0'', ''END:VCARD'']"
    by code_simp
  have "normalizedLines out = [''BEGIN:VCARD'', ''VERSION:4.0'', ''END:VCARD'', []]"
    using export_lines [OF out] by (simp add: d)
  moreover have "byte_length out \<le> 100"
    unfolding export_text [OF out] d by code_simp
  ultimately show ?thesis using export_is_idempotent [OF out]
    by (simp add: out PIM_INTERCHANGE_MAX_BYTES_def PIM_INTERCHANGE_MAX_LINES_def)
qed

definition two_events :: string where
  "two_events = join crlf
     [''BEGIN:VCALENDAR'', ''VERSION:2.0'', ''BEGIN:VEVENT'', ''UID:a'', ''UID:b'', ''END:VEVENT'',
      ''BEGIN:VEVENT'', ''SUMMARY:none'', ''END:VEVENT'', ''END:VCALENDAR'']"

text \<open>Identifiers are counted over the whole document: a calendar in which one event has two of them
  and the other none is accepted, although every event must have one.\<close>
theorem uid_check_is_global: "is_ok (inspectPimInterchange ICalendarFormat two_events)"
proof -
  have "two_events \<noteq> [] \<and> length two_events \<le> 1000 \<and> nul \<notin> set two_events" by code_simp
  moreover have "is_ok (inspect_icalendar b (normalizedLines two_events))" for b
    by (simp add: inspect_icalendar_def) code_simp
  ultimately show ?thesis using small_document [of two_events]
    by (simp add: inspectPimInterchange_def)
qed

end
