(* ===== verification/Quick_Filter.thy ===== *)
theory Quick_Filter
  imports Mail_Data Regex_Guard
begin

text \<open>
  The quick filter above the message list (\<open>src/shared/quick-filter.ts\<close>): its state, the toggles, and
  the filtering of a message list by facets, tags and a text or regex over the chosen scopes.
\<close>

section \<open>State\<close>

definition QUICK_FILTER_TAG_LIMIT :: nat where "QUICK_FILTER_TAG_LIMIT = 20"

datatype facet = FacetUnread | FacetStarred | FacetAttachments | FacetTagged
datatype scope = ScopeSender | ScopeRecipients | ScopeSubject | ScopePreview
datatype tag_match = MatchAny | MatchAll

definition QUICK_FILTER_FACETS :: "facet list" where
  "QUICK_FILTER_FACETS = [FacetUnread, FacetStarred, FacetAttachments, FacetTagged]"

definition QUICK_FILTER_SCOPES :: "scope list" where
  "QUICK_FILTER_SCOPES = [ScopeSender, ScopeRecipients, ScopeSubject, ScopePreview]"

record quick_filter =
  qf_active :: bool
  qf_facets :: "facet list"
  qf_tags :: "string list"
  qf_tag_match :: tag_match
  qf_mode :: match_mode
  qf_pattern :: string
  qf_flags :: string
  qf_case_sensitive :: bool
  qf_scopes :: "scope list"

record filter_subject =
  qs_message :: message_summary
  qs_tags :: "string list"

text \<open>The message of a result without a pattern is empty, here \<^const>\<open>None\<close>.\<close>

record quick_filter_result =
  qr_messages :: "message_summary list"
  qr_total :: nat
  qr_matched :: nat
  qr_pattern_valid :: bool
  qr_pattern_message :: "validation_message option"
  qr_inert :: bool

definition emptyQuickFilterState :: quick_filter where
  "emptyQuickFilterState =
     \<lparr>qf_active = False, qf_facets = [], qf_tags = [], qf_tag_match = MatchAny, qf_mode = PlainMode,
      qf_pattern = [], qf_flags = [], qf_case_sensitive = False,
      qf_scopes = [ScopeSender, ScopeSubject, ScopePreview]\<rparr>"

definition quickFilterFlags :: "quick_filter \<Rightarrow> string" where
  "quickFilterFlags st =
     (if qf_mode st = RegexMode then qf_flags st else if qf_case_sensitive st then [] else ''i'')"

definition quickFilterIsInert :: "quick_filter \<Rightarrow> bool" where
  "quickFilterIsInert st = (qf_facets st = [] \<and> qf_tags st = [] \<and> trim (qf_pattern st) = [])"

section \<open>Matching\<close>

definition addresses_text :: "address list \<Rightarrow> string" where
  "addresses_text as = join '' '' (map (\<lambda>a. trim (ad_name a @ '' '' @ ad_address a)) as)"

fun scopeText :: "scope \<Rightarrow> message_summary \<Rightarrow> string" where
  "scopeText ScopeSender m = addresses_text (ms_from m)"
| "scopeText ScopeRecipients m = addresses_text (ms_to m) @ '' '' @ addresses_text (ms_cc m)"
| "scopeText ScopeSubject m = ms_subject m"
| "scopeText ScopePreview m = ms_preview m"

fun facetMatches :: "facet \<Rightarrow> filter_subject \<Rightarrow> bool" where
  "facetMatches FacetUnread s = ms_unread (qs_message s)"
| "facetMatches FacetStarred s = ms_starred (qs_message s)"
| "facetMatches FacetAttachments s = ms_has_attachments (qs_message s)"
| "facetMatches FacetTagged s = (length (qs_tags s) > 0)"

definition tags_match :: "tag_match \<Rightarrow> string list \<Rightarrow> string list \<Rightarrow> bool" where
  "tags_match mode tagIds have =
     (if tagIds = [] then True
      else let present = filter (\<lambda>t. t \<in> set have) tagIds
           in \<not> (if mode = MatchAll then length present \<noteq> length tagIds else length present = 0))"

definition filter_opts :: "quick_filter \<Rightarrow> matcher_options" where
  "filter_opts st = \<lparr>mo_mode = qf_mode st, mo_pattern = trim (qf_pattern st), mo_flags = quickFilterFlags st\<rparr>"

definition subject_matches :: "quick_filter \<Rightarrow> (string \<Rightarrow> bool) option \<Rightarrow> filter_subject \<Rightarrow> bool" where
  "subject_matches st matcher s =
     (if \<not> list_all (\<lambda>f. facetMatches f s) (qf_facets st) then False
      else if \<not> tags_match (qf_tag_match st) (take QUICK_FILTER_TAG_LIMIT (qf_tags st)) (qs_tags s) then False
      else case matcher of
        None \<Rightarrow> True
      | Some f \<Rightarrow> list_ex (\<lambda>scope. f (scopeText scope (qs_message s)))
          (if qf_scopes st \<noteq> [] then qf_scopes st else QUICK_FILTER_SCOPES))"

definition filtered :: "quick_filter \<Rightarrow> filter_subject list \<Rightarrow> (string \<Rightarrow> bool) option
    \<Rightarrow> validation_message option \<Rightarrow> quick_filter_result" where
  "filtered st subjects matcher message =
     (let matched = filter (subject_matches st matcher) subjects
      in \<lparr>qr_messages = map qs_message matched, qr_total = length subjects, qr_matched = length matched,
          qr_pattern_valid = True, qr_pattern_message = message, qr_inert = False\<rparr>)"

text \<open>\<^const>\<open>None\<close> is an exception of the \<open>RegExp\<close> constructor inside \<open>createMatcher\<close>.\<close>

definition applyQuickFilter ::
  "engine \<Rightarrow> quick_filter \<Rightarrow> filter_subject list \<Rightarrow> quick_filter_result option" where
  "applyQuickFilter eng st subjects =
     (if \<not> qf_active st \<or> quickFilterIsInert st then
        Some \<lparr>qr_messages = map qs_message subjects, qr_total = length subjects,
              qr_matched = length subjects, qr_pattern_valid = True, qr_pattern_message = None,
              qr_inert = qf_active st\<rparr>
      else if trim (qf_pattern st) = [] then Some (filtered st subjects None None)
      else let validation = validatePattern eng (filter_opts st)
           in if \<not> rv_valid validation then
                Some \<lparr>qr_messages = [], qr_total = length subjects, qr_matched = 0,
                      qr_pattern_valid = False, qr_pattern_message = Some (rv_message validation),
                      qr_inert = False\<rparr>
              else map_option (\<lambda>matcher. filtered st subjects (Some matcher) (Some (rv_message validation)))
                     (createMatcher eng (filter_opts st)))"

section \<open>Toggles\<close>

definition toggleQuickFilterFacet :: "quick_filter \<Rightarrow> facet \<Rightarrow> quick_filter" where
  "toggleQuickFilterFacet st f =
     st\<lparr>qf_active := True,
        qf_facets := (if f \<in> set (qf_facets st) then filter (\<lambda>v. v \<noteq> f) (qf_facets st)
                      else qf_facets st @ [f])\<rparr>"

definition toggleQuickFilterTag :: "quick_filter \<Rightarrow> string \<Rightarrow> quick_filter" where
  "toggleQuickFilterTag st t =
     st\<lparr>qf_active := True,
        qf_tags := (if t \<in> set (qf_tags st) then filter (\<lambda>v. v \<noteq> t) (qf_tags st)
                    else take QUICK_FILTER_TAG_LIMIT (qf_tags st @ [t]))\<rparr>"

section \<open>Invariant\<close>

definition quick_filter_ok :: "quick_filter \<Rightarrow> bool" where
  "quick_filter_ok st = (distinct (qf_facets st) \<and> distinct (qf_tags st) \<and> length (qf_tags st) \<le> QUICK_FILTER_TAG_LIMIT)"

datatype toggle = ToggleFacet facet | ToggleTag string

fun toggle_step :: "quick_filter \<Rightarrow> toggle \<Rightarrow> quick_filter" where
  "toggle_step st (ToggleFacet f) = toggleQuickFilterFacet st f"
| "toggle_step st (ToggleTag t) = toggleQuickFilterTag st t"

lemma toggle_step_ok: "quick_filter_ok st \<Longrightarrow> quick_filter_ok (toggle_step st t)"
  by (cases t)
    (auto simp: quick_filter_ok_def toggleQuickFilterFacet_def toggleQuickFilterTag_def
      intro: order.trans [OF length_filter_le] dest!: in_set_takeD)

lemma toggle_steps_ok: "quick_filter_ok st \<Longrightarrow> quick_filter_ok (foldl toggle_step st ts)"
  by (induction ts arbitrary: st) (auto intro: toggle_step_ok)

lemma facet_toggled:
  "f \<in> set (qf_facets (toggle_step st t)) \<longleftrightarrow> (f \<in> set (qf_facets st)) \<noteq> (t = ToggleFacet f)"
  by (cases t) (auto simp: toggleQuickFilterFacet_def toggleQuickFilterTag_def)

lemma facets_toggled:
  "f \<in> set (qf_facets (foldl toggle_step st ts)) \<longleftrightarrow>
   (f \<in> set (qf_facets st)) \<noteq> odd (length (filter (\<lambda>t. t = ToggleFacet f) ts))"
  by (induction ts arbitrary: st) (auto simp: facet_toggled)

lemma length_filter_all: "length (filter P xs) = length xs \<longleftrightarrow> (\<forall>x \<in> set xs. P x)"
  by (metis filter_id_conv length_filter_less less_irrefl)

lemma tags_match_iff:
  "tags_match mode tagIds have \<longleftrightarrow>
   (case mode of MatchAll \<Rightarrow> set tagIds \<subseteq> set have
    | MatchAny \<Rightarrow> tagIds = [] \<or> (\<exists>t \<in> set tagIds. t \<in> set have))"
  by (cases mode) (auto simp: tags_match_def Let_def filter_empty_conv length_filter_all)

lemma subject_matches_narrows:
  "subject_matches (toggleQuickFilterFacet st f) matcher s \<Longrightarrow> f \<notin> set (qf_facets st) \<Longrightarrow> subject_matches st matcher s"
  by (cases matcher) (auto simp: subject_matches_def toggleQuickFilterFacet_def split: if_splits)

lemma filter_mset_mono: "(\<And>x. P x \<Longrightarrow> Q x) \<Longrightarrow> mset (map g (filter P xs)) \<subseteq># mset (map g (filter Q xs))"
  by (induction xs) (auto intro: subset_mset.order_trans [OF _ mset_subset_eq_add_right] simp: subset_mset.order_trans)

section \<open>Properties\<close>

text \<open>
  after any sequence of toggles from the empty filter, no facet or tag is listed twice, at most
  the limit's tags are selected, and a facet is selected exactly when it was toggled an odd number of
  times.
\<close>

theorem toggles_are_parity:
  "quick_filter_ok (foldl toggle_step emptyQuickFilterState ts)
   \<and> (f \<in> set (qf_facets (foldl toggle_step emptyQuickFilterState ts))
      \<longleftrightarrow> odd (length (filter (\<lambda>t. t = ToggleFacet f) ts)))"
proof -
  have "quick_filter_ok emptyQuickFilterState"
    by (simp add: quick_filter_ok_def emptyQuickFilterState_def)
  then show ?thesis
    by (simp add: toggle_steps_ok facets_toggled) (simp add: emptyQuickFilterState_def)
qed

text \<open>The intended selection, over sets of facets, tags and scopes.\<close>

definition selected :: "quick_filter \<Rightarrow> (string \<Rightarrow> bool) option \<Rightarrow> filter_subject \<Rightarrow> bool" where
  "selected st matcher s =
     ((\<forall>f \<in> set (qf_facets st). facetMatches f s)
      \<and> (let tags = set (take QUICK_FILTER_TAG_LIMIT (qf_tags st))
         in case qf_tag_match st of MatchAll \<Rightarrow> tags \<subseteq> set (qs_tags s)
            | MatchAny \<Rightarrow> tags = {} \<or> tags \<inter> set (qs_tags s) \<noteq> {})
      \<and> (case matcher of None \<Rightarrow> True
         | Some f \<Rightarrow> \<exists>scope \<in> (if qf_scopes st = [] then UNIV else set (qf_scopes st)).
             f (scopeText scope (qs_message s))))"

lemma set_all_scopes: "set QUICK_FILTER_SCOPES = UNIV"
proof -
  have "x \<in> set QUICK_FILTER_SCOPES" for x by (cases x) (simp_all add: QUICK_FILTER_SCOPES_def)
  then show ?thesis by blast
qed

lemma subject_matches_selected: "subject_matches st matcher s \<longleftrightarrow> selected st matcher s"
proof -
  have "list_ex P (if qf_scopes st \<noteq> [] then qf_scopes st else QUICK_FILTER_SCOPES)
      \<longleftrightarrow> (\<exists>scope \<in> (if qf_scopes st = [] then UNIV else set (qf_scopes st)). P scope)" for P
    by (auto simp: list_ex_iff set_all_scopes)
  then show ?thesis
    unfolding subject_matches_def selected_def tags_match_iff Let_def
    by (cases matcher; cases "qf_tag_match st") (auto simp: list_all_iff)
qed

text \<open>
  an active filter that selects something and whose pattern is valid shows, in list order,
  exactly the messages that satisfy every facet, the tag condition over at most the limit's tags, and
  have the pattern in one of the scopes.
\<close>

theorem quick_filter_exact:
  assumes "qf_active st" and "\<not> quickFilterIsInert st"
    and "applyQuickFilter eng st subjects = Some r" and "qr_pattern_valid r"
  shows "\<exists>matcher. (if trim (qf_pattern st) = [] then matcher = None
                    else matcher \<noteq> None \<and> matcher = createMatcher eng (filter_opts st))
    \<and> qr_matched r = length (qr_messages r)
    \<and> qr_messages r = map qs_message (filter (selected st matcher) subjects)"
proof -
  let ?m = "if trim (qf_pattern st) = [] then None else createMatcher eng (filter_opts st)"
  have "qr_messages r = map qs_message (filter (subject_matches st ?m) subjects)"
    and "qr_matched r = length (qr_messages r)"
    and "trim (qf_pattern st) \<noteq> [] \<Longrightarrow> createMatcher eng (filter_opts st) \<noteq> None"
    using assms by (auto simp: applyQuickFilter_def filtered_def Let_def split: if_splits)
  moreover have "subject_matches st = selected st"
    by (intro ext subject_matches_selected)
  ultimately show ?thesis by (intro exI [of _ ?m]) auto
qed

theorem quick_filter_exact_witness:
  "\<exists>r. applyQuickFilter (\<lambda>_ _. None) (toggleQuickFilterFacet emptyQuickFilterState FacetStarred)
         [\<lparr>qs_message = blank_message, qs_tags = []\<rparr>] = Some r \<and> qr_messages r = []"
proof -
  let ?st = "toggleQuickFilterFacet emptyQuickFilterState FacetStarred"
  let ?subjects = "[\<lparr>qs_message = blank_message, qs_tags = []\<rparr>]"
  have st: "qf_active ?st" "\<not> quickFilterIsInert ?st" "qf_pattern ?st = []" "qf_facets ?st = [FacetStarred]"
    by (simp_all add: toggleQuickFilterFacet_def emptyQuickFilterState_def quickFilterIsInert_def)
  have "trim [] = []" by code_simp
  with st obtain r where r: "applyQuickFilter (\<lambda>_ _. None) ?st ?subjects = Some r" "qr_pattern_valid r"
    by (simp add: applyQuickFilter_def filtered_def)
  then have "qr_messages r = []"
    using quick_filter_exact [OF st(1,2) r] st(4) by (auto simp: selected_def blank_message_def)
  with r show ?thesis by blast
qed

text \<open>selecting one more facet never shows a message that was not shown before.\<close>

theorem facet_narrows:
  assumes "f \<notin> set (qf_facets st)"
    and "applyQuickFilter eng st subjects = Some r"
    and "applyQuickFilter eng (toggleQuickFilterFacet st f) subjects = Some r'"
  shows "mset (qr_messages r') \<subseteq># mset (qr_messages r)"
proof -
  let ?st = "toggleQuickFilterFacet st f"
  have same: "qf_pattern ?st = qf_pattern st" "filter_opts ?st = filter_opts st" "qf_active ?st"
    "\<not> quickFilterIsInert ?st"
    using assms(1) by (auto simp: toggleQuickFilterFacet_def filter_opts_def quickFilterFlags_def quickFilterIsInert_def)
  have narrow: "mset (map qs_message (filter (subject_matches ?st m) subjects))
      \<subseteq># mset (map qs_message (filter (subject_matches st m) subjects))"
    and all: "mset (map qs_message (filter (subject_matches ?st m) subjects)) \<subseteq># mset (map qs_message subjects)" for m
    using filter_mset_mono [of "subject_matches ?st m" "subject_matches st m" qs_message subjects]
      filter_mset_mono [of "subject_matches ?st m" "\<lambda>_. True" qs_message subjects]
      subject_matches_narrows assms(1) by auto
  show ?thesis
    using assms(2,3) narrow all same
    by (auto simp: applyQuickFilter_def filtered_def Let_def split: if_splits)
qed

theorem facet_narrows_witness:
  "mset (qr_messages (the (applyQuickFilter (\<lambda>_ _. None)
     (toggleQuickFilterFacet emptyQuickFilterState FacetUnread) [\<lparr>qs_message = blank_message, qs_tags = []\<rparr>])))
   \<subseteq># {#blank_message#}"
proof -
  have "trim [] = []" by code_simp
  then show ?thesis
    using facet_narrows [where st = emptyQuickFilterState and f = FacetUnread and eng = "\<lambda>_ _. None"
      and subjects = "[\<lparr>qs_message = blank_message, qs_tags = []\<rparr>]"]
    by (simp add: applyQuickFilter_def filtered_def emptyQuickFilterState_def quickFilterIsInert_def
          toggleQuickFilterFacet_def)
qed

end
