(* ===== verification/Signatures.thy ===== *)
theory Signatures
  imports Identities
begin

text \<open>
  The signature of a compose body (\<open>src/shared/identities.ts\<close>, second half): removing the signature
  applied before, placing a new one above or below quoted material, and recovering which signature a
  stored draft already carries.
\<close>

section \<open>Operations\<close>

definition SIGNATURE_SEPARATOR :: string where
  "SIGNATURE_SEPARATOR = ''-- ''"

definition nl :: string where
  "nl = [CHR 10]"

definition signatureBlock :: "string \<Rightarrow> string" where
  "signatureBlock signature = nl @ SIGNATURE_SEPARATOR @ nl @ signature"

definition stripSignature :: "string \<Rightarrow> string option \<Rightarrow> string" where
  "stripSignature body previousSignature =
     (case previousSignature of
        Some p \<Rightarrow>
          (let previous = trim p; block = signatureBlock previous
           in if previous = [] then body
              else case last_index_of block body of
                     Some i \<Rightarrow> take i body @ drop (i + length block) body
                   | None \<Rightarrow> body)
      | None \<Rightarrow>
          (case last_index_of (nl @ SIGNATURE_SEPARATOR @ nl) body of Some i \<Rightarrow> take i body | None \<Rightarrow> body))"

datatype quote_position = QuoteIndex nat | QuoteLine string | NoQuote

definition quoteIndexIn :: "string \<Rightarrow> quote_position \<Rightarrow> nat option" where
  "quoteIndexIn stripped quotedFrom =
     (case quotedFrom of
        NoQuote \<Rightarrow> None
      | QuoteIndex n \<Rightarrow> if n > length stripped then None else Some n
      | QuoteLine line \<Rightarrow> index_of line stripped)"

definition identity_signature :: "mail_identity option \<Rightarrow> string" where
  "identity_signature i = (case i of None \<Rightarrow> [] | Some x \<Rightarrow> trim (idn_signature x))"

text \<open>\<open>applySignature\<close>: the text and whether a signature was applied.\<close>

definition applySignature ::
  "string \<Rightarrow> mail_identity option \<Rightarrow> quote_position \<Rightarrow> string option \<Rightarrow> string \<times> bool" where
  "applySignature body identity quotedFrom previousSignature =
     (let stripped = stripSignature body previousSignature;
          signature = identity_signature identity; block = signatureBlock signature
      in if signature = [] then (stripped, False)
         else case quoteIndexIn stripped quotedFrom of
           None \<Rightarrow> (stripped @ block, True)
         | Some q \<Rightarrow>
             if (case identity of Some x \<Rightarrow> idn_placement x = BelowQuote | None \<Rightarrow> False)
             then (stripped @ block, True)
             else (trim_end (take q stripped) @ block @ nl @ nl @ drop q stripped, True))"

text \<open>The loop of \<open>recoverSignaturePlacement\<close>; \<^const>\<open>None\<close> is the early return for an ambiguous
  block, and \<open>Some None\<close> that no signature was found.\<close>

fun recover_from :: "string \<Rightarrow> mail_identity list \<Rightarrow> (string \<times> nat) option \<Rightarrow> (string \<times> nat) option option" where
  "recover_from body [] best = Some best"
| "recover_from body (i # ids) best =
     (let signature = trim (idn_signature i); block = signatureBlock signature
      in if signature = [] then recover_from body ids best
         else case index_of block body of
           None \<Rightarrow> recover_from body ids best
         | Some ix \<Rightarrow>
             if index_of block (drop (ix + length block) body) \<noteq> None then None
             else recover_from body ids
                    (if length signature > (case best of None \<Rightarrow> 0 | Some (s, _) \<Rightarrow> length s)
                     then Some (signature, ix) else best))"

definition recoverSignaturePlacement :: "string \<Rightarrow> mail_identity list \<Rightarrow> string \<times> string option" where
  "recoverSignaturePlacement body ids =
     (case recover_from body ids None of
        None \<Rightarrow> ([], None)
      | Some None \<Rightarrow> ([], None)
      | Some (Some (signature, ix)) \<Rightarrow>
          (let after = drop (ix + length (signatureBlock signature)) body
           in (signature, List.find (\<lambda>line. trim line \<noteq> []) (split_on (CHR 10) after))))"

section \<open>Last occurrences\<close>

lemma last_index_append:
  assumes "p \<noteq> []" and "\<not> contains (tl p @ y) p"
  shows "last_index_of p (x @ p @ y) = Some (length x)"
proof (induction x)
  case Nil
  obtain c q where p: "p = c # q" using assms(1) by (cases p) auto
  have "last_index_of p (q @ y) = None"
    using assms(2) by (simp add: p contains_def last_index_of_None)
  then have "last_index_of p (c # q @ y) = Some 0"
    by (simp add: starts_with_append) (simp add: p)
  then show ?case by (simp add: p)
qed simp

lemma last_index_suffix:
  assumes "p \<noteq> []"
  shows "last_index_of p (x @ p) = Some (length x)"
proof -
  have "\<not> contains (tl p @ []) p"
  proof
    assume "contains (tl p @ []) p"
    then obtain l r where "tl p = l @ p @ r" by (auto simp: contains_iff)
    then have "length (tl p) = length l + length p + length r" by simp
    with assms show False by (cases p) auto
  qed
  from last_index_append [OF assms this] show ?thesis by simp
qed

lemma signatureBlock_nonempty [simp]: "signatureBlock s \<noteq> []"
  by (simp add: signatureBlock_def nl_def)

lemma strip_block:
  "trim s \<noteq> [] \<Longrightarrow> \<not> contains (tl (signatureBlock (trim s)) @ y) (signatureBlock (trim s)) \<Longrightarrow>
   stripSignature (x @ signatureBlock (trim s) @ y) (Some s) = x @ y"
  by (simp add: stripSignature_def Let_def last_index_append)

lemma strip_block_end:
  "trim s \<noteq> [] \<Longrightarrow> stripSignature (x @ signatureBlock (trim s)) (Some s) = x"
  by (simp add: stripSignature_def Let_def last_index_suffix)

lemma strip_cuts_block:
  "stripSignature body (Some s) = body
   \<or> (\<exists>l r. body = l @ signatureBlock (trim s) @ r \<and> stripSignature body (Some s) = l @ r)"
proof (cases "trim s = [] \<or> last_index_of (signatureBlock (trim s)) body = None")
  case True
  then show ?thesis by (auto simp: stripSignature_def Let_def)
next
  case False
  then obtain i where i: "last_index_of (signatureBlock (trim s)) body = Some i" by auto
  from last_index_of_Some [OF i] obtain r where r: "drop i body = signatureBlock (trim s) @ r"
    by (auto simp: starts_with_append)
  then have "body = take i body @ signatureBlock (trim s) @ r" by (metis append_take_drop_id)
  moreover have "drop (i + length (signatureBlock (trim s))) body = r"
    using r by (metis append_eq_conv_conj drop_drop add.commute)
  ultimately show ?thesis
    using False i by (auto simp: stripSignature_def Let_def)
qed

lemma recover_step:
  assumes "recover_from body (i # ids) best = Some found"
  shows "\<exists>best'. recover_from body ids best' = Some found
    \<and> (best' = best \<or> (\<exists>ix. best' = Some (trim (idn_signature i), ix) \<and> trim (idn_signature i) \<noteq> []
         \<and> index_of (signatureBlock (trim (idn_signature i))) body = Some ix
         \<and> index_of (signatureBlock (trim (idn_signature i)))
              (drop (ix + length (signatureBlock (trim (idn_signature i)))) body) = None))
    \<and> (case best of None \<Rightarrow> 0 | Some (t, _) \<Rightarrow> length t) \<le> (case best' of None \<Rightarrow> 0 | Some (t, _) \<Rightarrow> length t)
    \<and> (contains body (signatureBlock (trim (idn_signature i)))
        \<longrightarrow> length (trim (idn_signature i)) \<le> (case best' of None \<Rightarrow> 0 | Some (t, _) \<Rightarrow> length t))"
proof -
  define t where "t = trim (idn_signature i)"
  show ?thesis
  proof (cases "t = [] \<or> index_of (signatureBlock t) body = None")
    case True
    then have "recover_from body ids best = Some found" using assms
      by (cases "t = []"; cases "index_of (signatureBlock t) body") (auto simp: Let_def t_def)
    then show ?thesis using True by (intro exI [of _ best]) (auto simp: contains_def t_def [symmetric])
  next
    case False
    then obtain ix where ix: "t \<noteq> []" "index_of (signatureBlock t) body = Some ix" by auto
    let ?len = "case best of None \<Rightarrow> 0 | Some (u, _) \<Rightarrow> length u"
    have "recover_from body ids (if length t > ?len then Some (t, ix) else best) = Some found"
      and "index_of (signatureBlock t) (drop (ix + length (signatureBlock t)) body) = None"
      using assms ix by (auto simp: Let_def t_def split: if_splits)
    then show ?thesis
      using ix unfolding t_def [symmetric]
      by (intro exI [of _ "if length t > ?len then Some (t, ix) else best"]) auto
  qed
qed

lemma recover_found:
  "recover_from body ids best = Some (Some (s, ix)) \<Longrightarrow>
   best = Some (s, ix) \<or>
   (s \<in> (\<lambda>i. trim (idn_signature i)) ` set ids \<and> s \<noteq> [] \<and> index_of (signatureBlock s) body = Some ix
    \<and> index_of (signatureBlock s) (drop (ix + length (signatureBlock s)) body) = None)"
proof (induction ids arbitrary: best)
  case (Cons i ids)
  from recover_step [OF Cons.prems] Cons.IH show ?case by fastforce
qed simp

lemma recover_longest:
  "recover_from body ids best = Some (Some (s, ix)) \<Longrightarrow>
   (case best of None \<Rightarrow> 0 | Some (t, _) \<Rightarrow> length t) \<le> length s
   \<and> (\<forall>i \<in> set ids. contains body (signatureBlock (trim (idn_signature i))) \<longrightarrow> length (trim (idn_signature i)) \<le> length s)"
proof (induction ids arbitrary: best)
  case (Cons i ids)
  from recover_step [OF Cons.prems] Cons.IH show ?case by fastforce
qed simp

section \<open>Properties\<close>

definition quote_free :: "string \<Rightarrow> string \<Rightarrow> bool" where
  "quote_free s text = (\<not> contains (tl (signatureBlock s) @ text) (signatureBlock s))"

definition below_quote :: "mail_identity option \<Rightarrow> bool" where
  "below_quote identity = (case identity of Some x \<Rightarrow> idn_placement x = BelowQuote | None \<Rightarrow> False)"

text \<open>
  C25: removing a signature that was just applied. Where it was put at the end, which is the case when
  the identity places it below the quote or there is no quote, removing it gives back exactly the body
  it was applied to (the given body without the previous signature). Where it was put above a quote, and
  its block does not occur again from its second character on, removing it gives the text before the
  quote without its trailing white space, two line breaks, and the quote: not the body itself when the
  white space differs.
\<close>

theorem applied_signature_is_removable:
  assumes "applySignature body identity quotedFrom previous = (text, True)"
  shows "let stripped = stripSignature body previous; s = identity_signature identity in
    (case quoteIndexIn stripped quotedFrom of
       None \<Rightarrow> stripSignature text (Some s) = stripped
     | Some q \<Rightarrow>
         if below_quote identity then stripSignature text (Some s) = stripped
         else quote_free s (nl @ nl @ drop q stripped)
           \<longrightarrow> stripSignature text (Some s) = trim_end (take q stripped) @ nl @ nl @ drop q stripped)"
proof -
  define s where "s = identity_signature identity"
  have trimmed: "trim s = s" by (cases identity) (simp_all add: s_def identity_signature_def trim_eq_Nil)
  have ne: "s \<noteq> []" using assms by (auto simp: applySignature_def Let_def s_def split: if_splits)
  have at_end: "stripSignature (x @ signatureBlock s) (Some s) = x" for x
    using strip_block_end [of s x] ne trimmed by simp
  show ?thesis
  proof (cases "quoteIndexIn (stripSignature body previous) quotedFrom")
    case None
    then have "text = stripSignature body previous @ signatureBlock s"
      using assms ne by (simp add: applySignature_def Let_def s_def)
    with None show ?thesis by (simp add: Let_def s_def [symmetric] at_end)
  next
    case (Some q)
    let ?rest = "nl @ nl @ drop q (stripSignature body previous)"
    show ?thesis
    proof (cases "below_quote identity")
      case True
      then have "text = stripSignature body previous @ signatureBlock s"
        using assms ne Some by (simp add: applySignature_def Let_def s_def below_quote_def [symmetric])
      with Some True show ?thesis by (simp add: Let_def s_def [symmetric] at_end)
    next
      case False
      then have "text = trim_end (take q (stripSignature body previous)) @ signatureBlock s @ ?rest"
        using assms ne Some by (simp add: applySignature_def Let_def s_def below_quote_def [symmetric])
      then have "quote_free s ?rest \<Longrightarrow>
          stripSignature text (Some s) = trim_end (take q (stripSignature body previous)) @ ?rest"
        using strip_block [of s ?rest "trim_end (take q (stripSignature body previous))"] ne trimmed
        by (simp add: quote_free_def)
      with Some False show ?thesis by (simp add: Let_def s_def [symmetric])
    qed
  qed
qed

definition signed_identity :: mail_identity where
  "signed_identity = (saved_identity ''i'' ''x'')\<lparr>idn_signature := ''Ann''\<rparr>"

theorem applied_signature_is_removable_witness:
  "stripSignature (fst (applySignature ''Hi'' (Some signed_identity) NoQuote None)) (Some ''Ann'') = ''Hi''"
proof -
  have "applySignature ''Hi'' (Some signed_identity) NoQuote None = (''Hi'' @ signatureBlock ''Ann'', True)"
    by code_simp
  moreover have "identity_signature (Some signed_identity) = ''Ann''" by code_simp
  moreover have "stripSignature ''Hi'' None = ''Hi''" by code_simp
  ultimately show ?thesis
    using applied_signature_is_removable [of "''Hi''" "Some signed_identity" NoQuote None]
    by (simp add: quoteIndexIn_def)
qed

text \<open>
  with a known previous signature, removal never loses anything but one copy of that signature's
  block: the body is unchanged or exactly that block is cut out of it.
\<close>

theorem removal_cuts_only_the_block:
  "stripSignature body (Some s) = body
   \<or> (\<exists>l r. body = l @ signatureBlock (trim s) @ r \<and> stripSignature body (Some s) = l @ r)"
  by (rule strip_cuts_block)

text \<open>
  a recovered signature belongs to one of the account's identities, its block occurs in the body
  and not again after that, and no longer signature of the account occurs in the body.
\<close>

theorem recovered_signature_is_present:
  assumes "recoverSignaturePlacement body ids = (s, marker)" and "s \<noteq> []"
  shows "s \<in> (\<lambda>i. trim (idn_signature i)) ` set ids
    \<and> (\<exists>l r. body = l @ signatureBlock s @ r \<and> \<not> contains r (signatureBlock s))
    \<and> (\<forall>i \<in> set ids. contains body (signatureBlock (trim (idn_signature i)))
         \<longrightarrow> length (trim (idn_signature i)) \<le> length s)"
proof -
  obtain ix where rec: "recover_from body ids None = Some (Some (s, ix))"
    using assms by (auto simp: recoverSignaturePlacement_def Let_def split: option.splits)
  from recover_found [OF rec] have mem: "s \<in> (\<lambda>i. trim (idn_signature i)) ` set ids"
    and ix: "index_of (signatureBlock s) body = Some ix"
    and once: "index_of (signatureBlock s) (drop (ix + length (signatureBlock s)) body) = None"
    by auto
  from index_of_Some [OF ix] obtain r where r: "drop ix body = signatureBlock s @ r"
    by (auto simp: starts_with_append)
  then have "body = take ix body @ signatureBlock s @ r" by (metis append_take_drop_id)
  moreover have "drop (ix + length (signatureBlock s)) body = r"
    using r by (metis append_eq_conv_conj drop_drop add.commute)
  then have "\<not> contains r (signatureBlock s)" using once by (simp add: contains_def)
  ultimately show ?thesis
    using mem recover_longest [OF rec] by blast
qed

theorem recovered_signature_is_present_witness:
  "\<exists>l r. ''Hi'' @ signatureBlock ''Ann'' = l @ signatureBlock ''Ann'' @ r \<and> \<not> contains r (signatureBlock ''Ann'')"
proof -
  have "recoverSignaturePlacement (''Hi'' @ signatureBlock ''Ann'') [signed_identity] = (''Ann'', None)"
    by code_simp
  from conjunct1 [OF conjunct2 [OF recovered_signature_is_present [OF this list.distinct(2)]]]
  show ?thesis .
qed

end
