(* ===== verification/Window_State.thy ===== *)
theory Window_State
  imports Json_Values Files
begin

text \<open>
  Placement of the main window (\<open>src/main/window-state.ts\<close>): the persisted record and its reader,
  the choice of the bounds for the displays at hand, and the store, whose file system is a map from
  paths to files. The store runs its saves one after the other (\<open>#queue\<close>), so a read or a save is one
  step. \<open>JSON.parse\<close> and \<open>JSON.stringify\<close> of the platform are arguments; coordinates of displays are
  integers.
\<close>

section \<open>Data\<close>

definition WINDOW_STATE_SCHEMA_VERSION :: int where "WINDOW_STATE_SCHEMA_VERSION = 1"
definition WINDOW_MIN_WIDTH :: int where "WINDOW_MIN_WIDTH = 760"
definition WINDOW_MIN_HEIGHT :: int where "WINDOW_MIN_HEIGHT = 560"
definition WINDOW_DEFAULT_WIDTH :: int where "WINDOW_DEFAULT_WIDTH = 1500"
definition WINDOW_DEFAULT_HEIGHT :: int where "WINDOW_DEFAULT_HEIGHT = 940"
definition WINDOW_STATE_MAX_BYTES :: nat where "WINDOW_STATE_MAX_BYTES = 16 * 1024"

text \<open>The coordinates of persisted bounds are both present or both absent.\<close>

record window_bounds =
  wb_position :: "(int \<times> int) option"
  wb_width :: int
  wb_height :: int

record window_state =
  ws_bounds :: window_bounds
  ws_maximized :: bool

record work_area =
  wa_x :: int
  wa_y :: int
  wa_width :: int
  wa_height :: int

definition defaultWindowState :: window_state where
  "defaultWindowState =
     \<lparr>ws_bounds = \<lparr>wb_position = None, wb_width = WINDOW_DEFAULT_WIDTH, wb_height = WINDOW_DEFAULT_HEIGHT\<rparr>,
      ws_maximized = False\<rparr>"

section \<open>The reader\<close>

datatype window_error = NotAnObject | UnsupportedSchema | BoundsMissing | OutOfRange | SplitCoordinates

definition read_coordinate :: "json option \<Rightarrow> (window_error, int option) result" where
  "read_coordinate v = (case v of None \<Rightarrow> Inr None
     | Some j \<Rightarrow> (case json_integer (-1000000) 1000000 j of None \<Rightarrow> Inl OutOfRange | Some n \<Rightarrow> Inr (Some n)))"

definition parseWindowState :: "json \<Rightarrow> (window_error, window_state) result" where
  "parseWindowState v =
     (case json_fields v of None \<Rightarrow> Inl NotAnObject
      | Some record \<Rightarrow>
        (case (map_of record ''schemaVersion'', map_of record ''maximized'') of
           (Some version, Some (JBool maximized)) \<Rightarrow>
             if version \<noteq> JNumber (of_int WINDOW_STATE_SCHEMA_VERSION) then Inl UnsupportedSchema
             else (case Option.bind (map_of record ''bounds'') json_fields of None \<Rightarrow> Inl BoundsMissing
             | Some bounds \<Rightarrow>
               (case (Option.bind (map_of bounds ''width'') (json_integer WINDOW_MIN_WIDTH 32768),
                      Option.bind (map_of bounds ''height'') (json_integer WINDOW_MIN_HEIGHT 32768),
                      read_coordinate (map_of bounds ''x''), read_coordinate (map_of bounds ''y'')) of
                  (Some width, Some height, Inr x, Inr y) \<Rightarrow>
                    (case (x, y) of
                       (None, None) \<Rightarrow> Inr \<lparr>ws_bounds = \<lparr>wb_position = None, wb_width = width, wb_height = height\<rparr>,
                                            ws_maximized = maximized\<rparr>
                     | (Some x, Some y) \<Rightarrow> Inr \<lparr>ws_bounds = \<lparr>wb_position = Some (x, y), wb_width = width, wb_height = height\<rparr>,
                                                ws_maximized = maximized\<rparr>
                     | _ \<Rightarrow> Inl SplitCoordinates)
                | _ \<Rightarrow> Inl OutOfRange))
         | _ \<Rightarrow> Inl UnsupportedSchema))"

text \<open>The object that \<open>save\<close> hands to \<open>JSON.stringify\<close>.\<close>

definition window_state_json :: "window_state \<Rightarrow> json" where
  "window_state_json st =
     JObject [(''schemaVersion'', JNumber (of_int WINDOW_STATE_SCHEMA_VERSION)),
       (''bounds'', JObject
          ((case wb_position (ws_bounds st) of None \<Rightarrow> []
            | Some (x, y) \<Rightarrow> [(''x'', JNumber (of_int x)), (''y'', JNumber (of_int y))]) @
           [(''width'', JNumber (of_int (wb_width (ws_bounds st)))),
            (''height'', JNumber (of_int (wb_height (ws_bounds st))))])),
       (''maximized'', JBool (ws_maximized st))]"

section \<open>Bounds for the displays\<close>

definition overlapArea :: "work_area \<Rightarrow> work_area \<Rightarrow> int" where
  "overlapArea bounds area =
     max 0 (min (wa_x bounds + wa_width bounds) (wa_x area + wa_width area) - max (wa_x bounds) (wa_x area))
     * max 0 (min (wa_y bounds + wa_height bounds) (wa_y area + wa_height area) - max (wa_y bounds) (wa_y area))"

definition clamp_window :: "int \<Rightarrow> int \<Rightarrow> int \<Rightarrow> int" where
  "clamp_window value minimum maximum = max minimum (min (max minimum maximum) value)"

text \<open>\<open>Math.round(n / 2)\<close>: halves are rounded up.\<close>

definition round_half :: "int \<Rightarrow> int" where
  "round_half n = (n + 1) div 2"

definition fallback_area :: "work_area list \<Rightarrow> work_area" where
  "fallback_area areas = (case areas of a # _ \<Rightarrow> a
     | [] \<Rightarrow> \<lparr>wa_x = 0, wa_y = 0, wa_width = WINDOW_DEFAULT_WIDTH, wa_height = WINDOW_DEFAULT_HEIGHT\<rparr>)"

definition requested_bounds :: "window_state \<Rightarrow> work_area list \<Rightarrow> work_area" where
  "requested_bounds st areas =
     (let b = ws_bounds st; f = fallback_area areas in
      case wb_position b of
        Some (x, y) \<Rightarrow> \<lparr>wa_x = x, wa_y = y, wa_width = wb_width b, wa_height = wb_height b\<rparr>
      | None \<Rightarrow> \<lparr>wa_x = wa_x f + round_half (wa_width f - wb_width b),
                 wa_y = wa_y f + round_half (wa_height f - wb_height b),
                 wa_width = wb_width b, wa_height = wb_height b\<rparr>)"

definition target_area :: "work_area \<Rightarrow> work_area list \<Rightarrow> work_area option" where
  "target_area requested areas =
     (case js_sort (cmp_flip (cmp_on (overlapArea requested) int_cmp)) areas of
        [] \<Rightarrow> None
      | a # _ \<Rightarrow> if overlapArea requested a \<ge> 64 * 64 then Some a else None)"

definition resolveWindowBounds :: "window_state \<Rightarrow> work_area list \<Rightarrow> work_area" where
  "resolveWindowBounds st areas =
     (let requested = requested_bounds st areas;
          target = target_area requested areas;
          area = (case target of Some a \<Rightarrow> a | None \<Rightarrow> fallback_area areas);
          width = clamp_window (wa_width requested) (min WINDOW_MIN_WIDTH (wa_width area)) (wa_width area);
          height = clamp_window (wa_height requested) (min WINDOW_MIN_HEIGHT (wa_height area)) (wa_height area)
      in \<lparr>wa_x = (if target \<noteq> None then clamp_window (wa_x requested) (wa_x area) (wa_x area + wa_width area - width)
                  else wa_x area + round_half (wa_width area - width)),
          wa_y = (if target \<noteq> None then clamp_window (wa_y requested) (wa_y area) (wa_y area + wa_height area - height)
                  else wa_y area + round_half (wa_height area - height)),
          wa_width = width, wa_height = height\<rparr>)"

section \<open>The store\<close>

record window_store =
  wt_path :: string
  wt_invalid_primary :: bool
  wt_files :: "(string, file_entry) entries"

text \<open>\<open>read\<close>: what it returns, and the store after it.\<close>

definition read_window ::
  "(string \<Rightarrow> json option) \<Rightarrow> window_store \<Rightarrow> window_state \<times> window_store" where
  "read_window parse s =
     (case map_of (wt_files s) (wt_path s) of
        None \<Rightarrow> (defaultWindowState, s\<lparr>wt_invalid_primary := False\<rparr>)
      | Some NotRegular \<Rightarrow> (defaultWindowState, s\<lparr>wt_invalid_primary := True\<rparr>)
      | Some (Regular text) \<Rightarrow>
          if byte_length text > WINDOW_STATE_MAX_BYTES then (defaultWindowState, s\<lparr>wt_invalid_primary := True\<rparr>)
          else (case parse text of None \<Rightarrow> (defaultWindowState, s\<lparr>wt_invalid_primary := True\<rparr>)
          | Some v \<Rightarrow> (case parseWindowState v of
                Inl _ \<Rightarrow> (defaultWindowState, s\<lparr>wt_invalid_primary := True\<rparr>)
              | Inr st \<Rightarrow> (st, s\<lparr>wt_invalid_primary := False\<rparr>))))"

text \<open>\<open>save\<close>: the names of the put-aside and the temporary file carry the process and the clock; they
  are arguments. \<^const>\<open>None\<close> is a throw, after which the store is as the second component says.\<close>

definition save_window ::
  "(json \<Rightarrow> string) \<Rightarrow> string \<Rightarrow> string \<Rightarrow> window_state \<Rightarrow> window_store \<Rightarrow> bool \<times> window_store" where
  "save_window stringify aside temporary st s =
     (case parseWindowState (window_state_json st) of
        Inl _ \<Rightarrow> (False, s)
      | Inr st' \<Rightarrow>
        (let put_aside = (if wt_invalid_primary s
               then case_option (wt_files s) id (rename_file (wt_path s) aside (wt_files s)) else wt_files s)
         in if map_of put_aside temporary \<noteq> None then (False, s\<lparr>wt_files := put_aside\<rparr>)
            else (case rename_file temporary (wt_path s)
                     (AList.update temporary (Regular (stringify (window_state_json st') @ [CHR 10])) put_aside) of
                    None \<Rightarrow> (False, s\<lparr>wt_files := put_aside\<rparr>)
                  | Some files \<Rightarrow> (True, s\<lparr>wt_files := files, wt_invalid_primary := False\<rparr>))))"

section \<open>Lemmas on the geometry\<close>

definition inside :: "work_area \<Rightarrow> work_area \<Rightarrow> bool" where
  "inside b a =
     (wa_x a \<le> wa_x b \<and> wa_x b + wa_width b \<le> wa_x a + wa_width a \<and>
      wa_y a \<le> wa_y b \<and> wa_y b + wa_height b \<le> wa_y a + wa_height a)"

lemma round_half_bounds: "0 \<le> n \<Longrightarrow> 0 \<le> round_half n \<and> round_half n \<le> n"
  unfolding round_half_def by linarith

lemma clamp_window_le: "clamp_window v (min m w) w \<le> w"
  by (simp add: clamp_window_def)

lemma clamp_window_within: "lo \<le> hi \<Longrightarrow> lo \<le> clamp_window v lo hi \<and> clamp_window v lo hi \<le> hi"
  by (simp add: clamp_window_def)

lemma clamp_window_id: "lo \<le> v \<Longrightarrow> v \<le> hi \<Longrightarrow> clamp_window v lo hi = v"
  by (simp add: clamp_window_def)

lemma product_le:
  assumes "0 \<le> (a :: int)" "a \<le> w" "0 \<le> b" "b \<le> h" "0 < w" "0 < h"
  shows "a * b \<le> w * h" and "a * b = w * h \<Longrightarrow> a = w \<and> b = h"
proof -
  show le: "a * b \<le> w * h" using assms by (intro mult_mono) auto
  assume eq: "a * b = w * h"
  have "a * b \<le> a * h" "a * h \<le> w * h" using assms by (auto intro: mult_left_mono mult_right_mono)
  with eq have "a * h = w * h" "a * b = a * h" by linarith+
  with assms show "a = w \<and> b = h" by auto
qed

lemma overlap_parts:
  assumes "0 < wa_width b" "0 < wa_height b"
  shows "overlapArea b a \<le> wa_width b * wa_height b"
    and "overlapArea b a = wa_width b * wa_height b \<longleftrightarrow> inside b a"
proof -
  define ow where "ow = max 0 (min (wa_x b + wa_width b) (wa_x a + wa_width a) - max (wa_x b) (wa_x a))"
  define oh where "oh = max 0 (min (wa_y b + wa_height b) (wa_y a + wa_height a) - max (wa_y b) (wa_y a))"
  have ov: "overlapArea b a = ow * oh" by (simp add: overlapArea_def ow_def oh_def)
  have b: "0 \<le> ow" "ow \<le> wa_width b" "0 \<le> oh" "oh \<le> wa_height b"
    using assms by (auto simp: ow_def oh_def)
  show "overlapArea b a \<le> wa_width b * wa_height b" using product_le(1) [OF b assms] ov by simp
  have "ow = wa_width b \<and> oh = wa_height b \<longleftrightarrow> inside b a"
    using assms by (auto simp: ow_def oh_def inside_def)
  then show "overlapArea b a = wa_width b * wa_height b \<longleftrightarrow> inside b a"
    using product_le(2) [OF b assms] ov by auto
qed

lemma target_area_Some:
  assumes "target_area r areas = Some t"
  shows "t \<in> set areas" and "a \<in> set areas \<Longrightarrow> overlapArea r a \<le> overlapArea r t"
proof -
  let ?c = "cmp_flip (cmp_on (overlapArea r) int_cmp)"
  have cmp: "comparator ?c" by (intro comparator_flip comparator_on ints.comparator_axioms)
  from assms obtain rest where s: "js_sort ?c areas = t # rest"
    by (auto simp: target_area_def split: list.splits if_splits)
  then have "t \<in> set (js_sort ?c areas)" by simp
  then show "t \<in> set areas" by simp
  show "a \<in> set areas \<Longrightarrow> overlapArea r a \<le> overlapArea r t"
    using comparator.head_least [OF cmp s, of a] by (auto simp: cmp_flip_def cmp_on_def int_cmp_def split: if_splits)
qed

lemma target_area_None:
  assumes "target_area r areas = None" "a \<in> set areas"
  shows "overlapArea r a < 64 * 64"
proof -
  let ?c = "cmp_flip (cmp_on (overlapArea r) int_cmp)"
  have cmp: "comparator ?c" by (intro comparator_flip comparator_on ints.comparator_axioms)
  from assms(2) have "js_sort ?c areas \<noteq> []" by (metis length_0_conv length_greater_0_conv length_js_sort length_pos_if_in_set)
  then obtain t rest where s: "js_sort ?c areas = t # rest" by (cases "js_sort ?c areas") auto
  with assms(1) have "overlapArea r t < 64 * 64" by (auto simp: target_area_def split: if_splits)
  with comparator.head_least [OF cmp s assms(2)] show ?thesis
    by (auto simp: cmp_flip_def cmp_on_def int_cmp_def split: if_splits)
qed

lemma read_coordinate_of_int:
  "read_coordinate (Some (JNumber (of_int n))) =
     (if -1000000 \<le> n \<and> n \<le> 1000000 then Inr (Some n) else Inl OutOfRange)"
  by (simp add: read_coordinate_def)

lemma parse_written_state:
  "parseWindowState (window_state_json st) = Inr st' \<Longrightarrow> st' = st"
proof (cases st)
  fix b m assume p: "parseWindowState (window_state_json st) = Inr st'" and st: "st = \<lparr>ws_bounds = b, ws_maximized = m\<rparr>"
  obtain q w h where b: "b = \<lparr>wb_position = q, wb_width = w, wb_height = h\<rparr>" by (cases b)
  from p show "st' = st" unfolding st b
    by (cases q) (auto simp: parseWindowState_def window_state_json_def read_coordinate_of_int
        read_coordinate_def Let_def split: if_splits option.splits)
qed

section \<open>Properties\<close>

text \<open>C33: Whatever was persisted and whatever displays there are, the window is placed inside one work
  area: one of the displays', or the default area when there is none.\<close>
theorem window_fits_a_work_area:
  "\<exists>a \<in> insert (fallback_area areas) (set areas). inside (resolveWindowBounds st areas) a"
proof -
  define r where "r = requested_bounds st areas"
  define a where "a = (case target_area r areas of Some a \<Rightarrow> a | None \<Rightarrow> fallback_area areas)"
  define w where "w = clamp_window (wa_width r) (min WINDOW_MIN_WIDTH (wa_width a)) (wa_width a)"
  define h where "h = clamp_window (wa_height r) (min WINDOW_MIN_HEIGHT (wa_height a)) (wa_height a)"
  have wh: "w \<le> wa_width a" "h \<le> wa_height a" by (simp_all add: w_def h_def clamp_window_le)
  have fits: "inside (resolveWindowBounds st areas) a"
    using wh round_half_bounds [of "wa_width a - w"] round_half_bounds [of "wa_height a - h"]
      clamp_window_within [of "wa_x a" "wa_x a + wa_width a - w" "wa_x r"]
      clamp_window_within [of "wa_y a" "wa_y a + wa_height a - h" "wa_y r"]
    unfolding resolveWindowBounds_def Let_def r_def [symmetric] a_def [symmetric] w_def [symmetric] h_def [symmetric]
    by (auto simp: inside_def)
  have "a \<in> insert (fallback_area areas) (set areas)"
    using target_area_Some(1) [of r areas] by (auto simp: a_def split: option.splits)
  with fits show ?thesis by blast
qed

text \<open>A persisted window of at least the minimal size that lies within some display is restored exactly
  where it was.\<close>
theorem visible_window_is_restored:
  assumes "wb_position (ws_bounds st) = Some (x, y)"
    and "wb_width (ws_bounds st) \<ge> 760" and "wb_height (ws_bounds st) \<ge> 560"
    and "a \<in> set areas"
    and "inside \<lparr>wa_x = x, wa_y = y, wa_width = wb_width (ws_bounds st), wa_height = wb_height (ws_bounds st)\<rparr> a"
  shows "resolveWindowBounds st areas
    = \<lparr>wa_x = x, wa_y = y, wa_width = wb_width (ws_bounds st), wa_height = wb_height (ws_bounds st)\<rparr>"
proof -
  define r where "r = requested_bounds st areas"
  have r: "r = \<lparr>wa_x = x, wa_y = y, wa_width = wb_width (ws_bounds st), wa_height = wb_height (ws_bounds st)\<rparr>"
    by (simp add: r_def requested_bounds_def assms(1) Let_def)
  have pos: "0 < wa_width r" "0 < wa_height r" using assms(2,3) by (simp_all add: r)
  have full: "overlapArea r a = wa_width r * wa_height r" using overlap_parts(2) [OF pos] assms(5) r by simp
  have "760 * 560 \<le> wa_width r * wa_height r" using assms(2,3) by (intro mult_mono) (auto simp: r)
  with full target_area_None [of r areas a] assms(4) obtain t where t: "target_area r areas = Some t"
    by (cases "target_area r areas") auto
  have "inside r t"
    using target_area_Some(2) [OF t assms(4)] overlap_parts [OF pos, of t] full by auto
  then have id: "clamp_window (wa_width r) (min WINDOW_MIN_WIDTH (wa_width t)) (wa_width t) = wa_width r"
    "clamp_window (wa_height r) (min WINDOW_MIN_HEIGHT (wa_height t)) (wa_height t) = wa_height r"
    "clamp_window (wa_x r) (wa_x t) (wa_x t + wa_width t - wa_width r) = wa_x r"
    "clamp_window (wa_y r) (wa_y t) (wa_y t + wa_height t - wa_height r) = wa_y r"
    using assms(2,3) by (auto intro!: clamp_window_id simp: inside_def r WINDOW_MIN_WIDTH_def WINDOW_MIN_HEIGHT_def)
  show ?thesis
    unfolding resolveWindowBounds_def Let_def r_def [symmetric] t option.case id
    by (simp add: id r [symmetric])
qed

text \<open>What a successful save wrote is what the next read returns, for a JSON text that parses back and is
  within the size limit.\<close>
theorem saved_window_reads_back:
  assumes "save_window stringify aside temporary st s = (True, s')"
    and "parse (stringify (window_state_json st) @ [CHR 10]) = Some (window_state_json st)"
    and "byte_length (stringify (window_state_json st)) < 16384"
    and "temporary \<noteq> wt_path s"
  shows "read_window parse s' = (st, s') \<and> \<not> wt_invalid_primary s'"
proof -
  from assms(1) obtain st' where st': "parseWindowState (window_state_json st) = Inr st'"
    by (auto simp: save_window_def split: sum.splits)
  then have [simp]: "st' = st" by (rule parse_written_state)
  from assms(1) have s': "map_of (wt_files s') (wt_path s') = Some (Regular (stringify (window_state_json st) @ [CHR 10]))"
    "\<not> wt_invalid_primary s'"
    by (auto simp: save_window_def st' Let_def rename_file_def map_of_update split: if_splits option.splits)
  have "byte_length (stringify (window_state_json st) @ [CHR 10]) \<le> WINDOW_STATE_MAX_BYTES"
    using assms(3) by (simp add: byte_length_append byte_length_Cons WINDOW_STATE_MAX_BYTES_def code_def)
  with s' assms(2) st' show ?thesis by (simp add: read_window_def)
qed

text \<open>A file that a read could not use is never lost: the save that follows puts it aside under the new
  name before it writes.\<close>
theorem unusable_file_is_kept:
  assumes "read_window parse s = (st0, s1)" and "wt_invalid_primary s1"
    and "save_window stringify aside temporary st s1 = (ok, s2)"
    and "is_ok (parseWindowState (window_state_json st))"
    and "aside \<noteq> wt_path s" and "aside \<noteq> temporary" and "temporary \<noteq> wt_path s"
  shows "st0 = defaultWindowState \<and> map_of (wt_files s) (wt_path s) \<noteq> None
    \<and> map_of (wt_files s2) aside = map_of (wt_files s) (wt_path s)"
proof -
  from assms(1,2) have s1: "st0 = defaultWindowState" "wt_files s1 = wt_files s" "wt_path s1 = wt_path s"
    "map_of (wt_files s) (wt_path s) \<noteq> None"
    by (auto simp: read_window_def split: option.splits file_entry.splits if_splits sum.splits)
  then obtain f where f: "map_of (wt_files s) (wt_path s) = Some f" by auto
  from assms(4) obtain st' where "parseWindowState (window_state_json st) = Inr st'"
    by (auto simp: is_ok_def split: sum.splits)
  with assms(2,3) f s1 have "map_of (wt_files s2) aside = Some f"
    using assms(5,6,7)
    by (auto simp: save_window_def Let_def rename_file_def map_of_update map_of_delete split: if_splits option.splits)
  with s1 f show ?thesis by simp
qed

section \<open>A concrete store\<close>

text \<open>A stand-in for the JSON text functions that knows one value, for the closed examples.\<close>

definition sample_window :: window_state where
  "sample_window = \<lparr>ws_bounds = \<lparr>wb_position = Some (10, 20), wb_width = 900, wb_height = 700\<rparr>, ws_maximized = False\<rparr>"

definition one_parse :: "string \<Rightarrow> json option" where
  "one_parse t = (if t = ''w'' @ [CHR 10] then Some (window_state_json sample_window) else None)"

definition sample_store :: window_store where
  "sample_store = \<lparr>wt_path = ''p'', wt_invalid_primary = False, wt_files = [(''p'', Regular ''broken'')]\<rparr>"

theorem visible_window_is_restored_witness:
  "resolveWindowBounds sample_window [\<lparr>wa_x = 0, wa_y = 0, wa_width = 1920, wa_height = 1080\<rparr>]
     = \<lparr>wa_x = 10, wa_y = 20, wa_width = 900, wa_height = 700\<rparr>"
  using visible_window_is_restored [of sample_window 10 20 "\<lparr>wa_x = 0, wa_y = 0, wa_width = 1920, wa_height = 1080\<rparr>"
      "[\<lparr>wa_x = 0, wa_y = 0, wa_width = 1920, wa_height = 1080\<rparr>]"]
  by (simp add: sample_window_def inside_def)

lemma sample_window_valid: "parseWindowState (window_state_json sample_window) = Inr sample_window"
proof -
  have "is_ok (parseWindowState (window_state_json sample_window))"
    by (simp add: sample_window_def parseWindowState_def window_state_json_def read_coordinate_def
        WINDOW_MIN_WIDTH_def WINDOW_MIN_HEIGHT_def Let_def)
  then show ?thesis using parse_written_state by (auto simp: is_ok_def split: sum.splits)
qed

theorem saved_window_reads_back_witness:
  "fst (read_window one_parse (snd (save_window (\<lambda>_. ''w'') ''a'' ''t'' sample_window sample_store))) = sample_window"
proof -
  obtain s' where s': "save_window (\<lambda>_. ''w'') ''a'' ''t'' sample_window sample_store = (True, s')"
    by (simp add: save_window_def sample_window_valid sample_store_def rename_file_def)
  have "read_window one_parse s' = (sample_window, s') \<and> \<not> wt_invalid_primary s'"
    by (rule saved_window_reads_back [OF s'])
      (simp_all add: one_parse_def sample_store_def byte_length_Cons)
  then show ?thesis by (simp add: s')
qed

theorem unusable_file_is_kept_witness:
  "map_of (wt_files (snd (save_window (\<lambda>_. ''w'') ''a'' ''t'' sample_window
     (snd (read_window one_parse sample_store))))) ''a'' = Some (Regular ''broken'')"
proof -
  have short: "byte_length ''broken'' \<le> WINDOW_STATE_MAX_BYTES"
    by (simp add: byte_length_Cons WINDOW_STATE_MAX_BYTES_def)
  have r: "read_window one_parse sample_store = (defaultWindowState, sample_store\<lparr>wt_invalid_primary := True\<rparr>)"
    using short by (simp add: read_window_def sample_store_def one_parse_def)
  obtain ok s2 where s2: "save_window (\<lambda>_. ''w'') ''a'' ''t'' sample_window
      (sample_store\<lparr>wt_invalid_primary := True\<rparr>) = (ok, s2)" by fastforce
  from unusable_file_is_kept [OF r _ s2] sample_window_valid
  have "map_of (wt_files s2) ''a'' = map_of (wt_files sample_store) (wt_path sample_store)"
    by (simp add: sample_store_def)
  then show ?thesis unfolding r snd_conv s2 by (simp add: sample_store_def)
qed

end
