(* ===== verification/User_Errors.thy ===== *)
theory User_Errors
  imports Regex_Lang
begin

text \<open>
  The error texts the user sees (\<open>src/shared/user-visible-error.ts\<close>) and the outcome of a send
  (\<open>src/main/send-outcome.ts\<close>). A thrown value is its message and the text of its \<open>code\<close>
  (the empty text without one); a value that is no \<open>Error\<close> has the message of \<open>String(error)\<close>.
\<close>

section \<open>Texts\<close>

record thrown =
  th_message :: string
  th_code :: string

datatype error_context = GeneralContext | MailContext | SearchContext

definition GENERAL_FALLBACK :: string where
  "GENERAL_FALLBACK = ''The operation could not complete. Review the current settings and try again.''"
definition MAIL_FALLBACK :: string where
  "MAIL_FALLBACK = ''The mail server operation could not complete. Check the account server settings and network, then retry.''"
definition SEARCH_FALLBACK :: string where
  "SEARCH_FALLBACK = ''The search could not complete. Review the search settings and try again.''"
definition MAX_VISIBLE_ERROR_CHARACTERS :: nat where "MAX_VISIBLE_ERROR_CHARACTERS = 480"

definition MAIL_ERROR_CODES :: "string list" where
  "MAIL_ERROR_CODES =
     [''EAUTH'', ''AUTHENTICATIONFAILED'', ''ECONNREFUSED'', ''ECONNRESET'', ''EHOSTUNREACH'', ''ENETDOWN'', ''ENETUNREACH'',
      ''EPIPE'', ''ETIMEDOUT'', ''ESOCKETTIMEDOUT'', ''ETIMEOUT'', ''ENOTFOUND'', ''EAI_AGAIN'', ''EAI_FAIL'', ''ECANCELLED'',
      ''ETLS'', ''EPROTOCOL'', ''ETOOBIG'']"

text \<open>The fixed texts for the classes of mail failures.\<close>

definition refused_text :: string where
  "refused_text = ''The server refused the connection. Check the server address, port, security mode, and network, then retry.''"
definition unresolved_text :: string where
  "unresolved_text = ''The server address could not be resolved. Check the server name and network, then retry.''"
definition timeout_text :: string where
  "timeout_text = ''The server did not respond before the connection timed out. Check the server settings and network, then retry.''"
definition sign_in_text :: string where
  "sign_in_text = ''The server rejected the account sign-in. Check the credential or provider authorization, then retry.''"
definition insecure_text :: string where
  "insecure_text = ''The secure connection could not be verified. Review the server name, security mode, and certificate diagnostics before retrying.''"
definition ended_text :: string where
  "ended_text = ''The network connection ended before the mail operation completed. Check the network and retry.''"
definition cancelled_text :: string where
  "cancelled_text = ''The POP3 account test was cancelled. Its connection was closed and no account was saved.''"
definition too_big_text :: string where
  "too_big_text = ''The POP3 server response exceeded the safe account-test limit. No account was saved.''"
definition protocol_text :: string where
  "protocol_text = ''The POP3 server response did not satisfy the bounded account-test protocol checks. No account was saved.''"

definition PUBLIC_MAIL_MESSAGES :: "string list" where
  "PUBLIC_MAIL_MESSAGES =
     [MAIL_FALLBACK, refused_text, unresolved_text, timeout_text, sign_in_text, insecure_text, ended_text,
      cancelled_text, too_big_text, protocol_text]"

section \<open>Expressions with boundaries\<close>

definition word_char :: "char \<Rightarrow> bool" where
  "word_char c = (is_ascii_upper c \<or> is_ascii_lower c \<or> is_digit c \<or> c = CHR ''_'')"

text \<open>\<open>\b\<close> between two parts of a text.\<close>

definition word_boundary :: "string \<Rightarrow> string \<Rightarrow> bool" where
  "word_boundary l r = ((l \<noteq> [] \<and> word_char (last l)) \<noteq> (r \<noteq> [] \<and> word_char (hd r)))"

text \<open>Some part of the text matches, with conditions on what is before and after it.\<close>

definition found_within ::
  "(string \<Rightarrow> string \<Rightarrow> bool) \<Rightarrow> rx \<Rightarrow> (string \<Rightarrow> string \<Rightarrow> bool) \<Rightarrow> string \<Rightarrow> bool" where
  "found_within before r after s =
     list_ex (\<lambda>i. before (take i s) (drop i s)
        \<and> list_ex (\<lambda>j. rx_match r (take j (drop i s)) \<and> after (take (i + j) s) (drop (i + j) s)) [0..<length s - i + 1])
       [0..<length s + 1]"

abbreviation anywhere :: "string \<Rightarrow> string \<Rightarrow> bool" where
  "anywhere \<equiv> \<lambda>_ _. True"

definition whole_words :: "rx \<Rightarrow> string \<Rightarrow> bool" where
  "whole_words r s = found_within word_boundary r word_boundary s"

definition words_i :: "string list \<Rightarrow> rx" where
  "words_i ts = rx_alt (map rx_text_i ts)"

text \<open>Characters of the expressions: \<open>\S\<close> and \<open>\d\<close>.\<close>

definition no_space :: rx where "no_space = Cls (\<lambda>c. \<not> is_space c)"
definition digits_rx :: rx where "digits_rx = rx_plus (Cls is_digit)"

section \<open>The message of an error\<close>

text \<open>\<open>/^Error invoking remote method '[^']+': Error:\s*/iu\<close> is dropped once at the start.\<close>

definition drop_prefix_i :: "string \<Rightarrow> string \<Rightarrow> string option" where
  "drop_prefix_i p s = (if starts_with (lower p) (lower s) then Some (drop (length p) s) else None)"

definition strip_remote_prefix :: "string \<Rightarrow> string" where
  "strip_remote_prefix s =
     (case drop_prefix_i (''Error invoking remote method '' @ [CHR 39]) s of
        None \<Rightarrow> s
      | Some rest \<Rightarrow>
          if takeWhile (\<lambda>c. c \<noteq> CHR 39) rest = [] then s
          else (case drop_prefix_i (CHR 39 # '': Error:'') (dropWhile (\<lambda>c. c \<noteq> CHR 39) rest) of
                  None \<Rightarrow> s | Some t \<Rightarrow> trim_start t))"

definition unprintable :: "char \<Rightarrow> bool" where
  "unprintable c = (code c \<le> 8 \<or> code c = 11 \<or> code c = 12 \<or> (14 \<le> code c \<and> code c \<le> 31) \<or> code c = 127)"

definition rawErrorMessage :: "thrown option \<Rightarrow> string" where
  "rawErrorMessage e =
     (case e of None \<Rightarrow> []
      | Some t \<Rightarrow> trim (collapse_runs is_space '' ''
          (map (\<lambda>c. if unprintable c then CHR '' '' else c) (strip_remote_prefix (th_message t)))))"

definition error_code_of :: "thrown option \<Rightarrow> string" where
  "error_code_of e = (case e of None \<Rightarrow> [] | Some t \<Rightarrow> upper (th_code t))"

section \<open>Implementation details\<close>

definition url_detail :: rx where
  "url_detail = rx_seq [words_i [''http'', ''https'', ''ws'', ''wss'', ''ftp'', ''file''], rx_text ''://'', rx_plus no_space]"

definition drive_path :: rx where
  "drive_path = rx_seq [Cls (\<lambda>c. is_ascii_upper c \<or> is_ascii_lower c), rx_char (CHR '':''), rx_one_of [CHR 92, CHR ''/'']]"

definition share_path :: rx where
  "share_path = rx_seq [rx_char (CHR 92), rx_char (CHR 92), rx_plus (Cls (\<lambda>c. c \<noteq> CHR 92 \<and> \<not> is_space c)), rx_char (CHR 92),
     rx_plus (Cls (\<lambda>c. c \<noteq> CHR 92 \<and> \<not> is_space c))]"

definition home_path :: rx where
  "home_path = rx_seq [rx_char (CHR ''/''),
     rx_alt (map rx_text [''Users'', ''home'', ''tmp'', ''var'', ''private'', ''opt'', ''mnt'', ''Volumes'', ''etc'']),
     rx_plus (Seq (rx_char (CHR ''/'')) (rx_plus (Cls (\<lambda>c. \<not> is_space c \<and> c \<noteq> CHR '':''))))]"

definition path_start :: "string \<Rightarrow> string \<Rightarrow> bool" where
  "path_start l r = (l = [] \<or> is_space (last l) \<or> last l \<in> set [CHR ''('', CHR 34, CHR 39, CHR 96])"

definition secret_detail :: rx where
  "secret_detail = rx_seq [rx_alt [rx_text_i ''authorization'',
       rx_seq [rx_text_i ''access'', rx_opt (rx_one_of ''_ -''), rx_text_i ''token''],
       rx_seq [rx_text_i ''refresh'', rx_opt (rx_one_of ''_ -''), rx_text_i ''token''],
       words_i [''password'', ''secret'', ''query'', ''pattern'']],
     rx_char (CHR ''=''), rx_plus no_space]"

definition module_detail :: rx where
  "module_detail = rx_alt [rx_text ''Nodemailer'', rx_text ''ImapFlow'',
     Seq (rx_text ''node:'') (rx_plus (Cls (\<lambda>c. word_char c \<or> c \<in> set ''./-'')))]"

definition stack_detail :: rx where
  "stack_detail = rx_seq [rx_text ''at'', rx_plus (Cls is_space), rx_opt (Seq (rx_text ''async'') (rx_plus (Cls is_space))),
     rx_plus (Cls (\<lambda>c. word_char c \<or> c \<in> set ''.$<>'')), Star (Cls is_space), rx_char (CHR ''(''), Star (rx_none_of '')''),
     rx_char (CHR '':''), digits_rx, rx_char (CHR '':''), digits_rx, rx_char (CHR '')'')]"

definition containsSensitiveImplementationDetail :: "string \<Rightarrow> bool" where
  "containsSensitiveImplementationDetail s =
     (found_within word_boundary url_detail anywhere s
      \<or> found_within path_start (rx_alt [drive_path, share_path, home_path]) anywhere s
      \<or> found_within word_boundary secret_detail anywhere s
      \<or> whole_words module_detail s
      \<or> found_within word_boundary stack_detail anywhere s)"

section \<open>Mail failures\<close>

text \<open>Each class of failure: its codes, the expression on the message, and the text. The first class that
  applies wins.\<close>

record failure_class =
  fc_codes :: "string list"
  fc_words :: "string \<Rightarrow> bool"
  fc_text :: string

definition anywhere_i :: "string \<Rightarrow> string \<Rightarrow> bool" where
  "anywhere_i t s = contains (lower s) (lower t)"

definition mail_failure_classes :: "failure_class list" where
  "mail_failure_classes =
    [\<lparr>fc_codes = [''ECANCELLED''], fc_words = anywhere_i ''POP3 account test was cancelled'', fc_text = cancelled_text\<rparr>,
     \<lparr>fc_codes = [''ETOOBIG''], fc_words = anywhere_i ''POP3 server response exceeded'', fc_text = too_big_text\<rparr>,
     \<lparr>fc_codes = [''EPROTOCOL''], fc_words = anywhere_i ''bounded account test could not safely accept'', fc_text = protocol_text\<rparr>,
     \<lparr>fc_codes = [''ECONNREFUSED''], fc_words = whole_words (words_i [''ECONNREFUSED'', ''connection refused'']), fc_text = refused_text\<rparr>,
     \<lparr>fc_codes = [''ENOTFOUND'', ''EAI_AGAIN'', ''EAI_FAIL''],
      fc_words = whole_words (words_i [''ENOTFOUND'', ''EAI_AGAIN'', ''getaddrinfo'']), fc_text = unresolved_text\<rparr>,
     \<lparr>fc_codes = [''ETIMEDOUT'', ''ESOCKETTIMEDOUT'', ''ETIMEOUT''],
      fc_words = whole_words (words_i [''ETIMEDOUT'', ''ESOCKETTIMEDOUT'', ''time out'', ''timed out'']), fc_text = timeout_text\<rparr>,
     \<lparr>fc_codes = [''EAUTH'', ''AUTHENTICATIONFAILED''],
      fc_words = whole_words (words_i [''authentication failed'', ''invalid login'', ''invalid credentials'', ''login failed'', ''EAUTH'']),
      fc_text = sign_in_text\<rparr>,
     \<lparr>fc_codes = [''ETLS''],
      fc_words = whole_words (rx_alt [words_i [''certificate'', ''self-signed'', ''self signed'', ''ERR_TLS''],
        Seq (rx_text_i ''CERT_'') (rx_plus (Cls (\<lambda>c. is_ascii_upper c \<or> is_ascii_lower c \<or> c = CHR ''_''))),
        words_i [''TLS handshake'', ''SSL handshake'', ''secure POP3 connection'']]), fc_text = insecure_text\<rparr>,
     \<lparr>fc_codes = [''ENETUNREACH'', ''EHOSTUNREACH'', ''ENETDOWN'', ''ECONNRESET'', ''EPIPE''],
      fc_words = whole_words (words_i [''ENETUNREACH'', ''EHOSTUNREACH'', ''ENETDOWN'', ''ECONNRESET'', ''socket hang up'',
        ''network is unreachable'', ''network unreachable'']), fc_text = ended_text\<rparr>]"

text \<open>Messages of the mail service that are shown as they are.\<close>

definition mail_server_openings :: "string list" where
  "mail_server_openings = map ((@) ''The mail server '')
     [''does not advertise MOVE'', ''did not confirm the move'', ''did not confirm the read-state change'',
      ''did not confirm the star change'', ''did not confirm the tag change'', ''returned an invalid destination UID'',
      ''does not accept tag keywords in'', ''accepted the tag change but did not keep the keywords'']"

definition tag_sentences :: rx where
  "tag_sentences = rx_alt
    [rx_text ''A tag needs a name before it can be stored on the mail server.'',
     rx_seq [rx_text ''The tag '', rx_plus rx_dot, rx_text '' encodes to a '', digits_rx,
       rx_text ''-character mail server keyword, over the '', digits_rx,
       rx_text ''-character limit. Shorten the tag name; it was not stored.''],
     rx_seq [rx_text ''Material Email stores at most '', digits_rx, rx_text '' tags on one message; '', digits_rx,
       rx_text '' were requested and none were stored.'']]"

definition shown_as_is :: "string \<Rightarrow> bool" where
  "shown_as_is m =
     (list_ex (\<lambda>p. starts_with p m) mail_server_openings
      \<or> m = ''The message is no longer available on the server.'' \<or> rx_match tag_sentences m)"

definition class_of_failure :: "string \<Rightarrow> string \<Rightarrow> failure_class option" where
  "class_of_failure message c = find (\<lambda>k. c \<in> set (fc_codes k) \<or> fc_words k message) mail_failure_classes"

definition mailFailureMessage :: "string \<Rightarrow> string \<Rightarrow> string" where
  "mailFailureMessage message c =
     (if message \<in> set PUBLIC_MAIL_MESSAGES then message
      else (case class_of_failure message c of
              Some k \<Rightarrow> fc_text k
            | None \<Rightarrow> if shown_as_is message then message else MAIL_FALLBACK))"

section \<open>The visible message\<close>

definition fallback_for :: "error_context \<Rightarrow> string option \<Rightarrow> string" where
  "fallback_for context given =
     (case given of Some t \<Rightarrow> t
      | None \<Rightarrow> (case context of MailContext \<Rightarrow> MAIL_FALLBACK | SearchContext \<Rightarrow> SEARCH_FALLBACK | GeneralContext \<Rightarrow> GENERAL_FALLBACK))"

definition mail_words :: rx where
  "mail_words = words_i [''SMTP'', ''IMAP'', ''POP3'', ''Nodemailer'', ''ImapFlow'', ''ECONN'', ''EAI_'', ''ENET'', ''EHOST'', ''socket'']"

definition userVisibleErrorMessage :: "error_context \<Rightarrow> string option \<Rightarrow> thrown option \<Rightarrow> string" where
  "userVisibleErrorMessage context given e =
     (let fallback = fallback_for context given; message = rawErrorMessage e; c = error_code_of e
      in if message = [] then fallback
         else if context = SearchContext \<or> starts_with (lower ''Invalid regular expression:'') (lower message) then SEARCH_FALLBACK
         else if context = MailContext then mailFailureMessage message c
         else if length message > MAX_VISIBLE_ERROR_CHARACTERS \<or> containsSensitiveImplementationDetail message then fallback
         else if c \<in> set MAIL_ERROR_CODES \<or> whole_words mail_words message then mailFailureMessage message c
         else message)"

text \<open>\<open>mailErrorMessage\<close> of the application service, and the message of an error it throws itself.\<close>

definition mailErrorMessage :: "thrown option \<Rightarrow> string" where
  "mailErrorMessage e = userVisibleErrorMessage MailContext None e"

definition plain_error :: "string \<Rightarrow> thrown option" where
  "plain_error m = Some \<lparr>th_message = m, th_code = []\<rparr>"

section \<open>Outcome of a send\<close>

record send_result =
  sr_message_id :: string
  sr_accepted :: "string list"
  sr_rejected :: "string list"
  sr_queued :: bool

datatype send_disposition = QueuedSend | SentAll | SentPartly | RejectedAll

definition classifySendResult :: "send_result \<Rightarrow> send_disposition" where
  "classifySendResult r =
     (if sr_queued r then QueuedSend
      else if length (sr_accepted r) = 0 then RejectedAll
      else if length (sr_rejected r) > 0 then SentPartly else SentAll)"

definition describeRecipientOutcome :: "send_result \<Rightarrow> string" where
  "describeRecipientOutcome r =
     nat_text (length (sr_accepted r)) @ '' recipient'' @ (if length (sr_accepted r) = 1 then [] else ''s'') @ '' accepted''
       @ ''; '' @ nat_text (length (sr_rejected r)) @ '' rejected'' @ ''.''"

section \<open>Normal texts\<close>

text \<open>No unprintable character, and one space between words.\<close>

fun spaced :: "bool \<Rightarrow> string \<Rightarrow> bool" where
  "spaced b [] = True"
| "spaced b (c # s) = (if is_space c then \<not> b \<and> c = CHR '' '' \<and> spaced True s else spaced False s)"

lemma spaced_runs: "spaced b (replace_runs is_space '' '' b s)"
  by (induction s arbitrary: b) (auto simp: is_space_def code_def)

lemma spaced_fixed: "spaced b s \<Longrightarrow> replace_runs is_space '' '' b s = s"
  by (induction s arbitrary: b) (auto split: if_splits)

lemma spaced_weaken: "spaced b s \<Longrightarrow> spaced False s"
  by (cases s) (auto split: if_splits)

lemma spaced_trim_start: "spaced b s \<Longrightarrow> spaced False (trim_start s)"
  unfolding trim_start_def by (induction s arbitrary: b) (auto split: if_splits intro: spaced_weaken)

lemma spaced_prefix: "spaced b (s @ t) \<Longrightarrow> spaced b s"
  by (induction s arbitrary: b) (auto split: if_splits)

lemma trim_end_prefix: "\<exists>t. s = trim_end s @ t"
  unfolding trim_end_def by (metis rev_append rev_rev_ident takeWhile_dropWhile_id)

definition normal_text :: "string \<Rightarrow> bool" where
  "normal_text s = (spaced False s \<and> trim s = s \<and> list_all (\<lambda>c. \<not> unprintable c) s)"

lemma unprintable_space: "unprintable (CHR '' '') = False"
  by (simp add: unprintable_def code_def)

lemma raw_is_normal: "normal_text (rawErrorMessage e)"
proof (cases e)
  case None
  then show ?thesis by (simp add: rawErrorMessage_def normal_text_def trim_def trim_start_def trim_end_def)
next
  case (Some t)
  let ?m = "map (\<lambda>c. if unprintable c then CHR '' '' else c) (strip_remote_prefix (th_message t))"
  let ?c = "collapse_runs is_space '' '' ?m"
  have "spaced False (trim ?c)"
    unfolding trim_def
    using spaced_trim_start [OF spaced_runs [of False ?m]] trim_end_prefix spaced_prefix trim_start_trim_end by metis
  moreover have "list_all (\<lambda>c. \<not> unprintable c) (trim ?c)"
    using set_trim [of ?c] set_replace_runs [of is_space "'' ''" False ?m] by (fastforce simp: list_all_iff unprintable_space)
  ultimately show ?thesis using Some by (simp add: rawErrorMessage_def normal_text_def)
qed

lemma raw_of_normal:
  assumes "normal_text m" "drop_prefix_i (''Error invoking remote method '' @ [CHR 39]) m = None"
  shows "rawErrorMessage (plain_error m) = m"
proof -
  have "strip_remote_prefix m = m" using assms(2) unfolding strip_remote_prefix_def by simp
  moreover have "map (\<lambda>c. if unprintable c then CHR '' '' else c) m = m"
    using assms(1) by (intro map_idI) (simp add: normal_text_def list_all_iff)
  ultimately show ?thesis
    using assms(1) by (simp add: rawErrorMessage_def plain_error_def normal_text_def spaced_fixed)
qed

lemma other_start: "m \<noteq> [] \<Longrightarrow> lower_char (hd m) \<noteq> CHR ''e'' \<Longrightarrow> drop_prefix_i (CHR ''E'' # p) m = None"
proof -
  have "lower_char (CHR ''E'') = CHR ''e''" by code_simp
  then show "m \<noteq> [] \<Longrightarrow> lower_char (hd m) \<noteq> CHR ''e'' \<Longrightarrow> ?thesis"
    by (cases m) (auto simp: drop_prefix_i_def lower_def starts_with_append)
qed

section \<open>What is shown\<close>

lemma trim_id: "s \<noteq> [] \<Longrightarrow> \<not> is_space (hd s) \<Longrightarrow> \<not> is_space (last s) \<Longrightarrow> trim s = s"
proof -
  have first: "dropWhile P xs = xs" if "xs \<noteq> []" "\<not> P (hd xs)" for P and xs :: string
    using that by (cases xs) simp_all
  assume "s \<noteq> []" "\<not> is_space (hd s)" "\<not> is_space (last s)"
  then show ?thesis by (simp add: trim_def trim_start_def trim_end_def first hd_rev)
qed

lemma printable_letters:
  "list_all (\<lambda>c. \<not> is_space c \<and> \<not> unprintable c) ''abcdefghijklmnopqrstuvwxyzACDEIMNOPRSTU3,.;-''"
  by (simp add: is_space_def unprintable_def code_def)

lemmas letters = printable_letters [simplified]

lemma the_space: "is_space (CHR '' '')" "\<not> unprintable (CHR '' '')"
  by (simp_all add: is_space_def unprintable_def code_def)

lemma public_texts_normal:
  "list_all (\<lambda>m. spaced False m \<and> list_all (\<lambda>c. \<not> unprintable c) m \<and> m \<noteq> [] \<and> hd m = CHR ''T'' \<and> last m = CHR ''.'') PUBLIC_MAIL_MESSAGES"
  by (simp add: PUBLIC_MAIL_MESSAGES_def MAIL_FALLBACK_def refused_text_def unresolved_text_def timeout_text_def
    sign_in_text_def insecure_text_def ended_text_def cancelled_text_def too_big_text_def protocol_text_def letters the_space)

lemma failure_texts_public: "list_all (\<lambda>k. fc_text k \<in> set PUBLIC_MAIL_MESSAGES) mail_failure_classes"
  by (simp add: mail_failure_classes_def PUBLIC_MAIL_MESSAGES_def)

lemma mail_failure_cases:
  "mailFailureMessage m c \<in> set PUBLIC_MAIL_MESSAGES \<or> (mailFailureMessage m c = m \<and> shown_as_is m \<and> class_of_failure m c = None)"
proof -
  have "fc_text k \<in> set PUBLIC_MAIL_MESSAGES" if "class_of_failure m c = Some k" for k
    using failure_texts_public that by (auto simp: class_of_failure_def find_Some_iff list_all_length)
  moreover have "MAIL_FALLBACK \<in> set PUBLIC_MAIL_MESSAGES" by (simp add: PUBLIC_MAIL_MESSAGES_def)
  ultimately show ?thesis by (auto simp: mailFailureMessage_def split: option.splits)
qed

lemma lower_initial: "lower_char (CHR ''I'') = CHR ''i''"
  by code_simp

lemma mail_text_stable:
  assumes "m \<in> set PUBLIC_MAIL_MESSAGES \<or> (normal_text m \<and> shown_as_is m \<and> class_of_failure m [] = None)"
  shows "mailErrorMessage (plain_error m) = m"
proof -
  have no_space: "\<not> is_space (CHR ''T'')" "\<not> is_space (CHR ''.'')" by (simp_all add: is_space_def code_def)
  have start: "lower_char (CHR ''T'') = CHR ''t''" "lower_char (CHR ''A'') = CHR ''a''" "lower_char (CHR ''M'') = CHR ''m''"
    by code_simp+
  have heads: "m \<noteq> [] \<and> lower_char (hd m) \<noteq> CHR ''e'' \<and> lower_char (hd m) \<noteq> CHR ''i''"
    using assms
  proof
    assume "m \<in> set PUBLIC_MAIL_MESSAGES"
    with public_texts_normal start show ?thesis by (auto simp: list_all_iff)
  next
    assume "normal_text m \<and> shown_as_is m \<and> class_of_failure m [] = None"
    then have "shown_as_is m" by simp
    with start show ?thesis
      by (auto simp: shown_as_is_def mail_server_openings_def starts_with_append rx_match_lang tag_sentences_def rx_text_def
        char_lang seq_lang)
  qed
  have normal: "normal_text m"
    using assms public_texts_normal no_space trim_id [of m] by (auto simp: normal_text_def list_all_iff)
  have raw: "rawErrorMessage (plain_error m) = m"
    using raw_of_normal [OF normal] other_start heads by simp
  have "\<not> starts_with (lower ''Invalid regular expression:'') (lower m)"
    using heads lower_initial by (cases m) (auto simp: starts_with_append lower_def)
  with raw heads assms show ?thesis
    by (auto simp: mailErrorMessage_def userVisibleErrorMessage_def Let_def mailFailureMessage_def error_code_of_def
      plain_error_def upper_def)
qed

lemma codes_not_empty: "list_all (\<lambda>k. [] \<notin> set (fc_codes k)) mail_failure_classes"
  by (simp add: mail_failure_classes_def)

lemma class_without_code: "class_of_failure m c = None \<Longrightarrow> class_of_failure m [] = None"
  using codes_not_empty by (auto simp: class_of_failure_def find_None_iff list_all_iff)

lemma mail_text_cases:
  "mailErrorMessage e \<in> set (SEARCH_FALLBACK # PUBLIC_MAIL_MESSAGES)
   \<or> (normal_text (mailErrorMessage e) \<and> shown_as_is (mailErrorMessage e) \<and> class_of_failure (mailErrorMessage e) [] = None)"
  using mail_failure_cases [of "rawErrorMessage e" "error_code_of e"] raw_is_normal [of e] class_without_code
  by (auto simp: mailErrorMessage_def userVisibleErrorMessage_def Let_def fallback_for_def PUBLIC_MAIL_MESSAGES_def)

section \<open>What the user sees\<close>

text \<open>a mail error is shown as one of ten fixed texts, as the search text, or as a sentence of the
  mail service itself; and showing a stored text again does not change it.\<close>

theorem mail_error_texts:
  "(if mailErrorMessage e \<in> set (SEARCH_FALLBACK # PUBLIC_MAIL_MESSAGES) then True
    else shown_as_is (mailErrorMessage e) \<and> normal_text (mailErrorMessage e))
   \<and> (if mailErrorMessage e = SEARCH_FALLBACK then True
      else mailErrorMessage (plain_error (mailErrorMessage e)) = mailErrorMessage e)"
  using mail_text_cases [of e] mail_text_stable [of "mailErrorMessage e"] by auto

section \<open>Details that must not be shown\<close>













lemma word_letters: "list_all is_ascii_lower ''hwfapsqrt''"
  by (simp add: is_ascii_lower_def code_def)
















end
