(* ===== verification/Mail_State.thy ===== *)
theory Mail_State
  imports Mail_Organization Identities User_Errors
begin

text \<open>
  The part of the persisted state (\<open>src/main/persisted-state.ts\<close>) that the mail operations of
  \<open>src/main/app-service.ts\<close> read and change, and the helpers they share: the account and the message
  they are about, notifications, the history log, drafts. Notifications and history records are kept
  without their identifiers, times, bodies, labels and snapshots. A stored detail is kept in two maps:
  its text is in \<^const>\<open>og_details\<close>, and its place and marks are in \<open>st_details\<close>.
\<close>

section \<open>Data\<close>

record compose_draft =
  cd_id :: "string option"
  cd_account :: string
  cd_identity :: "string option"
  cd_to :: "string list"
  cd_cc :: "string list"
  cd_bcc :: "string list"
  cd_subject :: string
  cd_text :: string
  cd_in_reply_to :: "string option"
  cd_references :: "string list option"
  cd_attachments :: "string list"

record flag_patch =
  fp_unread :: "bool option"
  fp_starred :: "bool option"

datatype operation_kind = FlagsOperation | MoveOperation

record pending_operation =
  po_id :: string
  po_account :: string
  po_kind :: operation_kind
  po_folder :: string
  po_uid :: nat
  po_validity :: "string option"
  po_patch :: "flag_patch option"
  po_destination :: "string option"
  po_created :: string
  po_attempts :: nat
  po_last_error :: string

record outbox_item =
  ob_id :: string
  ob_draft :: compose_draft
  ob_created :: string
  ob_attempts :: nat
  ob_last_error :: string

datatype page_target = MailPage | DraftsPage | OutboxPage | SettingsPage | HistoryPage | ToolsPage

datatype notice_action =
  OpenPage page_target
| OpenDraft string string
| RetrySync string
| RetryPending string string
| RetryOutbox string string
| UndoSettings string

datatype notice_kind = InfoNotice | SuccessNotice | WarningNotice | ErrorNotice
datatype notice_category = AccountNotice | MailNotice | DeliveryNotice | SecurityNotice | HistoryNotice | SystemNotice

record notice =
  no_kind :: notice_kind
  no_category :: notice_category
  no_title :: string
  no_action :: "notice_action option"

datatype history_kind = WasCreated | WasUpdated | WasDeleted | WasRestored | WasUndone | WasImported | SettingsChanged | WasPruned
datatype entity_type = AccountEntity | MessageEntity | DraftEntity | ContactEntity | CalendarEntity | TaskEntity | SettingsEntity | HistoryEntity

record history_entry =
  he_kind :: history_kind
  he_type :: entity_type
  he_entity :: string

record stored_detail =
  sd_account :: string
  sd_folder :: string
  sd_unread :: bool
  sd_starred :: bool

record mail_state =
  st_organized :: organized
  st_accounts :: "account_summary list"
  st_identities :: "mail_identity list"
  st_folders :: "(string, folder_summary list) entries"
  st_details :: "(string, stored_detail) entries"
  st_drafts :: "compose_draft list"
  st_pending :: "pending_operation list"
  st_outbox :: "outbox_item list"
  st_selected_account :: "string option"
  st_selected_folder :: "string option"
  st_notices :: "notice list"
  st_history :: "history_entry list"

text \<open>The defaults of the store, as the constructor gives them.\<close>

definition default_state :: mail_state where
  "default_state = \<lparr>st_organized = initial_organized [] [], st_accounts = [], st_identities = [], st_folders = [],
     st_details = [], st_drafts = [], st_pending = [], st_outbox = [], st_selected_account = None,
     st_selected_folder = None, st_notices = [], st_history = []\<rparr>"

datatype app_error =
  AccountGone | NoRecipients | DraftGone
| MessageGone | ValidityDisagrees | ValidityUnavailable | ValidityChanged
| QueueBusy | NotQueueHead | PendingGone | PendingStale | PendingUnidentified | PendingIncomplete
| OutboxGone | OutboxChanged
| PublicMailError string | RawError thrown | AttachmentNotApproved | TooManyAttachments | NotRegularFile

type_synonym 'a app_result = "(app_error, 'a) result"

section \<open>Notifications and history\<close>

definition NOTICE_LIMIT :: nat where "NOTICE_LIMIT = 500"
definition HISTORY_LIMIT :: nat where "HISTORY_LIMIT = 2000"

definition notify :: "notice_kind \<Rightarrow> notice_category \<Rightarrow> string \<Rightarrow> notice_action option \<Rightarrow> mail_state \<Rightarrow> mail_state" where
  "notify k c title action s =
     s\<lparr>st_notices := take NOTICE_LIMIT (\<lparr>no_kind = k, no_category = c, no_title = title, no_action = action\<rparr> # st_notices s)\<rparr>"

definition log_history :: "history_kind \<Rightarrow> entity_type \<Rightarrow> string \<Rightarrow> mail_state \<Rightarrow> mail_state" where
  "log_history k t i s = s\<lparr>st_history := take HISTORY_LIMIT (\<lparr>he_kind = k, he_type = t, he_entity = i\<rparr> # st_history s)\<rparr>"

section \<open>Accounts and messages\<close>

definition requireAccount :: "mail_state \<Rightarrow> string \<Rightarrow> account_summary app_result" where
  "requireAccount s a =
     (case find (\<lambda>c. ac_id c = a) (st_accounts s) of None \<Rightarrow> Inl AccountGone | Some c \<Rightarrow> Inr c)"

definition folders_of :: "mail_state \<Rightarrow> string \<Rightarrow> folder_summary list" where
  "folders_of s a = (case map_of (st_folders s) a of None \<Rightarrow> [] | Some fs \<Rightarrow> fs)"

definition folder_validity :: "mail_state \<Rightarrow> string \<Rightarrow> string \<Rightarrow> string option" where
  "folder_validity s a path =
     (case find (\<lambda>f. fs_path f = path) (folders_of s a) of None \<Rightarrow> None | Some f \<Rightarrow> fs_uid_validity f)"

definition messages_at :: "mail_state \<Rightarrow> string \<Rightarrow> string \<Rightarrow> message_summary list" where
  "messages_at s a path =
     (case map_of (og_messages (st_organized s)) (folder_key a path) of None \<Rightarrow> [] | Some ms \<Rightarrow> ms)"

definition set_messages :: "string \<Rightarrow> message_summary list \<Rightarrow> mail_state \<Rightarrow> mail_state" where
  "set_messages key ms s =
     s\<lparr>st_organized := (st_organized s)\<lparr>og_messages := AList.update key ms (og_messages (st_organized s))\<rparr>\<rparr>"

definition message_at :: "mail_state \<Rightarrow> string \<Rightarrow> string \<Rightarrow> nat \<Rightarrow> message_summary option" where
  "message_at s a path uid = find (\<lambda>m. ms_uid m = uid) (messages_at s a path)"

text \<open>\<open>#requireCurrentMessage\<close>. An absent or empty UIDVALIDITY counts as missing where the source tests it.\<close>

definition present :: "string option \<Rightarrow> bool" where
  "present v = (v \<noteq> None \<and> v \<noteq> Some [])"

definition requireCurrentMessage ::
  "mail_state \<Rightarrow> string \<Rightarrow> string \<Rightarrow> nat \<Rightarrow> string option \<Rightarrow> (message_summary \<times> string) app_result" where
  "requireCurrentMessage s a path uid expected =
     (case message_at s a path uid of None \<Rightarrow> Inl MessageGone
      | Some m \<Rightarrow>
          let folder = folder_validity s a path; own = ms_uid_validity m in
          if present own \<and> present folder \<and> own \<noteq> folder then Inl ValidityDisagrees
          else let validity = (if own \<noteq> None then own else folder) in
            if \<not> present validity then Inl ValidityUnavailable
            else if present expected \<and> validity \<noteq> expected then Inl ValidityChanged
            else Inr (m, the validity))"

definition is_mailbox_mismatch :: "thrown \<Rightarrow> bool" where
  "is_mailbox_mismatch e = (th_code e = ''MAILBOX_GENERATION_MISMATCH'')"

section \<open>Drafts\<close>

definition sameDraftSnapshot :: "compose_draft option \<Rightarrow> compose_draft option \<Rightarrow> bool" where
  "sameDraftSnapshot l r =
     (case (l, r) of
        (None, None) \<Rightarrow> True
      | (Some x, Some y) \<Rightarrow>
          cd_id x = cd_id y \<and> cd_account x = cd_account y \<and> cd_to x = cd_to y \<and> cd_cc x = cd_cc y
          \<and> cd_bcc x = cd_bcc y \<and> cd_subject x = cd_subject y \<and> cd_text x = cd_text y
          \<and> cd_in_reply_to x = cd_in_reply_to y \<and> cd_references x = cd_references y
          \<and> cd_attachments x = cd_attachments y
      | _ \<Rightarrow> False)"

definition draft_with :: "compose_draft list \<Rightarrow> string option \<Rightarrow> compose_draft option" where
  "draft_with ds i = find (\<lambda>d. cd_id d = i) ds"

text \<open>\<open>findIndex\<close> of the identifier, then replacement in place or \<open>push\<close>.\<close>

fun put_draft :: "compose_draft \<Rightarrow> compose_draft list \<Rightarrow> compose_draft list" where
  "put_draft d [] = [d]"
| "put_draft d (x # xs) = (if cd_id x = cd_id d then d # xs else x # put_draft d xs)"

definition recipients :: "compose_draft \<Rightarrow> string list" where
  "recipients d = cd_to d @ cd_cc d @ cd_bcc d"

definition id_text :: "string option \<Rightarrow> string" where
  "id_text i = (case i of None \<Rightarrow> [] | Some t \<Rightarrow> t)"

definition saveDraft :: "compose_draft \<Rightarrow> string \<Rightarrow> mail_state \<Rightarrow> (mail_state \<times> compose_draft) app_result" where
  "saveDraft d new_id s =
     (case requireAccount s (cd_account d) of Inl e \<Rightarrow> Inl e
      | Inr _ \<Rightarrow>
          let saved = d\<lparr>cd_id := Some (case cd_id d of None \<Rightarrow> new_id | Some i \<Rightarrow> i)\<rparr>;
              known = draft_with (st_drafts s) (cd_id saved) \<noteq> None
          in Inr (notify InfoNotice DeliveryNotice ''Draft saved'' (Some (OpenDraft (cd_account saved) (id_text (cd_id saved))))
                   (log_history (if known then WasUpdated else WasCreated) DraftEntity (id_text (cd_id saved))
                     (s\<lparr>st_drafts := put_draft saved (st_drafts s)\<rparr>)), saved))"

record draft_summary =
  ds_id :: "string option"
  ds_account :: string
  ds_recipients :: nat
  ds_subject :: string
  ds_preview :: string
  ds_attachments :: nat

definition listDrafts :: "mail_state \<Rightarrow> string \<Rightarrow> draft_summary list app_result" where
  "listDrafts s a =
     (case requireAccount s a of Inl e \<Rightarrow> Inl e
      | Inr _ \<Rightarrow> Inr (map (\<lambda>d. \<lparr>ds_id = cd_id d, ds_account = a, ds_recipients = length (recipients d), ds_subject = cd_subject d,
                        ds_preview = take 240 (cd_text d), ds_attachments = length (cd_attachments d)\<rparr>)
                   (filter (\<lambda>d. cd_account d = a) (st_drafts s))))"

definition getDraft :: "mail_state \<Rightarrow> string \<Rightarrow> string \<Rightarrow> compose_draft app_result" where
  "getDraft s a i =
     (case requireAccount s a of Inl e \<Rightarrow> Inl e
      | Inr _ \<Rightarrow> (case find (\<lambda>d. cd_account d = a \<and> cd_id d = Some i) (st_drafts s) of None \<Rightarrow> Inl DraftGone | Some d \<Rightarrow> Inr d))"

definition deleteDraft :: "string \<Rightarrow> string \<Rightarrow> mail_state \<Rightarrow> (mail_state \<times> bool) app_result" where
  "deleteDraft a i s =
     (case requireAccount s a of Inl e \<Rightarrow> Inl e
      | Inr _ \<Rightarrow> (case find (\<lambda>d. cd_account d = a \<and> cd_id d = Some i) (st_drafts s) of
            None \<Rightarrow> Inr (s, False)
          | Some _ \<Rightarrow> Inr (notify InfoNotice SystemNotice ''Draft deleted'' None
                (log_history WasDeleted DraftEntity i
                  (s\<lparr>st_drafts := filter (\<lambda>d. cd_id d \<noteq> Some i) (st_drafts s)\<rparr>)), True)))"

end
