(* ===== verification/Mail_Queue.thy ===== *)
theory Mail_Queue
  imports Mail_State
begin

text \<open>
  The offline queue of \<open>src/main/app-service.ts\<close>: flag and move changes that did not reach the server
  (pending operations) and messages that were not delivered (the Outbox). Each definition is one
  stretch of a method between two \<open>await\<close>s: the checks before the server is asked, or the change of
  the store after its answer. \<open>Queue_Runs\<close> interleaves them. New identifiers and times are arguments.
\<close>

section \<open>The queue of an account\<close>

definition AUTOMATIC_MAIL_QUEUE_ATTEMPT_LIMIT :: nat where "AUTOMATIC_MAIL_QUEUE_ATTEMPT_LIMIT = 3"

definition pending_of :: "string \<Rightarrow> mail_state \<Rightarrow> pending_operation list" where
  "pending_of a s = filter (\<lambda>p. po_account p = a) (st_pending s)"

definition outbox_of :: "string \<Rightarrow> mail_state \<Rightarrow> outbox_item list" where
  "outbox_of a s = filter (\<lambda>b. cd_account (ob_draft b) = a) (st_outbox s)"

datatype queue_entry = PendingEntry string | OutboxEntry string

definition queueHead :: "mail_state \<Rightarrow> string \<Rightarrow> queue_entry option" where
  "queueHead s a =
     (case find (\<lambda>p. po_account p = a) (st_pending s) of
        Some p \<Rightarrow> Some (PendingEntry (po_id p))
      | None \<Rightarrow> map_option (\<lambda>b. OutboxEntry (ob_id b)) (find (\<lambda>b. cd_account (ob_draft b) = a) (st_outbox s)))"

definition assertQueueHead :: "mail_state \<Rightarrow> string \<Rightarrow> queue_entry \<Rightarrow> unit app_result" where
  "assertQueueHead s a e = (if queueHead s a = Some e then Inr () else Inl NotQueueHead)"

definition find_pending :: "mail_state \<Rightarrow> string \<Rightarrow> string \<Rightarrow> pending_operation option" where
  "find_pending s a i = find (\<lambda>p. po_id p = i \<and> po_account p = a) (st_pending s)"

definition find_outbox :: "mail_state \<Rightarrow> string \<Rightarrow> string \<Rightarrow> outbox_item option" where
  "find_outbox s a i = find (\<lambda>b. ob_id b = i \<and> cd_account (ob_draft b) = a) (st_outbox s)"

text \<open>The reason why a pending operation cannot be replayed, if there is one.\<close>

definition pendingOperationConflict :: "mail_state \<Rightarrow> pending_operation \<Rightarrow> app_error option" where
  "pendingOperationConflict s p =
     (if \<not> present (po_validity p) then Some PendingUnidentified
      else let current = folder_validity s (po_account p) (po_folder p) in
        if present current \<and> current \<noteq> po_validity p then Some PendingStale else None)"

text \<open>What \<open>#performPendingOperation\<close> asks of the mail service.\<close>

datatype server_request =
  SetFlags string nat flag_patch string
| MoveTo string nat string string

definition performPendingOperation :: "pending_operation \<Rightarrow> server_request app_result" where
  "performPendingOperation p =
     (if \<not> present (po_validity p) then Inl PendingUnidentified
      else case (po_kind p, po_patch p, po_destination p) of
        (FlagsOperation, Some patch, _) \<Rightarrow> Inr (SetFlags (po_folder p) (po_uid p) patch (the (po_validity p)))
      | (MoveOperation, _, Some (c # d)) \<Rightarrow> Inr (MoveTo (po_folder p) (po_uid p) (c # d) (the (po_validity p)))
      | _ \<Rightarrow> Inl PendingIncomplete)"

section \<open>Changes of the queue\<close>

definition queue_pending :: "pending_operation \<Rightarrow> string \<Rightarrow> mail_state \<Rightarrow> mail_state" where
  "queue_pending p title s =
     notify WarningNotice MailNotice title (Some (RetryPending (po_account p) (po_id p)))
       (s\<lparr>st_pending := st_pending s @ [p]\<rparr>)"

definition drop_pending :: "string \<Rightarrow> mail_state \<Rightarrow> mail_state" where
  "drop_pending i s = s\<lparr>st_pending := filter (\<lambda>p. po_id p \<noteq> i) (st_pending s)\<rparr>"

definition drop_outbox :: "string \<Rightarrow> mail_state \<Rightarrow> mail_state" where
  "drop_outbox i s = s\<lparr>st_outbox := filter (\<lambda>b. ob_id b \<noteq> i) (st_outbox s)\<rparr>"

text \<open>The first element with the property is changed in place; \<^const>\<open>None\<close> where there is none.\<close>

fun change_first :: "('a \<Rightarrow> bool) \<Rightarrow> ('a \<Rightarrow> 'a) \<Rightarrow> 'a list \<Rightarrow> ('a \<times> 'a list) option" where
  "change_first P f [] = None"
| "change_first P f (x # xs) =
     (if P x then Some (f x, f x # xs) else map_option (\<lambda>(y, ys). (y, x # ys)) (change_first P f xs))"

definition recordPendingFailure :: "string \<Rightarrow> string \<Rightarrow> mail_state \<Rightarrow> mail_state" where
  "recordPendingFailure i message s =
     (case change_first (\<lambda>p. po_id p = i) (\<lambda>p. p\<lparr>po_attempts := po_attempts p + 1, po_last_error := message\<rparr>) (st_pending s) of
        None \<Rightarrow> s
      | Some (p, ps) \<Rightarrow>
          let s' = s\<lparr>st_pending := ps\<rparr> in
          if po_attempts p = AUTOMATIC_MAIL_QUEUE_ATTEMPT_LIMIT
          then notify WarningNotice MailNotice ''Automatic retries paused'' (Some (RetryPending (po_account p) (po_id p))) s'
          else s')"

definition recordOutboxFailure :: "string \<Rightarrow> string \<Rightarrow> mail_state \<Rightarrow> mail_state" where
  "recordOutboxFailure i message s =
     (case change_first (\<lambda>b. ob_id b = i) (\<lambda>b. b\<lparr>ob_attempts := ob_attempts b + 1, ob_last_error := message\<rparr>) (st_outbox s) of
        None \<Rightarrow> s
      | Some (b, bs) \<Rightarrow>
          let s' = s\<lparr>st_outbox := bs\<rparr> in
          if ob_attempts b = AUTOMATIC_MAIL_QUEUE_ATTEMPT_LIMIT
          then notify WarningNotice DeliveryNotice ''Automatic retries paused''
                 (Some (RetryOutbox (cd_account (ob_draft b)) (ob_id b))) s'
          else s')"

section \<open>Flags and moves\<close>

text \<open>\<open>setMessageFlags\<close> and \<open>moveMessage\<close> before the server is asked: \<^const>\<open>None\<close> for the demo account,
  which needs no server, and otherwise the UIDVALIDITY of the request.\<close>

definition message_request :: "mail_state \<Rightarrow> string \<Rightarrow> string \<Rightarrow> nat \<Rightarrow> string option app_result" where
  "message_request s a path uid =
     (case requireAccount s a of Inl e \<Rightarrow> Inl e
      | Inr c \<Rightarrow> if ac_kind c = DemoAccount then Inr None
                else (case requireCurrentMessage s a path uid None of Inl e \<Rightarrow> Inl e | Inr (_, v) \<Rightarrow> Inr (Some v)))"

text \<open>The message when the answer is there: looked up again, with the same UIDVALIDITY.\<close>

definition message_after :: "mail_state \<Rightarrow> string \<Rightarrow> string \<Rightarrow> nat \<Rightarrow> string option \<Rightarrow> message_summary option app_result" where
  "message_after s a path uid validity =
     (case requireAccount s a of Inl e \<Rightarrow> Inl e
      | Inr _ \<Rightarrow> if present validity
                then (case requireCurrentMessage s a path uid validity of Inl e \<Rightarrow> Inl e | Inr (m, _) \<Rightarrow> Inr (Some m))
                else Inr (message_at s a path uid))"

definition patched :: "bool option \<Rightarrow> bool \<Rightarrow> bool" where
  "patched new old = (case new of None \<Rightarrow> old | Some b \<Rightarrow> b)"

definition mark_message :: "string \<Rightarrow> nat \<Rightarrow> flag_patch \<Rightarrow> mail_state \<Rightarrow> mail_state" where
  "mark_message key uid patch s =
     (case map_of (og_messages (st_organized s)) key of None \<Rightarrow> s
      | Some ms \<Rightarrow>
          (case change_first (\<lambda>m. ms_uid m = uid)
                  (\<lambda>m. m\<lparr>ms_unread := patched (fp_unread patch) (ms_unread m), ms_starred := patched (fp_starred patch) (ms_starred m)\<rparr>) ms of
             None \<Rightarrow> s | Some (_, ms') \<Rightarrow> set_messages key ms' s))"

definition mark_detail :: "string \<Rightarrow> flag_patch \<Rightarrow> mail_state \<Rightarrow> mail_state" where
  "mark_detail i patch s =
     (case map_of (st_details s) i of None \<Rightarrow> s
      | Some d \<Rightarrow> s\<lparr>st_details := AList.update i
          (d\<lparr>sd_unread := patched (fp_unread patch) (sd_unread d), sd_starred := patched (fp_starred patch) (sd_starred d)\<rparr>) (st_details s)\<rparr>)"

text \<open>The error of the server is the visible text, empty when the request succeeded.\<close>

definition flags_answer ::
  "string \<Rightarrow> string \<Rightarrow> nat \<Rightarrow> flag_patch \<Rightarrow> string option \<Rightarrow> string \<Rightarrow> string \<Rightarrow> string \<Rightarrow> mail_state \<Rightarrow> mail_state app_result" where
  "flags_answer a path uid patch validity network_error new_id now s =
     (case message_after s a path uid validity of Inl e \<Rightarrow> Inl e
      | Inr None \<Rightarrow> Inr s
      | Inr (Some m) \<Rightarrow>
          let s1 = log_history WasUpdated MessageEntity (ms_id m)
                     (mark_detail (ms_id m) patch (mark_message (folder_key a path) uid patch s))
          in Inr (if network_error = [] then s1
                  else queue_pending \<lparr>po_id = new_id, po_account = a, po_kind = FlagsOperation, po_folder = path, po_uid = uid,
                         po_validity = (if present validity then validity else None), po_patch = Some patch,
                         po_destination = None, po_created = now, po_attempts = 0, po_last_error = network_error\<rparr>
                         ''Change queued for synchronization'' s1))"

record move_outcome =
  mo_uid :: "nat option"
  mo_validity :: "string option"

definition remove_detail :: "string \<Rightarrow> mail_state \<Rightarrow> mail_state" where
  "remove_detail i s =
     s\<lparr>st_details := AList.delete i (st_details s),
       st_organized := (st_organized s)\<lparr>og_details := AList.delete i (og_details (st_organized s))\<rparr>\<rparr>"

definition moved_message :: "string \<Rightarrow> string \<Rightarrow> message_summary \<Rightarrow> move_outcome \<Rightarrow> message_summary option" where
  "moved_message a destination m out =
     (case mo_uid out of None \<Rightarrow> None
      | Some uid \<Rightarrow> Some (m\<lparr>ms_id := a @ '':'' @ destination @ '':'' @ nat_text uid, ms_folder := destination, ms_uid := uid,
                         ms_uid_validity := (if present (mo_validity out) then mo_validity out else None)\<rparr>))"

text \<open>The cached message leaves its folder, enters the destination when its new UID is known, and its
  tags go with it.\<close>

definition move_cached :: "string \<Rightarrow> string \<Rightarrow> nat \<Rightarrow> string \<Rightarrow> message_summary \<Rightarrow> move_outcome \<Rightarrow> mail_state \<Rightarrow> mail_state" where
  "move_cached a path uid destination m out s =
     (let moved = moved_message a destination m out;
          s1 = set_messages (folder_key a path) (filter (\<lambda>x. ms_uid x \<noteq> uid) (messages_at s a path)) s;
          s2 = (case moved of None \<Rightarrow> s1
                | Some x \<Rightarrow> set_messages (folder_key a destination)
                    (x # filter (\<lambda>y. ms_uid y \<noteq> ms_uid x) (messages_at s1 a destination)) s1);
          s3 = remove_detail (ms_id m) s2;
          target = map_option (\<lambda>x. \<lparr>mt_folder = destination, mt_uid = Some (ms_uid x),
                     mt_validity = (if present (ms_uid_validity x) then ms_uid_validity x else None)\<rparr>) moved;
          source = \<lparr>mp_account = a, mp_folder = path, mp_uid = uid,
                     mp_validity = (if present (ms_uid_validity m) then ms_uid_validity m else None)\<rparr>
      in s3\<lparr>st_organized := carryTagsThroughMove (st_organized s3) source target\<rparr>)"

definition move_answer ::
  "string \<Rightarrow> string \<Rightarrow> nat \<Rightarrow> string \<Rightarrow> string option \<Rightarrow> move_outcome \<Rightarrow> string \<Rightarrow> string \<Rightarrow> string \<Rightarrow> mail_state \<Rightarrow>
   mail_state app_result" where
  "move_answer a path uid destination validity out network_error new_id now s =
     (case message_after s a path uid validity of Inl e \<Rightarrow> Inl e
      | Inr None \<Rightarrow> Inr s
      | Inr (Some m) \<Rightarrow>
          let moved = moved_message a destination m out;
              s1 = log_history WasUpdated MessageEntity (case moved of None \<Rightarrow> ms_id m | Some x \<Rightarrow> ms_id x)
                     (move_cached a path uid destination m out s)
          in Inr (if network_error = [] then notify SuccessNotice SystemNotice ''Message moved'' None s1
                  else queue_pending \<lparr>po_id = new_id, po_account = a, po_kind = MoveOperation, po_folder = path, po_uid = uid,
                         po_validity = (if present validity then validity else None), po_patch = None,
                         po_destination = Some destination, po_created = now, po_attempts = 0, po_last_error = network_error\<rparr>
                         ''Move queued for synchronization'' s1))"

section \<open>Sending\<close>

text \<open>\<open>sendMessage\<close> before the server is asked, for a draft whose attachments are authorized: the account,
  the stored copy of the draft as it is now, and the identity it is sent with.\<close>

record send_request =
  sq_account :: account_summary
  sq_stored :: "compose_draft option"
  sq_identity :: "mail_identity option"

definition stored_copy :: "mail_state \<Rightarrow> compose_draft \<Rightarrow> compose_draft option" where
  "stored_copy s d = (if present (cd_id d) then draft_with (st_drafts s) (cd_id d) else None)"

definition identityForDraft :: "js_runtime \<Rightarrow> mail_state \<Rightarrow> compose_draft \<Rightarrow> mail_identity option" where
  "identityForDraft rt s d = resolveIdentity rt (st_identities s) (cd_account d) (cd_identity d)"

definition send_request_of :: "js_runtime \<Rightarrow> mail_state \<Rightarrow> compose_draft \<Rightarrow> send_request app_result" where
  "send_request_of rt s d =
     (case requireAccount s (cd_account d) of Inl e \<Rightarrow> Inl e
      | Inr c \<Rightarrow> if recipients d = [] then Inl NoRecipients
                else Inr \<lparr>sq_account = c, sq_stored = stored_copy s d, sq_identity = identityForDraft rt s d\<rparr>)"

definition demo_result :: "compose_draft \<Rightarrow> string \<Rightarrow> send_result" where
  "demo_result d message_id = \<lparr>sr_message_id = message_id, sr_accepted = recipients d, sr_rejected = [], sr_queued = False\<rparr>"

definition queued_result :: "string \<Rightarrow> send_result" where
  "queued_result outbox_id = \<lparr>sr_message_id = outbox_id, sr_accepted = [], sr_rejected = [], sr_queued = True\<rparr>"

text \<open>A draft that was rejected is stored, under a new identifier when the stored copy has changed or
  the draft has none.\<close>

definition keep_draft :: "compose_draft \<Rightarrow> mail_state \<Rightarrow> mail_state" where
  "keep_draft d s =
     log_history (if draft_with (st_drafts s) (cd_id d) \<noteq> None then WasUpdated else WasCreated) DraftEntity (id_text (cd_id d))
       (s\<lparr>st_drafts := put_draft d (st_drafts s)\<rparr>)"

text \<open>The change of the store after a send. A draft without identifier counts as unchanged, and then the
  drafts whose identifier differs from its missing one are the ones that stay.\<close>

definition send_answer ::
  "compose_draft \<Rightarrow> compose_draft option \<Rightarrow> send_result \<Rightarrow> string \<Rightarrow> string \<Rightarrow> string \<Rightarrow> mail_state \<Rightarrow> mail_state app_result" where
  "send_answer d snapshot result network_error new_id now s =
     (case requireAccount s (cd_account d) of Inl e \<Rightarrow> Inl e
      | Inr _ \<Rightarrow>
          let unchanged = sameDraftSnapshot (stored_copy s d) snapshot in
          if classifySendResult result = RejectedAll
          then let retained = d\<lparr>cd_id := (if present (cd_id d) \<and> unchanged then cd_id d else Some new_id)\<rparr>
               in Inr (notify ErrorNotice DeliveryNotice ''Message not sent; draft kept''
                    (Some (OpenDraft (cd_account d) (id_text (cd_id retained)))) (keep_draft retained s))
          else let s1 = (if unchanged then s\<lparr>st_drafts := filter (\<lambda>x. cd_id x \<noteq> cd_id d) (st_drafts s)\<rparr> else s);
                   s2 = log_history WasCreated (if sr_queued result then DraftEntity else MessageEntity) (sr_message_id result) s1
            in Inr (if sr_queued result
                 then notify WarningNotice DeliveryNotice ''Message queued in Outbox'' (Some (RetryOutbox (cd_account d) (sr_message_id result)))
                        (s2\<lparr>st_outbox := st_outbox s2 @ [\<lparr>ob_id = sr_message_id result, ob_draft = d, ob_created = now,
                                                     ob_attempts = 0, ob_last_error = network_error\<rparr>]\<rparr>)
                 else if classifySendResult result = SentPartly
                 then notify WarningNotice DeliveryNotice ''Message partially sent'' (Some (OpenPage MailPage)) s2
                 else notify SuccessNotice DeliveryNotice ''Message sent'' (Some (OpenPage MailPage)) s2))"

section \<open>The Outbox\<close>

text \<open>\<open>#deliverOutboxItem\<close> after the server took or rejected the message.\<close>

definition deliver_answer :: "string \<Rightarrow> outbox_item \<Rightarrow> send_result \<Rightarrow> string \<Rightarrow> mail_state \<Rightarrow> mail_state app_result" where
  "deliver_answer a item sent new_id s =
     (case requireAccount s a of Inl e \<Rightarrow> Inl e
      | Inr _ \<Rightarrow> (case find_outbox s a (ob_id item) of None \<Rightarrow> Inl OutboxChanged
        | Some queued \<Rightarrow>
            let d = ob_draft queued; s1 = drop_outbox (ob_id item) s in
            if classifySendResult sent = RejectedAll
            then let current = stored_copy s1 d;
                     keep = present (cd_id d) \<and> (current = None \<or> sameDraftSnapshot current (Some d));
                     retained = d\<lparr>cd_id := (if keep then cd_id d else Some new_id)\<rparr>
                 in Inr (notify ErrorNotice SystemNotice ''Outbox message not sent; draft kept'' None (keep_draft retained s1))
            else let s2 = log_history WasUpdated MessageEntity (sr_message_id sent) s1
              in Inr (if classifySendResult sent = SentPartly
                   then notify WarningNotice SystemNotice ''Outbox message partially sent'' None s2
                   else notify SuccessNotice SystemNotice ''Outbox message sent'' None s2)))"

text \<open>\<open>cancelOutbox\<close>: the message becomes a draft again. Only a draft with an identifier replaces the stored
  draft of the same identifier.\<close>

definition cancelOutbox :: "string \<Rightarrow> string \<Rightarrow> mail_state \<Rightarrow> (mail_state \<times> compose_draft) app_result" where
  "cancelOutbox a i s =
     (case requireAccount s a of Inl e \<Rightarrow> Inl e
      | Inr _ \<Rightarrow> (case find_outbox s a i of None \<Rightarrow> Inl OutboxGone
        | Some item \<Rightarrow>
            let d = ob_draft item; s1 = drop_outbox i s;
                ds = (if present (cd_id d) then put_draft d (st_drafts s1) else st_drafts s1 @ [d])
            in Inr (notify InfoNotice DeliveryNotice ''Outbox item cancelled''
                      (Some (if present (cd_id d) then OpenDraft a (id_text (cd_id d)) else OpenPage DraftsPage))
                      (log_history WasUpdated DraftEntity (id_text (cd_id d)) (s1\<lparr>st_drafts := ds\<rparr>)), d)))"

section \<open>Pending operations\<close>

text \<open>The checks of \<open>retryPendingOperation\<close> and \<open>retryOutbox\<close>.\<close>

definition retry_pending_request :: "mail_state \<Rightarrow> string \<Rightarrow> string \<Rightarrow> pending_operation app_result" where
  "retry_pending_request s a i =
     (case requireAccount s a of Inl e \<Rightarrow> Inl e
      | Inr _ \<Rightarrow> (case find_pending s a i of None \<Rightarrow> Inl PendingGone
        | Some p \<Rightarrow> (case assertQueueHead s a (PendingEntry i) of Inl e \<Rightarrow> Inl e
          | Inr _ \<Rightarrow> (case pendingOperationConflict s p of Some e \<Rightarrow> Inl e | None \<Rightarrow> Inr p))))"

definition retry_outbox_request :: "mail_state \<Rightarrow> string \<Rightarrow> string \<Rightarrow> outbox_item app_result" where
  "retry_outbox_request s a i =
     (case requireAccount s a of Inl e \<Rightarrow> Inl e
      | Inr _ \<Rightarrow> (case find_outbox s a i of None \<Rightarrow> Inl OutboxGone
        | Some b \<Rightarrow> (case assertQueueHead s a (OutboxEntry i) of Inl e \<Rightarrow> Inl e | Inr _ \<Rightarrow> Inr b)))"

text \<open>A pending operation that reached the server leaves the queue.\<close>

definition pending_answer :: "string \<Rightarrow> string \<Rightarrow> notice_category \<Rightarrow> notice_action option \<Rightarrow> mail_state \<Rightarrow> mail_state app_result" where
  "pending_answer a i category action s =
     (case requireAccount s a of Inl e \<Rightarrow> Inl e
      | Inr _ \<Rightarrow> Inr (notify SuccessNotice category ''Queued change synchronized'' action (drop_pending i s)))"

definition discardPendingOperation :: "string \<Rightarrow> string \<Rightarrow> mail_state \<Rightarrow> mail_state app_result" where
  "discardPendingOperation a i s =
     (case requireAccount s a of Inl e \<Rightarrow> Inl e
      | Inr _ \<Rightarrow> (case find_pending s a i of None \<Rightarrow> Inl PendingGone
        | Some p \<Rightarrow> Inr (notify WarningNotice SystemNotice ''Queued change discarded'' None
            (log_history WasDeleted MessageEntity (po_id p) (drop_pending i s)))))"

text \<open>The loops of \<open>#replayPending\<close>: what they try next, for the conflicts of the state \<open>snapshot\<close> read
  before the first attempt.\<close>

definition next_pending :: "mail_state \<Rightarrow> pending_operation list \<Rightarrow> pending_operation option" where
  "next_pending snapshot ops =
     (case ops of [] \<Rightarrow> None
      | p # _ \<Rightarrow> if pendingOperationConflict snapshot p \<noteq> None \<or> po_attempts p \<ge> AUTOMATIC_MAIL_QUEUE_ATTEMPT_LIMIT
                then None else Some p)"

definition outbox_to_replay :: "mail_state \<Rightarrow> string \<Rightarrow> outbox_item list" where
  "outbox_to_replay s a = (if pending_of a s \<noteq> [] then [] else outbox_of a s)"

definition next_outbox :: "outbox_item list \<Rightarrow> outbox_item option" where
  "next_outbox items =
     (case items of [] \<Rightarrow> None | b # _ \<Rightarrow> if ob_attempts b \<ge> AUTOMATIC_MAIL_QUEUE_ATTEMPT_LIMIT then None else Some b)"

section \<open>Listing\<close>

record retry_state =
  rs_attempts :: nat
  rs_limit :: nat
  rs_paused :: bool
  rs_head :: bool

definition retry_state_of :: "mail_state \<Rightarrow> string \<Rightarrow> nat \<Rightarrow> queue_entry \<Rightarrow> retry_state" where
  "retry_state_of s a attempts e =
     \<lparr>rs_attempts = attempts, rs_limit = AUTOMATIC_MAIL_QUEUE_ATTEMPT_LIMIT,
      rs_paused = (attempts \<ge> AUTOMATIC_MAIL_QUEUE_ATTEMPT_LIMIT), rs_head = (queueHead s a = Some e)\<rparr>"

definition listPendingOperations ::
  "mail_state \<Rightarrow> string \<Rightarrow> (pending_operation \<times> retry_state \<times> app_error option) list app_result" where
  "listPendingOperations s a =
     (case requireAccount s a of Inl e \<Rightarrow> Inl e
      | Inr _ \<Rightarrow> Inr (map (\<lambda>p. (p\<lparr>po_last_error := mailErrorMessage (plain_error (po_last_error p))\<rparr>,
            retry_state_of s a (po_attempts p) (PendingEntry (po_id p)), pendingOperationConflict s p)) (pending_of a s)))"

definition listOutbox :: "mail_state \<Rightarrow> string \<Rightarrow> (outbox_item \<times> retry_state) list app_result" where
  "listOutbox s a =
     (case requireAccount s a of Inl e \<Rightarrow> Inl e
      | Inr _ \<Rightarrow> Inr (map (\<lambda>b. (b\<lparr>ob_last_error := mailErrorMessage (plain_error (ob_last_error b))\<rparr>,
            retry_state_of s a (ob_attempts b) (OutboxEntry (ob_id b)))) (outbox_of a s)))"

section \<open>Accounts and revisions\<close>

text \<open>\<open>removeAccount\<close> without the token vault, which is asked to forget the account first and whose
  failure changes nothing here.\<close>

definition forget_cached :: "string \<Rightarrow> mail_state \<Rightarrow> mail_state" where
  "forget_cached a s =
     (let o1 = st_organized s; gone = map fst (filter (\<lambda>(_, d). sd_account d = a) (st_details s))
      in s\<lparr>st_organized := o1\<lparr>og_messages := filter (\<lambda>(key, _). \<not> starts_with (a @ [nul]) key) (og_messages o1),
                              og_details := filter (\<lambda>(i, _). i \<notin> set gone) (og_details o1)\<rparr>,
           st_details := filter (\<lambda>(_, d). sd_account d \<noteq> a) (st_details s)\<rparr>)"

definition removeAccount :: "string \<Rightarrow> mail_state \<Rightarrow> mail_state" where
  "removeAccount a s =
     (if find (\<lambda>c. ac_id c = a) (st_accounts s) = None then s
      else let s1 = forget_cached a (s\<lparr>st_accounts := filter (\<lambda>c. ac_id c \<noteq> a) (st_accounts s),
                                       st_folders := AList.delete a (st_folders s)\<rparr>);
               s2 = s1\<lparr>st_drafts := filter (\<lambda>d. cd_account d \<noteq> a) (st_drafts s1),
                       st_outbox := filter (\<lambda>b. cd_account (ob_draft b) \<noteq> a) (st_outbox s1),
                       st_pending := filter (\<lambda>p. po_account p \<noteq> a) (st_pending s1),
                       st_organized := forgetAccountTags (st_organized s1) a,
                       st_identities := forgetAccountIdentities (st_identities s1) a\<rparr>;
               s3 = (if st_selected_account s2 = Some a
                     then s2\<lparr>st_selected_account := (case st_accounts s2 of [] \<Rightarrow> None | c # _ \<Rightarrow> Some (ac_id c)),
                             st_selected_folder := None\<rparr>
                     else s2)
           in notify InfoNotice AccountNotice ''Account removed'' (Some (OpenPage SettingsPage))
                (log_history WasDeleted AccountEntity a s3))"

text \<open>\<open>deleteIdentity\<close>: drafts and queued messages that name the identity fall back to the default.\<close>

definition forget_identity :: "string \<Rightarrow> compose_draft \<Rightarrow> compose_draft" where
  "forget_identity i d = (if cd_identity d = Some i then d\<lparr>cd_identity := None\<rparr> else d)"

definition deleteIdentity :: "js_runtime \<Rightarrow> string \<Rightarrow> mail_state \<Rightarrow> (identity_error, mail_state) result" where
  "deleteIdentity rt i s =
     (case removeIdentity rt (st_identities s) i of Inl e \<Rightarrow> Inl e
      | Inr identities \<Rightarrow>
          Inr (log_history WasDeleted SettingsEntity (''identity:'' @ i)
            (s\<lparr>st_identities := identities, st_drafts := map (forget_identity i) (st_drafts s),
               st_outbox := map (\<lambda>b. b\<lparr>ob_draft := forget_identity i (ob_draft b)\<rparr>) (st_outbox s)\<rparr>)))"

text \<open>\<open>restoreLocalRevision\<close>: an earlier state replaces the current one.\<close>

definition restoreLocalRevision :: "mail_state \<Rightarrow> mail_state \<Rightarrow> mail_state" where
  "restoreLocalRevision candidate s =
     notify SuccessNotice SystemNotice ''Local revision restored'' None
       (log_history WasRestored SettingsEntity ''application-state'' candidate)"

end
