(* ===== verification/Queue_Runs.thy ===== *)
theory Queue_Runs
  imports Mail_Queue "HOL-Library.Sublist"
begin

text \<open>
  Runs of the offline queue (\<open>Mail_Queue\<close>): at most one queue operation of an account is in flight
  (\<open>#withQueueFlight\<close>), it waits for the server while other calls change the state, its answer may be
  a success, a failure, or a success that the store fails to record, and the process may stop at any
  moment. Removing an account or an identity and restoring an earlier revision of the state are steps like the
  others; the number of restored revisions is kept. The lemmas show that entries leave the queues in the order they entered them.
\<close>

section \<open>First in, first out\<close>

text \<open>What arrived, what was finished, and what is waiting.\<close>

definition fifo :: "'a list \<Rightarrow> 'a list \<Rightarrow> 'a list \<Rightarrow> bool" where
  "fifo arrived finished waiting = (distinct arrived \<and> subseq (finished @ waiting) arrived)"

lemma fifo_arrive: "fifo as fs ws \<Longrightarrow> x \<notin> set as \<Longrightarrow> fifo (as @ [x]) fs (ws @ [x])"
  unfolding fifo_def by (auto simp flip: append_assoc intro: list_emb_append_mono)

lemma fifo_finish: "fifo as fs (x # ws) \<Longrightarrow> fifo as (fs @ [x]) ws"
  by (simp add: fifo_def)

lemma fifo_shrink: "fifo as fs ws \<Longrightarrow> subseq ws' ws \<Longrightarrow> fifo as fs ws'"
  unfolding fifo_def by (meson list_emb_append_mono subseq_order.dual_order.trans subseq_order.order_refl)

lemma fifo_distinct: "fifo as fs ws \<Longrightarrow> distinct (fs @ ws) \<and> set (fs @ ws) \<subseteq> set as"
  unfolding fifo_def by (metis distinct_nthsI set_nths_subset subseq_conv_nths)

lemma fifo_empty: "fifo [] [] []"
  by (simp add: fifo_def)

section \<open>Runs\<close>

datatype flight =
  RetryingPending pending_operation
| RetryingOutbox outbox_item
| ReplayingPending pending_operation "pending_operation list" mail_state
| ReplayingOutbox outbox_item "outbox_item list"
| Discarding string
| Cancelling string

text \<open>The state, the flights by account, the number of revisions that were restored, and the logs of both
  kinds of entries: messages that were queued, messages that left the Outbox after an answer of the
  server, the changes that were queued and synchronized, the deliveries that got an answer, and those of
  them whose answer the store did not record. An entry is its account and identifier.\<close>

type_synonym entry = "string \<times> string"

record run =
  rn_state :: mail_state
  rn_flights :: "(string, flight) entries"
  rn_arrived :: "entry list"
  rn_finished :: "entry list"
  rn_changes :: "entry list"
  rn_synced :: "entry list"
  rn_sent :: "entry list"
  rn_lost :: "entry list"
  rn_restored :: nat

abbreviation start_flight :: "string \<Rightarrow> flight \<Rightarrow> run \<Rightarrow> run" where
  "start_flight a f r \<equiv> r\<lparr>rn_flights := (a, f) # rn_flights r\<rparr>"

abbreviation end_flight :: "string \<Rightarrow> run \<Rightarrow> run" where
  "end_flight a r \<equiv> r\<lparr>rn_flights := AList.delete a (rn_flights r)\<rparr>"

text \<open>\<open>#withQueueFlight\<close> takes the account when it is free.\<close>

definition withQueueFlight :: "run \<Rightarrow> string \<Rightarrow> unit app_result" where
  "withQueueFlight r a = (if map_of (rn_flights r) a = None then Inr () else Inl QueueBusy)"

text \<open>\<open>#replayPending\<close> from a point where the operations \<open>ops\<close> of the first state are left: the next
  attempt, or the Outbox as it is then, or the end.\<close>

definition replay_outbox :: "outbox_item list \<Rightarrow> flight option" where
  "replay_outbox items = map_option (\<lambda>b. ReplayingOutbox b (tl items)) (next_outbox items)"

definition replayPending :: "string \<Rightarrow> mail_state \<Rightarrow> pending_operation list \<Rightarrow> mail_state \<Rightarrow> flight option" where
  "replayPending a snapshot ops s =
     (case next_pending snapshot ops of
        Some p \<Rightarrow> Some (ReplayingPending p (tl ops) snapshot)
      | None \<Rightarrow> replay_outbox (outbox_to_replay s a))"

definition begin_with :: "string \<Rightarrow> flight option \<Rightarrow> run \<Rightarrow> run" where
  "begin_with a f r = (case f of None \<Rightarrow> r | Some g \<Rightarrow> start_flight a g r)"

definition continue_with :: "string \<Rightarrow> flight option \<Rightarrow> run \<Rightarrow> run" where
  "continue_with a f r = (case f of None \<Rightarrow> end_flight a r | Some g \<Rightarrow> r\<lparr>rn_flights := AList.update a g (rn_flights r)\<rparr>)"

text \<open>Where a flight goes after a recorded success.\<close>

definition after_pending :: "string \<Rightarrow> flight \<Rightarrow> mail_state \<Rightarrow> flight option" where
  "after_pending a f s = (case f of ReplayingPending p rest snapshot \<Rightarrow> replayPending a snapshot rest s | _ \<Rightarrow> None)"

text \<open>A failed change stops the first loop of a replay only; the second one runs when no change is left.\<close>

definition after_failure :: "string \<Rightarrow> flight \<Rightarrow> mail_state \<Rightarrow> flight option" where
  "after_failure a f s =
     (case f of ReplayingPending p rest snapshot \<Rightarrow> replay_outbox (outbox_to_replay s a) | _ \<Rightarrow> None)"

definition after_outbox :: "flight \<Rightarrow> flight option" where
  "after_outbox f = (case f of ReplayingOutbox b rest \<Rightarrow> replay_outbox rest | _ \<Rightarrow> None)"

fun pending_in_flight :: "flight \<Rightarrow> pending_operation option" where
  "pending_in_flight (RetryingPending p) = Some p"
| "pending_in_flight (ReplayingPending p rest snapshot) = Some p"
| "pending_in_flight _ = None"

fun outbox_in_flight :: "flight \<Rightarrow> outbox_item option" where
  "outbox_in_flight (RetryingOutbox b) = Some b"
| "outbox_in_flight (ReplayingOutbox b rest) = Some b"
| "outbox_in_flight _ = None"

text \<open>Recorded as finished when the entry was still waiting.\<close>

definition pending_ids :: "string \<Rightarrow> mail_state \<Rightarrow> string list" where
  "pending_ids a s = map po_id (pending_of a s)"

definition outbox_ids :: "string \<Rightarrow> mail_state \<Rightarrow> string list" where
  "outbox_ids a s = map ob_id (outbox_of a s)"

definition sync_log :: "string \<Rightarrow> string \<Rightarrow> mail_state \<Rightarrow> entry list" where
  "sync_log a i s = (if i \<in> set (pending_ids a s) then [(a, i)] else [])"

inductive queue_step :: "run \<Rightarrow> run \<Rightarrow> bool" where
  sent_now: "queue_step r (r\<lparr>rn_state := s\<rparr>)"
    if "send_answer d snapshot result e i now (rn_state r) = Inr s" "\<not> sr_queued result"
| sent_later: "queue_step r (r\<lparr>rn_state := s, rn_arrived := rn_arrived r @ [(cd_account d, sr_message_id result)]\<rparr>)"
    if "send_answer d snapshot result e i now (rn_state r) = Inr s" "sr_queued result"
       "sr_message_id result \<notin> set (map snd (rn_arrived r))"
| flags_set: "queue_step r (r\<lparr>rn_state := s, rn_changes := rn_changes r @
       (if st_pending s = st_pending (rn_state r) then [] else [(a, i)])\<rparr>)"
    if "flags_answer a path uid patch v e i now (rn_state r) = Inr s" "i \<notin> set (map snd (rn_changes r))"
| moved: "queue_step r (r\<lparr>rn_state := s, rn_changes := rn_changes r @
       (if st_pending s = st_pending (rn_state r) then [] else [(a, i)])\<rparr>)"
    if "move_answer a path uid destination v out e i now (rn_state r) = Inr s" "i \<notin> set (map snd (rn_changes r))"
| account_removed: "queue_step r (r\<lparr>rn_state := removeAccount a (rn_state r)\<rparr>)"
| identity_removed: "queue_step r (r\<lparr>rn_state := s\<rparr>)" if "deleteIdentity rt i (rn_state r) = Inr s"
| restored: "queue_step r (r\<lparr>rn_state := restoreLocalRevision candidate (rn_state r), rn_restored := rn_restored r + 1\<rparr>)"
| other: "queue_step r (r\<lparr>rn_state := s\<rparr>)"
    if "st_pending s = st_pending (rn_state r)" "st_outbox s = st_outbox (rn_state r)"
| retry_pending: "queue_step r (start_flight a (RetryingPending p) r)"
    if "withQueueFlight r a = Inr ()" "retry_pending_request (rn_state r) a i = Inr p"
| retry_outbox: "queue_step r (start_flight a (RetryingOutbox b) r)"
    if "withQueueFlight r a = Inr ()" "retry_outbox_request (rn_state r) a i = Inr b"
| replay: "queue_step r (begin_with a (replayPending a (rn_state r) (pending_of a (rn_state r)) (rn_state r)) r)"
    if "withQueueFlight r a = Inr ()"
| discard_started: "queue_step r (start_flight a (Discarding i) r)" if "withQueueFlight r a = Inr ()"
| cancel_started: "queue_step r (start_flight a (Cancelling i) r)" if "withQueueFlight r a = Inr ()"
| discarded: "queue_step r (end_flight a (r\<lparr>rn_state := s\<rparr>))"
    if "map_of (rn_flights r) a = Some (Discarding i)" "discardPendingOperation a i (rn_state r) = Inr s"
| cancelled: "queue_step r (end_flight a (r\<lparr>rn_state := s\<rparr>))"
    if "map_of (rn_flights r) a = Some (Cancelling i)" "cancelOutbox a i (rn_state r) = Inr (s, d)"
| pending_synced: "queue_step r (continue_with a (after_pending a f s)
       (r\<lparr>rn_state := s, rn_synced := rn_synced r @ sync_log a (po_id p) (rn_state r)\<rparr>))"
    if "map_of (rn_flights r) a = Some f" "pending_in_flight f = Some p" "performPendingOperation p = Inr request"
       "pending_answer a (po_id p) category action (rn_state r) = Inr s"
| pending_failed: "queue_step r (continue_with a (after_failure a f s) (r\<lparr>rn_state := s\<rparr>))"
    if "map_of (rn_flights r) a = Some f" "pending_in_flight f = Some p" "s = recordPendingFailure (po_id p) e (rn_state r)"
| outbox_sent: "queue_step r (continue_with a (after_outbox f)
       (r\<lparr>rn_state := s, rn_sent := rn_sent r @ [(a, ob_id b)], rn_finished := rn_finished r @ [(a, ob_id b)]\<rparr>))"
    if "map_of (rn_flights r) a = Some f" "outbox_in_flight f = Some b" "deliver_answer a b sent i (rn_state r) = Inr s"
| outbox_lost: "queue_step r (end_flight a
       (r\<lparr>rn_sent := rn_sent r @ [(a, ob_id b)], rn_lost := rn_lost r @ [(a, ob_id b)]\<rparr>))"
    if "map_of (rn_flights r) a = Some f" "outbox_in_flight f = Some b"
| outbox_failed: "queue_step r (end_flight a (r\<lparr>rn_state := recordOutboxFailure (ob_id b) e (rn_state r)\<rparr>))"
    if "map_of (rn_flights r) a = Some f" "outbox_in_flight f = Some b"
| flight_ended: "queue_step r (end_flight a r)"
| stopped: "queue_step r (r\<lparr>rn_flights := []\<rparr>)"


section \<open>The queues of a run\<close>

text \<open>The abstract picture of one kind of queue: what every account has waiting, and the entries its
  flight still means to process, which are the front of what is waiting unless the account has been
  removed in the meantime.\<close>

definition ids :: "string \<Rightarrow> entry list \<Rightarrow> string list" where
  "ids a es = map snd (filter (\<lambda>e. fst e = a) es)"

definition on_track :: "string list \<Rightarrow> string list \<Rightarrow> bool" where
  "on_track waiting flying = ((\<exists>later. waiting = flying @ later) \<or> set flying \<inter> set waiting = {})"

definition queue_ok ::
  "entry list \<Rightarrow> entry list \<Rightarrow> (string \<Rightarrow> string list) \<Rightarrow> (string \<Rightarrow> string list) \<Rightarrow> bool" where
  "queue_ok arrived finished waiting flying =
     (distinct (map snd arrived) \<and>
      (\<forall>a. fifo (ids a arrived) (ids a finished) (waiting a) \<and> on_track (waiting a) (flying a)
           \<and> set (flying a) \<subseteq> set (ids a arrived)))"

lemma ids_append [simp]: "ids a (es @ [(b, i)]) = (if b = a then ids a es @ [i] else ids a es)"
  by (simp add: ids_def)

lemma ids_nil [simp]: "ids a [] = []"
  by (simp add: ids_def)

lemma set_ids: "set (ids a es) \<subseteq> set (map snd es)"
  by (auto simp: ids_def)

lemma ids_unique:
  assumes "distinct (map snd es)" "i \<in> set (ids a es)" "i \<in> set (ids b es)"
  shows "a = b"
proof -
  from assms(2,3) have "(a, i) \<in> set es" "(b, i) \<in> set es" by (auto simp: ids_def)
  with assms(1) show ?thesis by (metis distinct_map fst_conv inj_on_eq_iff snd_conv)
qed

lemma waiting_arrived: "queue_ok A F W Y \<Longrightarrow> i \<in> set (W a) \<Longrightarrow> i \<in> set (ids a A)"
  using fifo_distinct by (fastforce simp: queue_ok_def)

lemma waiting_distinct: "queue_ok A F W Y \<Longrightarrow> distinct (W a)"
  using fifo_distinct by (fastforce simp: queue_ok_def)

lemma others_keep:
  assumes "queue_ok A F W Y" "i \<in> set (ids a A)" "b \<noteq> a"
  shows "filter (\<lambda>j. j \<noteq> i) (W b) = W b"
proof -
  have "i \<notin> set (W b)"
    using assms waiting_arrived [OF assms(1)] ids_unique by (metis queue_ok_def)
  then show ?thesis by (metis (mono_tags, lifting) filter_True)
qed

lemma queue_okI:
  assumes "distinct (map snd A)" "\<And>a. fifo (ids a A) (ids a F) (W a)" "\<And>a. on_track (W a) (Y a)"
    "\<And>a. set (Y a) \<subseteq> set (ids a A)"
  shows "queue_ok A F W Y"
  using assms by (simp add: queue_ok_def)

lemma queue_okD:
  assumes "queue_ok A F W Y"
  shows "distinct (map snd A)" "fifo (ids a A) (ids a F) (W a)" "on_track (W a) (Y a)" "set (Y a) \<subseteq> set (ids a A)"
  using assms by (simp_all add: queue_ok_def)

lemma track_arrive: "on_track ws ys \<Longrightarrow> x \<notin> set ys \<Longrightarrow> on_track (ws @ [x]) ys"
  unfolding on_track_def by auto

lemma track_front: "on_track ws (i # rest) \<Longrightarrow> i \<in> set ws \<Longrightarrow> \<exists>later. ws = i # rest @ later"
  unfolding on_track_def by auto

lemma track_tail: "on_track ws (i # rest) \<Longrightarrow> i \<notin> set ws \<Longrightarrow> on_track ws rest"
  unfolding on_track_def by auto

lemma track_nil [simp]: "on_track ws []" "on_track [] ys"
  by (simp_all add: on_track_def)

lemma filter_other: "i \<notin> set xs \<Longrightarrow> filter (\<lambda>j. j \<noteq> i) xs = xs"
  by (induction xs) auto

lemma queue_arrive:
  assumes "queue_ok A F W Y" "x \<notin> set (map snd A)"
  shows "queue_ok (A @ [(a, x)]) F (W(a := W a @ [x])) Y"
proof -
  note ok = queue_okD [OF assms(1)]
  have x: "x \<notin> set (ids a A)" using assms(2) set_ids by blast
  show ?thesis
  proof (rule queue_okI)
    fix b
    show "fifo (ids b (A @ [(a, x)])) (ids b F) ((W(a := W a @ [x])) b)"
      using fifo_arrive [OF ok(2) x] ok(2) by simp
    show "on_track ((W(a := W a @ [x])) b) (Y b)"
      using track_arrive [OF ok(3)] ok(3,4) x by fastforce
    show "set (Y b) \<subseteq> set (ids b (A @ [(a, x)]))" using ok(4) [of b] by auto
  qed (use ok(1) assms(2) in simp)
qed

lemma queue_land: "queue_ok A F W Y \<Longrightarrow> queue_ok A F W (Y(a := []))"
  by (rule queue_okI) (simp_all add: queue_okD(1,2,3,4))

lemma queue_take:
  assumes "queue_ok A F W Y" "W a = flying @ later"
  shows "queue_ok A F W (Y(a := flying))"
proof -
  have "set flying \<subseteq> set (ids a A)" using assms(2) waiting_arrived [OF assms(1), of _ a] by auto
  with assms(2) show ?thesis
    by (intro queue_okI) (auto simp: queue_okD [OF assms(1)] on_track_def queue_okD(3) [OF assms(1), unfolded on_track_def]
      dest: subsetD [OF queue_okD(4) [OF assms(1)]])
qed

lemma queue_drop:
  assumes "queue_ok A F W Y" "Y a = []" "i \<in> set (W a)"
  shows "queue_ok A F (\<lambda>b. filter (\<lambda>j. j \<noteq> i) (W b)) Y"
proof -
  note ok = queue_okD [OF assms(1)] and others = others_keep [OF assms(1) waiting_arrived [OF assms(1,3)]]
  show ?thesis
  proof (rule queue_okI)
    fix b
    show "on_track (filter (\<lambda>j. j \<noteq> i) (W b)) (Y b)" using ok(3) [of b] others [of b] assms(2) by (cases "b = a") simp_all
    show "fifo (ids b A) (ids b F) (filter (\<lambda>j. j \<noteq> i) (W b))" by (rule fifo_shrink [OF ok(2)]) simp
  qed (rule ok)+
qed

lemma queue_forget: "queue_ok A F W Y \<Longrightarrow> queue_ok A F (W(a := [])) Y"
  by (rule queue_okI) (auto simp: queue_okD(1,3,4) dest: queue_okD(2) intro: fifo_shrink)

lemma queue_finish:
  assumes "queue_ok A F W Y" "Y a = i # rest" "i \<in> set (W a)"
  shows "queue_ok A (F @ [(a, i)]) (\<lambda>b. filter (\<lambda>j. j \<noteq> i) (W b)) (Y(a := rest))"
proof -
  note ok = queue_okD [OF assms(1)] and others = others_keep [OF assms(1) waiting_arrived [OF assms(1,3)]]
  obtain later where W: "W a = i # rest @ later"
    using track_front [OF ok(3) [of a, unfolded assms(2)] assms(3)] by blast
  then have own: "filter (\<lambda>j. j \<noteq> i) (W a) = rest @ later"
    using waiting_distinct [OF assms(1), of a] by (simp add: filter_other)
  show ?thesis
  proof (rule queue_okI)
    fix b
    show "fifo (ids b A) (ids b (F @ [(a, i)])) (filter (\<lambda>j. j \<noteq> i) (W b))"
      using fifo_finish [OF ok(2) [of a, unfolded W]] own ok(2) [of b] others [of b] by auto
    show "on_track (filter (\<lambda>j. j \<noteq> i) (W b)) ((Y(a := rest)) b)"
      using own ok(3) [of b] others [of b] by (auto simp: on_track_def)
    show "set ((Y(a := rest)) b) \<subseteq> set (ids b A)" using ok(4) [of b] assms(2) by auto
  qed (rule ok(1))
qed

lemma queue_miss:
  assumes "queue_ok A F W Y" "Y a = i # rest" "i \<notin> set (W a)"
  shows "queue_ok A F (\<lambda>b. filter (\<lambda>j. j \<noteq> i) (W b)) (Y(a := rest))"
proof -
  note ok = queue_okD [OF assms(1)]
  have "i \<in> set (ids a A)" using ok(4) [of a] assms(2) by auto
  then have same: "filter (\<lambda>j. j \<noteq> i) (W b) = W b" for b
    using others_keep [OF assms(1), of i a b] filter_other [OF assms(3)] by (cases "b = a") simp_all
  show ?thesis
  proof (rule queue_okI)
    fix b
    show "on_track (filter (\<lambda>j. j \<noteq> i) (W b)) ((Y(a := rest)) b)"
      using track_tail [OF ok(3) [of a, unfolded assms(2)] assms(3)] ok(3) [of b] by (simp add: same)
    show "set ((Y(a := rest)) b) \<subseteq> set (ids b A)" using ok(4) [of b] assms(2) by auto
  qed (simp_all add: same ok(1,2))
qed

section \<open>What the operations do to the queues\<close>

lemma logs_keep [simp]:
  "st_pending (notify k c t x s) = st_pending s" "st_outbox (notify k c t x s) = st_outbox s"
  "st_pending (log_history h y j s) = st_pending s" "st_outbox (log_history h y j s) = st_outbox s"
  "st_pending (keep_draft d s) = st_pending s" "st_outbox (keep_draft d s) = st_outbox s"
  by (simp_all add: notify_def log_history_def keep_draft_def)

lemma caches_keep [simp]:
  "st_pending (set_messages k ms s) = st_pending s" "st_outbox (set_messages k ms s) = st_outbox s"
  "st_pending (mark_message k u x s) = st_pending s" "st_outbox (mark_message k u x s) = st_outbox s"
  "st_pending (mark_detail j x s) = st_pending s" "st_outbox (mark_detail j x s) = st_outbox s"
  "st_pending (move_cached a f u t m out s) = st_pending s" "st_outbox (move_cached a f u t m out s) = st_outbox s"
  by (auto simp: set_messages_def mark_message_def mark_detail_def move_cached_def remove_detail_def Let_def split: option.splits)

lemma ids_same:
  "st_outbox s' = st_outbox s \<Longrightarrow> outbox_ids b s' = outbox_ids b s"
  "st_pending s' = st_pending s \<Longrightarrow> pending_ids b s' = pending_ids b s"
  by (simp_all add: outbox_ids_def outbox_of_def pending_ids_def pending_of_def)

lemma sent_answer:
  assumes "send_answer d snapshot result e i now s = Inr s'"
  shows "st_pending s' = st_pending s"
    "st_outbox s' = st_outbox s @ (if sr_queued result then [\<lparr>ob_id = sr_message_id result, ob_draft = d, ob_created = now,
        ob_attempts = 0, ob_last_error = e\<rparr>] else [])"
  using assms by (auto simp: send_answer_def Let_def classifySendResult_def split: sum.splits if_splits)

lemma flags_answered:
  assumes "flags_answer a path uid patch v e i now s = Inr s'"
  shows "st_outbox s' = st_outbox s" "st_pending s' = st_pending s \<or> (\<exists>p. st_pending s' = st_pending s @ [p] \<and> po_id p = i \<and> po_account p = a)"
  using assms by (auto simp: flags_answer_def queue_pending_def Let_def split: sum.splits option.splits if_splits)

lemma move_answered:
  assumes "move_answer a path uid destination v out e i now s = Inr s'"
  shows "st_outbox s' = st_outbox s" "st_pending s' = st_pending s \<or> (\<exists>p. st_pending s' = st_pending s @ [p] \<and> po_id p = i \<and> po_account p = a)"
  using assms by (auto simp: move_answer_def queue_pending_def Let_def split: sum.splits option.splits if_splits)

lemma filter_removed: "filter (\<lambda>x. f x = b) (filter (\<lambda>x. f x \<noteq> a) xs) = (if b = a then [] else filter (\<lambda>x. f x = b) xs)"
  by (induction xs) auto

lemma removed_queues:
  "find (\<lambda>c. ac_id c = a) (st_accounts s) \<noteq> None \<Longrightarrow>
   st_outbox (removeAccount a s) = filter (\<lambda>b. cd_account (ob_draft b) \<noteq> a) (st_outbox s)
   \<and> st_pending (removeAccount a s) = filter (\<lambda>p. po_account p \<noteq> a) (st_pending s)"
  unfolding removeAccount_def forget_cached_def Let_def by (cases "find (\<lambda>c. ac_id c = a) (st_accounts s)") simp_all

lemma removed_ids:
  "removeAccount a s = s \<or> (\<forall>b. outbox_ids b (removeAccount a s) = (if b = a then [] else outbox_ids b s)
     \<and> pending_ids b (removeAccount a s) = (if b = a then [] else pending_ids b s))"
proof (cases "find (\<lambda>c. ac_id c = a) (st_accounts s) = None")
  case True
  then show ?thesis by (simp add: removeAccount_def)
next
  case False
  from removed_queues [OF this] show ?thesis
    by (simp only: outbox_ids_def pending_ids_def outbox_of_def pending_of_def filter_removed) simp
qed

lemma dropped_ids:
  "outbox_ids b (drop_outbox i s) = filter (\<lambda>j. j \<noteq> i) (outbox_ids b s)" "pending_ids b (drop_outbox i s) = pending_ids b s"
  "pending_ids b (drop_pending i s) = filter (\<lambda>j. j \<noteq> i) (pending_ids b s)" "outbox_ids b (drop_pending i s) = outbox_ids b s"
  by (simp_all add: drop_outbox_def drop_pending_def outbox_ids_def outbox_of_def pending_ids_def pending_of_def filter_map comp_def conj_commute)

lemma found_ids:
  "find_outbox s a i = Some x \<Longrightarrow> i \<in> set (outbox_ids a s)" "find_pending s a i = Some y \<Longrightarrow> i \<in> set (pending_ids a s)"
  by (auto simp: find_outbox_def find_pending_def outbox_ids_def outbox_of_def pending_ids_def pending_of_def dest!: find_Some_mem)

lemma deliver_answered:
  assumes "deliver_answer a b sent i s = Inr s'"
  shows "st_pending s' = st_pending s" "st_outbox s' = st_outbox (drop_outbox (ob_id b) s)" "ob_id b \<in> set (outbox_ids a s)"
  using assms by (auto simp: deliver_answer_def Let_def drop_outbox_def dest: found_ids split: sum.splits option.splits if_splits)

lemma cancel_answered:
  assumes "cancelOutbox a i s = Inr (s', d)"
  shows "st_pending s' = st_pending s" "st_outbox s' = st_outbox (drop_outbox i s)" "i \<in> set (outbox_ids a s)"
  using assms by (auto simp: cancelOutbox_def Let_def drop_outbox_def dest: found_ids split: sum.splits option.splits if_splits)

lemma discard_answered:
  assumes "discardPendingOperation a i s = Inr s'"
  shows "st_outbox s' = st_outbox s" "st_pending s' = st_pending (drop_pending i s)" "i \<in> set (pending_ids a s)"
  using assms by (auto simp: discardPendingOperation_def drop_pending_def dest: found_ids split: sum.splits option.splits)

lemma pending_answered:
  assumes "pending_answer a i category action s = Inr s'"
  shows "st_outbox s' = st_outbox s" "st_pending s' = st_pending (drop_pending i s)"
  using assms by (auto simp: pending_answer_def drop_pending_def split: sum.splits)

lemma identity_deleted:
  assumes "deleteIdentity rt i s = Inr s'"
  shows "outbox_ids b s' = outbox_ids b s" "st_pending s' = st_pending s"
proof -
  have same: "cd_account (forget_identity i d) = cd_account d" for d by (simp add: forget_identity_def)
  from assms show "outbox_ids b s' = outbox_ids b s"
    by (auto simp: deleteIdentity_def outbox_ids_def outbox_of_def filter_map comp_def same split: sum.splits)
  from assms show "st_pending s' = st_pending s" by (auto simp: deleteIdentity_def split: sum.splits)
qed

lemma change_first_same:
  assumes "change_first P f xs = Some (y, ys)" "\<And>x. g (f x) = g x" "\<And>x. h (f x) = h x"
  shows "map g (filter (\<lambda>x. h x = b) ys) = map g (filter (\<lambda>x. h x = b) xs)"
  using assms(1)
proof (induction xs arbitrary: ys)
  case (Cons x xs)
  show ?case
  proof (cases "P x")
    case True
    with Cons.prems have "ys = f x # xs" by auto
    then show ?thesis by (simp only: filter.simps list.map assms(2,3))  (simp add: assms(2))
  next
    case False
    with Cons.prems obtain zs where "change_first P f xs = Some (y, zs)" "ys = x # zs" by auto
    with Cons.IH show ?thesis by simp
  qed
qed simp

lemma failure_keeps:
  "outbox_ids b (recordOutboxFailure i e s) = outbox_ids b s" "st_pending (recordOutboxFailure i e s) = st_pending s"
  "pending_ids b (recordPendingFailure i e s) = pending_ids b s" "st_outbox (recordPendingFailure i e s) = st_outbox s"
proof -
  have "map ob_id (filter (\<lambda>x. cd_account (ob_draft x) = b) ys) = map ob_id (filter (\<lambda>x. cd_account (ob_draft x) = b) (st_outbox s))"
    if "change_first (\<lambda>b. ob_id b = i) (\<lambda>b. b\<lparr>ob_attempts := ob_attempts b + 1, ob_last_error := e\<rparr>) (st_outbox s) = Some (y, ys)" for y ys
    using that by (rule change_first_same) simp_all
  then show "outbox_ids b (recordOutboxFailure i e s) = outbox_ids b s"
    by (simp add: recordOutboxFailure_def outbox_ids_def outbox_of_def Let_def split: option.split)
  have "map po_id (filter (\<lambda>x. po_account x = b) ys) = map po_id (filter (\<lambda>x. po_account x = b) (st_pending s))"
    if "change_first (\<lambda>p. po_id p = i) (\<lambda>p. p\<lparr>po_attempts := po_attempts p + 1, po_last_error := e\<rparr>) (st_pending s) = Some (y, ys)" for y ys
    using that by (rule change_first_same) simp_all
  then show "pending_ids b (recordPendingFailure i e s) = pending_ids b s"
    by (simp add: recordPendingFailure_def pending_ids_def pending_of_def Let_def split: option.split)
  show "st_pending (recordOutboxFailure i e s) = st_pending s" "st_outbox (recordPendingFailure i e s) = st_outbox s"
    by (simp_all add: recordOutboxFailure_def recordPendingFailure_def Let_def split: option.split)
qed

section \<open>The invariant of a run\<close>

definition pending_flying :: "flight option \<Rightarrow> string list" where
  "pending_flying f =
     (case f of Some (RetryingPending p) \<Rightarrow> [po_id p] | Some (ReplayingPending p rest s) \<Rightarrow> map po_id (p # rest) | _ \<Rightarrow> [])"

definition outbox_flying :: "flight option \<Rightarrow> string list" where
  "outbox_flying f =
     (case f of Some (RetryingOutbox b) \<Rightarrow> [ob_id b] | Some (ReplayingOutbox b rest) \<Rightarrow> map ob_id (b # rest) | _ \<Rightarrow> [])"

definition flights_of :: "run \<Rightarrow> string \<Rightarrow> flight option" where
  "flights_of r = map_of (rn_flights r)"

definition run_ok :: "run \<Rightarrow> bool" where
  "run_ok r =
     (queue_ok (rn_arrived r) (rn_finished r) (\<lambda>a. outbox_ids a (rn_state r)) (outbox_flying \<circ> flights_of r)
      \<and> queue_ok (rn_changes r) (rn_synced r) (\<lambda>a. pending_ids a (rn_state r)) (pending_flying \<circ> flights_of r)
      \<and> count_list (rn_sent r) = (\<lambda>e. count_list (rn_finished r) e + count_list (rn_lost r) e))"

lemma flights_of_simps [simp]:
  "flights_of (start_flight a f r) = (flights_of r)(a := Some f)"
  "flights_of (r\<lparr>rn_flights := AList.update a f (rn_flights r)\<rparr>) = (flights_of r)(a := Some f)"
  "flights_of (end_flight a r) = (flights_of r)(a := None)"
  "flights_of (r\<lparr>rn_state := s\<rparr>) = flights_of r" "flights_of (r\<lparr>rn_arrived := es\<rparr>) = flights_of r"
  "flights_of (r\<lparr>rn_changes := es\<rparr>) = flights_of r" "flights_of (r\<lparr>rn_synced := es\<rparr>) = flights_of r"
  "flights_of (r\<lparr>rn_sent := es\<rparr>) = flights_of r" "flights_of (r\<lparr>rn_finished := es\<rparr>) = flights_of r"
  "flights_of (r\<lparr>rn_lost := es\<rparr>) = flights_of r" "flights_of (r\<lparr>rn_restored := n\<rparr>) = flights_of r"
  by (auto simp: flights_of_def map_of_update map_of_delete fun_eq_iff)

lemma flying_update: "flying \<circ> (F(a := f)) = (flying \<circ> F)(a := flying f)"
  by (simp add: fun_eq_iff)

lemma flying_none [simp]: "pending_flying None = []" "outbox_flying None = []"
  by (simp_all add: pending_flying_def outbox_flying_def)

lemma flying_in_flight:
  "pending_in_flight f = Some p \<Longrightarrow> \<exists>rest. pending_flying (Some f) = po_id p # rest"
  "pending_in_flight f = Some p \<Longrightarrow> outbox_flying (Some f) = []"
  "outbox_in_flight f = Some b \<Longrightarrow> \<exists>rest. outbox_flying (Some f) = ob_id b # rest"
  "outbox_in_flight f = Some b \<Longrightarrow> pending_flying (Some f) = []"
  by (cases f; simp add: pending_flying_def outbox_flying_def)+

lemma run_okD:
  assumes "run_ok r"
  shows "queue_ok (rn_arrived r) (rn_finished r) (\<lambda>a. outbox_ids a (rn_state r)) (outbox_flying \<circ> flights_of r)"
    "queue_ok (rn_changes r) (rn_synced r) (\<lambda>a. pending_ids a (rn_state r)) (pending_flying \<circ> flights_of r)"
    "count_list (rn_sent r) = (\<lambda>e. count_list (rn_finished r) e + count_list (rn_lost r) e)"
  using assms by (simp_all add: run_ok_def)

text \<open>A flight ends, keeps what it was about to do, or takes on the front of the queue.\<close>

lemma queue_fly: "queue_ok A F W Y \<Longrightarrow> ys = [] \<or> ys = Y a \<or> (\<exists>later. W a = ys @ later) \<Longrightarrow> queue_ok A F W (Y(a := ys))"
  using queue_land queue_take by (metis fun_upd_triv)

lemma flights_continue [simp]: "flights_of (continue_with a f r) = (flights_of r)(a := f)"
  by (simp add: continue_with_def split: option.split)

lemma continue_keeps [simp]:
  "rn_state (continue_with a f r) = rn_state r" "rn_arrived (continue_with a f r) = rn_arrived r"
  "rn_finished (continue_with a f r) = rn_finished r" "rn_changes (continue_with a f r) = rn_changes r"
  "rn_synced (continue_with a f r) = rn_synced r" "rn_sent (continue_with a f r) = rn_sent r"
  "rn_lost (continue_with a f r) = rn_lost r" "rn_restored (continue_with a f r) = rn_restored r"
  by (simp_all add: continue_with_def split: option.split)

lemma end_flight_is_continue: "end_flight a r = continue_with a None r"
  by (simp add: continue_with_def)

lemma run_ok_start: "run_ok (start_flight a f r) = run_ok (continue_with a (Some f) r)"
  by (simp add: run_ok_def)

lemma run_okI:
  assumes "queue_ok (rn_arrived r) (rn_finished r) (\<lambda>b. outbox_ids b (rn_state r)) Yo"
    "queue_ok (rn_changes r) (rn_synced r) (\<lambda>b. pending_ids b (rn_state r)) Yp"
    "Yo(a := []) = (outbox_flying \<circ> flights_of r)(a := [])" "Yp(a := []) = (pending_flying \<circ> flights_of r)(a := [])"
    "outbox_flying f = [] \<or> outbox_flying f = Yo a \<or> (\<exists>later. outbox_ids a (rn_state r) = outbox_flying f @ later)"
    "pending_flying f = [] \<or> pending_flying f = Yp a \<or> (\<exists>later. pending_ids a (rn_state r) = pending_flying f @ later)"
    "count_list (rn_sent r) = (\<lambda>e. count_list (rn_finished r) e + count_list (rn_lost r) e)"
  shows "run_ok (continue_with a f r)"
proof -
  have "Yo(a := y) = (outbox_flying \<circ> flights_of r)(a := y)" "Yp(a := y) = (pending_flying \<circ> flights_of r)(a := y)" for y
    using assms(3,4) by (metis fun_upd_upd)+
  with queue_fly [OF assms(1), of "outbox_flying f" a] queue_fly [OF assms(2), of "pending_flying f" a] assms(5-7)
  show ?thesis by (simp add: run_ok_def flying_update)
qed

text \<open>The flights of the loops of \<open>#replayPending\<close>.\<close>

lemma replay_outbox_flying:
  "outbox_flying (replay_outbox items) = [] \<or> outbox_flying (replay_outbox items) = map ob_id items"
  "pending_flying (replay_outbox items) = []"
  by (cases items; simp add: replay_outbox_def next_outbox_def outbox_flying_def pending_flying_def)+

lemma replay_pending_flying:
  "pending_flying (replayPending a snapshot ops s) = [] \<or> pending_flying (replayPending a snapshot ops s) = map po_id ops"
  "outbox_flying (replayPending a snapshot ops s) = [] \<or> outbox_flying (replayPending a snapshot ops s) = outbox_ids a s"
proof -
  have items: "outbox_to_replay s a = [] \<or> outbox_to_replay s a = outbox_of a s" by (simp add: outbox_to_replay_def)
  have ops: "ops = p # tl ops" if "next_pending snapshot ops = Some p" for p
    using that by (cases ops) (auto simp: next_pending_def split: if_splits)
  show "pending_flying (replayPending a snapshot ops s) = [] \<or> pending_flying (replayPending a snapshot ops s) = map po_id ops"
  proof (cases "next_pending snapshot ops")
    case None
    then show ?thesis by (simp add: replayPending_def replay_outbox_flying)
  next
    case (Some p)
    then have "map po_id ops = map po_id (p # tl ops)" using ops by metis
    with Some show ?thesis by (simp add: replayPending_def pending_flying_def)
  qed
  show "outbox_flying (replayPending a snapshot ops s) = [] \<or> outbox_flying (replayPending a snapshot ops s) = outbox_ids a s"
    using replay_outbox_flying(1) [of "outbox_to_replay s a"] items
    by (cases "next_pending snapshot ops") (auto simp: replayPending_def outbox_ids_def, auto simp: outbox_flying_def)
qed

lemma after_pending_flying:
  assumes "pending_in_flight f = Some p" "pending_flying (Some f) = po_id p # rest"
  shows "pending_flying (after_pending a f s) = [] \<or> pending_flying (after_pending a f s) = rest"
    "outbox_flying (after_pending a f s) = [] \<or> outbox_flying (after_pending a f s) = outbox_ids a s"
  using assms replay_pending_flying by (cases f; force simp: after_pending_def pending_flying_def)+

lemma after_outbox_flying:
  assumes "outbox_in_flight f = Some b" "outbox_flying (Some f) = ob_id b # rest"
  shows "outbox_flying (after_outbox f) = [] \<or> outbox_flying (after_outbox f) = rest" "pending_flying (after_outbox f) = []"
  using assms replay_outbox_flying by (cases f; force simp: after_outbox_def outbox_flying_def)+

section \<open>Every step keeps the invariant\<close>

lemma step_land:
  assumes "run_ok r" "\<And>b. outbox_ids b s = outbox_ids b (rn_state r)" "\<And>b. pending_ids b s = pending_ids b (rn_state r)"
  shows "run_ok (r\<lparr>rn_state := s\<rparr>)" "run_ok (end_flight a (r\<lparr>rn_state := s\<rparr>))"
proof -
  show 1: "run_ok (r\<lparr>rn_state := s\<rparr>)" using assms by (simp add: run_ok_def)
  show "run_ok (end_flight a (r\<lparr>rn_state := s\<rparr>))"
    unfolding end_flight_is_continue by (rule run_okI [OF run_okD(1,2) [OF 1]]) (simp_all add: run_okD(3) [OF 1, simplified])
qed

lemma step_end: "run_ok r \<Longrightarrow> run_ok (end_flight a r)"
  using step_land(2) [of r "rn_state r" a] by simp

lemma step_takeoff:
  assumes "run_ok r" "outbox_flying f = [] \<or> (\<exists>later. outbox_ids a (rn_state r) = outbox_flying f @ later)"
    "pending_flying f = [] \<or> (\<exists>later. pending_ids a (rn_state r) = pending_flying f @ later)"
  shows "run_ok (continue_with a f r)"
  by (rule run_okI [OF run_okD(1,2) [OF assms(1)]]) (use assms(2,3) run_okD(3) [OF assms(1)] in auto)

lemma step_begin:
  assumes "run_ok r" "outbox_flying f = [] \<or> (\<exists>later. outbox_ids a (rn_state r) = outbox_flying f @ later)"
    "pending_flying f = [] \<or> (\<exists>later. pending_ids a (rn_state r) = pending_flying f @ later)"
  shows "run_ok (begin_with a f r)"
  using step_takeoff [OF assms] assms(1) by (cases f) (simp_all only: begin_with_def option.case run_ok_start)

lemma start_flight_is_begin: "start_flight a f r = begin_with a (Some f) r"
  by (simp add: begin_with_def)

lemma find_first: "find P xs = Some x \<Longrightarrow> \<exists>later. filter P xs = x # later"
  by (induction xs) (auto split: if_splits)

lemma queue_head_ids:
  "queueHead s a = Some (PendingEntry i) \<Longrightarrow> \<exists>later. pending_ids a s = i # later"
  "queueHead s a = Some (OutboxEntry i) \<Longrightarrow> \<exists>later. outbox_ids a s = i # later"
  by (auto simp: queueHead_def pending_ids_def pending_of_def outbox_ids_def outbox_of_def
      split: option.splits dest!: find_first)

lemma retry_heads:
  "retry_pending_request s a i = Inr p \<Longrightarrow> queueHead s a = Some (PendingEntry i) \<and> po_id p = i"
  "retry_outbox_request s a i = Inr b \<Longrightarrow> queueHead s a = Some (OutboxEntry i) \<and> ob_id b = i"
  by (auto simp: retry_pending_request_def retry_outbox_request_def assertQueueHead_def find_pending_def find_outbox_def
      dest!: find_Some_mem split: sum.splits option.splits if_splits)

lemma started_flying:
  "pending_flying (Some (RetryingPending p)) = [po_id p]" "outbox_flying (Some (RetryingPending p)) = []"
  "pending_flying (Some (RetryingOutbox b)) = []" "outbox_flying (Some (RetryingOutbox b)) = [ob_id b]"
  "pending_flying (Some (Discarding i)) = []" "outbox_flying (Some (Discarding i)) = []"
  "pending_flying (Some (Cancelling i)) = []" "outbox_flying (Some (Cancelling i)) = []"
  by (simp_all add: pending_flying_def outbox_flying_def)

lemma after_failure_flying:
  "pending_flying (after_failure a f s) = []"
  "outbox_flying (after_failure a f s) = [] \<or> outbox_flying (after_failure a f s) = outbox_ids a s"
proof -
  have items: "outbox_to_replay s a = [] \<or> outbox_to_replay s a = outbox_of a s" by (simp add: outbox_to_replay_def)
  show "pending_flying (after_failure a f s) = []" by (cases f) (simp_all add: after_failure_def replay_outbox_flying)
  show "outbox_flying (after_failure a f s) = [] \<or> outbox_flying (after_failure a f s) = outbox_ids a s"
    using replay_outbox_flying(1) [of "outbox_to_replay s a"] items by (cases f) (auto simp: after_failure_def outbox_ids_def)
qed

lemma step_arrive:
  assumes "run_ok r" "st_pending s = st_pending (rn_state r)"
    "st_outbox s = st_outbox (rn_state r) @ [b]" "cd_account (ob_draft b) = a" "ob_id b \<notin> set (map snd (rn_arrived r))"
  shows "run_ok (r\<lparr>rn_state := s, rn_arrived := rn_arrived r @ [(a, ob_id b)]\<rparr>)"
proof -
  have "outbox_ids c s = ((\<lambda>c. outbox_ids c (rn_state r))(a := outbox_ids a (rn_state r) @ [ob_id b])) c" for c
    using assms(3,4) by (simp add: outbox_ids_def outbox_of_def)
  then have "(\<lambda>c. outbox_ids c s) = (\<lambda>c. outbox_ids c (rn_state r))(a := outbox_ids a (rn_state r) @ [ob_id b])" by (rule ext)
  moreover have "pending_ids c s = pending_ids c (rn_state r)" for c using assms(2) by (rule ids_same)
  ultimately show ?thesis
    using queue_arrive [OF run_okD(1) [OF assms(1)] assms(5), of a] run_okD(2,3) [OF assms(1)] by (simp add: run_ok_def)
qed

lemma step_change:
  assumes "run_ok r" "st_outbox s = st_outbox (rn_state r)"
    "st_pending s = st_pending (rn_state r) \<or> (\<exists>p. st_pending s = st_pending (rn_state r) @ [p] \<and> po_id p = i \<and> po_account p = a)"
    "i \<notin> set (map snd (rn_changes r))"
  shows "run_ok (r\<lparr>rn_state := s, rn_changes := rn_changes r @ (if st_pending s = st_pending (rn_state r) then [] else [(a, i)])\<rparr>)"
proof (cases "st_pending s = st_pending (rn_state r)")
  case True
  have "run_ok (r\<lparr>rn_state := s\<rparr>)" by (rule step_land(1) [OF assms(1) ids_same(1) [OF assms(2)] ids_same(2) [OF True]])
  with True show ?thesis by simp
next
  case False
  with assms(3) obtain p where p: "st_pending s = st_pending (rn_state r) @ [p]" "po_id p = i" "po_account p = a" by auto
  then have "pending_ids c s = ((\<lambda>c. pending_ids c (rn_state r))(a := pending_ids a (rn_state r) @ [i])) c" for c
    by (simp add: pending_ids_def pending_of_def)
  then have "(\<lambda>c. pending_ids c s) = (\<lambda>c. pending_ids c (rn_state r))(a := pending_ids a (rn_state r) @ [i])" by (rule ext)
  moreover have "outbox_ids c s = outbox_ids c (rn_state r)" for c using assms(2) by (rule ids_same)
  ultimately show ?thesis
    using queue_arrive [OF run_okD(2) [OF assms(1)] assms(4), of a] run_okD(1,3) [OF assms(1)] p(1) by (simp add: run_ok_def)
qed

lemma step_removed: "run_ok r \<Longrightarrow> run_ok (r\<lparr>rn_state := removeAccount a (rn_state r)\<rparr>)"
proof -
  assume ok: "run_ok r"
  show ?thesis
  proof (cases "removeAccount a (rn_state r) = rn_state r")
    case True
    then show ?thesis using ok by simp
  next
    case False
    from removed_ids [of a "rn_state r"] False
    have "(\<lambda>b. outbox_ids b (removeAccount a (rn_state r))) = (\<lambda>b. outbox_ids b (rn_state r))(a := [])"
      "(\<lambda>b. pending_ids b (removeAccount a (rn_state r))) = (\<lambda>b. pending_ids b (rn_state r))(a := [])"
      by (simp_all add: fun_eq_iff)
    with queue_forget [OF run_okD(1) [OF ok], of a] queue_forget [OF run_okD(2) [OF ok], of a] run_okD(3) [OF ok]
    show ?thesis by (simp add: run_ok_def)
  qed
qed

lemma step_cancelled:
  assumes ok: "run_ok r" and f: "flights_of r a = Some f" "outbox_flying (Some f) = []"
    and s: "st_pending s = st_pending (rn_state r)" "st_outbox s = st_outbox (drop_outbox i (rn_state r))"
      "i \<in> set (outbox_ids a (rn_state r))"
  shows "run_ok (end_flight a (r\<lparr>rn_state := s\<rparr>))"
proof -
  have ids: "outbox_ids b s = filter (\<lambda>j. j \<noteq> i) (outbox_ids b (rn_state r))" "pending_ids b s = pending_ids b (rn_state r)" for b
    using ids_same(1) [OF s(2)] dropped_ids(1) [of b i "rn_state r"] ids_same(2) [OF s(1)] by simp_all
  have "run_ok (r\<lparr>rn_state := s\<rparr>)"
    using queue_drop [OF run_okD(1) [OF ok], of a i] run_okD(2,3) [OF ok] f s(3) by (simp add: run_ok_def ids)
  then show ?thesis by (rule step_end)
qed

lemma step_discarded:
  assumes ok: "run_ok r" and f: "flights_of r a = Some f" "pending_flying (Some f) = []"
    and s: "st_outbox s = st_outbox (rn_state r)" "st_pending s = st_pending (drop_pending i (rn_state r))"
      "i \<in> set (pending_ids a (rn_state r))"
  shows "run_ok (end_flight a (r\<lparr>rn_state := s\<rparr>))"
proof -
  have ids: "pending_ids b s = filter (\<lambda>j. j \<noteq> i) (pending_ids b (rn_state r))" "outbox_ids b s = outbox_ids b (rn_state r)" for b
    using ids_same(2) [OF s(2)] dropped_ids(3) [of b i "rn_state r"] ids_same(1) [OF s(1)] by simp_all
  have "run_ok (r\<lparr>rn_state := s\<rparr>)"
    using queue_drop [OF run_okD(2) [OF ok], of a i] run_okD(1,3) [OF ok] f s(3) by (simp add: run_ok_def ids)
  then show ?thesis by (rule step_end)
qed

lemma step_synced:
  assumes ok: "run_ok r" and f: "flights_of r a = Some f" "pending_in_flight f = Some p"
    and s: "st_outbox s = st_outbox (rn_state r)" "st_pending s = st_pending (drop_pending (po_id p) (rn_state r))"
  shows "run_ok (continue_with a (after_pending a f s)
           (r\<lparr>rn_state := s, rn_synced := rn_synced r @ sync_log a (po_id p) (rn_state r)\<rparr>))"
proof -
  obtain rest where rest: "pending_flying (Some f) = po_id p # rest" using flying_in_flight(1) [OF f(2)] by blast
  have ids: "pending_ids b s = filter (\<lambda>j. j \<noteq> po_id p) (pending_ids b (rn_state r))" "outbox_ids b s = outbox_ids b (rn_state r)" for b
    using ids_same(2) [OF s(2)] dropped_ids(3) [of b "po_id p" "rn_state r"] ids_same(1) [OF s(1)] by simp_all
  have head: "(pending_flying \<circ> flights_of r) a = po_id p # rest" using f rest by simp
  have "queue_ok (rn_changes r) (rn_synced r @ sync_log a (po_id p) (rn_state r))
          (\<lambda>b. filter (\<lambda>j. j \<noteq> po_id p) (pending_ids b (rn_state r))) ((pending_flying \<circ> flights_of r)(a := rest))"
  proof (cases "po_id p \<in> set (pending_ids a (rn_state r))")
    case True
    from queue_finish [OF run_okD(2) [OF ok] head True] True show ?thesis unfolding sync_log_def by (simp only: if_True)
  next
    case False
    from queue_miss [OF run_okD(2) [OF ok] head False] False show ?thesis
      unfolding sync_log_def by (simp only: if_False append_Nil2)
  qed
  then have synced: "queue_ok (rn_changes r) (rn_synced r @ sync_log a (po_id p) (rn_state r)) (\<lambda>b. pending_ids b s)
          ((pending_flying \<circ> flights_of r)(a := rest))"
    unfolding ids(1) .
  from run_okD(1) [OF ok] have outbox: "queue_ok (rn_arrived r) (rn_finished r) (\<lambda>b. outbox_ids b s) (outbox_flying \<circ> flights_of r)"
    by (simp add: ids(2))
  show ?thesis
    by (rule run_okI [where Yo = "outbox_flying \<circ> flights_of r" and Yp = "(pending_flying \<circ> flights_of r)(a := rest)"])
      (use synced outbox after_pending_flying [OF f(2) rest, of a s] run_okD(3) [OF ok] in auto)
qed

lemma step_sent:
  assumes ok: "run_ok r" and f: "flights_of r a = Some f" "outbox_in_flight f = Some b"
    and s: "st_pending s = st_pending (rn_state r)" "st_outbox s = st_outbox (drop_outbox (ob_id b) (rn_state r))"
      "ob_id b \<in> set (outbox_ids a (rn_state r))"
  shows "run_ok (continue_with a (after_outbox f)
           (r\<lparr>rn_state := s, rn_sent := rn_sent r @ [(a, ob_id b)], rn_finished := rn_finished r @ [(a, ob_id b)]\<rparr>))"
proof -
  obtain rest where rest: "outbox_flying (Some f) = ob_id b # rest" using flying_in_flight(3) [OF f(2)] by blast
  have ids: "outbox_ids c s = filter (\<lambda>j. j \<noteq> ob_id b) (outbox_ids c (rn_state r))" "pending_ids c s = pending_ids c (rn_state r)" for c
    using ids_same(1) [OF s(2)] dropped_ids(1) [of c "ob_id b" "rn_state r"] ids_same(2) [OF s(1)] by simp_all
  have head: "(outbox_flying \<circ> flights_of r) a = ob_id b # rest" using f rest by simp
  from queue_finish [OF run_okD(1) [OF ok] head s(3)]
  have sent: "queue_ok (rn_arrived r) (rn_finished r @ [(a, ob_id b)]) (\<lambda>c. outbox_ids c s)
          ((outbox_flying \<circ> flights_of r)(a := rest))"
    unfolding ids(1) .
  from run_okD(2) [OF ok] have pending: "queue_ok (rn_changes r) (rn_synced r) (\<lambda>c. pending_ids c s) (pending_flying \<circ> flights_of r)"
    by (simp add: ids(2))
  show ?thesis
    by (rule run_okI [where Yp = "pending_flying \<circ> flights_of r" and Yo = "(outbox_flying \<circ> flights_of r)(a := rest)"])
      (use sent pending after_outbox_flying [OF f(2) rest] run_okD(3) [OF ok] in \<open>auto simp: fun_eq_iff\<close>)
qed

lemma step_stopped: "run_ok r \<Longrightarrow> run_ok (r\<lparr>rn_flights := []\<rparr>)"
proof -
  assume ok: "run_ok r"
  have none: "(outbox_flying \<circ> flights_of (r\<lparr>rn_flights := []\<rparr>)) = (\<lambda>a. [])" "(pending_flying \<circ> flights_of (r\<lparr>rn_flights := []\<rparr>)) = (\<lambda>a. [])"
    by (simp_all add: flights_of_def fun_eq_iff)
  have "queue_ok A F W (\<lambda>a. [])" if "queue_ok A F W Y" for A F W Y
    by (rule queue_okI) (simp_all add: queue_okD(1,2) [OF that])
  with none run_okD [OF ok] show ?thesis by (simp add: run_ok_def)
qed

lemma step_lost: "run_ok r \<Longrightarrow> run_ok (end_flight a (r\<lparr>rn_sent := rn_sent r @ [e], rn_lost := rn_lost r @ [e]\<rparr>))"
  unfolding end_flight_is_continue
  by (rule run_okI [where Yo = "outbox_flying \<circ> flights_of r" and Yp = "pending_flying \<circ> flights_of r"])
    (auto simp: run_okD fun_eq_iff dest: run_okD)

text \<open>Restoring a revision is the exception: it puts any earlier queues in place of the present ones.\<close>

lemma queue_step_restored: "queue_step r r' \<Longrightarrow> rn_restored r \<le> rn_restored r'"
  by (induction rule: queue_step.induct) (simp_all add: begin_with_def continue_with_def split: option.split)

theorem queue_step_keeps_run_ok:
  assumes "queue_step r r'" "run_ok r" "rn_restored r' = rn_restored r"
  shows "run_ok r'"
  using assms(1)
proof cases
  case (sent_now d snapshot result e i now s)
  note a = sent_answer [OF sent_now(2)]
  show ?thesis unfolding sent_now(1) by (rule step_land(1) [OF assms(2) ids_same(1) ids_same(2)]) (use a sent_now(3) in simp_all)
next
  case (sent_later d snapshot result e i now s)
  note a = sent_answer [OF sent_later(2)]
  show ?thesis unfolding sent_later(1)
    using step_arrive [OF assms(2) a(1), of "\<lparr>ob_id = sr_message_id result, ob_draft = d, ob_created = now, ob_attempts = 0, ob_last_error = e\<rparr>"
      "cd_account d"] a(2) sent_later(3,4) by simp
next
  case (flags_set a path uid patch v e i now s)
  show ?thesis unfolding flags_set(1) by (rule step_change [OF assms(2) flags_answered [OF flags_set(2)] flags_set(3)])
next
  case (moved a path uid destination v out e i now s)
  show ?thesis unfolding moved(1) by (rule step_change [OF assms(2) move_answered [OF moved(2)] moved(3)])
next
  case (account_removed a)
  show ?thesis unfolding account_removed(1) by (rule step_removed [OF assms(2)])
next
  case (identity_removed rt i s)
  note a = identity_deleted [OF identity_removed(2)]
  show ?thesis unfolding identity_removed(1) by (rule step_land(1) [OF assms(2) a(1) ids_same(2) [OF a(2)]])
next
  case (restored candidate)
  with assms(3) show ?thesis by simp
next
  case (other s)
  show ?thesis unfolding other(1) by (rule step_land(1) [OF assms(2) ids_same(1) [OF other(3)] ids_same(2) [OF other(2)]])
next
  case (retry_pending a i p)
  from retry_heads(1) [OF retry_pending(3)] queue_head_ids(1) [of "rn_state r" a i]
  show ?thesis unfolding retry_pending(1) start_flight_is_begin by (intro step_begin [OF assms(2)]) (auto simp: started_flying)
next
  case (retry_outbox a i b)
  from retry_heads(2) [OF retry_outbox(3)] queue_head_ids(2) [of "rn_state r" a i]
  show ?thesis unfolding retry_outbox(1) start_flight_is_begin by (intro step_begin [OF assms(2)]) (auto simp: started_flying)
next
  case (replay a)
  show ?thesis unfolding replay(1)
    using replay_pending_flying [of a "rn_state r" "pending_of a (rn_state r)" "rn_state r"]
    by (intro step_begin [OF assms(2)]) (auto simp: pending_ids_def)
next
  case (discard_started a i)
  show ?thesis unfolding discard_started(1) start_flight_is_begin by (rule step_begin [OF assms(2)]) (simp_all add: started_flying)
next
  case (cancel_started a i)
  show ?thesis unfolding cancel_started(1) start_flight_is_begin by (rule step_begin [OF assms(2)]) (simp_all add: started_flying)
next
  case (discarded a i s)
  show ?thesis unfolding discarded(1)
    by (rule step_discarded [where f = "Discarding i", OF assms(2) _ _ discard_answered [OF discarded(3)]]) (use discarded(2) in \<open>simp_all add: flights_of_def started_flying\<close>)
next
  case (cancelled a i s d)
  show ?thesis unfolding cancelled(1)
    by (rule step_cancelled [where f = "Cancelling i", OF assms(2) _ _ cancel_answered [OF cancelled(3)]]) (use cancelled(2) in \<open>simp_all add: flights_of_def started_flying\<close>)
next
  case (pending_synced a f p request category action s)
  show ?thesis unfolding pending_synced(1)
    by (rule step_synced [OF assms(2) _ pending_synced(3) pending_answered [OF pending_synced(5)]]) (use pending_synced(2) in \<open>simp add: flights_of_def\<close>)
next
  case (pending_failed a f p s e)
  have "run_ok (r\<lparr>rn_state := s\<rparr>)"
    unfolding pending_failed(4) by (rule step_land(1) [OF assms(2) ids_same(1) [OF failure_keeps(4)] failure_keeps(3)])
  then show ?thesis unfolding pending_failed(1) using after_failure_flying [of a f s]
    by (intro step_takeoff) auto
next
  case (outbox_sent a f b sent i s)
  show ?thesis unfolding outbox_sent(1)
    by (rule step_sent [OF assms(2) _ outbox_sent(3) deliver_answered [OF outbox_sent(4)]]) (use outbox_sent(2) in \<open>simp add: flights_of_def\<close>)
next
  case (outbox_lost a f b)
  show ?thesis unfolding outbox_lost(1) by (rule step_lost [OF assms(2)])
next
  case (outbox_failed a f b e)
  show ?thesis unfolding outbox_failed(1) by (rule step_land(2) [OF assms(2) failure_keeps(1) ids_same(2) [OF failure_keeps(2)]])
next
  case (flight_ended a)
  show ?thesis unfolding flight_ended(1) using step_land(2) [OF assms(2), of "rn_state r" a] by simp
next
  case stopped
  show ?thesis unfolding stopped by (rule step_stopped [OF assms(2)])
qed

section \<open>Reachable runs\<close>

definition start_run :: "mail_state \<Rightarrow> run" where
  "start_run s = \<lparr>rn_state = s, rn_flights = [], rn_arrived = map (\<lambda>b. (cd_account (ob_draft b), ob_id b)) (st_outbox s),
     rn_finished = [], rn_changes = map (\<lambda>p. (po_account p, po_id p)) (st_pending s), rn_synced = [], rn_sent = [], rn_lost = [],
     rn_restored = 0\<rparr>"

inductive queue_reachable :: "mail_state \<Rightarrow> run \<Rightarrow> bool" for s0 where
  loaded: "queue_reachable s0 (start_run s0)"
| stepped: "queue_reachable s0 r \<Longrightarrow> queue_step r r' \<Longrightarrow> queue_reachable s0 r'"

definition entries_distinct :: "mail_state \<Rightarrow> bool" where
  "entries_distinct s = (distinct (map ob_id (st_outbox s)) \<and> distinct (map po_id (st_pending s)))"

lemma loaded_queue: "distinct (map snd es) \<Longrightarrow> queue_ok es [] (\<lambda>a. ids a es) (\<lambda>a. [])"
proof (rule queue_okI)
  assume "distinct (map snd es)"
  moreover have "distinct (map snd (filter P es))" for P using \<open>distinct (map snd es)\<close> by (rule distinct_map_filter)
  ultimately show "fifo (ids a es) (ids a []) (ids a es)" for a by (simp add: fifo_def ids_def)
qed simp_all

lemma start_run_ok: "entries_distinct s \<Longrightarrow> run_ok (start_run s)"
proof -
  assume d: "entries_distinct s"
  have waiting: "outbox_ids a s = ids a (rn_arrived (start_run s))" "pending_ids a s = ids a (rn_changes (start_run s))" for a
    by (simp_all add: start_run_def ids_def outbox_ids_def outbox_of_def pending_ids_def pending_of_def filter_map comp_def)
  have none: "outbox_flying \<circ> flights_of (start_run s) = (\<lambda>a. [])" "pending_flying \<circ> flights_of (start_run s) = (\<lambda>a. [])"
    by (simp_all add: start_run_def flights_of_def fun_eq_iff)
  have "distinct (map snd (rn_arrived (start_run s)))" "distinct (map snd (rn_changes (start_run s)))"
    using d by (simp_all add: entries_distinct_def start_run_def comp_def)
  from this [THEN loaded_queue] show ?thesis
    by (simp add: run_ok_def none waiting [symmetric]) (simp add: start_run_def fun_eq_iff)
qed

lemma reachable_run_ok: "queue_reachable s r \<Longrightarrow> entries_distinct s \<Longrightarrow> rn_restored r = 0 \<Longrightarrow> run_ok r"
proof (induction rule: queue_reachable.induct)
  case (stepped r r')
  from queue_step_restored [OF stepped.hyps(2)] stepped.prems(2) have same: "rn_restored r = 0" by simp
  show ?case
    by (rule queue_step_keeps_run_ok [OF stepped.hyps(2) stepped.IH [OF stepped.prems(1) same]])
      (use same stepped.prems(2) in simp)
qed (rule start_run_ok)

section \<open>What flies\<close>

text \<open>At most one flight per account, and only with entries that may be tried: a change that carries a
  UIDVALIDITY, in an automatic replay one that agreed with the folder when the replay began and has not
  failed three times.\<close>

definition flight_ok :: "flight \<Rightarrow> bool" where
  "flight_ok f =
     (case f of
        RetryingPending p \<Rightarrow> present (po_validity p)
      | ReplayingPending p rest snapshot \<Rightarrow>
          present (po_validity p) \<and> pendingOperationConflict snapshot p = None \<and> po_attempts p < AUTOMATIC_MAIL_QUEUE_ATTEMPT_LIMIT
      | ReplayingOutbox b rest \<Rightarrow> ob_attempts b < AUTOMATIC_MAIL_QUEUE_ATTEMPT_LIMIT
      | _ \<Rightarrow> True)"

definition flights_ok :: "run \<Rightarrow> bool" where
  "flights_ok r = (distinct (map fst (rn_flights r)) \<and> list_all (flight_ok \<circ> snd) (rn_flights r))"










lemma flights_ok_keep [simp]:
  "flights_ok (r\<lparr>rn_state := s\<rparr>) = flights_ok r" "flights_ok (r\<lparr>rn_arrived := es\<rparr>) = flights_ok r"
  "flights_ok (r\<lparr>rn_changes := es\<rparr>) = flights_ok r" "flights_ok (r\<lparr>rn_synced := es\<rparr>) = flights_ok r"
  "flights_ok (r\<lparr>rn_sent := es\<rparr>) = flights_ok r" "flights_ok (r\<lparr>rn_finished := es\<rparr>) = flights_ok r"
  "flights_ok (r\<lparr>rn_lost := es\<rparr>) = flights_ok r" "flights_ok (r\<lparr>rn_flights := []\<rparr>)"
  "flights_ok (r\<lparr>rn_restored := n\<rparr>) = flights_ok r"
  by (simp_all add: flights_ok_def)


lemma plain_flights_ok [simp]: "flight_ok (RetryingOutbox b)" "flight_ok (Discarding i)" "flight_ok (Cancelling i)"
  by (simp_all add: flight_ok_def)


section \<open>Correctness of the queue\<close>


lemma count_ids: "count_list (ids a es) i = count_list es (a, i)"
  by (induction es) (auto simp: ids_def)

lemma count_distinct: "distinct xs \<Longrightarrow> count_list xs x \<le> 1"
  by (induction xs) (auto simp: count_list_0_iff)

text \<open>C5: In every run in which no earlier revision is restored, the server answers the delivery of a queued
  message at most once more often than the store failed to record such an answer, and a message whose
  delivery was recorded is never in the Outbox again.\<close>

theorem queued_mail_is_sent_once:
  assumes "queue_reachable s r" "entries_distinct s" "rn_restored r = 0"
  shows "count_list (rn_sent r) (a, i) \<le> 1 + count_list (rn_lost r) (a, i)
    \<and> set (ids a (rn_finished r)) \<inter> set (outbox_ids a (rn_state r)) = {}"
proof -
  note ok = run_okD [OF reachable_run_ok [OF assms]]
  from fifo_distinct [OF queue_okD(2) [OF ok(1), of a]]
  have d: "distinct (ids a (rn_finished r))" "set (ids a (rn_finished r)) \<inter> set (outbox_ids a (rn_state r)) = {}" by auto
  from count_distinct [OF d(1), of i] have "count_list (rn_finished r) (a, i) \<le> 1" by (simp add: count_ids)
  with d(2) show ?thesis by (simp add: ok(3))
qed


section \<open>A run\<close>

definition example_mail :: mail_state where
  "example_mail = default_state\<lparr>st_accounts := [\<lparr>ac_id = ''a'', ac_display_name = [], ac_email = [],
       ac_incoming = \<lparr>ss_host = [], ss_port = 993, ss_security = Tls, ss_username = []\<rparr>,
       ac_outgoing = \<lparr>ss_host = [], ss_port = 465, ss_security = Tls, ss_username = []\<rparr>,
       ac_auth_mode = Password, ac_oauth_provider = None, ac_kind = ImapAccount, ac_created_at = [],
       ac_last_sync_at = None, ac_sync_error = None\<rparr>],
     st_outbox := [\<lparr>ob_id = ''m1'', ob_draft = \<lparr>cd_id = None, cd_account = ''a'', cd_identity = None, cd_to = [''b@x''], cd_cc = [],
       cd_bcc = [], cd_subject = ''S'', cd_text = ''T'', cd_in_reply_to = None, cd_references = None, cd_attachments = []\<rparr>,
       ob_created = ''t'', ob_attempts = 2, ob_last_error = ''e''\<rparr>]\<rparr>"

definition taken :: send_result where
  "taken = \<lparr>sr_message_id = ''id'', sr_accepted = [''b@x''], sr_rejected = [], sr_queued = False\<rparr>"

text \<open>The replay delivers the message.\<close>

definition example_replay :: run where
  "example_replay = begin_with ''a'' (replayPending ''a'' example_mail (pending_of ''a'' example_mail) example_mail) (start_run example_mail)"

definition example_end :: run where
  "example_end = (let b = hd (st_outbox example_mail); r = example_replay in
     continue_with ''a'' (after_outbox (ReplayingOutbox b []))
       (r\<lparr>rn_state := projr (deliver_answer ''a'' b taken ''n'' (rn_state r)), rn_sent := rn_sent r @ [(''a'', ob_id b)],
          rn_finished := rn_finished r @ [(''a'', ob_id b)]\<rparr>))"

lemmas example_defs = example_end_def example_replay_def example_mail_def taken_def default_state_def start_run_def
  replayPending_def pending_of_def next_pending_def replay_outbox_def outbox_to_replay_def outbox_of_def next_outbox_def
  AUTOMATIC_MAIL_QUEUE_ATTEMPT_LIMIT_def continue_with_def begin_with_def

lemma begin_keeps: "rn_finished (begin_with a f r) = rn_finished r" "rn_sent (begin_with a f r) = rn_sent r"
  "rn_lost (begin_with a f r) = rn_lost r" "rn_restored (begin_with a f r) = rn_restored r"
  by (simp_all add: begin_with_def split: option.split)

lemma example_replaying:
  "rn_state example_replay = example_mail" "map_of (rn_flights example_replay) ''a'' = Some (ReplayingOutbox (hd (st_outbox example_mail)) [])"
  by (simp_all add: example_defs)

lemma example_delivered: "\<exists>s. deliver_answer ''a'' (hd (st_outbox example_mail)) taken ''n'' example_mail = Inr s \<and> st_outbox s = []"
  by (simp add: deliver_answer_def requireAccount_def find_outbox_def classifySendResult_def drop_outbox_def notify_def
      log_history_def Let_def example_mail_def taken_def default_state_def)

lemma example_runs: "queue_reachable example_mail example_replay" "queue_reachable example_mail example_end"
proof -
  have "queue_step (start_run example_mail) example_replay"
    unfolding example_replay_def
    using queue_step.replay [of "start_run example_mail" "''a''"] by (simp add: start_run_def withQueueFlight_def)
  then show replaying: "queue_reachable example_mail example_replay" by (rule stepped [OF loaded])
  obtain s where s: "deliver_answer ''a'' (hd (st_outbox example_mail)) taken ''n'' example_mail = Inr s" using example_delivered by blast
  have "queue_step example_replay example_end"
    unfolding example_end_def Let_def
    by (rule outbox_sent [OF example_replaying(2), where sent = taken and i = "''n''"]) (simp_all add: example_replaying(1) s)
  with replaying show "queue_reachable example_mail example_end" by (rule stepped)
qed

lemma example_distinct: "entries_distinct example_mail"
  by (simp add: entries_distinct_def example_mail_def default_state_def)

lemma example_unrestored: "rn_restored example_end = 0"
  by (simp add: example_end_def example_replay_def begin_keeps start_run_def Let_def)


theorem queued_mail_is_sent_once_witness:
  "rn_sent example_end = [(''a'', ''m1'')] \<and> count_list (rn_sent example_end) (''a'', ''m1'') \<le> 1 + count_list (rn_lost example_end) (''a'', ''m1'')"
proof
  show "rn_sent example_end = [(''a'', ''m1'')]"
    by (simp add: example_end_def example_replay_def begin_keeps start_run_def example_mail_def default_state_def Let_def)
qed (rule queued_mail_is_sent_once [OF example_runs(2) example_distinct example_unrestored, THEN conjunct1])


section \<open>Restoring a revision\<close>

lemma restored_keeps:
  "st_outbox (restoreLocalRevision c s) = st_outbox c" "st_pending (restoreLocalRevision c s) = st_pending c"
  "st_accounts (restoreLocalRevision c s) = st_accounts c"
  by (simp_all add: restoreLocalRevision_def notify_def log_history_def)

lemma first_is_found: "outbox_of a s = b # later \<Longrightarrow> find_outbox s a (ob_id b) \<noteq> None"
proof -
  assume "outbox_of a s = b # later"
  then have "b \<in> set (outbox_of a s)" by simp
  then show ?thesis by (auto simp: outbox_of_def find_outbox_def find_None_iff)
qed

text \<open>C35: When a revision is restored whose Outbox begins with a message that may be tried automatically,
  and the account has nothing pending and nothing in flight, the next replay delivers this message,
  whether or not it was delivered, and recorded as delivered, after the revision was taken.\<close>

theorem restored_mail_is_sent_again:
  assumes "queue_reachable s r" "map_of (rn_flights r) a = None"
    and "find (\<lambda>c. ac_id c = a) (st_accounts revision) \<noteq> None"
    and "pending_of a revision = []" "outbox_of a revision = b # later"
    and "ob_attempts b < AUTOMATIC_MAIL_QUEUE_ATTEMPT_LIMIT"
  shows "\<exists>r'. queue_reachable s r' \<and> rn_restored r' = rn_restored r + 1
    \<and> rn_sent r' = rn_sent r @ [(a, ob_id b)] \<and> rn_lost r' = rn_lost r
    \<and> rn_finished r' = rn_finished r @ [(a, ob_id b)]"
proof -
  define r1 where "r1 = r\<lparr>rn_state := restoreLocalRevision revision (rn_state r), rn_restored := rn_restored r + 1\<rparr>"
  define r2 where "r2 = start_flight a (ReplayingOutbox b later) r1"
  have r1: "queue_reachable s r1" unfolding r1_def by (rule stepped [OF assms(1) restored])
  have queues: "pending_of a (rn_state r1) = []" "outbox_of a (rn_state r1) = b # later"
    using assms(4,5) by (simp_all add: r1_def pending_of_def outbox_of_def restored_keeps)
  then have "replayPending a (rn_state r1) (pending_of a (rn_state r1)) (rn_state r1) = Some (ReplayingOutbox b later)"
    using assms(6) by (simp add: replayPending_def next_pending_def outbox_to_replay_def replay_outbox_def next_outbox_def)
  moreover have "withQueueFlight r1 a = Inr ()" using assms(2) by (simp add: withQueueFlight_def r1_def)
  ultimately have "queue_step r1 r2"
    using queue_step.replay [of r1 a] by (simp add: r2_def begin_with_def)
  then have r2: "queue_reachable s r2" by (rule stepped [OF r1])
  have "\<exists>s'. deliver_answer a b taken n (rn_state r2) = Inr s'" for n
    using first_is_found [OF queues(2)] assms(3)
    by (auto simp: deliver_answer_def r2_def requireAccount_def r1_def restored_keeps Let_def split: option.splits)
  then obtain s' where s': "deliver_answer a b taken [] (rn_state r2) = Inr s'" by blast
  have "map_of (rn_flights r2) a = Some (ReplayingOutbox b later)" by (simp add: r2_def)
  from stepped [OF r2 queue_step.outbox_sent [OF this _ s']]
  show ?thesis by (auto simp: r2_def r1_def intro!: exI)
qed

lemma example_ended:
  "map_of (rn_flights example_end) ''a'' = None" "rn_sent example_end = [(''a'', ''m1'')]" "rn_lost example_end = []"
  by (simp_all add: example_end_def example_replay_def begin_keeps after_outbox_def replay_outbox_def next_outbox_def
      continue_with_def start_run_def Let_def map_of_delete example_mail_def default_state_def)

lemma example_revision:
  "find (\<lambda>c. ac_id c = ''a'') (st_accounts example_mail) \<noteq> None" "pending_of ''a'' example_mail = []"
  "\<exists>b. outbox_of ''a'' example_mail = [b] \<and> ob_id b = ''m1'' \<and> ob_attempts b < AUTOMATIC_MAIL_QUEUE_ATTEMPT_LIMIT"
  by (simp_all add: example_mail_def default_state_def pending_of_def outbox_of_def AUTOMATIC_MAIL_QUEUE_ATTEMPT_LIMIT_def)

theorem restored_mail_is_sent_again_witness:
  "\<exists>r. queue_reachable example_mail r \<and> rn_sent r = [(''a'', ''m1''), (''a'', ''m1'')] \<and> rn_lost r = []"
proof -
  obtain b where b: "outbox_of ''a'' example_mail = [b]" "ob_id b = ''m1''"
    "ob_attempts b < AUTOMATIC_MAIL_QUEUE_ATTEMPT_LIMIT" using example_revision(3) by blast
  from restored_mail_is_sent_again [OF example_runs(2) example_ended(1) example_revision(1,2) b(1,3)]
  show ?thesis by (auto simp: b(2) example_ended)
qed

end
