(* ===== verification/Draft_Keeping.thy ===== *)
theory Draft_Keeping
  imports Mail_Queue
begin

text \<open>
  What becomes of the drafts when a message is sent, rejected or taken back from the Outbox
  (\<open>Mail_Queue\<close>): a rejected message is kept without touching a draft that has changed in the
  meantime, and the places where a draft is lost.
\<close>

section \<open>Replacing a draft\<close>


lemma put_draft_keeps: "x \<in> set ds \<Longrightarrow> x \<in> set (put_draft d ds) \<or> draft_with ds (cd_id d) = Some x"
  by (induction ds) (auto simp: draft_with_def)

lemma put_draft_replaces:
  "distinct (map cd_id ds) \<Longrightarrow> draft_with ds (cd_id d) = Some x \<Longrightarrow> x \<noteq> d \<Longrightarrow> x \<notin> set (put_draft d ds)"
  by (induction ds) (auto simp: draft_with_def split: if_splits dest!: find_Some_mem intro: rev_image_eqI)

lemma fresh_draft: "draft_with ds (Some i) = None \<Longrightarrow> x \<in> set ds \<Longrightarrow> x \<in> set (put_draft (d\<lparr>cd_id := Some i\<rparr>) ds)"
  using put_draft_keeps [of x ds "d\<lparr>cd_id := Some i\<rparr>"] by simp

lemma drafts_keep [simp]:
  "st_drafts (notify k c t x s) = st_drafts s" "st_drafts (log_history h y j s) = st_drafts s"
  "st_drafts (drop_outbox i s) = st_drafts s" "st_drafts (keep_draft d s) = put_draft d (st_drafts s)"
  by (simp_all add: notify_def log_history_def drop_outbox_def keep_draft_def)

lemma stored_copy_keeps [simp]: "stored_copy (drop_outbox i s) d = stored_copy s d"
  by (simp add: stored_copy_def)

section \<open>Rejected messages\<close>







section \<open>Drafts that are lost\<close>

text \<open>C39: Moving a message from the Outbox back to the drafts puts it over the stored draft of the same
  identifier even when that draft has been changed since the message was queued: the newer draft is gone,
  while a rejection of the same message keeps it.\<close>

theorem cancelling_replaces_a_newer_draft:
  assumes "find_outbox s a i = Some queued" "distinct (map cd_id (st_drafts s))" "present (cd_id (ob_draft queued))"
    "draft_with (st_drafts s) (cd_id (ob_draft queued)) = Some newer"
    "\<not> sameDraftSnapshot (Some newer) (Some (ob_draft queued))" "cancelOutbox a i s = Inr (s1, d)"
    "deliver_answer a queued result new_id s = Inr s2" "classifySendResult result = RejectedAll"
    "draft_with (st_drafts s) (Some new_id) = None"
  shows "newer \<in> set (st_drafts s) \<and> newer \<notin> set (st_drafts s1) \<and> newer \<in> set (st_drafts s2)"
proof -
  have q: "ob_id queued = i" using assms(1) by (auto simp: find_outbox_def dest: find_Some_mem)
  have newer: "newer \<in> set (st_drafts s)" "newer \<noteq> ob_draft queued" "cd_id newer = cd_id (ob_draft queued)"
    using assms(4,5) by (auto simp: draft_with_def sameDraftSnapshot_def dest: find_Some_mem)
  have s1: "st_drafts s1 = put_draft (ob_draft queued) (st_drafts s)"
    using assms(1,3,6) by (auto simp: cancelOutbox_def Let_def split: sum.splits)
  have copy: "stored_copy s (ob_draft queued) = Some newer" using assms(3,4) by (simp add: stored_copy_def)
  have s2: "st_drafts s2 = put_draft (ob_draft queued\<lparr>cd_id := Some new_id\<rparr>) (st_drafts s)"
    using assms(1,5,7,8) by (auto simp: deliver_answer_def Let_def q copy split: sum.splits)
  show ?thesis
    using newer(1) put_draft_replaces [OF assms(2,4) newer(2)] fresh_draft [OF assms(9) newer(1)] s1 s2 by simp
qed

text \<open>C40: A message that was never saved as a draft has no identifier; taken back from the Outbox it is
  listed among the drafts but cannot be opened or deleted, and the next successful or queued send of
  another message without identifier removes it.\<close>

theorem unsaved_message_is_lost_after_cancelling:
  assumes "cancelOutbox a i s = Inr (s1, d)" "cd_id d = None"
    "deleteDraft a j s1 = Inr (s3, found)"
    "send_answer d' None result e new_id now s1 = Inr s2" "cd_id d' = None" "classifySendResult result \<noteq> RejectedAll"
  shows "d \<in> set (st_drafts s1) \<and> getDraft s1 a j \<noteq> Inr d \<and> d \<in> set (st_drafts s3) \<and> d \<notin> set (st_drafts s2)"
proof -
  have s1: "st_drafts s1 = st_drafts s @ [d]"
    using assms(1,2) by (auto simp: cancelOutbox_def Let_def present_def split: sum.splits option.splits if_splits)
  have copy: "sameDraftSnapshot (stored_copy s1 d') None" using assms(5) by (simp add: stored_copy_def present_def sameDraftSnapshot_def)
  have s2: "st_drafts s2 = filter (\<lambda>x. cd_id x \<noteq> None) (st_drafts s1)"
    using assms(4,5,6) copy by (auto simp: send_answer_def Let_def split: sum.splits if_splits)
  have "getDraft s1 a j \<noteq> Inr d"
    using assms(2) by (auto simp: getDraft_def split: sum.splits option.splits dest: find_Some_mem)
  moreover have "d \<in> set (st_drafts s3)"
    using assms(2,3) s1 by (auto simp: deleteDraft_def split: sum.splits option.splits)
  ultimately show ?thesis using assms(2) by (simp add: s1 s2)
qed

section \<open>Examples\<close>

definition draft_of :: "string option \<Rightarrow> string \<Rightarrow> compose_draft" where
  "draft_of i t = \<lparr>cd_id = i, cd_account = ''a'', cd_identity = None, cd_to = [''b@x''], cd_cc = [], cd_bcc = [],
     cd_subject = ''S'', cd_text = t, cd_in_reply_to = None, cd_references = None, cd_attachments = []\<rparr>"

text \<open>An account with a changed draft and two messages in the Outbox, one of them never saved.\<close>

definition queued_of :: "string \<Rightarrow> compose_draft \<Rightarrow> outbox_item" where
  "queued_of i d = \<lparr>ob_id = i, ob_draft = d, ob_created = ''t'', ob_attempts = 0, ob_last_error = ''e''\<rparr>"

definition busy_mail :: mail_state where
  "busy_mail = default_state\<lparr>st_accounts := [\<lparr>ac_id = ''a'', ac_display_name = [], ac_email = [],
       ac_incoming = \<lparr>ss_host = [], ss_port = 993, ss_security = Tls, ss_username = []\<rparr>,
       ac_outgoing = \<lparr>ss_host = [], ss_port = 465, ss_security = Tls, ss_username = []\<rparr>,
       ac_auth_mode = Password, ac_oauth_provider = None, ac_kind = ImapAccount, ac_created_at = [],
       ac_last_sync_at = None, ac_sync_error = None\<rparr>],
     st_drafts := [draft_of (Some ''d'') ''new''],
     st_outbox := [queued_of ''m1'' (draft_of (Some ''d'') ''old''), queued_of ''m2'' (draft_of None ''never saved'')]\<rparr>"

definition refused :: send_result where
  "refused = \<lparr>sr_message_id = ''id'', sr_accepted = [], sr_rejected = [''b@x''], sr_queued = False\<rparr>"

definition accepted :: send_result where
  "accepted = \<lparr>sr_message_id = ''id'', sr_accepted = [''b@x''], sr_rejected = [], sr_queued = False\<rparr>"

lemma busy_account [simp]: "\<exists>c. requireAccount busy_mail ''a'' = Inr c"
  by (simp add: requireAccount_def busy_mail_def default_state_def)

lemma busy_drafts [simp]: "st_drafts busy_mail = [draft_of (Some ''d'') ''new'']"
  by (simp add: busy_mail_def)

lemma busy_outbox [simp]:
  "find_outbox busy_mail ''a'' ''m1'' = Some (queued_of ''m1'' (draft_of (Some ''d'') ''old''))"
  "find_outbox busy_mail ''a'' ''m2'' = Some (queued_of ''m2'' (draft_of None ''never saved''))"
  by (simp_all add: find_outbox_def busy_mail_def queued_of_def draft_of_def)

lemma answers [simp]: "classifySendResult refused = RejectedAll" "classifySendResult accepted \<noteq> RejectedAll"
  by (simp_all add: refused_def accepted_def classifySendResult_def)

lemma some_send: "requireAccount s (cd_account d) = Inr c \<Longrightarrow> \<exists>s'. send_answer d old result e i now s = Inr s'"
  by (simp add: send_answer_def Let_def)

lemma some_delivery: "requireAccount s a = Inr c \<Longrightarrow> find_outbox s a (ob_id b) = Some q \<Longrightarrow> \<exists>s'. deliver_answer a b result i s = Inr s'"
  by (simp add: deliver_answer_def Let_def)

lemma some_cancel: "requireAccount s a = Inr c \<Longrightarrow> find_outbox s a i = Some q \<Longrightarrow> \<exists>s'. cancelOutbox a i s = Inr (s', ob_draft q)"
  by (simp add: cancelOutbox_def Let_def)

lemma some_delete: "requireAccount s a = Inr c \<Longrightarrow> \<exists>answer. deleteDraft a j s = Inr answer"
  by (cases "find (\<lambda>d. cd_account d = a \<and> cd_id d = Some j) (st_drafts s)") (simp_all add: deleteDraft_def del: split_paired_Ex)


theorem cancelling_replaces_a_newer_draft_witness:
  "\<exists>s1 d. cancelOutbox ''a'' ''m1'' busy_mail = Inr (s1, d) \<and> draft_of (Some ''d'') ''new'' \<notin> set (st_drafts s1)"
proof -
  obtain c where c: "requireAccount busy_mail ''a'' = Inr c" using busy_account by blast
  let ?b = "queued_of ''m1'' (draft_of (Some ''d'') ''old'')"
  have b: "find_outbox busy_mail ''a'' (ob_id ?b) = Some ?b" by (simp add: queued_of_def)
  obtain s2 where s2: "deliver_answer ''a'' ?b refused ''n'' busy_mail = Inr s2" using some_delivery [OF c b] by blast
  obtain s1 where s1: "cancelOutbox ''a'' ''m1'' busy_mail = Inr (s1, ob_draft ?b)" using some_cancel [OF c busy_outbox(1)] by blast
  have "draft_of (Some ''d'') ''new'' \<notin> set (st_drafts s1)"
    using cancelling_replaces_a_newer_draft [OF busy_outbox(1) _ _ _ _ s1 s2 answers(1), of "draft_of (Some ''d'') ''new''"]
    by (simp add: queued_of_def draft_of_def present_def draft_with_def sameDraftSnapshot_def)
  with s1 show ?thesis by blast
qed

theorem unsaved_message_is_lost_after_cancelling_witness:
  "\<exists>s1 s2. cancelOutbox ''a'' ''m2'' busy_mail = Inr (s1, draft_of None ''never saved'')
     \<and> send_answer (draft_of None ''other'') None accepted [] ''n'' ''t'' s1 = Inr s2
     \<and> draft_of None ''never saved'' \<notin> set (st_drafts s2)"
proof -
  obtain c where c: "requireAccount busy_mail ''a'' = Inr c" using busy_account by blast
  obtain s1 where s1: "cancelOutbox ''a'' ''m2'' busy_mail = Inr (s1, draft_of None ''never saved'')"
    using some_cancel [OF c busy_outbox(2)] by (auto simp: queued_of_def)
  then have c1: "requireAccount s1 ''a'' = Inr c"
    using c by (auto simp: cancelOutbox_def Let_def requireAccount_def notify_def log_history_def drop_outbox_def split: option.splits)
  obtain s2 where s2: "send_answer (draft_of None ''other'') None accepted [] ''n'' ''t'' s1 = Inr s2"
    using some_send [of s1 "draft_of None ''other''" c None accepted "[]" "''n''" "''t''"] c1 by (auto simp: draft_of_def)
  obtain s3 found where s3: "deleteDraft ''a'' ''d'' s1 = Inr (s3, found)" using some_delete [OF c1] by (metis surj_pair)
  from unsaved_message_is_lost_after_cancelling [OF s1 _ s3 s2 _ answers(2)] s1 s2
  show ?thesis by (auto simp: draft_of_def)
qed

end
