(* ===== verification/Pim_Types.thy ===== *)
theory Pim_Types
  imports Contact_Cards "HOL-Library.Monad_Syntax"
begin

text \<open>
  The records of the local calendar and address book with their schemas (\<open>src/main/pim/types.ts\<close>):
  temporal values, recurrences, attendees, alarms, events, tasks, and the entities and transactions
  that \<open>Pim_Store\<close> keeps. A schema gives the normalized value or \<^const>\<open>None\<close>; inputs are given with
  the defaults of the schema filled in. The e-mail test and the ISO date-time test of the schema library
  and \<open>Date.parse\<close> are the argument \<open>pim_world\<close>.
\<close>

section \<open>Data\<close>

record pim_world =
  pw_cards :: card_world
  pw_datetime :: "string \<Rightarrow> bool"
  pw_time :: "string \<Rightarrow> int"

datatype temporal = DateValue string | DateTimeValue string "string option"

datatype frequency = Daily | Weekly | Monthly | Yearly
datatype weekday = MO | TU | WE | TH | FR | SA | SU

record recurrence =
  rc_frequency :: frequency
  rc_interval :: int
  rc_count :: "int option"
  rc_until :: "temporal option"
  rc_weekdays :: "weekday list option"
  rc_month_days :: "int list option"
  rc_week_start :: "weekday option"
  rc_additional :: "temporal list"
  rc_exceptions :: "temporal list"

datatype attendee_role = RequiredRole | OptionalRole | ChairRole | NonParticipantRole
datatype participation = NeedsAction | Accepted | Declined | TentativelyAccepted | Delegated

record attendee =
  at_email :: string
  at_name :: "string option"
  at_role :: attendee_role
  at_status :: participation
  at_rsvp :: bool

datatype alarm_action = DisplayAlarm | AudioAlarm
datatype alarm_trigger = RelativeTrigger int | AbsoluteTrigger string

record alarm =
  al_uid :: string
  al_action :: alarm_action
  al_trigger :: alarm_trigger
  al_description :: "string option"

datatype event_status = TentativeEvent | ConfirmedEvent | CancelledEvent
datatype transparency = Opaque | Transparent

record event_content =
  ev_title :: string
  ev_description :: "string option"
  ev_location :: "string option"
  ev_start :: temporal
  ev_end :: temporal
  ev_recurrence :: "recurrence option"
  ev_organizer :: "attendee option"
  ev_attendees :: "attendee list"
  ev_alarms :: "alarm list"
  ev_categories :: "string list"
  ev_status :: event_status
  ev_transparency :: transparency

datatype task_status = TaskNeedsAction | TaskInProgress | TaskCompleted | TaskCancelled

record task_content =
  tk_title :: string
  tk_description :: "string option"
  tk_status :: task_status
  tk_entry :: "temporal option"
  tk_due :: "temporal option"
  tk_priority :: int
  tk_percent :: int
  tk_completed_at :: "string option"
  tk_categories :: "string list"
  tk_recurrence :: "recurrence option"
  tk_source_revision :: "string option"

section \<open>Parts of a schema\<close>

definition schema_option :: "('a \<Rightarrow> 'a option) \<Rightarrow> 'a option \<Rightarrow> 'a option option" where
  "schema_option f v = (case v of None \<Rightarrow> Some None | Some x \<Rightarrow> map_option Some (f x))"

definition schema_test :: "('a \<Rightarrow> bool) \<Rightarrow> 'a \<Rightarrow> 'a option" where
  "schema_test P x = (if P x then Some x else None)"

definition isoDateTimeSchema :: "pim_world \<Rightarrow> string \<Rightarrow> string option" where
  "isoDateTimeSchema w = schema_test (\<lambda>v. pw_datetime w v \<and> length v \<le> 64)"

definition leap_year :: "nat \<Rightarrow> bool" where
  "leap_year y = (4 dvd y \<and> (\<not> 100 dvd y \<or> 400 dvd y))"

definition days_in_month :: "nat \<Rightarrow> nat \<Rightarrow> nat" where
  "days_in_month y m = (if m = 2 then (if leap_year y then 29 else 28) else if m \<in> {4, 6, 9, 11} then 30 else 31)"

text \<open>\<open>Date.UTC\<close> reads the years 0 to 99 as 1900 to 1999, so that they do not come back as they are.\<close>

definition localDateSchema :: "string \<Rightarrow> string option" where
  "localDateSchema = schema_test (\<lambda>v.
     length v = 10 \<and> v ! 4 = CHR ''-'' \<and> v ! 7 = CHR ''-'' \<and> list_all is_digit (take 4 v @ take 2 (drop 5 v) @ drop 8 v)
     \<and> (let y = text_nat (take 4 v); m = text_nat (take 2 (drop 5 v)); d = text_nat (drop 8 v)
        in y \<ge> 100 \<and> 1 \<le> m \<and> m \<le> 12 \<and> 1 \<le> d \<and> d \<le> days_in_month y m))"

definition same_representation :: "temporal \<Rightarrow> temporal \<Rightarrow> bool" where
  "same_representation x y =
     (case (x, y) of (DateValue _, DateValue _) \<Rightarrow> True | (DateTimeValue _ _, DateTimeValue _ _) \<Rightarrow> True | _ \<Rightarrow> False)"

fun temporalValueSchema :: "pim_world \<Rightarrow> temporal \<Rightarrow> temporal option" where
  "temporalValueSchema w (DateValue v) = map_option DateValue (localDateSchema v)"
| "temporalValueSchema w (DateTimeValue v zone) =
     do { v' \<leftarrow> isoDateTimeSchema w v; z \<leftarrow> optionalText 100 zone; Some (DateTimeValue v' z) }"

fun temporalOrder :: "pim_world \<Rightarrow> temporal \<Rightarrow> int" where
  "temporalOrder w (DateValue v) = pw_time w (v @ ''T00:00:00.000Z'')"
| "temporalOrder w (DateTimeValue v zone) = pw_time w v"

section \<open>Recurrences, attendees and alarms\<close>

definition recurrence_numbers_ok :: "recurrence \<Rightarrow> bool" where
  "recurrence_numbers_ok r =
     (1 \<le> rc_interval r \<and> rc_interval r \<le> 10000
      \<and> (case rc_count r of None \<Rightarrow> True | Some n \<Rightarrow> 1 \<le> n \<and> n \<le> 1000000)
      \<and> (case rc_weekdays r of None \<Rightarrow> True | Some ds \<Rightarrow> length ds \<le> 7)
      \<and> (case rc_month_days r of None \<Rightarrow> True | Some ds \<Rightarrow> length ds \<le> 62 \<and> list_all (\<lambda>d. -31 \<le> d \<and> d \<le> 31 \<and> d \<noteq> 0) ds))"

definition recurrence_refined :: "recurrence \<Rightarrow> bool" where
  "recurrence_refined r =
     (\<not> (rc_count r \<noteq> None \<and> rc_until r \<noteq> None)
      \<and> (case rc_weekdays r of None \<Rightarrow> True | Some ds \<Rightarrow> distinct ds)
      \<and> (case rc_month_days r of None \<Rightarrow> True | Some ds \<Rightarrow> distinct ds))"

definition recurrenceSchema :: "pim_world \<Rightarrow> recurrence \<Rightarrow> recurrence option" where
  "recurrenceSchema w r =
     do { u \<leftarrow> schema_option (temporalValueSchema w) (rc_until r);
          a \<leftarrow> list_schema 10000 (temporalValueSchema w) (rc_additional r);
          e \<leftarrow> list_schema 10000 (temporalValueSchema w) (rc_exceptions r);
          schema_test (\<lambda>r. recurrence_numbers_ok r \<and> recurrence_refined r)
            (r\<lparr>rc_until := u, rc_additional := a, rc_exceptions := e\<rparr>) }"

definition attendeeSchema :: "pim_world \<Rightarrow> attendee \<Rightarrow> attendee option" where
  "attendeeSchema w a =
     do { n \<leftarrow> optionalText 300 (at_name a);
          schema_test (\<lambda>a. cw_email (pw_cards w) (at_email a) \<and> length (at_email a) \<le> 320) (a\<lparr>at_name := n\<rparr>) }"

fun trigger_ok :: "pim_world \<Rightarrow> alarm_trigger \<Rightarrow> bool" where
  "trigger_ok w (RelativeTrigger m) = (-5256000 \<le> m \<and> m \<le> 5256000)"
| "trigger_ok w (AbsoluteTrigger v) = (isoDateTimeSchema w v \<noteq> None)"

definition alarmSchema :: "pim_world \<Rightarrow> alarm \<Rightarrow> alarm option" where
  "alarmSchema w a =
     do { u \<leftarrow> uidSchema (al_uid a); d \<leftarrow> optionalText 1000 (al_description a);
          schema_test (\<lambda>a. trigger_ok w (al_trigger a)) (a\<lparr>al_uid := u, al_description := d\<rparr>) }"

section \<open>Events and tasks\<close>

definition validateEvent :: "pim_world \<Rightarrow> event_content \<Rightarrow> bool" where
  "validateEvent w e =
     (same_representation (ev_start e) (ev_end e) \<and> temporalOrder w (ev_start e) < temporalOrder w (ev_end e)
      \<and> uniqueStrings (map at_email (ev_attendees e)) \<and> distinct (map al_uid (ev_alarms e))
      \<and> (case ev_recurrence e of None \<Rightarrow> True
         | Some r \<Rightarrow> (case rc_until r of None \<Rightarrow> True | Some u \<Rightarrow> same_representation u (ev_start e))))"

definition event_schema :: "pim_world \<Rightarrow> event_content \<Rightarrow> event_content option" where
  "event_schema w e =
     do { t \<leftarrow> shortText 500 (ev_title e); d \<leftarrow> optionalText 32768 (ev_description e); l \<leftarrow> optionalText 1000 (ev_location e);
          s \<leftarrow> temporalValueSchema w (ev_start e); f \<leftarrow> temporalValueSchema w (ev_end e);
          r \<leftarrow> schema_option (recurrenceSchema w) (ev_recurrence e); g \<leftarrow> schema_option (attendeeSchema w) (ev_organizer e);
          as \<leftarrow> list_schema 1000 (attendeeSchema w) (ev_attendees e); ls \<leftarrow> list_schema 100 (alarmSchema w) (ev_alarms e);
          cs \<leftarrow> list_schema 100 (shortText 100) (ev_categories e);
          schema_test (validateEvent w)
            (e\<lparr>ev_title := t, ev_description := d, ev_location := l, ev_start := s, ev_end := f, ev_recurrence := r,
               ev_organizer := g, ev_attendees := as, ev_alarms := ls, ev_categories := cs\<rparr>) }"

definition validateTask :: "pim_world \<Rightarrow> task_content \<Rightarrow> bool" where
  "validateTask w t =
     (case (tk_entry t, tk_due t) of
        (Some e, Some d) \<Rightarrow> same_representation e d \<longrightarrow> temporalOrder w e \<le> temporalOrder w d
      | _ \<Rightarrow> True)"

definition task_schema :: "pim_world \<Rightarrow> task_content \<Rightarrow> task_content option" where
  "task_schema w t =
     do { n \<leftarrow> shortText 500 (tk_title t); d \<leftarrow> optionalText 32768 (tk_description t);
          e \<leftarrow> schema_option (temporalValueSchema w) (tk_entry t); u \<leftarrow> schema_option (temporalValueSchema w) (tk_due t);
          c \<leftarrow> schema_option (isoDateTimeSchema w) (tk_completed_at t); cs \<leftarrow> list_schema 100 (shortText 100) (tk_categories t);
          r \<leftarrow> schema_option (recurrenceSchema w) (tk_recurrence t); v \<leftarrow> optionalText 500 (tk_source_revision t);
          schema_test (\<lambda>t. 0 \<le> tk_priority t \<and> tk_priority t \<le> 9 \<and> 0 \<le> tk_percent t \<and> tk_percent t \<le> 100 \<and> validateTask w t)
            (t\<lparr>tk_title := n, tk_description := d, tk_entry := e, tk_due := u, tk_completed_at := c, tk_categories := cs,
               tk_recurrence := r, tk_source_revision := v\<rparr>) }"

section \<open>Entities\<close>

text \<open>A contact and a mailing list are kept as their inputs without the UID; every entity has its UID,
  times and revision beside its content.\<close>

datatype pim_kind = ContactKind | ListKind | EventKind | TaskKind

datatype pim_content =
  ContactContent contact_input
| ListContent mailing_list_input
| EventContent event_content
| TaskContent task_content

fun kind_of :: "pim_content \<Rightarrow> pim_kind" where
  "kind_of (ContactContent _) = ContactKind"
| "kind_of (ListContent _) = ListKind"
| "kind_of (EventContent _) = EventKind"
| "kind_of (TaskContent _) = TaskKind"

record pim_entity =
  en_uid :: string
  en_content :: pim_content
  en_created :: string
  en_updated :: string
  en_revision :: nat

fun content_schema :: "pim_world \<Rightarrow> pim_content \<Rightarrow> pim_content option" where
  "content_schema w (ContactContent c) =
     (if ci_uid c = None then map_option ContactContent (createContactSchema (pw_cards w) c) else None)"
| "content_schema w (ListContent l) =
     (if mi_uid l = None \<and> mi_member_emails l = [] then map_option ListContent (createMailingListSchema l) else None)"
| "content_schema w (EventContent e) = map_option EventContent (event_schema w e)"
| "content_schema w (TaskContent t) = map_option TaskContent (task_schema w t)"

text \<open>\<open>contactSchema\<close>, \<open>mailingListSchema\<close>, \<open>calendarEventSchema\<close> and \<open>taskSchema\<close>.\<close>

definition entity_schema :: "pim_world \<Rightarrow> pim_entity \<Rightarrow> pim_entity option" where
  "entity_schema w e =
     do { u \<leftarrow> uidSchema (en_uid e); c \<leftarrow> content_schema w (en_content e);
          a \<leftarrow> isoDateTimeSchema w (en_created e); b \<leftarrow> isoDateTimeSchema w (en_updated e);
          schema_test (\<lambda>e. 0 < en_revision e) (e\<lparr>en_uid := u, en_content := c, en_created := a, en_updated := b\<rparr>) }"

section \<open>Transactions and the stored state\<close>

datatype transaction_action = CreatedAction | UpdatedAction | DeletedAction | RestoredAction

record pim_transaction =
  tx_id :: string
  tx_sequence :: nat
  tx_occurred :: string
  tx_action :: transaction_action
  tx_kind :: pim_kind
  tx_uid :: string
  tx_before :: "pim_entity option"
  tx_after :: "pim_entity option"

definition identifies :: "pim_kind \<Rightarrow> string \<Rightarrow> pim_entity option \<Rightarrow> bool" where
  "identifies k u s = (case s of None \<Rightarrow> True | Some e \<Rightarrow> kind_of (en_content e) = k \<and> en_uid e = u)"

definition snapshots_fit :: "transaction_action \<Rightarrow> pim_entity option \<Rightarrow> pim_entity option \<Rightarrow> bool" where
  "snapshots_fit a b c =
     (case a of
        CreatedAction \<Rightarrow> b = None \<and> c \<noteq> None
      | UpdatedAction \<Rightarrow> b \<noteq> None \<and> c \<noteq> None
      | DeletedAction \<Rightarrow> b \<noteq> None \<and> c = None
      | RestoredAction \<Rightarrow> c \<noteq> None)"

definition pimTransactionSchema :: "pim_world \<Rightarrow> pim_transaction \<Rightarrow> pim_transaction option" where
  "pimTransactionSchema w t =
     do { i \<leftarrow> uidSchema (tx_id t); a \<leftarrow> isoDateTimeSchema w (tx_occurred t); u \<leftarrow> uidSchema (tx_uid t);
          b \<leftarrow> schema_option (entity_schema w) (tx_before t); c \<leftarrow> schema_option (entity_schema w) (tx_after t);
          schema_test (\<lambda>t. 0 < tx_sequence t \<and> identifies (tx_kind t) (tx_uid t) (tx_before t)
              \<and> identifies (tx_kind t) (tx_uid t) (tx_after t) \<and> snapshots_fit (tx_action t) (tx_before t) (tx_after t))
            (t\<lparr>tx_id := i, tx_occurred := a, tx_uid := u, tx_before := b, tx_after := c\<rparr>) }"

record pim_state =
  pm_contacts :: "pim_entity list"
  pm_lists :: "pim_entity list"
  pm_events :: "pim_entity list"
  pm_tasks :: "pim_entity list"
  pm_transactions :: "pim_transaction list"
  pm_next_sequence :: nat
  pm_task_version :: nat

text \<open>One collection of the stored state: entities of its kind.\<close>

definition collection_schema :: "pim_world \<Rightarrow> pim_kind \<Rightarrow> pim_entity list \<Rightarrow> pim_entity list option" where
  "collection_schema w k es =
     do { es' \<leftarrow> all_some (map (entity_schema w) es);
          schema_test (\<lambda>es. list_all (\<lambda>e. kind_of (en_content e) = k) es \<and> distinct (map en_uid es)) es' }"

fun increasing :: "nat list \<Rightarrow> bool" where
  "increasing (x # y # zs) = (x < y \<and> increasing (y # zs))"
| "increasing _ = True"

definition persistedPimStateSchema :: "pim_world \<Rightarrow> pim_state \<Rightarrow> pim_state option" where
  "persistedPimStateSchema w s =
     do { cs \<leftarrow> collection_schema w ContactKind (pm_contacts s); ls \<leftarrow> collection_schema w ListKind (pm_lists s);
          es \<leftarrow> collection_schema w EventKind (pm_events s); ts \<leftarrow> collection_schema w TaskKind (pm_tasks s);
          xs \<leftarrow> all_some (map (pimTransactionSchema w) (pm_transactions s));
          schema_test (\<lambda>s. distinct (map tx_id (pm_transactions s)) \<and> increasing (map tx_sequence (pm_transactions s))
              \<and> 0 < pm_next_sequence s
              \<and> (pm_transactions s \<noteq> [] \<longrightarrow> tx_sequence (last (pm_transactions s)) < pm_next_sequence s))
            (s\<lparr>pm_contacts := cs, pm_lists := ls, pm_events := es, pm_tasks := ts, pm_transactions := xs\<rparr>) }"

section \<open>Schemas are idempotent\<close>

text \<open>What a schema returns it accepts and returns again: the stored state, which is checked on every
  reading and writing, is not changed by the check.\<close>

definition idem :: "('a \<Rightarrow> 'a option) \<Rightarrow> bool" where
  "idem f = (\<forall>x y. f x = Some y \<longrightarrow> f y = Some y)"

named_theorems idems "idempotent schemas"

lemma idemI: "(\<And>x y. f x = Some y \<Longrightarrow> f y = Some y) \<Longrightarrow> idem f"
  by (simp add: idem_def)

lemma idemD: "idem f \<Longrightarrow> f x = Some y \<Longrightarrow> f y = Some y"
  by (auto simp: idem_def)

lemma idem_shortText [idems]: "idem (shortText n)"
  by (rule idemI) (auto simp: shortText_def Let_def split: if_splits)

lemma idem_option [idems]: "idem f \<Longrightarrow> idem (schema_option f)"
  by (rule idemI) (auto simp: schema_option_def idemD split: option.splits)

lemma optionalText_is_option: "optionalText n = schema_option (shortText n)"
  by (rule ext) (simp add: optionalText_def schema_option_def)

lemma idem_optionalText [idems]: "idem (optionalText n)"
  unfolding optionalText_is_option by (intro idems)

lemma idem_test [idems]: "idem (schema_test P)"
  by (rule idemI) (auto simp: schema_test_def split: if_splits)

lemma all_some_idem: "idem f \<Longrightarrow> all_some (map f xs) = Some ys \<Longrightarrow> all_some (map f ys) = Some ys"
  by (induction xs arbitrary: ys) (auto simp: idemD split: option.splits)

lemma all_some_length: "all_some (map f xs) = Some ys \<Longrightarrow> length ys = length xs"
  by (induction xs arbitrary: ys) (auto split: option.splits)

lemma idem_list [idems]: "idem f \<Longrightarrow> idem (list_schema n f)"
  by (rule idemI) (auto simp: list_schema_def all_some_length split: if_splits intro: all_some_idem)

lemma idem_uid [idems]: "idem uidSchema"
  by (rule idemI) (auto simp: uidSchema_def dest: idemD [OF idem_shortText] split: option.splits if_splits)

lemma is_space_lower [simp]: "is_space (lower_char c) = is_space c"
proof -
  have "code (lower_char c) = code c + 32 \<and> is_ascii_upper c \<or> code (lower_char c) = code c + 32 \<and> 192 \<le> code c \<and> code c \<le> 222
      \<or> lower_char c = c"
    by (auto simp: lower_char_def code_char_of is_ascii_upper_def)
  then show ?thesis by (auto simp: is_space_def is_ascii_upper_def)
qed

lemma trim_lower [simp]: "trim (lower s) = lower (trim s)"
  by (simp add: trim_def trim_start_def trim_end_def lower_def dropWhile_map comp_def rev_map)

lemma type_list_idem: "type_list ts = Some us \<Longrightarrow> type_list us = Some us"
proof -
  have lowered: "shortText 32 t = Some u \<Longrightarrow> shortText 32 (lower u) = Some (lower u)" for t u
    by (auto simp: shortText_def Let_def split: if_splits)
  have "all_some (map (shortText 32) ts) = Some us \<Longrightarrow> all_some (map (shortText 32) (map lower us)) = Some (map lower us)" for ts us
    by (induction ts arbitrary: us) (auto simp: lowered split: option.splits)
  then show "type_list ts = Some us \<Longrightarrow> type_list us = Some us"
    by (auto simp: type_list_def all_some_length comp_def split: if_splits)
qed

lemma idem_type_list [idems]: "idem type_list"
  by (rule idemI) (rule type_list_idem)

lemma idem_contactName [idems]: "idem contactNameSchema"
proof (rule idemI)
  fix n m
  assume "contactNameSchema n = Some m"
  then obtain "optionalText 80 (cn_prefix n) = Some (cn_prefix m)" "optionalText 120 (cn_given n) = Some (cn_given m)"
    "optionalText 120 (cn_additional n) = Some (cn_additional m)" "optionalText 120 (cn_family n) = Some (cn_family m)"
    "optionalText 80 (cn_suffix n) = Some (cn_suffix m)"
    by (auto simp: contactNameSchema_def split: option.splits)
  from this [THEN idemD [OF idem_optionalText]] show "contactNameSchema m = Some m" by (simp add: contactNameSchema_def)
qed

lemma idem_contactEmail [idems]: "idem (contactEmailSchema w)"
  by (rule idemI) (auto simp: contactEmailSchema_def type_list_idem split: if_splits)

lemma idem_contactPhone [idems]: "idem contactPhoneSchema"
  by (rule idemI) (auto simp: contactPhoneSchema_def type_list_idem idemD [OF idem_shortText] split: option.splits)

lemma idem_contactAddress [idems]: "idem contactAddressSchema"
proof (rule idemI)
  fix a b
  assume "contactAddressSchema a = Some b"
  then obtain 1: "optionalText 200 (ca_po_box a) = Some (ca_po_box b)" "optionalText 500 (ca_extended a) = Some (ca_extended b)"
    "optionalText 500 (ca_street a) = Some (ca_street b)" "optionalText 200 (ca_locality a) = Some (ca_locality b)"
    "optionalText 200 (ca_region a) = Some (ca_region b)" "optionalText 80 (ca_postal_code a) = Some (ca_postal_code b)"
    "optionalText 200 (ca_country a) = Some (ca_country b)"
    and 2: "type_list (ca_types a) = Some (ca_types b)" "list_ex (\<lambda>x. x \<noteq> None) (address_parts b)"
    by (auto simp: contactAddressSchema_def Let_def split: option.splits if_splits)
  from 1 [THEN idemD [OF idem_optionalText]] 2(1) [THEN type_list_idem] 2(2)
  show "contactAddressSchema b = Some b" by (simp add: contactAddressSchema_def address_parts_def Let_def)
qed

lemma idem_createContact [idems]: "idem (createContactSchema w)"
proof (rule idemI)
  fix a b
  assume "createContactSchema w a = Some b"
  then obtain 1: "(case ci_uid a of None \<Rightarrow> Some None | Some u \<Rightarrow> map_option Some (uidSchema u)) = Some (ci_uid b)"
    "shortText 300 (ci_display_name a) = Some (ci_display_name b)" "contactNameSchema (ci_name a) = Some (ci_name b)"
    "list_schema 100 (contactEmailSchema w) (ci_emails a) = Some (ci_emails b)"
    "list_schema 100 contactPhoneSchema (ci_phones a) = Some (ci_phones b)"
    "list_schema 50 contactAddressSchema (ci_addresses a) = Some (ci_addresses b)" "validateContactMethods b"
    and 2: "optionalText 120 (ci_nickname a) = Some (ci_nickname b)" "optionalText 300 (ci_organization a) = Some (ci_organization b)"
    "optionalText 300 (ci_title a) = Some (ci_title b)" "optionalText 16384 (ci_notes a) = Some (ci_notes b)"
    by (auto simp: createContactSchema_def Let_def split: option.split_asm if_split_asm)
  from 1(1) have u: "(case ci_uid b of None \<Rightarrow> Some None | Some u \<Rightarrow> map_option Some (uidSchema u)) = Some (ci_uid b)"
    using idemD [OF idem_option [OF idem_uid]] unfolding schema_option_def by fast
  from u 1(2) [THEN idemD [OF idem_shortText]] 1(3) [THEN idemD [OF idem_contactName]]
    1(4) [THEN idemD [OF idem_list [OF idem_contactEmail]]] 1(5) [THEN idemD [OF idem_list [OF idem_contactPhone]]]
    1(6) [THEN idemD [OF idem_list [OF idem_contactAddress]]] 1(7) 2 [THEN idemD [OF idem_optionalText]]
  show "createContactSchema w b = Some b" by (simp only: createContactSchema_def option.case prod.case Let_def if_True) (simp add: validateContactMethods_def)
qed

lemma idem_createMailingList [idems]: "idem createMailingListSchema"
proof (rule idemI)
  fix a b
  assume "createMailingListSchema a = Some b"
  then obtain 1: "(case mi_uid a of None \<Rightarrow> Some None | Some u \<Rightarrow> map_option Some (uidSchema u)) = Some (mi_uid b)"
    "shortText 300 (mi_name a) = Some (mi_name b)" "list_schema 10000 uidSchema (mi_member_uids a) = Some (mi_member_uids b)"
    "uniqueStrings (mi_member_uids b)"
    and 2: "optionalText 120 (mi_nickname a) = Some (mi_nickname b)" "optionalText 4096 (mi_description a) = Some (mi_description b)"
    by (auto simp: createMailingListSchema_def split: option.split_asm if_split_asm)
  from 1(1) have u: "(case mi_uid b of None \<Rightarrow> Some None | Some u \<Rightarrow> map_option Some (uidSchema u)) = Some (mi_uid b)"
    using idemD [OF idem_option [OF idem_uid]] unfolding schema_option_def by fast
  from u 1(2) [THEN idemD [OF idem_shortText]] 1(3) [THEN idemD [OF idem_list [OF idem_uid]]] 1(4) 2 [THEN idemD [OF idem_optionalText]]
  show "createMailingListSchema b = Some b" by (simp only: createMailingListSchema_def option.case prod.case if_True) simp
qed

lemma idem_isoDateTime [idems]: "idem (isoDateTimeSchema w)"
  unfolding isoDateTimeSchema_def by (rule idem_test)

lemma idem_localDate [idems]: "idem localDateSchema"
  unfolding localDateSchema_def by (rule idem_test)

lemma idem_temporalValue [idems]: "idem (temporalValueSchema w)"
proof (rule idemI)
  fix x y
  assume "temporalValueSchema w x = Some y"
  then show "temporalValueSchema w y = Some y"
    by (cases x) (auto simp: bind_eq_Some_conv idemD [OF idem_localDate] idemD [OF idem_isoDateTime] idemD [OF idem_optionalText])
qed

lemma testD: "schema_test P x = Some y \<Longrightarrow> P y \<and> y = x"
  by (auto simp: schema_test_def split: if_splits)

lemma idem_recurrence [idems]: "idem (recurrenceSchema w)"
proof (rule idemI)
  fix x y
  assume "recurrenceSchema w x = Some y"
  then obtain 1: "schema_option (temporalValueSchema w) (rc_until x) = Some (rc_until y)"
    "list_schema 10000 (temporalValueSchema w) (rc_additional x) = Some (rc_additional y)"
    "list_schema 10000 (temporalValueSchema w) (rc_exceptions x) = Some (rc_exceptions y)"
    "recurrence_numbers_ok y" "recurrence_refined y"
    by (auto simp: recurrenceSchema_def bind_eq_Some_conv dest!: testD)
  from 1(1) [THEN idemD [OF idem_option [OF idem_temporalValue]]] 1(2,3) [THEN idemD [OF idem_list [OF idem_temporalValue]]] 1(4,5)
  show "recurrenceSchema w y = Some y" by (simp add: recurrenceSchema_def schema_test_def)
qed

lemma idem_attendee [idems]: "idem (attendeeSchema w)"
  by (rule idemI) (auto simp: attendeeSchema_def bind_eq_Some_conv schema_test_def idemD [OF idem_optionalText] split: if_splits)

lemma idem_alarm [idems]: "idem (alarmSchema w)"
  by (rule idemI)
    (auto simp: alarmSchema_def bind_eq_Some_conv schema_test_def idemD [OF idem_optionalText] idemD [OF idem_uid] split: if_splits)

lemma idem_event [idems]: "idem (event_schema w)"
proof (rule idemI)
  fix x y
  assume "event_schema w x = Some y"
  then obtain 1: "shortText 500 (ev_title x) = Some (ev_title y)" "list_schema 1000 (attendeeSchema w) (ev_attendees x) = Some (ev_attendees y)"
    "list_schema 100 (alarmSchema w) (ev_alarms x) = Some (ev_alarms y)" "list_schema 100 (shortText 100) (ev_categories x) = Some (ev_categories y)"
    "schema_option (recurrenceSchema w) (ev_recurrence x) = Some (ev_recurrence y)"
    "schema_option (attendeeSchema w) (ev_organizer x) = Some (ev_organizer y)" "validateEvent w y"
    and 2: "temporalValueSchema w (ev_start x) = Some (ev_start y)" "temporalValueSchema w (ev_end x) = Some (ev_end y)"
    and 3: "optionalText 32768 (ev_description x) = Some (ev_description y)" "optionalText 1000 (ev_location x) = Some (ev_location y)"
    by (auto simp: event_schema_def bind_eq_Some_conv dest!: testD)
  from 1(1) [THEN idemD [OF idem_shortText]] 1(2) [THEN idemD [OF idem_list [OF idem_attendee]]]
    1(3) [THEN idemD [OF idem_list [OF idem_alarm]]] 1(4) [THEN idemD [OF idem_list [OF idem_shortText]]]
    1(5) [THEN idemD [OF idem_option [OF idem_recurrence]]] 1(6) [THEN idemD [OF idem_option [OF idem_attendee]]] 1(7)
    2 [THEN idemD [OF idem_temporalValue]] 3 [THEN idemD [OF idem_optionalText]]
  show "event_schema w y = Some y" by (simp add: event_schema_def schema_test_def)
qed

lemma idem_task [idems]: "idem (task_schema w)"
proof (rule idemI)
  fix x y
  assume "task_schema w x = Some y"
  then obtain 1: "shortText 500 (tk_title x) = Some (tk_title y)" "list_schema 100 (shortText 100) (tk_categories x) = Some (tk_categories y)"
    "schema_option (recurrenceSchema w) (tk_recurrence x) = Some (tk_recurrence y)"
    "schema_option (isoDateTimeSchema w) (tk_completed_at x) = Some (tk_completed_at y)"
    "0 \<le> tk_priority y" "tk_priority y \<le> 9" "0 \<le> tk_percent y" "tk_percent y \<le> 100" "validateTask w y"
    and 2: "schema_option (temporalValueSchema w) (tk_entry x) = Some (tk_entry y)" "schema_option (temporalValueSchema w) (tk_due x) = Some (tk_due y)"
    and 3: "optionalText 32768 (tk_description x) = Some (tk_description y)" "optionalText 500 (tk_source_revision x) = Some (tk_source_revision y)"
    by (auto simp: task_schema_def bind_eq_Some_conv dest!: testD)
  from 1(1) [THEN idemD [OF idem_shortText]] 1(2) [THEN idemD [OF idem_list [OF idem_shortText]]]
    1(3) [THEN idemD [OF idem_option [OF idem_recurrence]]] 1(4) [THEN idemD [OF idem_option [OF idem_isoDateTime]]] 1(5-9)
    2 [THEN idemD [OF idem_option [OF idem_temporalValue]]] 3 [THEN idemD [OF idem_optionalText]]
  show "task_schema w y = Some y" by (simp add: task_schema_def schema_test_def)
qed

lemma created_without_uid: "createContactSchema w c = Some d \<Longrightarrow> ci_uid c = None \<Longrightarrow> ci_uid d = None"
  by (auto simp: createContactSchema_def Let_def split: option.split_asm if_split_asm)

lemma list_without_uid: "createMailingListSchema l = Some m \<Longrightarrow> mi_uid l = None \<Longrightarrow> mi_uid m = None"
  "createMailingListSchema l = Some m \<Longrightarrow> mi_member_emails m = mi_member_emails l"
  by (auto simp: createMailingListSchema_def split: option.split_asm if_split_asm)

lemma idem_content [idems]: "idem (content_schema w)"
proof (rule idemI)
  fix x y
  assume "content_schema w x = Some y"
  then show "content_schema w y = Some y"
    by (cases x) (auto simp: idemD [OF idem_createContact] idemD [OF idem_createMailingList] idemD [OF idem_event] idemD [OF idem_task]
      created_without_uid list_without_uid split: if_splits)
qed

lemma content_kind: "content_schema w x = Some y \<Longrightarrow> kind_of y = kind_of x"
  by (cases x) (auto split: if_splits)

lemma idem_entity [idems]: "idem (entity_schema w)"
proof (rule idemI)
  fix x y
  assume "entity_schema w x = Some y"
  then obtain 1: "uidSchema (en_uid x) = Some (en_uid y)" "content_schema w (en_content x) = Some (en_content y)" "0 < en_revision y"
    and 2: "isoDateTimeSchema w (en_created x) = Some (en_created y)" "isoDateTimeSchema w (en_updated x) = Some (en_updated y)"
    by (auto simp: entity_schema_def bind_eq_Some_conv dest!: testD)
  from 1(1) [THEN idemD [OF idem_uid]] 1(2) [THEN idemD [OF idem_content]] 1(3) 2 [THEN idemD [OF idem_isoDateTime]]
  show "entity_schema w y = Some y" by (simp add: entity_schema_def schema_test_def)
qed

lemma idem_transaction [idems]: "idem (pimTransactionSchema w)"
proof (rule idemI)
  fix x y
  assume "pimTransactionSchema w x = Some y"
  then obtain 1: "isoDateTimeSchema w (tx_occurred x) = Some (tx_occurred y)" "0 < tx_sequence y" "identifies (tx_kind y) (tx_uid y) (tx_before y)"
    "identifies (tx_kind y) (tx_uid y) (tx_after y)" "snapshots_fit (tx_action y) (tx_before y) (tx_after y)"
    and 2: "uidSchema (tx_id x) = Some (tx_id y)" "uidSchema (tx_uid x) = Some (tx_uid y)"
    and 3: "schema_option (entity_schema w) (tx_before x) = Some (tx_before y)" "schema_option (entity_schema w) (tx_after x) = Some (tx_after y)"
    by (auto simp: pimTransactionSchema_def bind_eq_Some_conv dest!: testD)
  from 1(1) [THEN idemD [OF idem_isoDateTime]] 1(2-5) 2 [THEN idemD [OF idem_uid]] 3 [THEN idemD [OF idem_option [OF idem_entity]]]
  show "pimTransactionSchema w y = Some y" by (simp add: pimTransactionSchema_def schema_test_def)
qed

end
