(* ===== verification/Pim_Store.thy ===== *)
theory Pim_Store
  imports Pim_Types Card_Import
begin

text \<open>
  The service over the local calendar and address book (\<open>src/main/pim/pim-service.ts\<close>): every operation
  as a change of the stored state inside \<open>mutate\<close> of the JSON store, with its transaction. The clock
  reading of the operation and the identifiers that \<open>idFactory\<close> gives one after another are the argument
  \<open>pim_source\<close>; the operations count the identifiers they take.
\<close>

section \<open>The working state\<close>

record pim_source =
  ps_now :: string
  ps_ids :: "nat \<Rightarrow> string"

record pim_work =
  wk_state :: pim_state
  wk_taken :: nat

datatype pim_error =
  PimRejected
| PimNotFound pim_kind string
| UidReserved pim_kind string
| NoFreshUid
| MissingMembers "string list"
| AmbiguousMember string
| UnknownMember string
| DuplicateUids
| NothingToRestore pim_kind string
| CardFailure card_error
| BadSelection

type_synonym 'a pim_result = "(pim_error, 'a) result"

definition accept :: "'a option \<Rightarrow> 'a pim_result" where
  "accept v = (case v of None \<Rightarrow> Inl PimRejected | Some x \<Rightarrow> Inr x)"

fun entityCollection :: "pim_kind \<Rightarrow> pim_state \<Rightarrow> pim_entity list" where
  "entityCollection ContactKind s = pm_contacts s"
| "entityCollection ListKind s = pm_lists s"
| "entityCollection EventKind s = pm_events s"
| "entityCollection TaskKind s = pm_tasks s"

fun set_collection :: "pim_kind \<Rightarrow> pim_entity list \<Rightarrow> pim_state \<Rightarrow> pim_state" where
  "set_collection ContactKind es s = s\<lparr>pm_contacts := es\<rparr>"
| "set_collection ListKind es s = s\<lparr>pm_lists := es\<rparr>"
| "set_collection EventKind es s = s\<lparr>pm_events := es\<rparr>"
| "set_collection TaskKind es s = s\<lparr>pm_tasks := es\<rparr>"

definition entity_with :: "string \<Rightarrow> pim_entity list \<Rightarrow> pim_entity option" where
  "entity_with u es = find (\<lambda>e. en_uid e = u) es"

text \<open>The element at the index found, replaced; an entity with a new UID is pushed.\<close>

fun put_entity :: "pim_entity \<Rightarrow> pim_entity list \<Rightarrow> pim_entity list" where
  "put_entity e [] = [e]"
| "put_entity e (x # xs) = (if en_uid x = en_uid e then e # xs else x # put_entity e xs)"

fun remove_entity :: "string \<Rightarrow> pim_entity list \<Rightarrow> pim_entity list" where
  "remove_entity u [] = []"
| "remove_entity u (x # xs) = (if en_uid x = u then xs else x # remove_entity u xs)"

definition on_work :: "(pim_state \<Rightarrow> pim_state) \<Rightarrow> pim_work \<Rightarrow> pim_work" where
  "on_work f k = k\<lparr>wk_state := f (wk_state k)\<rparr>"

definition isHistoricalUid :: "pim_state \<Rightarrow> pim_kind \<Rightarrow> string \<Rightarrow> bool" where
  "isHistoricalUid s k u = list_ex (\<lambda>t. tx_kind t = k \<and> tx_uid t = u) (pm_transactions s)"

text \<open>At most \<open>fuel\<close> identifiers are tried.\<close>

fun allocate :: "(string \<Rightarrow> bool) \<Rightarrow> (nat \<Rightarrow> string) \<Rightarrow> nat \<Rightarrow> nat \<Rightarrow> (string \<times> nat) pim_result" where
  "allocate known ids_from 0 n = Inl NoFreshUid"
| "allocate known ids_from (Suc fuel) n =
     (case uidSchema (ids_from n) of None \<Rightarrow> Inl PimRejected
      | Some u \<Rightarrow> if known u then allocate known ids_from fuel (Suc n) else Inr (u, Suc n))"

definition known_uid :: "pim_state \<Rightarrow> pim_kind \<Rightarrow> string \<Rightarrow> bool" where
  "known_uid s k u = (entity_with u (entityCollection k s) \<noteq> None \<or> isHistoricalUid s k u)"

definition availableUid :: "pim_source \<Rightarrow> pim_kind \<Rightarrow> string option \<Rightarrow> pim_work \<Rightarrow> (string \<times> pim_work) pim_result" where
  "availableUid src k requested wk =
     (case requested of
        Some r \<Rightarrow> (case uidSchema r of None \<Rightarrow> Inl PimRejected
          | Some u \<Rightarrow> if known_uid (wk_state wk) k u then Inl (UidReserved k u) else Inr (u, wk))
      | None \<Rightarrow> (case allocate (known_uid (wk_state wk) k) (ps_ids src) 100 (wk_taken wk) of Inl e \<Rightarrow> Inl e
          | Inr (u, n) \<Rightarrow> Inr (u, wk\<lparr>wk_taken := n\<rparr>)))"

definition revisions_in :: "pim_transaction \<Rightarrow> nat list" where
  "revisions_in t = map en_revision ((case tx_before t of None \<Rightarrow> [] | Some e \<Rightarrow> [e]) @ (case tx_after t of None \<Rightarrow> [] | Some e \<Rightarrow> [e]))"

definition latestRevision :: "pim_state \<Rightarrow> pim_kind \<Rightarrow> string \<Rightarrow> nat" where
  "latestRevision s k u =
     fold max (concat (map revisions_in (filter (\<lambda>t. tx_kind t = k \<and> tx_uid t = u) (pm_transactions s))))
       (case entity_with u (entityCollection k s) of None \<Rightarrow> 0 | Some e \<Rightarrow> en_revision e)"

text \<open>\<open>#record\<close>: the transaction is checked with its snapshots and gets the next sequence number.\<close>

definition record_change ::
  "pim_world \<Rightarrow> pim_source \<Rightarrow> transaction_action \<Rightarrow> pim_kind \<Rightarrow> string \<Rightarrow> pim_entity option \<Rightarrow> pim_entity option \<Rightarrow> pim_work \<Rightarrow>
   pim_work pim_result" where
  "record_change w src action k u b c wk =
     (let s = wk_state wk in
      and_then (accept (schema_option (entity_schema w) b)) (\<lambda>b'.
      and_then (accept (schema_option (entity_schema w) c)) (\<lambda>c'.
      and_then (allocate (\<lambda>i. list_ex (\<lambda>t. tx_id t = i) (pm_transactions s)) (ps_ids src) 101 (wk_taken wk)) (\<lambda>(i, n).
      and_then (accept (pimTransactionSchema w \<lparr>tx_id = i, tx_sequence = pm_next_sequence s, tx_occurred = ps_now src,
                 tx_action = action, tx_kind = k, tx_uid = u, tx_before = b', tx_after = c'\<rparr>)) (\<lambda>t.
        Inr (wk\<lparr>wk_state := s\<lparr>pm_next_sequence := pm_next_sequence s + 1, pm_transactions := pm_transactions s @ [t]\<rparr>,
                wk_taken := n\<rparr>))))))"

text \<open>\<open>mutate\<close>: an unchanged decision leaves the stored state as it is, a changed draft is validated.\<close>

definition mutate :: "pim_world \<Rightarrow> pim_state \<Rightarrow> (bool \<times> pim_work \<times> 'a) pim_result \<Rightarrow> (pim_state \<times> 'a) pim_result" where
  "mutate w s decision =
     and_then decision (\<lambda>(changed, wk, x).
       if \<not> changed then Inr (s, x)
       else and_then (accept (persistedPimStateSchema w (wk_state wk))) (\<lambda>s'. Inr (s', x)))"

abbreviation draft_of_state :: "pim_state \<Rightarrow> pim_work" where
  "draft_of_state s \<equiv> \<lparr>wk_state = s, wk_taken = 0\<rparr>"

section \<open>Steps shared by the kinds\<close>

definition bump_tasks :: "pim_kind \<Rightarrow> pim_state \<Rightarrow> pim_state" where
  "bump_tasks k s = (if k = TaskKind then s\<lparr>pm_task_version := pm_task_version s + 1\<rparr> else s)"

text \<open>A changed entity enters its collection, in the place of the current one if there is one.\<close>

definition store_entity ::
  "pim_world \<Rightarrow> pim_source \<Rightarrow> transaction_action \<Rightarrow> pim_kind \<Rightarrow> pim_entity option \<Rightarrow> pim_entity \<Rightarrow> pim_work \<Rightarrow> pim_work pim_result" where
  "store_entity w src action k current e wk =
     record_change w src action k (en_uid e) current (Some e)
       (on_work (\<lambda>s. set_collection k (put_entity e (entityCollection k s)) s) wk)"

definition new_entity :: "pim_world \<Rightarrow> pim_source \<Rightarrow> string \<Rightarrow> pim_content \<Rightarrow> nat \<Rightarrow> pim_entity pim_result" where
  "new_entity w src u c n =
     accept (entity_schema w \<lparr>en_uid = u, en_content = c, en_created = ps_now src, en_updated = ps_now src, en_revision = n\<rparr>)"

definition create_entity ::
  "pim_world \<Rightarrow> pim_source \<Rightarrow> pim_kind \<Rightarrow> string option \<Rightarrow> pim_content \<Rightarrow> pim_work \<Rightarrow> (bool \<times> pim_work \<times> pim_entity) pim_result" where
  "create_entity w src k requested c wk =
     and_then (availableUid src k requested wk) (\<lambda>(u, wk1).
     and_then (new_entity w src u c 1) (\<lambda>e.
     and_then (store_entity w src CreatedAction k None e (on_work (bump_tasks k) wk1)) (\<lambda>wk2. Inr (True, wk2, e))))"

text \<open>The content is checked first, with the old times and revision; when nothing changed the entity
  stays, otherwise it gets the next revision.\<close>

definition revise_entity ::
  "pim_world \<Rightarrow> pim_source \<Rightarrow> pim_kind \<Rightarrow> pim_entity \<Rightarrow> pim_content \<Rightarrow> pim_work \<Rightarrow> (bool \<times> pim_work \<times> pim_entity) pim_result" where
  "revise_entity w src k current c wk =
     and_then (accept (entity_schema w (current\<lparr>en_content := c\<rparr>))) (\<lambda>candidate.
       if en_content candidate = en_content current then Inr (False, wk, current)
       else and_then (accept (entity_schema w (candidate\<lparr>en_updated := ps_now src, en_revision := en_revision current + 1\<rparr>))) (\<lambda>e.
         and_then (store_entity w src UpdatedAction k (Some current) e wk) (\<lambda>wk2. Inr (True, wk2, e))))"

definition update_entity ::
  "pim_world \<Rightarrow> pim_source \<Rightarrow> pim_kind \<Rightarrow> string \<Rightarrow> (pim_content \<Rightarrow> pim_content pim_result) \<Rightarrow> pim_state \<Rightarrow> (pim_state \<times> pim_entity) pim_result" where
  "update_entity w src k uid change s =
     and_then (accept (uidSchema uid)) (\<lambda>u.
     mutate w s
       (case entity_with u (entityCollection k s) of None \<Rightarrow> Inl (PimNotFound k u)
        | Some current \<Rightarrow>
            and_then (change (en_content current)) (\<lambda>c.
            and_then (revise_entity w src k current c (draft_of_state s)) (\<lambda>(changed, wk, e).
              Inr (changed, if changed then on_work (bump_tasks k) wk else wk, e)))))"

definition delete_entity :: "pim_world \<Rightarrow> pim_source \<Rightarrow> pim_kind \<Rightarrow> string \<Rightarrow> pim_state \<Rightarrow> (pim_state \<times> bool) pim_result" where
  "delete_entity w src k uid s =
     and_then (accept (uidSchema uid)) (\<lambda>u.
     mutate w s
       (case entity_with u (entityCollection k s) of None \<Rightarrow> Inr (False, draft_of_state s, False)
        | Some current \<Rightarrow>
            and_then (record_change w src DeletedAction k (en_uid current) (Some current) None
               (on_work (bump_tasks k \<circ> (\<lambda>s. set_collection k (remove_entity u (entityCollection k s)) s)) (draft_of_state s)))
              (\<lambda>wk. Inr (True, wk, True))))"

text \<open>\<open>#restoreSource\<close>: the transaction that was asked for, or the last one of the entity; what it shows.\<close>

definition restoreSource :: "pim_state \<Rightarrow> pim_kind \<Rightarrow> string \<Rightarrow> string option \<Rightarrow> pim_entity option" where
  "restoreSource s k u transaction =
     (let mine = (\<lambda>t. tx_kind t = k \<and> tx_uid t = u) in
      case (case transaction of
              Some i \<Rightarrow> find (\<lambda>t. tx_id t = i \<and> mine t) (pm_transactions s)
            | None \<Rightarrow> find (\<lambda>t. mine t \<and> (tx_before t \<noteq> None \<or> tx_after t \<noteq> None)) (rev (pm_transactions s))) of
        None \<Rightarrow> None
      | Some t \<Rightarrow>
          (case (if tx_action t = CreatedAction \<or> tx_before t = None then tx_after t else tx_before t) of
             None \<Rightarrow> None | Some e \<Rightarrow> if kind_of (en_content e) = k then Some e else None))"

definition restore_entity ::
  "pim_world \<Rightarrow> pim_source \<Rightarrow> pim_kind \<Rightarrow> string \<Rightarrow> string option \<Rightarrow> pim_state \<Rightarrow> (pim_state \<times> pim_entity) pim_result" where
  "restore_entity w src k uid transaction s =
     and_then (accept (uidSchema uid)) (\<lambda>u.
     and_then (accept (schema_option uidSchema transaction)) (\<lambda>i.
     mutate w s
       (let current = entity_with u (entityCollection k s) in
        case restoreSource s k u i of None \<Rightarrow> Inl (NothingToRestore k u)
        | Some source \<Rightarrow>
            if map_option en_content current = Some (en_content source) then Inr (False, draft_of_state s, the current)
            else and_then (accept (entity_schema w (source\<lparr>en_uid := u, en_updated := ps_now src,
                     en_revision := latestRevision s k u + 1\<rparr>))) (\<lambda>e.
                 and_then (store_entity w src RestoredAction k current e (on_work (bump_tasks k) (draft_of_state s))) (\<lambda>wk.
                   Inr (True, wk, e))))))"

section \<open>Contacts\<close>

text \<open>A field of a patch: left as it is, cleared, or set.\<close>

datatype 'a change = Keep | Clear | Set 'a

fun applied :: "'a change \<Rightarrow> 'a option \<Rightarrow> 'a option" where
  "applied Keep old = old"
| "applied Clear old = None"
| "applied (Set x) old = Some x"

fun schema_change :: "('a \<Rightarrow> 'a option) \<Rightarrow> 'a change \<Rightarrow> 'a change option" where
  "schema_change f Keep = Some Keep"
| "schema_change f Clear = Some Clear"
| "schema_change f (Set x) = map_option Set (f x)"

definition replaced :: "'a option \<Rightarrow> 'a \<Rightarrow> 'a" where
  "replaced new old = (case new of None \<Rightarrow> old | Some x \<Rightarrow> x)"

definition createContact :: "pim_world \<Rightarrow> pim_source \<Rightarrow> contact_input \<Rightarrow> pim_state \<Rightarrow> (pim_state \<times> pim_entity) pim_result" where
  "createContact w src input s =
     and_then (accept (createContactSchema (pw_cards w) input)) (\<lambda>p.
       mutate w s (create_entity w src ContactKind (ci_uid p) (ContactContent (p\<lparr>ci_uid := None\<rparr>)) (draft_of_state s)))"

record contact_patch =
  cp_display_name :: "string option"
  cp_person :: "contact_name change"
  cp_nickname :: "string change"
  cp_emails :: "contact_method list option"
  cp_phones :: "contact_method list option"
  cp_addresses :: "contact_address list option"
  cp_organization :: "string change"
  cp_title :: "string change"
  cp_notes :: "string change"

definition contactPatchSchema :: "pim_world \<Rightarrow> contact_patch \<Rightarrow> contact_patch option" where
  "contactPatchSchema w p =
     do { d \<leftarrow> optionalText 300 (cp_display_name p); n \<leftarrow> schema_change contactNameSchema (cp_person p);
          k \<leftarrow> schema_change (shortText 120) (cp_nickname p);
          es \<leftarrow> schema_option (list_schema 100 (contactEmailSchema (pw_cards w))) (cp_emails p);
          ps \<leftarrow> schema_option (list_schema 100 contactPhoneSchema) (cp_phones p);
          as \<leftarrow> schema_option (list_schema 50 contactAddressSchema) (cp_addresses p);
          g \<leftarrow> schema_change (shortText 300) (cp_organization p); t \<leftarrow> schema_change (shortText 300) (cp_title p);
          x \<leftarrow> schema_change (shortText 16384) (cp_notes p);
          Some \<lparr>cp_display_name = d, cp_person = n, cp_nickname = k, cp_emails = es, cp_phones = ps, cp_addresses = as,
                cp_organization = g, cp_title = t, cp_notes = x\<rparr> }"

definition no_name :: contact_name where
  "no_name = \<lparr>cn_prefix = None, cn_given = None, cn_additional = None, cn_family = None, cn_suffix = None\<rparr>"

text \<open>A cleared name is the empty name.\<close>

definition patch_contact :: "contact_patch \<Rightarrow> contact_input \<Rightarrow> contact_input" where
  "patch_contact p c =
     c\<lparr>ci_display_name := replaced (cp_display_name p) (ci_display_name c),
       ci_name := replaced (applied (cp_person p) (Some (ci_name c))) no_name,
       ci_nickname := applied (cp_nickname p) (ci_nickname c), ci_emails := replaced (cp_emails p) (ci_emails c),
       ci_phones := replaced (cp_phones p) (ci_phones c), ci_addresses := replaced (cp_addresses p) (ci_addresses c),
       ci_organization := applied (cp_organization p) (ci_organization c), ci_title := applied (cp_title p) (ci_title c),
       ci_notes := applied (cp_notes p) (ci_notes c)\<rparr>"

definition updateContact :: "pim_world \<Rightarrow> pim_source \<Rightarrow> string \<Rightarrow> contact_patch \<Rightarrow> pim_state \<Rightarrow> (pim_state \<times> pim_entity) pim_result" where
  "updateContact w src uid patch s =
     and_then (accept (contactPatchSchema w patch)) (\<lambda>p.
       update_entity w src ContactKind uid (\<lambda>c. case c of ContactContent x \<Rightarrow> Inr (ContactContent (patch_contact p x)) | _ \<Rightarrow> Inl PimRejected) s)"

abbreviation deleteContact :: "pim_world \<Rightarrow> pim_source \<Rightarrow> string \<Rightarrow> pim_state \<Rightarrow> (pim_state \<times> bool) pim_result" where
  "deleteContact w src \<equiv> delete_entity w src ContactKind"

abbreviation restoreContact :: "pim_world \<Rightarrow> pim_source \<Rightarrow> string \<Rightarrow> string option \<Rightarrow> pim_state \<Rightarrow> (pim_state \<times> pim_entity) pim_result" where
  "restoreContact w src \<equiv> restore_entity w src ContactKind"

section \<open>Mailing lists\<close>

definition assertContactsExist :: "pim_state \<Rightarrow> string list \<Rightarrow> unit pim_result" where
  "assertContactsExist s us =
     (let missing = filter (\<lambda>u. u \<notin> set (map en_uid (pm_contacts s))) us
      in if missing = [] then Inr () else Inl (MissingMembers missing))"

text \<open>An input of \<open>createMailingList\<close> has no members by e-mail.\<close>

definition createMailingList :: "pim_world \<Rightarrow> pim_source \<Rightarrow> mailing_list_input \<Rightarrow> pim_state \<Rightarrow> (pim_state \<times> pim_entity) pim_result" where
  "createMailingList w src input s =
     and_then (accept (if mi_member_emails input = [] then createMailingListSchema input else None)) (\<lambda>p.
       mutate w s
         (and_then (assertContactsExist s (mi_member_uids p)) (\<lambda>_.
            create_entity w src ListKind (mi_uid p) (ListContent (p\<lparr>mi_uid := None\<rparr>)) (draft_of_state s))))"

record list_patch =
  lp_name :: "string option"
  lp_nickname :: "string change"
  lp_description :: "string change"
  lp_members :: "string list option"

definition mailingListPatchSchema :: "list_patch \<Rightarrow> list_patch option" where
  "mailingListPatchSchema p =
     do { n \<leftarrow> optionalText 300 (lp_name p); k \<leftarrow> schema_change (shortText 120) (lp_nickname p);
          d \<leftarrow> schema_change (shortText 4096) (lp_description p);
          us \<leftarrow> schema_option (\<lambda>us. do { us' \<leftarrow> list_schema 10000 uidSchema us; schema_test uniqueStrings us' }) (lp_members p);
          Some \<lparr>lp_name = n, lp_nickname = k, lp_description = d, lp_members = us\<rparr> }"

definition patch_list :: "list_patch \<Rightarrow> mailing_list_input \<Rightarrow> mailing_list_input" where
  "patch_list p l =
     l\<lparr>mi_name := replaced (lp_name p) (mi_name l), mi_nickname := applied (lp_nickname p) (mi_nickname l),
       mi_description := applied (lp_description p) (mi_description l), mi_member_uids := replaced (lp_members p) (mi_member_uids l)\<rparr>"

definition updateMailingList :: "pim_world \<Rightarrow> pim_source \<Rightarrow> string \<Rightarrow> list_patch \<Rightarrow> pim_state \<Rightarrow> (pim_state \<times> pim_entity) pim_result" where
  "updateMailingList w src uid patch s =
     and_then (accept (mailingListPatchSchema patch)) (\<lambda>p.
       update_entity w src ListKind uid
         (\<lambda>c. case c of
            ListContent l \<Rightarrow> and_then (case lp_members p of None \<Rightarrow> Inr () | Some us \<Rightarrow> assertContactsExist s us) (\<lambda>_.
              Inr (ListContent (patch_list p l)))
          | _ \<Rightarrow> Inl PimRejected) s)"

definition listMailingListMembers :: "string \<Rightarrow> pim_state \<Rightarrow> pim_entity list pim_result" where
  "listMailingListMembers uid s =
     and_then (accept (uidSchema uid)) (\<lambda>u.
       case entity_with u (pm_lists s) of
         Some e \<Rightarrow> (case en_content e of
             ListContent l \<Rightarrow>
               let position = (\<lambda>c. length (takeWhile (\<lambda>m. m \<noteq> en_uid c) (mi_member_uids l)))
               in Inr (sort_key position (filter (\<lambda>c. en_uid c \<in> set (mi_member_uids l)) (pm_contacts s)))
           | _ \<Rightarrow> Inr [])
       | None \<Rightarrow> Inl (PimNotFound ListKind uid))"

section \<open>Events and tasks\<close>

definition createCalendarEvent ::
  "pim_world \<Rightarrow> pim_source \<Rightarrow> string option \<Rightarrow> event_content \<Rightarrow> pim_state \<Rightarrow> (pim_state \<times> pim_entity) pim_result" where
  "createCalendarEvent w src requested input s =
     and_then (accept (schema_option uidSchema requested)) (\<lambda>u.
     and_then (accept (event_schema w input)) (\<lambda>p.
       mutate w s (create_entity w src EventKind u (EventContent p) (draft_of_state s))))"

record event_patch =
  ep_title :: "string option"
  ep_description :: "string change"
  ep_location :: "string change"
  ep_start :: "temporal option"
  ep_end :: "temporal option"
  ep_recurrence :: "recurrence change"
  ep_organizer :: "attendee change"
  ep_attendees :: "attendee list option"
  ep_alarms :: "alarm list option"
  ep_categories :: "string list option"
  ep_status :: "event_status option"
  ep_transparency :: "transparency option"

definition calendarEventPatchSchema :: "pim_world \<Rightarrow> event_patch \<Rightarrow> event_patch option" where
  "calendarEventPatchSchema w p =
     do { t \<leftarrow> optionalText 500 (ep_title p); d \<leftarrow> schema_change (shortText 32768) (ep_description p);
          l \<leftarrow> schema_change (shortText 1000) (ep_location p); s \<leftarrow> schema_option (temporalValueSchema w) (ep_start p);
          f \<leftarrow> schema_option (temporalValueSchema w) (ep_end p); r \<leftarrow> schema_change (recurrenceSchema w) (ep_recurrence p);
          g \<leftarrow> schema_change (attendeeSchema w) (ep_organizer p);
          as \<leftarrow> schema_option (list_schema 1000 (attendeeSchema w)) (ep_attendees p);
          ls \<leftarrow> schema_option (list_schema 100 (alarmSchema w)) (ep_alarms p);
          cs \<leftarrow> schema_option (list_schema 100 (shortText 100)) (ep_categories p);
          Some (p\<lparr>ep_title := t, ep_description := d, ep_location := l, ep_start := s, ep_end := f, ep_recurrence := r,
                  ep_organizer := g, ep_attendees := as, ep_alarms := ls, ep_categories := cs\<rparr>) }"

definition patch_event :: "event_patch \<Rightarrow> event_content \<Rightarrow> event_content" where
  "patch_event p e =
     \<lparr>ev_title = replaced (ep_title p) (ev_title e), ev_description = applied (ep_description p) (ev_description e),
      ev_location = applied (ep_location p) (ev_location e), ev_start = replaced (ep_start p) (ev_start e),
      ev_end = replaced (ep_end p) (ev_end e), ev_recurrence = applied (ep_recurrence p) (ev_recurrence e),
      ev_organizer = applied (ep_organizer p) (ev_organizer e), ev_attendees = replaced (ep_attendees p) (ev_attendees e),
      ev_alarms = replaced (ep_alarms p) (ev_alarms e), ev_categories = replaced (ep_categories p) (ev_categories e),
      ev_status = replaced (ep_status p) (ev_status e), ev_transparency = replaced (ep_transparency p) (ev_transparency e)\<rparr>"

definition updateCalendarEvent :: "pim_world \<Rightarrow> pim_source \<Rightarrow> string \<Rightarrow> event_patch \<Rightarrow> pim_state \<Rightarrow> (pim_state \<times> pim_entity) pim_result" where
  "updateCalendarEvent w src uid patch s =
     and_then (accept (calendarEventPatchSchema w patch)) (\<lambda>p.
       update_entity w src EventKind uid (\<lambda>c. case c of EventContent e \<Rightarrow> Inr (EventContent (patch_event p e)) | _ \<Rightarrow> Inl PimRejected) s)"

text \<open>A completed task is at 100 percent and has a completion time; any other has none and is below.\<close>

definition normalizeTaskContent :: "string \<Rightarrow> task_content \<Rightarrow> task_content" where
  "normalizeTaskContent now t =
     (if tk_status t = TaskCompleted
      then t\<lparr>tk_percent := 100, tk_completed_at := Some (replaced (tk_completed_at t) now)\<rparr>
      else t\<lparr>tk_completed_at := None, tk_percent := (if tk_percent t \<ge> 100 then 99 else tk_percent t)\<rparr>)"

definition createTask ::
  "pim_world \<Rightarrow> pim_source \<Rightarrow> string option \<Rightarrow> task_content \<Rightarrow> pim_state \<Rightarrow> (pim_state \<times> pim_entity) pim_result" where
  "createTask w src requested input s =
     and_then (accept (schema_option uidSchema requested)) (\<lambda>u.
     and_then (accept (task_schema w input)) (\<lambda>p.
       mutate w s (create_entity w src TaskKind u (TaskContent (normalizeTaskContent (ps_now src) p)) (draft_of_state s))))"

record task_patch =
  kp_title :: "string option"
  kp_description :: "string change"
  kp_status :: "task_status option"
  kp_entry :: "temporal change"
  kp_due :: "temporal change"
  kp_priority :: "int option"
  kp_percent :: "int option"
  kp_completed_at :: "string change"
  kp_categories :: "string list option"
  kp_recurrence :: "recurrence change"
  kp_source_revision :: "string change"

definition in_range :: "int \<Rightarrow> int \<Rightarrow> int option \<Rightarrow> bool" where
  "in_range lo hi v = (case v of None \<Rightarrow> True | Some x \<Rightarrow> lo \<le> x \<and> x \<le> hi)"

definition taskPatchSchema :: "pim_world \<Rightarrow> task_patch \<Rightarrow> task_patch option" where
  "taskPatchSchema w p =
     do { t \<leftarrow> optionalText 500 (kp_title p); d \<leftarrow> schema_change (shortText 32768) (kp_description p);
          e \<leftarrow> schema_change (temporalValueSchema w) (kp_entry p); u \<leftarrow> schema_change (temporalValueSchema w) (kp_due p);
          c \<leftarrow> schema_change (isoDateTimeSchema w) (kp_completed_at p);
          cs \<leftarrow> schema_option (list_schema 100 (shortText 100)) (kp_categories p);
          r \<leftarrow> schema_change (recurrenceSchema w) (kp_recurrence p); v \<leftarrow> schema_change (shortText 500) (kp_source_revision p);
          schema_test (\<lambda>p. in_range 0 9 (kp_priority p) \<and> in_range 0 100 (kp_percent p))
            (p\<lparr>kp_title := t, kp_description := d, kp_entry := e, kp_due := u, kp_completed_at := c, kp_categories := cs,
               kp_recurrence := r, kp_source_revision := v\<rparr>) }"

definition patch_task :: "task_patch \<Rightarrow> task_content \<Rightarrow> task_content" where
  "patch_task p t =
     \<lparr>tk_title = replaced (kp_title p) (tk_title t), tk_description = applied (kp_description p) (tk_description t),
      tk_status = replaced (kp_status p) (tk_status t), tk_entry = applied (kp_entry p) (tk_entry t),
      tk_due = applied (kp_due p) (tk_due t), tk_priority = replaced (kp_priority p) (tk_priority t),
      tk_percent = replaced (kp_percent p) (tk_percent t), tk_completed_at = applied (kp_completed_at p) (tk_completed_at t),
      tk_categories = replaced (kp_categories p) (tk_categories t), tk_recurrence = applied (kp_recurrence p) (tk_recurrence t),
      tk_source_revision = applied (kp_source_revision p) (tk_source_revision t)\<rparr>"

definition updateTask :: "pim_world \<Rightarrow> pim_source \<Rightarrow> string \<Rightarrow> task_patch \<Rightarrow> pim_state \<Rightarrow> (pim_state \<times> pim_entity) pim_result" where
  "updateTask w src uid patch s =
     and_then (accept (taskPatchSchema w patch)) (\<lambda>p.
       update_entity w src TaskKind uid
         (\<lambda>c. case c of TaskContent t \<Rightarrow> Inr (TaskContent (normalizeTaskContent (ps_now src) (patch_task p t))) | _ \<Rightarrow> Inl PimRejected) s)"

section \<open>Selection and listing\<close>

definition selectByUid :: "pim_kind \<Rightarrow> pim_entity list \<Rightarrow> string list \<Rightarrow> pim_entity list pim_result" where
  "selectByUid k es requested =
     and_then (map_result (\<lambda>r. accept (uidSchema r)) requested) (\<lambda>us.
       map_result (\<lambda>u. case entity_with u es of None \<Rightarrow> Inl (PimNotFound k u) | Some e \<Rightarrow> Inr e) us)"

definition contact_card :: "pim_entity \<Rightarrow> (string \<times> contact_input \<times> string) list" where
  "contact_card e = (case en_content e of ContactContent c \<Rightarrow> [(en_uid e, c, en_updated e)] | _ \<Rightarrow> [])"

definition list_card :: "pim_entity \<Rightarrow> (string \<times> mailing_list_input \<times> string) list" where
  "list_card e = (case en_content e of ListContent l \<Rightarrow> [(en_uid e, l, en_updated e)] | _ \<Rightarrow> [])"

definition exportVCard :: "pim_world \<Rightarrow> string list option \<Rightarrow> string list option \<Rightarrow> pim_state \<Rightarrow> string pim_result" where
  "exportVCard w contact_uids list_uids s =
     and_then (case contact_uids of None \<Rightarrow> Inr (pm_contacts s) | Some us \<Rightarrow> selectByUid ContactKind (pm_contacts s) us) (\<lambda>cs.
     and_then (case list_uids of None \<Rightarrow> Inr (pm_lists s) | Some us \<Rightarrow> selectByUid ListKind (pm_lists s) us) (\<lambda>ls.
       Inr (serializeVCardBundle (pw_cards w) (concat (map contact_card cs)) (concat (map list_card ls)))))"

datatype calendar_export = AllRecords "pim_kind list" | SelectedRecords "string list" "string list"

text \<open>The choice of \<open>exportICalendar\<close>.\<close>

definition calendar_selection :: "calendar_export \<Rightarrow> pim_state \<Rightarrow> (pim_entity list \<times> pim_entity list) pim_result" where
  "calendar_selection request s =
     (case request of
        AllRecords kinds \<Rightarrow>
          if kinds = [] \<or> \<not> distinct kinds \<or> \<not> set kinds \<subseteq> {EventKind, TaskKind} then Inl BadSelection
          else Inr (if EventKind \<in> set kinds then pm_events s else [], if TaskKind \<in> set kinds then pm_tasks s else [])
      | SelectedRecords es ts \<Rightarrow>
          if length es + length ts < 1 \<or> length es + length ts > 5000 \<or> \<not> distinct es \<or> \<not> distinct ts then Inl BadSelection
          else and_then (selectByUid EventKind (pm_events s) es) (\<lambda>events.
               and_then (selectByUid TaskKind (pm_tasks s) ts) (\<lambda>tasks. Inr (events, tasks))))"

record transaction_filter =
  tf_actions :: "transaction_action list option"
  tf_kinds :: "pim_kind list option"
  tf_uids :: "string list option"
  tf_from :: "string option"
  tf_to :: "string option"

definition wanted :: "'a list option \<Rightarrow> 'a \<Rightarrow> bool" where
  "wanted xs x = (case xs of None \<Rightarrow> True | Some ys \<Rightarrow> x \<in> set ys)"

text \<open>\<^const>\<open>None\<close> when the start follows the end.\<close>

definition listTransactions :: "pim_world \<Rightarrow> transaction_filter \<Rightarrow> pim_state \<Rightarrow> pim_transaction list option" where
  "listTransactions w f s =
     (let from_ok = (\<lambda>x. case tf_from f of None \<Rightarrow> True | Some v \<Rightarrow> pw_time w v \<le> x);
          to_ok = (\<lambda>x. case tf_to f of None \<Rightarrow> True | Some v \<Rightarrow> x \<le> pw_time w v)
      in if (case (tf_from f, tf_to f) of (Some a, Some b) \<Rightarrow> pw_time w b < pw_time w a | _ \<Rightarrow> False) then None
         else Some (filter (\<lambda>t. wanted (tf_actions f) (tx_action t) \<and> wanted (tf_kinds f) (tx_kind t) \<and> wanted (tf_uids f) (tx_uid t)
                 \<and> from_ok (pw_time w (tx_occurred t)) \<and> to_ok (pw_time w (tx_occurred t))) (pm_transactions s)))"

section \<open>Import of cards\<close>

record import_result =
  ir_entities :: "pim_entity list"
  ir_created :: nat
  ir_updated :: nat
  ir_unchanged :: nat
  ir_skipped :: nat

definition nothing_imported :: import_result where
  "nothing_imported = \<lparr>ir_entities = [], ir_created = 0, ir_updated = 0, ir_unchanged = 0, ir_skipped = 0\<rparr>"

datatype outcome = WasNew | WasChanged | WasSame | WasSkipped

definition tally :: "outcome \<Rightarrow> pim_entity list \<Rightarrow> import_result \<Rightarrow> import_result" where
  "tally y es r =
     (let r' = r\<lparr>ir_entities := ir_entities r @ es\<rparr> in
      case y of WasNew \<Rightarrow> r'\<lparr>ir_created := ir_created r + 1\<rparr> | WasChanged \<Rightarrow> r'\<lparr>ir_updated := ir_updated r + 1\<rparr>
        | WasSame \<Rightarrow> r'\<lparr>ir_unchanged := ir_unchanged r + 1\<rparr> | WasSkipped \<Rightarrow> r'\<lparr>ir_skipped := ir_skipped r + 1\<rparr>)"

definition changed_by :: "import_result \<Rightarrow> bool" where
  "changed_by r = (ir_created r + ir_updated r > 0)"

text \<open>An entity with the UID is revised; a UID of deleted history is refused.\<close>

definition import_entity ::
  "pim_world \<Rightarrow> pim_source \<Rightarrow> pim_kind \<Rightarrow> string \<Rightarrow> pim_content \<Rightarrow> pim_work \<Rightarrow> (outcome \<times> pim_work \<times> pim_entity) pim_result" where
  "import_entity w src k u c wk =
     (case entity_with u (entityCollection k (wk_state wk)) of
        Some current \<Rightarrow> and_then (revise_entity w src k current c wk) (\<lambda>(changed, wk', e).
          Inr (if changed then WasChanged else WasSame, wk', e))
      | None \<Rightarrow>
          if isHistoricalUid (wk_state wk) k u then Inl (UidReserved k u)
          else and_then (new_entity w src u c (latestRevision (wk_state wk) k u + 1)) (\<lambda>e.
               and_then (store_entity w src CreatedAction k None e wk) (\<lambda>wk'. Inr (WasNew, wk', e))))"

definition import_uid :: "pim_source \<Rightarrow> pim_kind \<Rightarrow> string option \<Rightarrow> pim_work \<Rightarrow> (string \<times> pim_work) pim_result" where
  "import_uid src k u wk = (case u of Some v \<Rightarrow> Inr (v, wk) | None \<Rightarrow> availableUid src k None wk)"

definition import_contact ::
  "pim_world \<Rightarrow> pim_source \<Rightarrow> contact_input \<Rightarrow> pim_work \<Rightarrow> (outcome \<times> pim_work \<times> pim_entity) pim_result" where
  "import_contact w src raw wk =
     and_then (accept (createContactSchema (pw_cards w) raw)) (\<lambda>p.
     and_then (import_uid src ContactKind (ci_uid p) wk) (\<lambda>(u, wk1).
       import_entity w src ContactKind u (ContactContent (p\<lparr>ci_uid := None\<rparr>)) wk1))"

definition has_address :: "string \<Rightarrow> pim_entity \<Rightarrow> bool" where
  "has_address address e =
     (case en_content e of ContactContent c \<Rightarrow> list_ex (\<lambda>m. lower (cm_value m) = lower address) (ci_emails c) | _ \<Rightarrow> False)"

definition member_by_address :: "pim_state \<Rightarrow> string \<Rightarrow> string pim_result" where
  "member_by_address s address =
     (case filter (has_address address) (pm_contacts s) of
        [e] \<Rightarrow> Inr (en_uid e) | [] \<Rightarrow> Inl (UnknownMember address) | _ \<Rightarrow> Inl (AmbiguousMember address))"

definition import_list ::
  "pim_world \<Rightarrow> pim_source \<Rightarrow> mailing_list_input \<Rightarrow> pim_work \<Rightarrow> (outcome \<times> pim_work \<times> pim_entity) pim_result" where
  "import_list w src raw wk =
     and_then (accept (createMailingListSchema (raw\<lparr>mi_member_emails := []\<rparr>))) (\<lambda>p.
     and_then (map_result (member_by_address (wk_state wk)) (mi_member_emails raw)) (\<lambda>resolved.
     and_then (accept (createMailingListSchema (p\<lparr>mi_member_uids := unique (mi_member_uids p @ resolved)\<rparr>))) (\<lambda>q.
     and_then (assertContactsExist (wk_state wk) (mi_member_uids q)) (\<lambda>_.
     and_then (import_uid src ListKind (mi_uid q) wk) (\<lambda>(u, wk1).
       import_entity w src ListKind u (ListContent (q\<lparr>mi_uid := None\<rparr>)) wk1)))))"

fun import_all ::
  "('a \<Rightarrow> pim_work \<Rightarrow> (outcome \<times> pim_work \<times> pim_entity list) pim_result) \<Rightarrow> 'a list \<Rightarrow> pim_work \<Rightarrow> import_result \<Rightarrow>
   (pim_work \<times> import_result) pim_result" where
  "import_all f [] wk r = Inr (wk, r)"
| "import_all f (x # xs) wk r = and_then (f x wk) (\<lambda>(y, wk', es). import_all f xs wk' (tally y es r))"

definition with_entity :: "('a \<Rightarrow> pim_work \<Rightarrow> (outcome \<times> pim_work \<times> pim_entity) pim_result) \<Rightarrow> 'a \<Rightarrow> pim_work \<Rightarrow>
   (outcome \<times> pim_work \<times> pim_entity list) pim_result" where
  "with_entity f x wk = and_then (f x wk) (\<lambda>(y, wk', e). Inr (y, wk', [e]))"

definition importVCard :: "pim_world \<Rightarrow> pim_source \<Rightarrow> string \<Rightarrow> pim_state \<Rightarrow> (pim_state \<times> import_result) pim_result" where
  "importVCard w src source s =
     and_then (case parseVCardBundle (pw_cards w) source of Inl e \<Rightarrow> Inl (CardFailure e) | Inr b \<Rightarrow> Inr b) (\<lambda>b.
     mutate w s
       (and_then (import_all (with_entity (import_contact w src)) (cb_contacts b) (draft_of_state s) nothing_imported) (\<lambda>(wk1, r1).
        and_then (import_all (with_entity (import_list w src)) (cb_lists b) wk1 r1) (\<lambda>(wk2, r2). Inr (changed_by r2, wk2, r2)))))"

section \<open>Import of calendar records\<close>

text \<open>\<open>importICalendar\<close> from the parsed bundle on. A UID of the other kind, now or in history, is a conflict.\<close>

definition conflictFromOtherKind :: "pim_state \<Rightarrow> string \<Rightarrow> pim_kind \<Rightarrow> bool" where
  "conflictFromOtherKind s u k = known_uid s (if k = EventKind then TaskKind else EventKind) u"

definition import_record ::
  "pim_world \<Rightarrow> pim_source \<Rightarrow> bool \<Rightarrow> pim_kind \<Rightarrow> string \<Rightarrow> pim_content \<Rightarrow> pim_work \<Rightarrow> (outcome \<times> pim_work \<times> pim_entity list) pim_result" where
  "import_record w src update_policy k u c wk =
     (let s = wk_state wk; current = entity_with u (entityCollection k s) in
      if (isHistoricalUid s k u \<and> current = None) \<or> conflictFromOtherKind s u k
      then (if update_policy then Inl (UidReserved k u) else Inr (WasSkipped, wk, []))
      else case current of
        Some e \<Rightarrow>
          if \<not> update_policy then Inr (WasSkipped, wk, [e])
          else and_then (revise_entity w src k e c wk) (\<lambda>(changed, wk', e').
                 Inr (if changed then WasChanged else WasSame, if changed then on_work (bump_tasks k) wk' else wk', [e']))
      | None \<Rightarrow>
          and_then (new_entity w src u c 1) (\<lambda>e.
          and_then (store_entity w src CreatedAction k None e (on_work (bump_tasks k) wk)) (\<lambda>wk'. Inr (WasNew, wk', [e]))))"

definition import_event :: "pim_world \<Rightarrow> pim_source \<Rightarrow> bool \<Rightarrow> string \<times> event_content \<Rightarrow> pim_work \<Rightarrow>
   (outcome \<times> pim_work \<times> pim_entity list) pim_result" where
  "import_event w src policy raw wk =
     and_then (accept (uidSchema (fst raw))) (\<lambda>u.
     and_then (accept (event_schema w (snd raw))) (\<lambda>c. import_record w src policy EventKind u (EventContent c) wk))"

definition import_task :: "pim_world \<Rightarrow> pim_source \<Rightarrow> bool \<Rightarrow> string \<times> task_content \<Rightarrow> pim_work \<Rightarrow>
   (outcome \<times> pim_work \<times> pim_entity list) pim_result" where
  "import_task w src policy raw wk =
     and_then (accept (uidSchema (fst raw))) (\<lambda>u.
     and_then (accept (task_schema w (snd raw))) (\<lambda>c.
       import_record w src policy TaskKind u (TaskContent (normalizeTaskContent (ps_now src) c)) wk))"

definition importICalendar ::
  "pim_world \<Rightarrow> pim_source \<Rightarrow> bool \<Rightarrow> (string \<times> event_content) list \<Rightarrow> (string \<times> task_content) list \<Rightarrow> pim_state \<Rightarrow>
   (pim_state \<times> import_result) pim_result" where
  "importICalendar w src policy events tasks s =
     mutate w s
       (and_then (import_all (import_event w src policy) events (draft_of_state s) nothing_imported) (\<lambda>(wk1, r1).
        and_then (import_all (import_task w src policy) tasks wk1 r1) (\<lambda>(wk2, r2). Inr (changed_by r2, wk2, r2))))"

section \<open>Refreshing the tasks\<close>

text \<open>A refresh reads the task version, waits for its loader, and applies what was loaded only when no
  later refresh has started and the version is still the one it read.\<close>

record refresh_ticket =
  rt_request :: nat
  rt_baseline :: nat

text \<open>The start: the counter of requests is raised, and the version of the stored tasks is read.\<close>

definition begin_refresh :: "nat \<Rightarrow> pim_state \<Rightarrow> nat \<times> refresh_ticket" where
  "begin_refresh latest s = (latest + 1, \<lparr>rt_request = latest + 1, rt_baseline = pm_task_version s\<rparr>)"

datatype refresh_reason = Applied | Superseded | LocalStateChanged

definition refresh_blocked :: "nat \<Rightarrow> refresh_ticket \<Rightarrow> pim_state \<Rightarrow> refresh_reason option" where
  "refresh_blocked latest t s =
     (if rt_request t \<noteq> latest then Some Superseded
      else if pm_task_version s \<noteq> rt_baseline t then Some LocalStateChanged else None)"

definition set_value :: "'a change \<Rightarrow> 'a option" where
  "set_value c = applied c None"

definition no_task :: task_content where
  "no_task = \<lparr>tk_title = [], tk_description = None, tk_status = TaskNeedsAction, tk_entry = None, tk_due = None, tk_priority = 0,
     tk_percent = 0, tk_completed_at = None, tk_categories = [], tk_recurrence = None, tk_source_revision = None\<rparr>"

text \<open>A refreshed task is a UID with a patch that has a title.\<close>

definition taskRefreshInputSchema :: "pim_world \<Rightarrow> string \<times> task_patch \<Rightarrow> (string \<times> task_patch) option" where
  "taskRefreshInputSchema w x =
     do { u \<leftarrow> uidSchema (fst x); p \<leftarrow> taskPatchSchema w (snd x);
          schema_test (\<lambda>(u, p). kp_title p \<noteq> None
             \<and> validateTask w (no_task\<lparr>tk_entry := set_value (kp_entry p), tk_due := set_value (kp_due p)\<rparr>)) (u, p) }"

definition refresh_task ::
  "pim_world \<Rightarrow> pim_source \<Rightarrow> string \<times> task_patch \<Rightarrow> pim_work \<Rightarrow> (outcome \<times> pim_work \<times> pim_entity) pim_result" where
  "refresh_task w src x wk =
     (let u = fst x; s = wk_state wk in
      case entity_with u (pm_tasks s) of
        None \<Rightarrow>
          if isHistoricalUid s TaskKind u then Inl (UidReserved TaskKind u)
          else and_then (accept (task_schema w (patch_task (snd x) no_task))) (\<lambda>t.
               and_then (new_entity w src u (TaskContent (normalizeTaskContent (ps_now src) t)) (latestRevision s TaskKind u + 1)) (\<lambda>e.
               and_then (store_entity w src CreatedAction TaskKind None e wk) (\<lambda>wk'. Inr (WasNew, wk', e))))
      | Some current \<Rightarrow>
          (case en_content current of
             TaskContent t \<Rightarrow> and_then (revise_entity w src TaskKind current
                 (TaskContent (normalizeTaskContent (ps_now src) (patch_task (snd x) t))) wk) (\<lambda>(changed, wk', e).
               Inr (if changed then WasChanged else WasSame, wk', e))
           | _ \<Rightarrow> Inl PimRejected))"

definition refresh_checks :: "pim_world \<Rightarrow> (string \<times> task_patch) list \<Rightarrow> (string \<times> task_patch) list pim_result" where
  "refresh_checks w raw =
     and_then (accept (list_schema 100000 (taskRefreshInputSchema w) raw)) (\<lambda>xs.
       if distinct (map fst xs) then Inr xs else Inl DuplicateUids)"

text \<open>What follows when the first checks have passed: the schema of what was loaded, and inside \<open>mutate\<close> the
  same two checks again.\<close>

definition apply_refresh ::
  "pim_world \<Rightarrow> pim_source \<Rightarrow> nat \<Rightarrow> refresh_ticket \<Rightarrow> (string \<times> task_patch) list \<Rightarrow> pim_state \<Rightarrow>
   (pim_state \<times> refresh_reason \<times> import_result) pim_result" where
  "apply_refresh w src latest t raw s =
     and_then (refresh_checks w raw) (\<lambda>xs.
     mutate w s
       (case refresh_blocked latest t s of
          Some reason \<Rightarrow> Inr (False, draft_of_state s, reason, nothing_imported)
        | None \<Rightarrow>
            and_then (import_all (with_entity (refresh_task w src)) xs (draft_of_state s) nothing_imported) (\<lambda>(wk, r).
              Inr (changed_by r, if changed_by r then on_work (bump_tasks TaskKind) wk else wk, Applied, r))))"

text \<open>\<open>refreshTasks\<close> after its loader returned: \<open>early\<close> is the request counter then and the state that is
  read next, \<open>latest\<close> and \<open>s\<close> are the counter and the state when \<open>mutate\<close> runs. A refresh that is stopped
  by the first checks does not look at what was loaded.\<close>

definition refreshTasks ::
  "pim_world \<Rightarrow> pim_source \<Rightarrow> nat \<times> pim_state \<Rightarrow> nat \<Rightarrow> refresh_ticket \<Rightarrow> (string \<times> task_patch) list \<Rightarrow> pim_state \<Rightarrow>
   (pim_state \<times> refresh_reason \<times> import_result) pim_result" where
  "refreshTasks w src early latest t raw s =
     (case refresh_blocked (fst early) t (snd early) of
        Some reason \<Rightarrow> Inr (s, reason, nothing_imported)
      | None \<Rightarrow> apply_refresh w src latest t raw s)"

end
