(* ===== verification/Pim_Log.thy ===== *)
theory Pim_Log
  imports Pim_Store
begin

text \<open>
  Correctness of the local calendar and address book (\<open>Pim_Store\<close>): the transaction log is its abstract
  specification. The collections are what the log says, every stored state satisfies its schema, the
  revisions of an entity only grow, and what was deleted can be restored.
\<close>

section \<open>Collections as keyed stores\<close>

text \<open>What a client relies on: looking up after putting and removing, and what both keep.\<close>

locale keyed_store =
  fixes key :: "'a \<Rightarrow> 'k" and lookup :: "'k \<Rightarrow> 'a list \<Rightarrow> 'a option"
    and put :: "'a \<Rightarrow> 'a list \<Rightarrow> 'a list" and remove :: "'k \<Rightarrow> 'a list \<Rightarrow> 'a list"
  assumes lookup_nothing: "lookup u [] = None"
    and lookup_put: "lookup u (put e es) = (if u = key e then Some e else lookup u es)"
    and lookup_remove: "distinct (map key es) \<Longrightarrow> lookup v (remove u es) = (if v = u then None else lookup v es)"
    and lookup_member: "lookup u es = Some e \<Longrightarrow> e \<in> set es \<and> key e = u"
    and put_members: "set (put e es) \<subseteq> insert e (set es)"
    and remove_members: "set (remove u es) \<subseteq> set es"
    and put_distinct: "distinct (map key es) \<Longrightarrow> distinct (map key (put e es))"
    and remove_distinct: "distinct (map key es) \<Longrightarrow> distinct (map key (remove u es))"
begin

lemma view_put: "(\<lambda>u. lookup u (put e es)) = (\<lambda>u. lookup u es)(key e := Some e)"
  by (simp add: fun_eq_iff lookup_put)

lemma view_remove: "distinct (map key es) \<Longrightarrow> (\<lambda>v. lookup v (remove u es)) = (\<lambda>v. lookup v es)(u := None)"
  by (simp add: fun_eq_iff lookup_remove)

lemma put_all: "\<forall>x\<in>set es. P x \<Longrightarrow> P e \<Longrightarrow> \<forall>x\<in>set (put e es). P x"
  using put_members by blast

lemma remove_all: "\<forall>x\<in>set es. P x \<Longrightarrow> \<forall>x\<in>set (remove u es). P x"
  using remove_members by blast

end

lemma put_uids: "set (map en_uid (put_entity e es)) = insert (en_uid e) (set (map en_uid es))"
  by (induction es) auto

lemma put_entity_distinct: "distinct (map en_uid es) \<Longrightarrow> distinct (map en_uid (put_entity e es))"
proof (induction es)
  case (Cons x xs)
  then show ?case using put_uids [of e xs] by auto
qed simp

lemma remove_uids: "set (remove_entity u es) \<subseteq> set es"
  by (induction es) auto

lemma remove_entity_distinct: "distinct (map en_uid es) \<Longrightarrow> distinct (map en_uid (remove_entity u es))"
  using remove_uids by (induction es) fastforce+

lemma removed_lookup: "distinct (map en_uid es) \<Longrightarrow> entity_with v (remove_entity u es) = (if v = u then None else entity_with v es)"
  by (induction es) (auto simp: entity_with_def find_None_none image_iff)

interpretation entities: keyed_store en_uid entity_with put_entity remove_entity
proof unfold_locales
  show "entity_with u (put_entity e es) = (if u = en_uid e then Some e else entity_with u es)" for u e es
    by (induction es) (auto simp: entity_with_def)
  show "set (put_entity e es) \<subseteq> insert e (set es)" for e es by (induction es) auto
qed (auto simp: entity_with_def removed_lookup [unfolded entity_with_def] put_entity_distinct remove_entity_distinct
  dest: find_Some_mem subsetD [OF remove_uids])

section \<open>The log as specification\<close>

type_synonym pim_view = "pim_kind \<times> string \<Rightarrow> pim_entity option"

definition pim_view :: "pim_state \<Rightarrow> pim_view" where
  "pim_view s = (\<lambda>(k, u). entity_with u (entityCollection k s))"

definition tx_key :: "pim_transaction \<Rightarrow> pim_kind \<times> string" where
  "tx_key t = (tx_kind t, tx_uid t)"

definition replay :: "pim_transaction list \<Rightarrow> pim_view" where
  "replay txs = fold (\<lambda>t v. v(tx_key t := tx_after t)) txs (\<lambda>_. None)"

definition revisions_of :: "pim_kind \<times> string \<Rightarrow> pim_transaction list \<Rightarrow> nat list" where
  "revisions_of q txs = concat (map revisions_in (filter (\<lambda>t. tx_key t = q) txs))"

text \<open>A transaction continues a log: it starts from what the log shows, and its result is newer than
  everything the log knows of the entity.\<close>

definition continues :: "pim_transaction list \<Rightarrow> pim_transaction \<Rightarrow> bool" where
  "continues past t =
     (tx_before t = replay past (tx_key t)
      \<and> (case tx_after t of None \<Rightarrow> True | Some e \<Rightarrow> \<forall>n\<in>set (revisions_of (tx_key t) past). n < en_revision e))"

definition history_ok :: "pim_transaction list \<Rightarrow> bool" where
  "history_ok txs = (\<forall>i<length txs. continues (take i txs) (txs ! i))"

lemma replay_snoc [simp]: "replay (txs @ [t]) = (replay txs)(tx_key t := tx_after t)"
  by (simp add: replay_def)

lemma replay_Nil [simp]: "replay [] = (\<lambda>_. None)"
  by (simp add: replay_def)

lemma revisions_snoc [simp]: "revisions_of q (txs @ [t]) = revisions_of q txs @ (if tx_key t = q then revisions_in t else [])"
  by (simp add: revisions_of_def)

lemma history_snoc [simp]: "history_ok (txs @ [t]) = (history_ok txs \<and> continues txs t)"
  by (auto simp: history_ok_def less_Suc_eq nth_append)

lemma history_Nil [simp]: "history_ok []" "revisions_of q [] = []"
  by (simp_all add: history_ok_def revisions_of_def)

lemma shown_is_known: "replay txs q = Some e \<Longrightarrow> en_revision e \<in> set (revisions_of q txs)"
  by (induction txs rule: rev_induct) (auto simp: revisions_in_def split: if_splits)

lemma shown_is_newest:
  assumes "history_ok txs" "replay txs q = Some e" "n \<in> set (revisions_of q txs)"
  shows "n \<le> en_revision e"
  using assms
proof (induction txs rule: rev_induct)
  case (snoc t txs)
  show ?case
  proof (cases "tx_key t = q")
    case True
    with snoc.prems have after: "tx_after t = Some e" and c: "continues txs t" by simp_all
    from c after True have old: "\<forall>n\<in>set (revisions_of q txs). n < en_revision e" by (simp add: continues_def)
    have "en_revision b < en_revision e" if "tx_before t = Some b" for b
      using shown_is_known [of txs q b] old c that True by (auto simp: continues_def)
    with snoc.prems(3) True old after show ?thesis by (auto simp: revisions_in_def less_imp_le split: option.splits)
  qed (use snoc in simp)
qed simp

section \<open>The invariant\<close>

definition collection_ok :: "pim_world \<Rightarrow> pim_kind \<Rightarrow> pim_entity list \<Rightarrow> bool" where
  "collection_ok w k es =
     ((\<forall>e\<in>set es. entity_schema w e = Some e \<and> kind_of (en_content e) = k) \<and> distinct (map en_uid es))"

definition log_ok :: "pim_world \<Rightarrow> pim_transaction list \<Rightarrow> nat \<Rightarrow> bool" where
  "log_ok w txs n =
     ((\<forall>t\<in>set txs. pimTransactionSchema w t = Some t) \<and> distinct (map tx_id txs) \<and> increasing (map tx_sequence txs)
      \<and> 0 < n \<and> (txs \<noteq> [] \<longrightarrow> tx_sequence (last txs) < n))"

definition pim_ok :: "pim_world \<Rightarrow> pim_state \<Rightarrow> bool" where
  "pim_ok w s =
     ((\<forall>k. collection_ok w k (entityCollection k s)) \<and> log_ok w (pm_transactions s) (pm_next_sequence s)
      \<and> pim_view s = replay (pm_transactions s) \<and> history_ok (pm_transactions s))"

lemma pim_okD:
  assumes "pim_ok w s"
  shows "collection_ok w k (entityCollection k s)" "log_ok w (pm_transactions s) (pm_next_sequence s)"
    "pim_view s = replay (pm_transactions s)" "history_ok (pm_transactions s)"
  using assms by (simp_all add: pim_ok_def)

lemma all_some_same: "\<forall>x\<in>set xs. f x = Some x \<Longrightarrow> all_some (map f xs) = Some xs"
  by (induction xs) auto

lemma collection_fixed: "collection_ok w k es \<Longrightarrow> collection_schema w k es = Some es"
  by (simp add: collection_ok_def collection_schema_def all_some_same schema_test_def list_all_iff)

text \<open>The check of the store accepts the state and leaves it as it is.\<close>

lemma pim_ok_persists: "pim_ok w s \<Longrightarrow> persistedPimStateSchema w s = Some s"
  using pim_okD(1) [of w s ContactKind] pim_okD(1) [of w s ListKind] pim_okD(1) [of w s EventKind] pim_okD(1) [of w s TaskKind]
    pim_okD(2) [of w s]
  by (simp add: persistedPimStateSchema_def collection_fixed log_ok_def all_some_same schema_test_def)

lemma bump_keeps [simp]:
  "entityCollection k' (bump_tasks k s) = entityCollection k' s" "pm_transactions (bump_tasks k s) = pm_transactions s"
  "pm_next_sequence (bump_tasks k s) = pm_next_sequence s"
  by (cases k'; simp add: bump_tasks_def)+

lemma bump_view [simp]: "pim_view (bump_tasks k s) = pim_view s"
  by (simp add: pim_view_def)

lemma bump_ok [simp]: "pim_ok w (bump_tasks k s) = pim_ok w s"
  by (simp add: pim_ok_def)

lemma set_collection_simps [simp]:
  "entityCollection k' (set_collection k es s) = (if k' = k then es else entityCollection k' s)"
  "pm_transactions (set_collection k es s) = pm_transactions s" "pm_next_sequence (set_collection k es s) = pm_next_sequence s"
  by (cases k; cases k'; simp)+

lemma and_then_Inr [simp]: "and_then r f = Inr y \<longleftrightarrow> (\<exists>x. r = Inr x \<and> f x = Inr y)"
  by (cases r) auto

lemma accept_Inr [simp]: "accept v = Inr x \<longleftrightarrow> v = Some x"
  by (cases v) (auto simp: accept_def)

lemma on_work_simps [simp]: "wk_state (on_work f wk) = f (wk_state wk)"
  by (simp add: on_work_def)

section \<open>Recording a change\<close>

lemma allocated: "allocate known f fuel n = Inr (u, m) \<Longrightarrow> \<not> known u \<and> uidSchema u = Some u"
  by (induction known f fuel n rule: allocate.induct) (auto simp: idemD [OF idem_uid] split: option.splits if_splits)

lemma increasing_snoc: "increasing (ns @ [n]) = (increasing ns \<and> (ns \<noteq> [] \<longrightarrow> last ns < n))"
  by (induction ns rule: increasing.induct) auto

lemma log_grows:
  assumes "log_ok w txs n" "pimTransactionSchema w t = Some t" "tx_id t \<notin> set (map tx_id txs)" "tx_sequence t = n"
  shows "log_ok w (txs @ [t]) (n + 1)"
  using assms by (auto simp: log_ok_def increasing_snoc last_map)

lemma pim_view_put: "pim_view (set_collection k (put_entity e (entityCollection k s)) s) = (pim_view s)((k, en_uid e) := Some e)"
  by (auto simp: pim_view_def fun_eq_iff entities.lookup_put)

lemma pim_view_remove:
  "distinct (map en_uid (entityCollection k s)) \<Longrightarrow>
   pim_view (set_collection k (remove_entity u (entityCollection k s)) s) = (pim_view s)((k, u) := None)"
  by (auto simp: pim_view_def fun_eq_iff entities.lookup_remove)

lemma view_ok: "pim_ok w s \<Longrightarrow> pim_view s (k, u) = Some e \<Longrightarrow>
    entity_schema w e = Some e \<and> kind_of (en_content e) = k \<and> en_uid e = u"
  using pim_okD(1) [of w s k] by (auto simp: pim_view_def collection_ok_def dest: entities.lookup_member)

lemma schema_option_fixed: "(\<And>e. v = Some e \<Longrightarrow> f e = Some e) \<Longrightarrow> schema_option f v = Some v"
  by (cases v) (auto simp: schema_option_def)

text \<open>A change that the collections show and whose result is new continues the log.\<close>

lemma record_ok:
  assumes ok: "pim_ok w s"
    and s1: "\<And>k'. collection_ok w k' (entityCollection k' (wk_state wk))" "pim_view (wk_state wk) = (pim_view s)((k, u) := c)"
      "pm_transactions (wk_state wk) = pm_transactions s" "pm_next_sequence (wk_state wk) = pm_next_sequence s"
    and b: "b = pim_view s (k, u)"
    and c: "\<And>e. c = Some e \<Longrightarrow> entity_schema w e = Some e \<and> (\<forall>n\<in>set (revisions_of (k, u) (pm_transactions s)). n < en_revision e)"
    and rec: "record_change w src action k u b c wk = Inr wk'"
  shows "pim_ok w (wk_state wk')"
proof -
  let ?txs = "pm_transactions s"
  have fixed: "schema_option (entity_schema w) b = Some b" "schema_option (entity_schema w) c = Some c"
    using view_ok [OF ok, of k u] b c by (auto intro!: schema_option_fixed)
  from rec obtain i n t where i: "allocate (\<lambda>i. list_ex (\<lambda>t. tx_id t = i) ?txs) (ps_ids src) 101 (wk_taken wk) = Inr (i, n)"
    and t: "pimTransactionSchema w \<lparr>tx_id = i, tx_sequence = pm_next_sequence s, tx_occurred = ps_now src,
                 tx_action = action, tx_kind = k, tx_uid = u, tx_before = b, tx_after = c\<rparr> = Some t"
    and wk': "wk_state wk' = (wk_state wk)\<lparr>pm_next_sequence := pm_next_sequence s + 1, pm_transactions := ?txs @ [t]\<rparr>"
    by (auto simp: record_change_def Let_def fixed s1(3,4))
  from t have parts: "uidSchema i = Some (tx_id t)" "uidSchema u = Some (tx_uid t)" "tx_kind t = k" "tx_sequence t = pm_next_sequence s"
    "tx_before t = b" "tx_after t = c" "pimTransactionSchema w t = Some t"
    using fixed idemD [OF idem_transaction t] by (auto simp: pimTransactionSchema_def bind_eq_Some_conv dest!: testD)
  have id: "tx_id t = i" "i \<notin> set (map tx_id ?txs)"
    using allocated [OF i] parts(1) by (auto simp: list_ex_iff)
  have uid: "tx_uid t = u"
  proof (cases "b = None \<and> c = None")
    case True
    with parts(5-7) show ?thesis
      by (cases "tx_action t") (auto simp: pimTransactionSchema_def bind_eq_Some_conv snapshots_fit_def dest!: testD)
  next
    case False
    then obtain e where "b = Some e \<or> c = Some e" by auto
    then have e: "entity_schema w e = Some e" "en_uid e = tx_uid t"
      using fixed parts(5-7) view_ok [OF ok, of k u e] b c [of e]
      by (auto simp: pimTransactionSchema_def bind_eq_Some_conv identifies_def dest!: testD)
    show ?thesis
    proof (cases "b = Some e")
      case True
      then show ?thesis using view_ok [OF ok, of k u e] b e(2) by simp
    next
      case False
      with \<open>b = Some e \<or> c = Some e\<close> have "(pim_view (wk_state wk)) (k, u) = Some e" using s1(2) by simp
      then show ?thesis using e(2) by (auto simp: pim_view_def dest: entities.lookup_member)
    qed
  qed
  have key: "tx_key t = (k, u)" by (simp add: tx_key_def parts(3) uid)
  have view: "pim_view (wk_state wk') = pim_view (wk_state wk)" and cols: "entityCollection k' (wk_state wk') = entityCollection k' (wk_state wk)" for k'
  proof -
    show cols: "entityCollection k' (wk_state wk') = entityCollection k' (wk_state wk)" for k' by (cases k') (simp_all add: wk')
    show "pim_view (wk_state wk') = pim_view (wk_state wk)" by (simp add: pim_view_def cols)
  qed
  have "continues ?txs t"
    using c by (auto simp: continues_def key parts(5,6) b pim_okD(3) [OF ok] split: option.splits)
  then show ?thesis
    using log_grows [OF pim_okD(2) [OF ok] parts(7) _ parts(4)] id s1(1,2) pim_okD(3,4) [OF ok] view cols
    by (simp add: pim_ok_def wk' key parts(6))
qed

lemma put_collections:
  assumes "pim_ok w s" "entity_schema w e = Some e" "kind_of (en_content e) = k"
  shows "collection_ok w k' (entityCollection k' (set_collection k (put_entity e (entityCollection k s)) s))"
  using pim_okD(1) [OF assms(1), of k] pim_okD(1) [OF assms(1), of k'] assms(2,3)
    entities.put_all [of "entityCollection k s" "\<lambda>x. entity_schema w x = Some x \<and> kind_of (en_content x) = k" e]
  by (auto simp: collection_ok_def put_entity_distinct)

lemma remove_collections:
  assumes "pim_ok w s"
  shows "collection_ok w k' (entityCollection k' (set_collection k (remove_entity u (entityCollection k s)) s))"
  using pim_okD(1) [OF assms(1), of k] pim_okD(1) [OF assms(1), of k']
    entities.remove_all [of "entityCollection k s" "\<lambda>x. entity_schema w x = Some x \<and> kind_of (en_content x) = k" u]
  by (auto simp: collection_ok_def remove_entity_distinct)

lemma collections_distinct: "pim_ok w s \<Longrightarrow> distinct (map en_uid (entityCollection k s))"
  using pim_okD(1) [of w s k] by (simp add: collection_ok_def)

lemma store_ok:
  assumes "pim_ok w (wk_state wk)" "entity_schema w e = Some e" "kind_of (en_content e) = k"
    "current = entity_with (en_uid e) (entityCollection k (wk_state wk))"
    "\<forall>n\<in>set (revisions_of (k, en_uid e) (pm_transactions (wk_state wk))). n < en_revision e"
    "store_entity w src action k current e wk = Inr wk'"
  shows "pim_ok w (wk_state wk')"
proof (rule record_ok [OF assms(1) _ _ _ _ _ _ assms(6) [unfolded store_entity_def]])
  show "pim_view (wk_state (on_work (\<lambda>s. set_collection k (put_entity e (entityCollection k s)) s) wk))
      = (pim_view (wk_state wk))((k, en_uid e) := Some e)"
    unfolding on_work_simps by (rule pim_view_put)
  show "collection_ok w k' (entityCollection k' (wk_state (on_work (\<lambda>s. set_collection k (put_entity e (entityCollection k s)) s) wk)))" for k'
    unfolding on_work_simps by (rule put_collections [OF assms(1-3)])
qed (use assms(2,4,5) in \<open>simp_all add: pim_view_def\<close>)

lemma remove_ok:
  assumes "pim_ok w s" "wk_state wk = bump_tasks k (set_collection k (remove_entity u (entityCollection k s)) s)"
    "entity_with u (entityCollection k s) = Some current"
    "record_change w src DeletedAction k u (Some current) None wk = Inr wk'"
  shows "pim_ok w (wk_state wk')"
proof (rule record_ok [OF assms(1) _ _ _ _ _ _ assms(4)])
  show "pim_view (wk_state wk) = (pim_view s)((k, u) := None)"
    unfolding assms(2) bump_view by (rule pim_view_remove [OF collections_distinct [OF assms(1)]])
  show "collection_ok w k' (entityCollection k' (wk_state wk))" for k'
    unfolding assms(2) bump_keeps by (rule remove_collections [OF assms(1)])
qed (use assms(2,3) in \<open>simp_all add: pim_view_def\<close>)

lemma fresh_revisions: "\<not> isHistoricalUid s k u \<Longrightarrow> revisions_of (k, u) (pm_transactions s) = []"
  by (auto simp: isHistoricalUid_def revisions_of_def tx_key_def list_ex_iff filter_empty_conv)

lemma fold_max_start: "n \<le> fold max xs (n::nat)"
  by (induction xs arbitrary: n) (auto intro: order_trans [OF max.cobounded2])

lemma fold_max_above: "x \<in> set xs \<Longrightarrow> x \<le> fold max xs (n::nat)"
  by (induction xs arbitrary: n) (auto intro: order_trans [OF _ fold_max_start])

lemma latest_above: "n \<in> set (revisions_of (k, u) (pm_transactions s)) \<Longrightarrow> n \<le> latestRevision s k u"
  unfolding latestRevision_def revisions_of_def tx_key_def by (rule fold_max_above) simp

lemma current_newest:
  assumes "pim_ok w s" "entity_with u (entityCollection k s) = Some e" "n \<in> set (revisions_of (k, u) (pm_transactions s))"
  shows "n \<le> en_revision e"
  using shown_is_newest [OF pim_okD(4) [OF assms(1)] _ assms(3), of e] pim_okD(3) [OF assms(1)] assms(2)
  by (auto simp: pim_view_def fun_eq_iff)

section \<open>Every operation keeps the invariant\<close>

lemma entity_schemaD:
  assumes "entity_schema w e = Some e'"
  shows "entity_schema w e' = Some e'" "en_revision e' = en_revision e" "kind_of (en_content e') = kind_of (en_content e)"
    "uidSchema (en_uid e) = Some (en_uid e')"
  using idemD [OF idem_entity assms] apply assumption
  using assms by (auto simp: entity_schema_def bind_eq_Some_conv content_kind dest!: testD)

lemma uid_fixed: "uidSchema r = Some u \<Longrightarrow> uidSchema u = Some u"
  by (rule idemD [OF idem_uid])

lemma available:
  assumes "availableUid src k requested wk = Inr (u, wk1)"
  shows "wk_state wk1 = wk_state wk" "uidSchema u = Some u" "entity_with u (entityCollection k (wk_state wk)) = None"
    "\<not> isHistoricalUid (wk_state wk) k u"
  using assms by (auto simp: availableUid_def known_uid_def uid_fixed dest: allocated split: option.splits sum.splits if_splits)

lemma new_entityD:
  assumes "new_entity w src u c n = Inr e" "uidSchema u = Some u"
  shows "entity_schema w e = Some e" "en_uid e = u" "en_revision e = n" "kind_of (en_content e) = kind_of c"
  using assms entity_schemaD [of w "\<lparr>en_uid = u, en_content = c, en_created = ps_now src, en_updated = ps_now src, en_revision = n\<rparr>" e]
  by (auto simp: new_entity_def)

lemma add_ok:
  assumes "pim_ok w (wk_state wk)" "uidSchema u = Some u" "entity_with u (entityCollection k (wk_state wk)) = None"
    "\<not> isHistoricalUid (wk_state wk) k u" "kind_of c = k" "new_entity w src u c n = Inr e"
    "store_entity w src action k None e wk' = Inr wk2" "wk_state wk' = bump_tasks j (wk_state wk)"
  shows "pim_ok w (wk_state wk2)"
proof -
  note e = new_entityD [OF assms(6,2)]
  have h: "isHistoricalUid (wk_state wk') k u = isHistoricalUid (wk_state wk) k u" using assms(8) by (simp add: isHistoricalUid_def)
  show ?thesis
    by (rule store_ok [OF _ e(1) _ _ _ assms(7)]) (use assms(1,3,4,5,8) e fresh_revisions [of "wk_state wk'" k u] h in auto)
qed

lemma create_keeps:
  assumes "pim_ok w (wk_state wk)" "kind_of c = k" "create_entity w src k requested c wk = Inr (changed, wk2, e)"
  shows "pim_ok w (wk_state wk2)"
proof -
  from assms(3) obtain u wk1 where u: "availableUid src k requested wk = Inr (u, wk1)" and e: "new_entity w src u c 1 = Inr e"
    and st: "store_entity w src CreatedAction k None e (on_work (bump_tasks k) wk1) = Inr wk2"
    by (auto simp: create_entity_def)
  note a = available [OF u]
  show ?thesis by (rule add_ok [OF assms(1) a(2-4) assms(2) e st]) (simp add: a(1))
qed

lemma revise_ok:
  assumes "pim_ok w (wk_state wk)" "entity_with u (entityCollection k (wk_state wk)) = Some current" "kind_of c = k"
    "revise_entity w src k current c wk = Inr (changed, wk2, e)"
  shows "pim_ok w (wk_state wk2)"
proof -
  have u: "en_uid current = u" "uidSchema u = Some u" using view_ok [OF assms(1), of k u current] assms(2) entity_schemaD(4) [of w current current]
    by (auto simp: pim_view_def)
  from assms(4) obtain candidate where cand: "entity_schema w (current\<lparr>en_content := c\<rparr>) = Some candidate"
    and "(wk2 = wk) \<or> (entity_schema w (candidate\<lparr>en_updated := ps_now src, en_revision := en_revision current + 1\<rparr>) = Some e
        \<and> store_entity w src UpdatedAction k (Some current) e wk = Inr wk2)"
    by (auto simp: revise_entity_def split: if_splits)
  then consider "wk2 = wk" | "entity_schema w (candidate\<lparr>en_updated := ps_now src, en_revision := en_revision current + 1\<rparr>) = Some e"
      "store_entity w src UpdatedAction k (Some current) e wk = Inr wk2" by blast
  then show ?thesis
  proof cases
    case 2
    note e = entity_schemaD [OF 2(1)] and c = entity_schemaD [OF cand]
    have "en_uid e = u" using e(4) c(4) u by simp
    then show ?thesis
      using store_ok [OF assms(1) e(1) _ _ _ 2(2)] assms(2,3) e(2,3) c(3) current_newest [OF assms(1,2)]
      by (auto simp: less_Suc_eq_le)
  qed (use assms(1) in simp)
qed

lemma mutate_ok:
  assumes "pim_ok w s" "mutate w s decision = Inr (s', x)" "\<And>wk x. decision = Inr (True, wk, x) \<Longrightarrow> pim_ok w (wk_state wk)"
  shows "pim_ok w s'"
  using assms pim_ok_persists by (auto simp: mutate_def split: if_splits)

lemma update_keeps:
  assumes "pim_ok w s" "update_entity w src k uid change s = Inr (s', e)" "\<And>c d. change c = Inr d \<Longrightarrow> kind_of d = k"
  shows "pim_ok w s'"
proof -
  have revised: "pim_ok w (wk_state wk)"
    if "entity_with u (entityCollection k s) = Some y" "change (en_content y) = Inr c"
      "revise_entity w src k y c (draft_of_state s) = Inr (True, wk, z)" for u y c wk z
    by (rule revise_ok [OF _ _ assms(3) [OF that(2)] that(3)]) (use assms(1) that(1) in simp_all)
  show ?thesis
    using assms(2) unfolding update_entity_def
    by (auto elim!: mutate_ok [OF assms(1)] split: option.splits) (rule revised, assumption+)
qed

lemma delete_keeps:
  assumes "pim_ok w s" "delete_entity w src k uid s = Inr (s', x)"
  shows "pim_ok w s'"
  using assms(2) unfolding delete_entity_def
  by (auto elim!: mutate_ok [OF assms(1)] split: option.splits)
    (auto dest!: remove_ok [OF assms(1), rotated 2] dest: entities.lookup_member)

lemma restore_source_kind: "restoreSource s k u i = Some e \<Longrightarrow> kind_of (en_content e) = k"
  by (auto simp: restoreSource_def Let_def split: option.splits if_splits)

lemma restore_ok:
  assumes "pim_ok w s" "restore_entity w src k uid i s = Inr (s', x)"
  shows "pim_ok w s'"
proof -
  from assms(2) obtain u j where u: "uidSchema uid = Some u" and m: "mutate w s
       (let current = entity_with u (entityCollection k s) in
        case restoreSource s k u j of None \<Rightarrow> Inl (NothingToRestore k u)
        | Some source \<Rightarrow>
            if map_option en_content current = Some (en_content source) then Inr (False, draft_of_state s, the current)
            else and_then (accept (entity_schema w (source\<lparr>en_uid := u, en_updated := ps_now src,
                     en_revision := latestRevision s k u + 1\<rparr>))) (\<lambda>e.
                 and_then (store_entity w src RestoredAction k current e (on_work (bump_tasks k) (draft_of_state s))) (\<lambda>wk.
                   Inr (True, wk, e)))) = Inr (s', x)"
    by (auto simp: restore_entity_def)
  show ?thesis
  proof (rule mutate_ok [OF assms(1) m])
    fix wk y
    assume "(let current = entity_with u (entityCollection k s) in
        case restoreSource s k u j of None \<Rightarrow> Inl (NothingToRestore k u)
        | Some source \<Rightarrow>
            if map_option en_content current = Some (en_content source) then Inr (False, draft_of_state s, the current)
            else and_then (accept (entity_schema w (source\<lparr>en_uid := u, en_updated := ps_now src,
                     en_revision := latestRevision s k u + 1\<rparr>))) (\<lambda>e.
                 and_then (store_entity w src RestoredAction k current e (on_work (bump_tasks k) (draft_of_state s))) (\<lambda>wk.
                   Inr (True, wk, e)))) = Inr (True, wk, y)"
    then obtain source where src: "restoreSource s k u j = Some source"
      and e: "entity_schema w (source\<lparr>en_uid := u, en_updated := ps_now src, en_revision := latestRevision s k u + 1\<rparr>) = Some y"
      and st: "store_entity w src RestoredAction k (entity_with u (entityCollection k s)) y (on_work (bump_tasks k) (draft_of_state s)) = Inr wk"
      by (auto simp: Let_def split: option.splits if_splits)
    note e' = entity_schemaD [OF e]
    have "en_uid y = u" using e'(4) uid_fixed [OF u] by simp
    then show "pim_ok w (wk_state wk)"
      using store_ok [OF _ e'(1) _ _ _ st] assms(1) restore_source_kind [OF src] e'(2,3) latest_above by (auto simp: less_Suc_eq_le)
  qed
qed

lemma import_entity_ok:
  assumes "pim_ok w (wk_state wk)" "uidSchema u = Some u" "kind_of c = k" "import_entity w src k u c wk = Inr (y, wk2, e)"
  shows "pim_ok w (wk_state wk2)"
proof (cases "entity_with u (entityCollection k (wk_state wk))")
  case None
  with assms(4) obtain "\<not> isHistoricalUid (wk_state wk) k u"
    "new_entity w src u c (latestRevision (wk_state wk) k u + 1) = Inr e" "store_entity w src CreatedAction k None e wk = Inr wk2"
    by (auto simp: import_entity_def split: if_splits)
  from add_ok [OF assms(1,2) None this(1) assms(3) this(2,3), of ContactKind] show ?thesis by (simp add: bump_tasks_def)
next
  case (Some current)
  with assms(4) obtain changed where "revise_entity w src k current c wk = Inr (changed, wk2, e)"
    by (auto simp: import_entity_def)
  then show ?thesis by (rule revise_ok [OF assms(1) Some assms(3)])
qed

lemma import_uidD:
  assumes "import_uid src k v wk = Inr (u, wk1)" "\<And>x. v = Some x \<Longrightarrow> uidSchema x = Some x"
  shows "wk_state wk1 = wk_state wk" "uidSchema u = Some u"
  using assms by (auto simp: import_uid_def dest: available split: option.splits)

lemma created_uid: "createContactSchema x raw = Some p \<Longrightarrow> ci_uid p = Some u \<Longrightarrow> uidSchema u = Some u"
  by (auto simp: createContactSchema_def Let_def uid_fixed split: option.split_asm if_split_asm)

lemma list_uid: "createMailingListSchema raw = Some p \<Longrightarrow> mi_uid p = Some u \<Longrightarrow> uidSchema u = Some u"
  by (auto simp: createMailingListSchema_def uid_fixed split: option.split_asm if_split_asm)

lemma import_contact_ok:
  assumes "pim_ok w (wk_state wk)" "import_contact w src raw wk = Inr (y, wk2, e)"
  shows "pim_ok w (wk_state wk2)"
proof -
  from assms(2) obtain p u wk1 where p: "createContactSchema (pw_cards w) raw = Some p" and u: "import_uid src ContactKind (ci_uid p) wk = Inr (u, wk1)"
    and i: "import_entity w src ContactKind u (ContactContent (p\<lparr>ci_uid := None\<rparr>)) wk1 = Inr (y, wk2, e)"
    by (auto simp: import_contact_def)
  note v = import_uidD [OF u created_uid [OF p]]
  show ?thesis by (rule import_entity_ok [OF _ v(2) _ i]) (use assms(1) v(1) in simp_all)
qed

lemma import_list_ok:
  assumes "pim_ok w (wk_state wk)" "import_list w src raw wk = Inr (y, wk2, e)"
  shows "pim_ok w (wk_state wk2)"
proof -
  from assms(2) obtain r q u wk1 where q: "createMailingListSchema r = Some q" and u: "import_uid src ListKind (mi_uid q) wk = Inr (u, wk1)"
    and i: "import_entity w src ListKind u (ListContent (q\<lparr>mi_uid := None\<rparr>)) wk1 = Inr (y, wk2, e)"
    by (auto simp: import_list_def)
  note v = import_uidD [OF u list_uid [OF q]]
  show ?thesis by (rule import_entity_ok [OF _ v(2) _ i]) (use assms(1) v(1) in simp_all)
qed

lemma import_record_ok:
  assumes "pim_ok w (wk_state wk)" "uidSchema u = Some u" "kind_of c = k" "import_record w src policy k u c wk = Inr (y, wk2, es)"
  shows "pim_ok w (wk_state wk2)"
proof (cases "entity_with u (entityCollection k (wk_state wk))")
  case None
  then show ?thesis
    using assms(4) assms(1) add_ok [OF assms(1,2) None _ assms(3)]
    by (auto simp: import_record_def Let_def split: if_splits)
next
  case (Some current)
  then show ?thesis
    using assms(4) assms(1) revise_ok [OF assms(1) Some assms(3)]
    by (auto simp: import_record_def Let_def split: if_splits)
qed

lemma import_event_ok:
  assumes "pim_ok w (wk_state wk)" "import_event w src policy raw wk = Inr (y, wk2, es)"
  shows "pim_ok w (wk_state wk2)"
proof -
  from assms(2) obtain u c where u: "uidSchema (fst raw) = Some u" and i: "import_record w src policy EventKind u (EventContent c) wk = Inr (y, wk2, es)"
    by (auto simp: import_event_def)
  show ?thesis by (rule import_record_ok [OF assms(1) uid_fixed [OF u] _ i]) simp
qed

lemma import_task_ok:
  assumes "pim_ok w (wk_state wk)" "import_task w src policy raw wk = Inr (y, wk2, es)"
  shows "pim_ok w (wk_state wk2)"
proof -
  from assms(2) obtain u c where u: "uidSchema (fst raw) = Some u"
    and i: "import_record w src policy TaskKind u (TaskContent (normalizeTaskContent (ps_now src) c)) wk = Inr (y, wk2, es)"
    by (auto simp: import_task_def)
  show ?thesis by (rule import_record_ok [OF assms(1) uid_fixed [OF u] _ i]) simp
qed

lemma refresh_task_ok:
  assumes "pim_ok w (wk_state wk)" "uidSchema (fst x) = Some (fst x)" "refresh_task w src x wk = Inr (y, wk2, e)"
  shows "pim_ok w (wk_state wk2)"
proof (cases "entity_with (fst x) (pm_tasks (wk_state wk))")
  case None
  with assms(3) obtain t where "\<not> isHistoricalUid (wk_state wk) TaskKind (fst x)"
    "new_entity w src (fst x) (TaskContent (normalizeTaskContent (ps_now src) t)) (latestRevision (wk_state wk) TaskKind (fst x) + 1) = Inr e"
    "store_entity w src CreatedAction TaskKind None e wk = Inr wk2"
    by (auto simp: refresh_task_def Let_def split: if_splits)
  from add_ok [OF assms(1,2) _ this(1) _ this(2,3), of ContactKind] None show ?thesis by (simp add: bump_tasks_def)
next
  case (Some current)
  with assms(3) obtain t changed where
    "revise_entity w src TaskKind current (TaskContent (normalizeTaskContent (ps_now src) (patch_task (snd x) t))) wk = Inr (changed, wk2, e)"
    by (auto simp: refresh_task_def Let_def split: pim_content.splits)
  then show ?thesis by (rule revise_ok [OF assms(1) _ _, rotated 2]) (use Some in simp_all)
qed

lemma import_all_ok:
  assumes "\<And>x wk y wk' es. x \<in> set xs \<Longrightarrow> pim_ok w (wk_state wk) \<Longrightarrow> f x wk = Inr (y, wk', es) \<Longrightarrow> pim_ok w (wk_state wk')"
    "pim_ok w (wk_state wk)" "import_all f xs wk r = Inr (wk2, r2)"
  shows "pim_ok w (wk_state wk2)"
  using assms
proof (induction xs arbitrary: wk r)
  case (Cons x xs)
  from Cons.prems(3) obtain y wk1 es where x: "f x wk = Inr (y, wk1, es)" and xs: "import_all f xs wk1 (tally y es r) = Inr (wk2, r2)"
    by auto
  have 1: "pim_ok w (wk_state wk1)" by (rule Cons.prems(1) [OF _ Cons.prems(2) x]) simp
  show ?case by (rule Cons.IH [OF _ 1 xs]) (rule Cons.prems(1), simp_all)
qed simp

lemma with_entity_ok:
  assumes "\<And>y wk' e. f x wk = Inr (y, wk', e) \<Longrightarrow> pim_ok w (wk_state wk')" "with_entity f x wk = Inr (y, wk', es)"
  shows "pim_ok w (wk_state wk')"
  using assms by (auto simp: with_entity_def)

lemma imports_ok:
  assumes "\<And>x wk y wk' e. pim_ok w (wk_state wk) \<Longrightarrow> f x wk = Inr (y, wk', e) \<Longrightarrow> pim_ok w (wk_state wk')"
    "pim_ok w (wk_state wk)" "import_all (with_entity f) xs wk r = Inr (wk2, r2)"
  shows "pim_ok w (wk_state wk2)"
  by (rule import_all_ok [OF _ assms(2,3)]) (rule with_entity_ok, rule assms(1))

lemma importVCard_ok:
  assumes "pim_ok w s" "importVCard w src source s = Inr (s', r)"
  shows "pim_ok w s'"
proof -
  have draft: "pim_ok w (wk_state (draft_of_state s))" using assms(1) by simp
  show ?thesis
    using assms(2) imports_ok [OF import_list_ok imports_ok [OF import_contact_ok draft]] unfolding importVCard_def
    by (auto elim!: mutate_ok [OF assms(1)])
qed

lemma importICalendar_ok:
  assumes "pim_ok w s" "importICalendar w src policy es ts s = Inr (s', r)"
  shows "pim_ok w s'"
proof -
  have draft: "pim_ok w (wk_state (draft_of_state s))" using assms(1) by simp
  show ?thesis
    using assms(2) import_all_ok [OF import_task_ok import_all_ok [OF import_event_ok draft]] unfolding importICalendar_def
    by (auto elim!: mutate_ok [OF assms(1)])
qed

lemma list_schema_result: "list_schema n f xs = Some ys \<Longrightarrow> y \<in> set ys \<Longrightarrow> \<exists>x. f x = Some y"
proof -
  have "all_some (map f xs) = Some ys \<Longrightarrow> y \<in> set ys \<Longrightarrow> \<exists>x. f x = Some y" for ys
    by (induction xs arbitrary: ys) (auto split: option.splits)
  then show "list_schema n f xs = Some ys \<Longrightarrow> y \<in> set ys \<Longrightarrow> \<exists>x. f x = Some y"
    by (auto simp: list_schema_def split: if_splits)
qed

lemma refreshed_uid: "taskRefreshInputSchema w x = Some y \<Longrightarrow> uidSchema (fst y) = Some (fst y)"
  by (auto simp: taskRefreshInputSchema_def bind_eq_Some_conv uid_fixed dest!: testD)

lemma apply_refresh_ok:
  assumes "pim_ok w s" "apply_refresh w src latest t raw s = Inr (s', x)"
  shows "pim_ok w s'"
proof -
  from assms(2) obtain xs where xs: "list_schema 100000 (taskRefreshInputSchema w) raw = Some xs"
    and m: "mutate w s
       (case refresh_blocked latest t s of
          Some reason \<Rightarrow> Inr (False, draft_of_state s, reason, nothing_imported)
        | None \<Rightarrow>
            and_then (import_all (with_entity (refresh_task w src)) xs (draft_of_state s) nothing_imported) (\<lambda>(wk, r).
              Inr (changed_by r, if changed_by r then on_work (bump_tasks TaskKind) wk else wk, Applied, r))) = Inr (s', x)"
    by (auto simp: apply_refresh_def refresh_checks_def split: if_splits)
  have uids: "uidSchema (fst y) = Some (fst y)" if "y \<in> set xs" for y
    using list_schema_result [OF xs that] refreshed_uid by blast
  have all: "pim_ok w (wk_state wk)" if "import_all (with_entity (refresh_task w src)) xs (draft_of_state s) nothing_imported = Inr (wk, r)" for wk r
    by (rule import_all_ok [OF _ _ that]) (use assms(1) uids in \<open>auto elim!: with_entity_ok [rotated] intro: refresh_task_ok\<close>)
  show ?thesis by (rule mutate_ok [OF assms(1) m]) (auto split: option.splits if_splits dest: all)
qed

lemma refreshTasks_ok:
  assumes "pim_ok w s" "refreshTasks w src early latest t raw s = Inr (s', x)"
  shows "pim_ok w s'"
  using assms by (auto simp: refreshTasks_def dest: apply_refresh_ok split: option.splits)

section \<open>Reachable states\<close>

inductive pim_step :: "pim_world \<Rightarrow> pim_state \<Rightarrow> pim_state \<Rightarrow> bool" for w where
  "createContact w src c s = Inr (s', x) \<Longrightarrow> pim_step w s s'"
| "updateContact w src u p s = Inr (s', x) \<Longrightarrow> pim_step w s s'"
| "createMailingList w src l s = Inr (s', x) \<Longrightarrow> pim_step w s s'"
| "updateMailingList w src u q s = Inr (s', x) \<Longrightarrow> pim_step w s s'"
| "createCalendarEvent w src i e s = Inr (s', x) \<Longrightarrow> pim_step w s s'"
| "updateCalendarEvent w src u ep s = Inr (s', x) \<Longrightarrow> pim_step w s s'"
| "createTask w src i t s = Inr (s', x) \<Longrightarrow> pim_step w s s'"
| "updateTask w src u tp s = Inr (s', x) \<Longrightarrow> pim_step w s s'"
| "delete_entity w src k u s = Inr (s', b) \<Longrightarrow> pim_step w s s'"
| "restore_entity w src k u i s = Inr (s', x) \<Longrightarrow> pim_step w s s'"
| "importVCard w src source s = Inr (s', r) \<Longrightarrow> pim_step w s s'"
| "importICalendar w src policy es ts s = Inr (s', r) \<Longrightarrow> pim_step w s s'"
| "refreshTasks w src early latest ticket xs s = Inr (s', y) \<Longrightarrow> pim_step w s s'"

definition empty_pim :: pim_state where
  "empty_pim = \<lparr>pm_contacts = [], pm_lists = [], pm_events = [], pm_tasks = [], pm_transactions = [], pm_next_sequence = 1, pm_task_version = 0\<rparr>"

inductive pim_reachable :: "pim_world \<Rightarrow> pim_state \<Rightarrow> bool" for w where
  pim_start: "pim_reachable w empty_pim"
| pim_next: "pim_reachable w s \<Longrightarrow> pim_step w s s' \<Longrightarrow> pim_reachable w s'"

lemma empty_pim_ok: "pim_ok w empty_pim"
proof -
  have "entityCollection k empty_pim = []" for k by (cases k) (simp_all add: empty_pim_def)
  then show ?thesis
    by (auto simp: pim_ok_def collection_ok_def log_ok_def pim_view_def fun_eq_iff entity_with_def)
      (simp_all add: empty_pim_def)
qed

lemma created_ok:
  assumes "pim_ok w s" "mutate w s (create_entity w src k i c (draft_of_state s)) = Inr (s', x)" "kind_of c = k"
  shows "pim_ok w s'"
  by (rule mutate_ok [OF assms(1,2)]) (rule create_keeps [OF _ assms(3)], use assms(1) in simp_all)

lemma pim_step_ok: "pim_step w s s' \<Longrightarrow> pim_ok w s \<Longrightarrow> pim_ok w s'"
proof (induction rule: pim_step.induct)
  case (1 src c s s' x)
  then show ?case by (auto simp: createContact_def elim: created_ok)
next
  case (2 src u p s s' x)
  then show ?case by (auto simp: updateContact_def elim!: update_keeps split: pim_content.splits)
next
  case (3 src l s s' x)
  then have "\<exists>p. mutate w s (and_then (assertContactsExist s (mi_member_uids p)) (\<lambda>_.
            create_entity w src ListKind (mi_uid p) (ListContent (p\<lparr>mi_uid := None\<rparr>)) (draft_of_state s))) = Inr (s', x)"
    by (auto simp: createMailingList_def)
  then obtain p where m: "mutate w s (and_then (assertContactsExist s (mi_member_uids p)) (\<lambda>_.
            create_entity w src ListKind (mi_uid p) (ListContent (p\<lparr>mi_uid := None\<rparr>)) (draft_of_state s))) = Inr (s', x)" by blast
  show ?case
  proof (rule mutate_ok [OF 3(2) m])
    fix wk y
    assume "and_then (assertContactsExist s (mi_member_uids p)) (\<lambda>_.
            create_entity w src ListKind (mi_uid p) (ListContent (p\<lparr>mi_uid := None\<rparr>)) (draft_of_state s)) = Inr (True, wk, y)"
    then have "create_entity w src ListKind (mi_uid p) (ListContent (p\<lparr>mi_uid := None\<rparr>)) (draft_of_state s) = Inr (True, wk, y)" by simp
    then show "pim_ok w (wk_state wk)" by (rule create_keeps [rotated 2]) (use 3(2) in simp_all)
  qed
next
  case (4 src u q s s' x)
  then show ?case by (auto simp: updateMailingList_def elim!: update_keeps split: pim_content.splits)
next
  case (5 src i e s s' x)
  then show ?case by (auto simp: createCalendarEvent_def elim: created_ok)
next
  case (6 src u ep s s' x)
  then show ?case by (auto simp: updateCalendarEvent_def elim!: update_keeps split: pim_content.splits)
next
  case (7 src i t s s' x)
  then show ?case by (auto simp: createTask_def elim: created_ok)
next
  case (8 src u tp s s' x)
  then show ?case by (auto simp: updateTask_def elim!: update_keeps split: pim_content.splits)
qed (blast intro: delete_keeps restore_ok importVCard_ok importICalendar_ok refreshTasks_ok)+

lemma reachable_pim_ok: "pim_reachable w s \<Longrightarrow> pim_ok w s"
  by (induction rule: pim_reachable.induct) (auto intro: empty_pim_ok pim_step_ok)

section \<open>An example\<close>

text \<open>One created task, for the witnesses.\<close>

definition example_pim :: pim_world where
  "example_pim = \<lparr>pw_cards = \<lparr>cw_email = (\<lambda>_. True), cw_decode_text = (\<lambda>_ _. None), cw_encode_uri = (\<lambda>x. x), cw_decode_uri = Some\<rparr>,
     pw_datetime = (\<lambda>_. True), pw_time = (\<lambda>_. 0)\<rparr>"

definition source_at :: "string \<Rightarrow> string \<Rightarrow> pim_source" where
  "source_at now name = \<lparr>ps_now = now, ps_ids = (\<lambda>n. name @ replicate n CHR ''0'')\<rparr>"

lemma allocate_numeral [simp, code_unfold]:
  "allocate known f (numeral k) n = (case uidSchema (f n) of None \<Rightarrow> Inl PimRejected
      | Some u \<Rightarrow> if known u then allocate known f (pred_numeral k) (Suc n) else Inr (u, Suc n))"
  by (simp add: numeral_eq_Suc split: option.splits)

definition example_task :: pim_entity where
  "example_task = \<lparr>en_uid = ''a'', en_content = TaskContent (no_task\<lparr>tk_title := ''Call''\<rparr>), en_created = ''now'', en_updated = ''now'', en_revision = 1\<rparr>"

definition one_task :: pim_state where
  "one_task = empty_pim\<lparr>pm_tasks := [example_task], pm_transactions := [\<lparr>tx_id = ''a0'', tx_sequence = 1, tx_occurred = ''now'',
               tx_action = CreatedAction, tx_kind = TaskKind, tx_uid = ''a'', tx_before = None, tx_after = Some example_task\<rparr>],
       pm_next_sequence := 2, pm_task_version := 1\<rparr>"

lemma example_uids: "uidSchema ''a'' = Some ''a''" "uidSchema ''a0'' = Some ''a0''" "uidSchema ''b'' = Some ''b''" "uidSchema ''c'' = Some ''c''"
  by code_simp+

lemma example_time: "isoDateTimeSchema example_pim ''now'' = Some ''now''"
  by code_simp

lemma example_content: "task_schema example_pim (no_task\<lparr>tk_title := ''Call''\<rparr>) = Some (no_task\<lparr>tk_title := ''Call''\<rparr>)"
  by code_simp

lemma example_entity: "entity_schema example_pim example_task = Some example_task"
  by (simp add: entity_schema_def example_task_def example_uids example_content example_time schema_test_def)

lemma example_created: "createTask example_pim (source_at ''now'' ''a'') None (no_task\<lparr>tk_title := ''Call''\<rparr>) empty_pim = Inr (one_task, example_task)"
proof -
  let ?c = "no_task\<lparr>tk_title := ''Call''\<rparr>"
  have n: "normalizeTaskContent ''now'' ?c = ?c" by (simp add: normalizeTaskContent_def no_task_def)
  have c: "create_entity example_pim (source_at ''now'' ''a'') TaskKind None (TaskContent ?c) (draft_of_state empty_pim)
     = Inr (True, \<lparr>wk_state = one_task, wk_taken = 2\<rparr>, example_task)"
    using example_entity [unfolded example_task_def]
    by (simp add: create_entity_def availableUid_def source_at_def example_uids known_uid_def isHistoricalUid_def empty_pim_def entity_with_def
      new_entity_def accept_def example_task_def store_entity_def record_change_def bump_tasks_def on_work_def schema_option_def
      pimTransactionSchema_def schema_test_def example_time identifies_def snapshots_fit_def one_task_def and_then_def)
  have "pim_ok example_pim one_task" using create_keeps [OF _ _ c] empty_pim_ok by simp
  then show ?thesis using c by (simp add: createTask_def accept_def schema_option_def example_content n mutate_def pim_ok_persists source_at_def)
qed

lemma one_task_reachable: "pim_reachable example_pim one_task"
  by (rule pim_next [OF pim_start]) (rule pim_step.intros(7), rule example_created)

section \<open>The log and the collections\<close>

text \<open>C13: In every state of the local calendar and address book that its operations reach, the
  collections are exactly what replaying the transaction log gives, every transaction starts from what
  the log before it shows, and its result has a higher revision than everything the log knew of that
  entity.\<close>

theorem pim_state_is_its_log:
  assumes "pim_reachable w s"
  shows "pim_view s = replay (pm_transactions s) \<and> history_ok (pm_transactions s)"
  using pim_okD(3,4) [OF reachable_pim_ok [OF assms]] by blast

theorem pim_state_is_its_log_witness:
  "pim_view one_task = replay (pm_transactions one_task) \<and> history_ok (pm_transactions one_task)"
  by (rule pim_state_is_its_log [OF one_task_reachable])

text \<open>C16: Every reachable state satisfies the schema of the stored file, which returns it as it is: unique
  UIDs, entities and transactions within their limits and under their kinds, ascending sequence numbers.\<close>

theorem pim_state_stays_valid:
  assumes "pim_reachable w s"
  shows "persistedPimStateSchema w s = Some s \<and> list_all (\<lambda>k. list_all (\<lambda>e. kind_of (en_content e) = k) (entityCollection k s))
      [ContactKind, ListKind, EventKind, TaskKind]"
  using pim_ok_persists [OF reachable_pim_ok [OF assms]] pim_okD(1) [OF reachable_pim_ok [OF assms]]
  by (simp add: collection_ok_def list_all_iff)

theorem pim_state_stays_valid_witness:
  "persistedPimStateSchema example_pim one_task = Some one_task \<and> list_all (\<lambda>k. list_all (\<lambda>e. kind_of (en_content e) = k) (entityCollection k one_task))
      [ContactKind, ListKind, EventKind, TaskKind]"
  by (rule pim_state_stays_valid [OF one_task_reachable])

section \<open>Deleting and restoring\<close>

lemma record_succeeds:
  assumes "schema_option (entity_schema w) b = Some b" "schema_option (entity_schema w) c = Some c"
    "isoDateTimeSchema w (ps_now src) = Some (ps_now src)" "uidSchema u = Some u"
    "\<And>n. uidSchema (ps_ids src n) = Some (ps_ids src n)" "ps_ids src (wk_taken wk) \<notin> set (map tx_id (pm_transactions (wk_state wk)))"
    "0 < pm_next_sequence (wk_state wk)" "identifies k u b" "identifies k u c" "snapshots_fit action b c"
  shows "\<exists>t n. record_change w src action k u b c wk = Inr (wk\<lparr>wk_state := (wk_state wk)\<lparr>
      pm_next_sequence := pm_next_sequence (wk_state wk) + 1, pm_transactions := pm_transactions (wk_state wk) @ [t]\<rparr>, wk_taken := n\<rparr>)
      \<and> tx_key t = (k, u) \<and> tx_before t = b \<and> tx_after t = c \<and> tx_action t = action \<and> tx_id t = ps_ids src (wk_taken wk)"
proof -
  have "\<not> list_ex (\<lambda>t. tx_id t = ps_ids src (wk_taken wk)) (pm_transactions (wk_state wk))"
    using assms(6) by (auto simp: list_ex_iff) (metis image_eqI)
  then have "allocate (\<lambda>i. list_ex (\<lambda>t. tx_id t = i) (pm_transactions (wk_state wk))) (ps_ids src) (Suc 100) (wk_taken wk)
      = Inr (ps_ids src (wk_taken wk), Suc (wk_taken wk))"
    unfolding allocate.simps(2) assms(5) by simp
  then have 1: "allocate (\<lambda>i. list_ex (\<lambda>t. tx_id t = i) (pm_transactions (wk_state wk))) (ps_ids src) 101 (wk_taken wk)
      = Inr (ps_ids src (wk_taken wk), Suc (wk_taken wk))" by simp
  let ?t = "\<lparr>tx_id = ps_ids src (wk_taken wk), tx_sequence = pm_next_sequence (wk_state wk), tx_occurred = ps_now src,
     tx_action = action, tx_kind = k, tx_uid = u, tx_before = b, tx_after = c\<rparr>"
  have "pimTransactionSchema w ?t = Some ?t"
    using assms by (simp add: pimTransactionSchema_def schema_test_def)
  then have "record_change w src action k u b c wk = Inr (wk\<lparr>wk_state := (wk_state wk)\<lparr>
      pm_next_sequence := pm_next_sequence (wk_state wk) + 1, pm_transactions := pm_transactions (wk_state wk) @ [?t]\<rparr>,
      wk_taken := Suc (wk_taken wk)\<rparr>)"
    unfolding record_change_def Let_def assms(1,2) 1 by (simp add: accept_def and_then_def)
  then show ?thesis by (intro exI [where x = ?t] exI [where x = "Suc (wk_taken wk)"]) (simp add: tx_key_def)
qed

text \<open>A clock and identifiers that the schemas accept, the first one unused.\<close>

definition source_ok :: "pim_world \<Rightarrow> pim_source \<Rightarrow> string set \<Rightarrow> bool" where
  "source_ok w src used =
     (isoDateTimeSchema w (ps_now src) = Some (ps_now src) \<and> (\<forall>n. uidSchema (ps_ids src n) = Some (ps_ids src n)) \<and> ps_ids src 0 \<notin> used)"

lemma logged_collections [simp]: "entityCollection k (s\<lparr>pm_next_sequence := n, pm_transactions := txs\<rparr>) = entityCollection k s"
  by (cases k) simp_all

lemma logged_view [simp]: "pim_view (s\<lparr>pm_next_sequence := n, pm_transactions := txs\<rparr>) = pim_view s"
  by (simp add: pim_view_def)

lemma mutate_succeeds: "pim_ok w s1 \<Longrightarrow> wk_state wk = s1 \<Longrightarrow> mutate w s (Inr (True, wk, x)) = Inr (s1, x)"
  by (simp add: mutate_def and_then_def accept_def pim_ok_persists)

lemma log_sequence: "pim_ok w s \<Longrightarrow> 0 < pm_next_sequence s"
  by (simp add: pim_ok_def log_ok_def)

lemma delete_succeeds:
  assumes ok: "pim_ok w s" and e: "pim_view s (k, u) = Some e" and src: "source_ok w src (set (map tx_id (pm_transactions s)))"
  shows "\<exists>s1 t. delete_entity w src k u s = Inr (s1, True) \<and> pim_ok w s1 \<and> pim_view s1 = (pim_view s)((k, u) := None)
     \<and> pm_transactions s1 = pm_transactions s @ [t] \<and> tx_key t = (k, u) \<and> tx_action t = DeletedAction \<and> tx_before t = Some e
     \<and> tx_after t = None \<and> tx_id t = ps_ids src 0"
proof -
  note v = view_ok [OF ok e]
  let ?drop = "\<lambda>s. set_collection k (remove_entity u (entityCollection k s)) s"
  let ?wk = "on_work (bump_tasks k \<circ> ?drop) (draft_of_state s)"
  have wk: "wk_state ?wk = bump_tasks k (?drop s)" "wk_taken ?wk = 0" by (simp_all add: on_work_def)
  have u: "uidSchema u = Some u" using v entity_schemaD(4) [of w e e] by simp
  have found: "entity_with u (entityCollection k s) = Some e" using e by (simp add: pim_view_def)
  obtain t n where rec: "record_change w src DeletedAction k u (Some e) None ?wk = Inr (?wk\<lparr>wk_state := (wk_state ?wk)\<lparr>
      pm_next_sequence := pm_next_sequence (wk_state ?wk) + 1, pm_transactions := pm_transactions (wk_state ?wk) @ [t]\<rparr>, wk_taken := n\<rparr>)"
    and t: "tx_key t = (k, u)" "tx_before t = Some e" "tx_after t = None" "tx_action t = DeletedAction" "tx_id t = ps_ids src (wk_taken ?wk)"
    using record_succeeds [of w "Some e" None src u ?wk k DeletedAction] v src u log_sequence [OF ok]
    unfolding wk by (auto simp: schema_option_def source_ok_def identifies_def snapshots_fit_def)
  let ?s1 = "(wk_state ?wk)\<lparr>pm_next_sequence := pm_next_sequence (wk_state ?wk) + 1, pm_transactions := pm_transactions (wk_state ?wk) @ [t]\<rparr>"
  have ok1: "pim_ok w ?s1" using remove_ok [OF ok wk(1) found rec] by simp
  have view: "pim_view ?s1 = (pim_view s)((k, u) := None)"
    unfolding logged_view wk bump_view by (rule pim_view_remove [OF collections_distinct [OF ok]])
  have "delete_entity w src k u s = Inr (?s1, True)"
  proof -
    have "en_uid e = u" using v by simp
    with rec have "(case entity_with u (entityCollection k s) of None \<Rightarrow> Inr (False, draft_of_state s, False)
        | Some current \<Rightarrow> and_then (record_change w src DeletedAction k (en_uid current) (Some current) None ?wk) (\<lambda>wk. Inr (True, wk, True)))
      = Inr (True, ?wk\<lparr>wk_state := ?s1, wk_taken := n\<rparr>, True)"
      unfolding found by (simp only: option.case and_then_simps)
    with u show ?thesis
      unfolding delete_entity_def by (simp only: accept_def option.case and_then_simps) (rule mutate_succeeds [OF ok1], simp)
  qed
  with ok1 view t show ?thesis by (intro exI [where x = ?s1] exI [where x = t]) (simp add: wk)
qed

text \<open>C15: What was deleted can be restored: in every reachable state, deleting an entity succeeds, and
  restoring it afterwards gives it back with its content and creation time under a higher revision, and
  leaves everything else as it was.\<close>

theorem deleted_entity_is_restored:
  assumes "pim_reachable w s" "pim_view s (k, u) = Some e" "source_ok w src (set (map tx_id (pm_transactions s)))"
    "source_ok w src2 (insert (ps_ids src 0) (set (map tx_id (pm_transactions s))))"
  shows "\<exists>s1 s2 e'. delete_entity w src k u s = Inr (s1, True) \<and> pim_view s1 (k, u) = None
    \<and> restore_entity w src2 k u None s1 = Inr (s2, e') \<and> en_content e' = en_content e \<and> en_created e' = en_created e
    \<and> en_revision e < en_revision e' \<and> pim_view s2 = (pim_view s)((k, u) := Some e')"
proof -
  note ok = reachable_pim_ok [OF assms(1)]
  obtain s1 t where del: "delete_entity w src k u s = Inr (s1, True)" and ok1: "pim_ok w s1" and view1: "pim_view s1 = (pim_view s)((k, u) := None)"
    and t: "pm_transactions s1 = pm_transactions s @ [t]" "tx_key t = (k, u)" "tx_action t = DeletedAction" "tx_before t = Some e" "tx_after t = None"
      "tx_id t = ps_ids src 0"
    using delete_succeeds [OF ok assms(2,3)] by blast
  note v = view_ok [OF ok assms(2)]
  have u: "uidSchema u = Some u" using v entity_schemaD(4) [of w e e] by simp
  have source: "restoreSource s1 k u None = Some e" using t v by (simp add: restoreSource_def Let_def tx_key_def)
  have gone: "entity_with u (entityCollection k s1) = None" using view1 by (auto simp: pim_view_def fun_eq_iff split: if_splits)
  let ?e = "e\<lparr>en_uid := u, en_updated := ps_now src2, en_revision := latestRevision s1 k u + 1\<rparr>"
  have parts: "uidSchema (en_uid e) = Some (en_uid e)" "content_schema w (en_content e) = Some (en_content e)"
    "isoDateTimeSchema w (en_created e) = Some (en_created e)"
    using v by (auto simp: entity_schema_def bind_eq_Some_conv dest!: testD) (metis pim_entity.select_convs pim_entity.surjective pim_entity.update_convs)+
  have e': "entity_schema w ?e = Some ?e"
    using parts v assms(4) u by (simp add: entity_schema_def schema_test_def source_ok_def)
  have newer: "en_revision e \<in> set (revisions_of (k, u) (pm_transactions s1))" using t by (simp add: revisions_in_def)
  let ?put = "\<lambda>s. set_collection k (put_entity ?e (entityCollection k s)) s"
  let ?wk = "on_work ?put (on_work (bump_tasks k) (draft_of_state s1))"
  have wk: "wk_state ?wk = ?put (bump_tasks k s1)" "wk_taken ?wk = 0" by (simp_all add: on_work_def)
  obtain t2 n where rec: "record_change w src2 RestoredAction k u None (Some ?e) ?wk = Inr (?wk\<lparr>wk_state := (wk_state ?wk)\<lparr>
      pm_next_sequence := pm_next_sequence (wk_state ?wk) + 1, pm_transactions := pm_transactions (wk_state ?wk) @ [t2]\<rparr>, wk_taken := n\<rparr>)"
    using record_succeeds [of w None "Some ?e" src2 u ?wk k RestoredAction] e' v assms(4) u log_sequence [OF ok1] t
    unfolding wk by (auto simp: schema_option_def source_ok_def identifies_def snapshots_fit_def)
  let ?s2 = "(wk_state ?wk)\<lparr>pm_next_sequence := pm_next_sequence (wk_state ?wk) + 1, pm_transactions := pm_transactions (wk_state ?wk) @ [t2]\<rparr>"
  have st: "store_entity w src2 RestoredAction k None ?e (on_work (bump_tasks k) (draft_of_state s1)) = Inr \<lparr>wk_state = ?s2, wk_taken = n\<rparr>"
    using rec by (simp add: store_entity_def)
  have ok2: "pim_ok w ?s2"
    using store_ok [OF _ e' _ _ _ st] ok1 v gone latest_above [of _ k u s1] by (auto simp: less_Suc_eq_le)
  have "restore_entity w src2 k u None s1 = Inr (?s2, ?e)"
  proof -
    have ok2': "pim_ok w ?s2" using ok2 by simp
    show ?thesis
      unfolding restore_entity_def accept_def u schema_option_def Let_def gone source
      by (simp only: option.case option.map and_then_simps option.distinct if_False e' st gone source) (rule mutate_succeeds [OF ok2'], simp)
  qed
  moreover have "pim_view ?s2 = (pim_view s)((k, u) := Some ?e)"
    unfolding logged_view wk pim_view_put bump_view view1 by simp
  moreover have "en_revision e < en_revision ?e" using latest_above [OF newer] by simp
  ultimately show ?thesis using del view1 by (intro exI [where x = s1] exI [where x = ?s2] exI [where x = ?e]) simp
qed

definition fixed_source :: "string \<Rightarrow> pim_source" where
  "fixed_source name = \<lparr>ps_now = ''now'', ps_ids = (\<lambda>_. name)\<rparr>"

theorem deleted_entity_is_restored_witness:
  "\<exists>s1 s2 e'. delete_entity example_pim (fixed_source ''b'') TaskKind ''a'' one_task = Inr (s1, True) \<and> pim_view s1 (TaskKind, ''a'') = None
    \<and> restore_entity example_pim (fixed_source ''c'') TaskKind ''a'' None s1 = Inr (s2, e') \<and> en_content e' = en_content example_task
    \<and> en_created e' = en_created example_task \<and> en_revision example_task < en_revision e'
    \<and> pim_view s2 = (pim_view one_task)((TaskKind, ''a'') := Some e')"
  by (rule deleted_entity_is_restored [OF one_task_reachable])
    (simp_all add: source_ok_def fixed_source_def example_time example_uids pim_view_def one_task_def entity_with_def example_task_def)

end
