(* ===== verification/Pim_Tasks.thy ===== *)
theory Pim_Tasks
  imports Pim_Log
begin

text \<open>
  Tasks: a refresh from outside is applied only to the tasks it was made for, whatever other operations
  ran while it was loading; and importing the same calendar again can change a task.
\<close>

section \<open>The task version\<close>

text \<open>A step that changes the tasks raises the task version.\<close>

definition versioned :: "pim_state \<Rightarrow> pim_state \<Rightarrow> bool" where
  "versioned s s' = (pm_task_version s < pm_task_version s' \<or> (pm_task_version s = pm_task_version s' \<and> pm_tasks s = pm_tasks s'))"

lemma versioned_refl [simp]: "versioned s s"
  by (simp add: versioned_def)

lemma versioned_trans: "versioned s s' \<Longrightarrow> versioned s' s'' \<Longrightarrow> versioned s s''"
  by (auto simp: versioned_def)

text \<open>What a change of the working state does to tasks and version: nothing for another kind, and for tasks
  the version may stay behind until the operation raises it.\<close>

definition same_tasks :: "pim_state \<Rightarrow> pim_state \<Rightarrow> bool" where
  "same_tasks s s' = (pm_tasks s' = pm_tasks s \<and> pm_task_version s' = pm_task_version s)"

lemma recorded_tasks:
  assumes "record_change w src action k u b c wk = Inr wk'"
  shows "same_tasks (wk_state wk) (wk_state wk')"
  using assms by (auto simp: record_change_def Let_def same_tasks_def)

lemma set_collection_tasks [simp]:
  "pm_task_version (set_collection k es s) = pm_task_version s"
  "k \<noteq> TaskKind \<Longrightarrow> pm_tasks (set_collection k es s) = pm_tasks s"
  by (cases k; simp)+

lemma stored_version:
  assumes "store_entity w src action k current e wk = Inr wk'"
  shows "pm_task_version (wk_state wk') = pm_task_version (wk_state wk)" "k \<noteq> TaskKind \<Longrightarrow> pm_tasks (wk_state wk') = pm_tasks (wk_state wk)"
  using recorded_tasks [OF assms [unfolded store_entity_def]] by (simp_all add: same_tasks_def)

lemma bump_tasks_simps [simp]:
  "pm_tasks (bump_tasks k s) = pm_tasks s" "pm_task_version (bump_tasks k s) = (if k = TaskKind then pm_task_version s + 1 else pm_task_version s)"
  by (simp_all add: bump_tasks_def)

lemma created_version:
  assumes "create_entity w src k i c wk = Inr (changed, wk', e)"
  shows "versioned (wk_state wk) (wk_state wk')"
proof -
  from assms obtain u wk1 e' where "availableUid src k i wk = Inr (u, wk1)"
    and st: "store_entity w src CreatedAction k None e' (on_work (bump_tasks k) wk1) = Inr wk'"
    by (auto simp: create_entity_def)
  from available(1) [OF this(1)] stored_version [OF st] show ?thesis
    by (cases "k = TaskKind") (auto simp: versioned_def)
qed

lemma revised_version:
  assumes "revise_entity w src k current c wk = Inr (changed, wk', e)"
  shows "pm_task_version (wk_state wk') = pm_task_version (wk_state wk)"
    "k \<noteq> TaskKind \<or> \<not> changed \<Longrightarrow> pm_tasks (wk_state wk') = pm_tasks (wk_state wk)"
  using assms stored_version [of w src UpdatedAction k "Some current" e wk wk'] by (auto simp: revise_entity_def split: if_splits)

lemma revised_bumped:
  assumes "revise_entity w src k current c wk = Inr (changed, wk', e)"
  shows "versioned (wk_state wk) (wk_state (if changed then on_work (bump_tasks k) wk' else wk'))"
  using revised_version [OF assms] by (cases "k = TaskKind"; cases changed) (auto simp: versioned_def)

text \<open>Storing the state keeps the version, and tasks that were not touched.\<close>

lemma mutate_version:
  assumes "pim_ok w s" "mutate w s decision = Inr (s', x)" "\<And>wk x. decision = Inr (True, wk, x) \<Longrightarrow> versioned s (wk_state wk)"
  shows "versioned s s'"
proof -
  consider "s' = s" | wk where "decision = Inr (True, wk, x)" "persistedPimStateSchema w (wk_state wk) = Some s'"
    using assms(2) by (auto simp: mutate_def split: if_splits)
  then show ?thesis
  proof cases
    case 2
    note v = assms(3) [OF 2(1)]
    from 2(2) have "pm_task_version s' = pm_task_version (wk_state wk)"
      "collection_schema w TaskKind (pm_tasks (wk_state wk)) = Some (pm_tasks s')"
      by (auto simp: persistedPimStateSchema_def bind_eq_Some_conv dest!: testD)
    with v collection_fixed [OF pim_okD(1) [OF assms(1), of TaskKind]] show ?thesis by (auto simp: versioned_def)
  qed simp
qed

section \<open>Every step is versioned\<close>

lemma update_version:
  assumes "pim_ok w s" "update_entity w src k uid change s = Inr (s', e)"
  shows "versioned s s'"
  using assms(2) unfolding update_entity_def
  by (auto elim!: mutate_version [OF assms(1)] split: option.splits) (drule revised_bumped, simp)

lemma delete_version:
  assumes "pim_ok w s" "delete_entity w src k uid s = Inr (s', x)"
  shows "versioned s s'"
proof -
  have "versioned s (wk_state wk')"
    if "record_change w src action k u b c (on_work (bump_tasks k \<circ> (\<lambda>s. set_collection k es s)) (draft_of_state s)) = Inr wk'"
    for action u b c es wk'
    using recorded_tasks [OF that] by (cases "k = TaskKind") (auto simp: same_tasks_def versioned_def)
  with assms(2) show ?thesis unfolding delete_entity_def
    by (auto elim!: mutate_version [OF assms(1)] split: option.splits simp: comp_def on_work_def)
qed

lemma bumped_store_version:
  assumes "store_entity w src action k current e (on_work (bump_tasks k) wk) = Inr wk'"
  shows "versioned (wk_state wk) (wk_state wk')"
  using stored_version [OF assms] by (cases "k = TaskKind") (auto simp: versioned_def)

lemma restore_version:
  assumes "pim_ok w s" "restore_entity w src k uid i s = Inr (s', x)"
  shows "versioned s s'"
  using assms(2) unfolding restore_entity_def
  by clarsimp (erule mutate_version [OF assms(1)], auto simp: Let_def split: option.splits if_splits dest: bumped_store_version)

lemma import_entity_version:
  assumes "import_entity w src k u c wk = Inr (y, wk', e)" "k \<noteq> TaskKind"
  shows "same_tasks (wk_state wk) (wk_state wk')"
  using assms by (auto simp: import_entity_def same_tasks_def dest: stored_version revised_version split: option.splits if_splits)

lemma import_record_version:
  assumes "import_record w src policy k u c wk = Inr (y, wk', es)"
  shows "versioned (wk_state wk) (wk_state wk')"
  using assms unfolding import_record_def Let_def
  by (auto split: option.splits if_splits dest: bumped_store_version) (drule revised_bumped, simp)+

lemma import_all_version:
  assumes "\<And>x wk y wk' es. f x wk = Inr (y, wk', es) \<Longrightarrow> versioned (wk_state wk) (wk_state wk')" "import_all f xs wk r = Inr (wk2, r2)"
  shows "versioned (wk_state wk) (wk_state wk2)"
  using assms(2)
proof (induction xs arbitrary: wk r)
  case (Cons x xs)
  then obtain y wk1 es where "f x wk = Inr (y, wk1, es)" "import_all f xs wk1 (tally y es r) = Inr (wk2, r2)" by auto
  with assms(1) Cons.IH show ?case by (blast intro: versioned_trans)
qed simp

lemma same_versioned: "same_tasks s s' \<Longrightarrow> versioned s s'"
  by (simp add: same_tasks_def versioned_def)

lemma import_uid_state: "import_uid src k v wk = Inr (u, wk1) \<Longrightarrow> wk_state wk1 = wk_state wk"
  by (auto simp: import_uid_def dest: available split: option.splits)

lemma import_contact_version: "import_contact w src raw wk = Inr (y, wk', e) \<Longrightarrow> versioned (wk_state wk) (wk_state wk')"
  by (auto simp: import_contact_def dest!: import_uid_state intro!: same_versioned) (drule import_entity_version, simp_all)

lemma import_list_version: "import_list w src raw wk = Inr (y, wk', e) \<Longrightarrow> versioned (wk_state wk) (wk_state wk')"
  by (auto simp: import_list_def dest!: import_uid_state intro!: same_versioned) (drule import_entity_version, simp_all)

lemma with_entityD: "with_entity f x wk = Inr (y, wk', es) \<Longrightarrow> \<exists>e. f x wk = Inr (y, wk', e)"
  by (auto simp: with_entity_def)

lemma imports_version:
  assumes "\<And>x wk y wk' e. f x wk = Inr (y, wk', e) \<Longrightarrow> versioned (wk_state wk) (wk_state wk')"
    "import_all (with_entity f) xs wk r = Inr (wk2, r2)"
  shows "versioned (wk_state wk) (wk_state wk2)"
  by (rule import_all_version [OF _ assms(2)]) (auto dest!: with_entityD intro: assms(1))

lemma contacts_version:
  "import_all (with_entity (import_contact w src)) xs wk r = Inr (wk', r') \<Longrightarrow> versioned (wk_state wk) (wk_state wk')"
  by (rule imports_version) (rule import_contact_version)

lemma lists_version:
  "import_all (with_entity (import_list w src)) xs wk r = Inr (wk', r') \<Longrightarrow> versioned (wk_state wk) (wk_state wk')"
  by (rule imports_version) (rule import_list_version)

lemma importVCard_version:
  assumes "pim_ok w s" "importVCard w src source s = Inr (s', r)"
  shows "versioned s s'"
  using assms(2) unfolding importVCard_def
  by clarsimp (erule mutate_version [OF assms(1)], auto dest!: contacts_version lists_version intro: versioned_trans [rotated])

lemma import_event_version: "import_event w src policy raw wk = Inr (y, wk', es) \<Longrightarrow> versioned (wk_state wk) (wk_state wk')"
  by (auto simp: import_event_def dest: import_record_version)

lemma import_task_version: "import_task w src policy raw wk = Inr (y, wk', es) \<Longrightarrow> versioned (wk_state wk) (wk_state wk')"
  by (auto simp: import_task_def dest: import_record_version)

lemma events_version: "import_all (import_event w src policy) xs wk r = Inr (wk', r') \<Longrightarrow> versioned (wk_state wk) (wk_state wk')"
  by (rule import_all_version) (rule import_event_version)

lemma tasks_version: "import_all (import_task w src policy) xs wk r = Inr (wk', r') \<Longrightarrow> versioned (wk_state wk) (wk_state wk')"
  by (rule import_all_version) (rule import_task_version)

lemma importICalendar_version:
  assumes "pim_ok w s" "importICalendar w src policy es ts s = Inr (s', r)"
  shows "versioned s s'"
  using assms(2) unfolding importICalendar_def
  by (elim mutate_version [OF assms(1)])
    (auto dest!: events_version tasks_version intro: versioned_trans [rotated])

text \<open>A refresh raises the version once, at its end.\<close>

lemma refresh_task_version:
  "refresh_task w src x wk = Inr (y, wk', e) \<Longrightarrow> pm_task_version (wk_state wk') = pm_task_version (wk_state wk)"
  by (auto simp: refresh_task_def Let_def dest: stored_version revised_version split: option.splits if_splits pim_content.splits)

lemma refresh_all_version:
  "import_all (with_entity (refresh_task w src)) xs wk r = Inr (wk', r') \<Longrightarrow>
   pm_task_version (wk_state wk') = pm_task_version (wk_state wk)"
  by (induction xs arbitrary: wk r) (auto dest!: with_entityD refresh_task_version)

lemma apply_refresh_version:
  assumes "pim_ok w s" "apply_refresh w src latest t raw s = Inr (s', y)"
  shows "versioned s s'"
  using assms(2) unfolding apply_refresh_def
  by clarsimp (erule mutate_version [OF assms(1)],
    auto simp: versioned_def split: option.splits dest!: refresh_all_version)

lemma refreshTasks_version:
  assumes "pim_ok w s" "refreshTasks w src early latest t raw s = Inr (s', y)"
  shows "versioned s s'"
  using assms by (auto simp: refreshTasks_def versioned_def dest: apply_refresh_version [unfolded versioned_def] split: option.splits)

lemma blocked_reason: "refresh_blocked latest t s = Some why \<Longrightarrow> why \<noteq> Applied"
  by (auto simp: refresh_blocked_def split: if_splits)

lemma created_step_version:
  assumes "pim_ok w s" "mutate w s (create_entity w src k i c (draft_of_state s)) = Inr (s', x)"
  shows "versioned s s'"
  by (rule mutate_version [OF assms]) (drule created_version, simp)

lemma pim_step_versioned: "pim_step w s s' \<Longrightarrow> pim_ok w s \<Longrightarrow> versioned s s'"
proof (induction rule: pim_step.induct)
  case (3 src l s s' x)
  then show ?case
    by (auto simp: createMailingList_def elim!: mutate_version split: if_splits dest!: created_version)
qed (auto simp: createContact_def updateContact_def updateMailingList_def createCalendarEvent_def updateCalendarEvent_def
  createTask_def updateTask_def intro: created_step_version update_version delete_version restore_version importVCard_version
  importICalendar_version refreshTasks_version)

section \<open>Refreshing while other operations run\<close>

inductive pim_steps :: "pim_world \<Rightarrow> pim_state \<Rightarrow> pim_state \<Rightarrow> bool" for w where
  pim_stay: "pim_steps w s s"
| pim_more: "pim_steps w s s' \<Longrightarrow> pim_step w s' s'' \<Longrightarrow> pim_steps w s s''"

lemma pim_steps_versioned: "pim_steps w s s' \<Longrightarrow> pim_ok w s \<Longrightarrow> versioned s s' \<and> pim_ok w s'"
  by (induction rule: pim_steps.induct) (auto intro: versioned_trans pim_step_versioned pim_step_ok)

text \<open>C14: A task refresh is applied only when it is the latest one and the tasks are those it was started
  from, whatever other operations ran while its tasks were being loaded or before it got its turn to
  change the store; when it is not applied the stored
  state stays as it is and nothing is counted.\<close>

theorem refresh_is_for_current_tasks:
  assumes "pim_reachable w s" "pim_steps w s s'" "rt_baseline t = pm_task_version s"
    "refreshTasks w src early latest t raw s' = Inr (s'', reason, r)"
  shows "if reason = Applied then rt_request t = latest \<and> pm_tasks s' = pm_tasks s else s'' = s' \<and> r = nothing_imported"
proof (cases "refresh_blocked (fst early) t (snd early)")
  case (Some why)
  with assms(4) blocked_reason [OF Some] show ?thesis by (simp add: refreshTasks_def)
next
  case None
  with assms(4) have applied: "apply_refresh w src latest t raw s' = Inr (s'', reason, r)" by (simp add: refreshTasks_def)
  have v: "versioned s s'" using pim_steps_versioned [OF assms(2) reachable_pim_ok [OF assms(1)]] by blast
  show ?thesis
  proof (cases "refresh_blocked latest t s'")
    case None
    with v assms(3) have "rt_request t = latest \<and> pm_tasks s' = pm_tasks s"
      by (auto simp: refresh_blocked_def versioned_def split: if_splits)
    moreover have "reason = Applied" using applied None by (auto simp: apply_refresh_def mutate_def split: if_splits)
    ultimately show ?thesis by simp
  next
    case (Some why)
    with applied have "s'' = s'" "reason = why" "r = nothing_imported" by (auto simp: apply_refresh_def mutate_def)
    with blocked_reason [OF Some] show ?thesis by simp
  qed
qed

theorem refresh_is_for_current_tasks_witness:
  "if LocalStateChanged = Applied then (0::nat) = 0 \<and> pm_tasks one_task = pm_tasks empty_pim
     else one_task = one_task \<and> nothing_imported = nothing_imported"
proof -
  let ?t = "\<lparr>rt_request = 0, rt_baseline = 0\<rparr>"
  have "pim_steps example_pim empty_pim one_task"
    by (rule pim_more [OF pim_stay]) (rule pim_step.intros(7), rule example_created)
  moreover have "rt_baseline ?t = pm_task_version empty_pim" by (simp add: empty_pim_def)
  moreover have "refreshTasks example_pim (fixed_source ''b'') (0, empty_pim) 0 ?t [] one_task = Inr (one_task, LocalStateChanged, nothing_imported)"
    by (simp add: refreshTasks_def empty_pim_def apply_refresh_def refresh_checks_def list_schema_def accept_def refresh_blocked_def one_task_def mutate_def and_then_def)
  ultimately have "if LocalStateChanged = Applied then rt_request ?t = 0 \<and> pm_tasks one_task = pm_tasks empty_pim
     else one_task = one_task \<and> nothing_imported = nothing_imported"
    by (rule refresh_is_for_current_tasks [OF pim_start])
  then show ?thesis by simp
qed

section \<open>Importing again\<close>

lemma normalized_fixed:
  assumes "task_schema w c = Some c" "tk_status c = TaskCompleted" "tk_completed_at c = None" "isoDateTimeSchema w now = Some now"
  shows "task_schema w (normalizeTaskContent now c) = Some (normalizeTaskContent now c)"
proof (cases c)
  case (fields title description status entry due priority percent completed categories recurrence source_revision)
  have option: "schema_option f (Some x) = map_option Some (f x)" "schema_option f None = Some None" for f :: "string \<Rightarrow> string option" and x
    by (simp_all add: schema_option_def)
  have same: "validateTask w (c\<lparr>tk_percent := p, tk_completed_at := t\<rparr>) = validateTask w c" for p t by (simp add: validateTask_def)
  from assms fields same [where p = 100 and t = "Some now"] show ?thesis
    by (auto simp: task_schema_def normalizeTaskContent_def replaced_def bind_eq_Some_conv schema_test_def option split: if_splits)
qed

lemma revised_to:
  assumes "revise_entity w src k e c wk = Inr (changed, wk', e')" "content_schema w c = Some c" "c \<noteq> en_content e"
  shows "changed \<and> en_revision e' = en_revision e + 1 \<and> en_content e' = c"
  using assms idemD [OF idem_content assms(2)]
  by (auto simp: revise_entity_def entity_schema_def bind_eq_Some_conv schema_test_def split: if_splits)

lemma import_over:
  assumes "import_record w src True k u c wk = Inr (y, wk', es)" "entity_with u (entityCollection k (wk_state wk)) = Some e"
    "content_schema w c = Some c" "c \<noteq> en_content e"
  shows "y = WasChanged \<and> (\<exists>e'. es = [e'] \<and> en_revision e' = en_revision e + 1 \<and> en_content e' = c)"
  using assms by (auto simp: import_record_def Let_def split: if_splits dest!: revised_to [OF _ assms(3,4)])

text \<open>Under the update policy (the default skips tasks that are known), a completed task whose calendar
  record has no completion time gets the time of the import: when the stored task comes from an import of
  the same record at another time, importing the record again changes the completion time and the
  revision of the task, although the record is the same.\<close>

theorem reimport_changes_completed_task:
  assumes "uidSchema (fst raw) = Some u" "task_schema w (snd raw) = Some c" "tk_status c = TaskCompleted" "tk_completed_at c = None"
    "entity_with u (pm_tasks (wk_state wk)) = Some e" "en_content e = TaskContent (normalizeTaskContent earlier c)"
    "earlier \<noteq> ps_now src" "isoDateTimeSchema w (ps_now src) = Some (ps_now src)" "import_task w src True raw wk = Inr (y, wk', es)"
  shows "y = WasChanged \<and> (\<exists>e'. es = [e'] \<and> en_revision e' = en_revision e + 1
    \<and> en_content e' = TaskContent (normalizeTaskContent (ps_now src) c))"
proof (rule import_over)
  show "import_record w src True TaskKind u (TaskContent (normalizeTaskContent (ps_now src) c)) wk = Inr (y, wk', es)"
    using assms(1,2,9) by (simp add: import_task_def)
  show "entity_with u (entityCollection TaskKind (wk_state wk)) = Some e" using assms(5) by simp
  show "content_schema w (TaskContent (normalizeTaskContent (ps_now src) c)) = Some (TaskContent (normalizeTaskContent (ps_now src) c))"
    using normalized_fixed [OF idemD [OF idem_task assms(2)] assms(3,4,8)] by simp
  show "TaskContent (normalizeTaskContent (ps_now src) c) \<noteq> en_content e"
    using assms(3,4,6,7) by (auto simp: normalizeTaskContent_def replaced_def dest: arg_cong [where f = tk_completed_at])
qed

definition call_made :: task_content where
  "call_made = no_task\<lparr>tk_title := ''Call'', tk_status := TaskCompleted\<rparr>"

definition imported_task :: "string \<Rightarrow> nat \<Rightarrow> pim_entity" where
  "imported_task time n = \<lparr>en_uid = ''a'', en_content = TaskContent (normalizeTaskContent time call_made), en_created = ''then'',
     en_updated = time, en_revision = n\<rparr>"

definition imported_once :: pim_state where
  "imported_once = empty_pim\<lparr>pm_tasks := [imported_task ''then'' 1], pm_transactions := [\<lparr>tx_id = ''c'', tx_sequence = 1,
     tx_occurred = ''then'', tx_action = CreatedAction, tx_kind = TaskKind, tx_uid = ''a'', tx_before = None,
     tx_after = Some (imported_task ''then'' 1)\<rparr>], pm_next_sequence := 2, pm_task_version := 1\<rparr>"

lemma call_made_content: "task_schema example_pim call_made = Some call_made"
  by code_simp

lemma example_times: "isoDateTimeSchema example_pim ''then'' = Some ''then''" "isoDateTimeSchema example_pim ''now'' = Some ''now''"
  by (simp_all add: isoDateTimeSchema_def schema_test_def example_pim_def)

lemma call_made_entity:
  assumes "isoDateTimeSchema example_pim t = Some t" "0 < n"
  shows "entity_schema example_pim (imported_task t n) = Some (imported_task t n)"
  using assms normalized_fixed [OF call_made_content _ _ assms(1)]
  by (simp add: entity_schema_def imported_task_def example_uids example_times schema_test_def) (simp add: call_made_def no_task_def)

lemma imported_store:
  "\<exists>wk'. store_entity example_pim (fixed_source ''b'') UpdatedAction TaskKind (Some (imported_task ''then'' 1)) (imported_task ''now'' 2)
     (draft_of_state imported_once) = Inr wk'"
proof -
  let ?wk = "on_work (\<lambda>s. set_collection TaskKind (put_entity (imported_task ''now'' 2) (entityCollection TaskKind s)) s) (draft_of_state imported_once)"
  have "\<exists>t n. record_change example_pim (fixed_source ''b'') UpdatedAction TaskKind ''a'' (Some (imported_task ''then'' 1)) (Some (imported_task ''now'' 2)) ?wk
      = Inr (?wk\<lparr>wk_state := (wk_state ?wk)\<lparr>pm_next_sequence := pm_next_sequence (wk_state ?wk) + 1,
          pm_transactions := pm_transactions (wk_state ?wk) @ [t]\<rparr>, wk_taken := n\<rparr>)
      \<and> tx_key t = (TaskKind, ''a'') \<and> tx_before t = Some (imported_task ''then'' 1) \<and> tx_after t = Some (imported_task ''now'' 2)
      \<and> tx_action t = UpdatedAction \<and> tx_id t = ps_ids (fixed_source ''b'') (wk_taken ?wk)"
    using call_made_entity [OF example_times(1), of 1] call_made_entity [OF example_times(2), of 2]
    by (intro record_succeeds) (simp_all add: schema_option_def example_uids example_times fixed_source_def imported_once_def on_work_def
      identifies_def snapshots_fit_def imported_task_def empty_pim_def)
  then show ?thesis by (auto simp: store_entity_def imported_task_def)
qed

lemma imported_revision:
  "\<exists>wk'. revise_entity example_pim (fixed_source ''b'') TaskKind (imported_task ''then'' 1) (TaskContent (normalizeTaskContent ''now'' call_made))
     (draft_of_state imported_once) = Inr (True, wk', imported_task ''now'' 2)"
proof -
  have change: "normalizeTaskContent ''now'' call_made \<noteq> normalizeTaskContent ''then'' call_made"
    by (simp add: normalizeTaskContent_def call_made_def no_task_def replaced_def)
  have candidate: "(imported_task ''then'' 1)\<lparr>en_content := TaskContent (normalizeTaskContent ''now'' call_made)\<rparr> =
      (imported_task ''now'' 1)\<lparr>en_updated := ''then''\<rparr>" by (simp add: imported_task_def)
  have ok: "entity_schema example_pim ((imported_task ''now'' 1)\<lparr>en_updated := ''then''\<rparr>) = Some ((imported_task ''now'' 1)\<lparr>en_updated := ''then''\<rparr>)"
    using call_made_entity [OF example_times(2), of 1]
    by (simp add: entity_schema_def imported_task_def bind_eq_Some_conv example_times schema_test_def)
  have final: "((imported_task ''now'' 1)\<lparr>en_updated := ''then''\<rparr>)\<lparr>en_updated := ps_now (fixed_source ''b''), en_revision := en_revision (imported_task ''then'' 1) + 1\<rparr>
      = imported_task ''now'' 2" by (simp add: imported_task_def fixed_source_def)
  obtain wk' where st: "store_entity example_pim (fixed_source ''b'') UpdatedAction TaskKind (Some (imported_task ''then'' 1)) (imported_task ''now'' 2)
     (draft_of_state imported_once) = Inr wk'" using imported_store by blast
  have contents: "en_content ((imported_task ''now'' 1)\<lparr>en_updated := ''then''\<rparr>) \<noteq> en_content (imported_task ''then'' 1)"
    using change by (simp add: imported_task_def)
  show ?thesis
    unfolding revise_entity_def candidate ok accept_def option.case and_then_simps if_not_P [OF contents] final
      call_made_entity [OF example_times(2) zero_less_numeral] st by simp
qed

lemma imported_again:
  "\<exists>wk'. import_task example_pim (fixed_source ''b'') True (''a'', call_made) (draft_of_state imported_once)
     = Inr (WasChanged, wk', [imported_task ''now'' 2])"
proof -
  have conflict: "\<not> conflictFromOtherKind imported_once ''a'' TaskKind"
    by (simp add: conflictFromOtherKind_def known_uid_def imported_once_def empty_pim_def entity_with_def isHistoricalUid_def)
  have found: "entity_with ''a'' (pm_tasks imported_once) = Some (imported_task ''then'' 1)"
    by (simp add: imported_once_def entity_with_def imported_task_def)
  have now: "ps_now (fixed_source ''b'') = ''now''" by (simp add: fixed_source_def)
  from imported_revision show ?thesis
    by (auto simp: import_task_def import_record_def Let_def accept_def example_uids call_made_content conflict found now)
qed

theorem reimport_changes_completed_task_witness:
  "WasChanged = WasChanged \<and> (\<exists>e'. [imported_task ''now'' 2] = [e'] \<and> en_revision e' = en_revision (imported_task ''then'' 1) + 1
    \<and> en_content e' = TaskContent (normalizeTaskContent (ps_now (fixed_source ''b'')) call_made))"
proof -
  obtain wk' where "import_task example_pim (fixed_source ''b'') True (''a'', call_made) (draft_of_state imported_once)
     = Inr (WasChanged, wk', [imported_task ''now'' 2])" using imported_again by blast
  then show ?thesis
    by (rule reimport_changes_completed_task [where earlier = "''then''" and w = example_pim and u = "''a''", rotated 8])
      (simp_all add: example_uids call_made_content example_times fixed_source_def imported_once_def entity_with_def,
       simp_all add: imported_task_def call_made_def no_task_def)
qed

end
