(* ===== verification/Json_Store.thy ===== *)
theory Json_Store
  imports Files
begin

text \<open>
  The file store below the local calendar and address book (\<open>src/main/pim/atomic-json-store.ts\<close>): three
  candidate files, the selection of the newest valid one, the commit by renames, and the operations
  \<open>read\<close> and \<open>mutate\<close> as programs of file system calls. Operations of one store run one after the other
  (\<open>#queue\<close>) under the lock; the lock directory is not on the modelled disk, the check of its ownership is a
  call that may fail. JSON and the payload schema are the argument \<open>store_world\<close>.
\<close>

section \<open>Envelopes and candidates\<close>

record 'a envelope =
  se_generation :: nat
  se_payload :: 'a

record 'a store_world =
  jw_text :: "'a envelope \<Rightarrow> string"
  jw_read :: "string \<Rightarrow> 'a envelope option"
  jw_payload :: "'a \<Rightarrow> string"
  jw_schema :: "'a \<Rightarrow> 'a option"
  jw_defaults :: 'a

record 'a candidate =
  ca_path :: string
  ca_priority :: nat
  ca_exists :: bool
  ca_envelope :: "'a envelope option"

datatype 'e store_error =
  LockLost
| NoValidCopy "string list"
| StateDisappeared
| MovedBackwards nat nat
| ConflictingPayloads nat
| ChangedMeanwhile
| NotAtomic
| SchemaRefused
| MutatorFailed 'e

record 'a store_cache =
  sc_data :: "'a option"
  sc_generation :: nat

definition next_name :: "string \<Rightarrow> string" where
  "next_name file = file @ ''.next''"

definition backup_name :: "string \<Rightarrow> string" where
  "backup_name file = file @ ''.backup''"

section \<open>Calls\<close>

definition assertLockOwnership :: "('e store_error, unit) io" where
  "assertLockOwnership = io_catch fs_other (\<lambda>_. io_throw (Thrown LockLost))"

definition directory_errors :: "string list" where
  "directory_errors = [''EACCES'', ''EBADF'', ''EINVAL'', ''EISDIR'', ''ENOTSUP'', ''EPERM'']"

definition sync_directory :: "('e store_error, unit) io" where
  "sync_directory =
     io_catch (io_bind fs_other (\<lambda>_. io_closing fs_other))
       (\<lambda>e. case error_code e of
              Some c \<Rightarrow> if c \<in> set directory_errors then io_return () else io_throw e
            | None \<Rightarrow> io_throw e)"

section \<open>Reading\<close>

definition read_candidate :: "'a store_world \<Rightarrow> string \<Rightarrow> nat \<Rightarrow> ('e store_error, 'a candidate) io" where
  "read_candidate w a priority =
     io_catch
       (io_bind (fs_read a) (\<lambda>t. io_return \<lparr>ca_path = a, ca_priority = priority, ca_exists = True, ca_envelope = jw_read w t\<rparr>))
       (\<lambda>e. io_return \<lparr>ca_path = a, ca_priority = priority, ca_exists = (error_code e \<noteq> Some ''ENOENT''), ca_envelope = None\<rparr>)"

definition readCandidates :: "'a store_world \<Rightarrow> string \<Rightarrow> ('e store_error, 'a candidate list) io" where
  "readCandidates w file =
     io_bind (read_candidate w file 3) (\<lambda>c.
     io_bind (read_candidate w (next_name file) 2) (\<lambda>n.
     io_bind (read_candidate w (backup_name file) 1) (\<lambda>b. io_return [c, n, b])))"

text \<open>The first of the valid candidates in descending order of generation and priority.\<close>

definition ranks_above :: "'a candidate \<Rightarrow> 'a candidate \<Rightarrow> bool" where
  "ranks_above x y =
     (case (ca_envelope x, ca_envelope y) of
        (Some e, Some f) \<Rightarrow> se_generation f < se_generation e
           \<or> (se_generation e = se_generation f \<and> ca_priority y < ca_priority x)
      | _ \<Rightarrow> False)"

definition selectCandidate :: "'a candidate list \<Rightarrow> 'a candidate option" where
  "selectCandidate cs =
     (case filter (\<lambda>c. ca_envelope c \<noteq> None) cs of
        [] \<Rightarrow> None
      | c # rest \<Rightarrow> Some (fold (\<lambda>x best. if ranks_above x best then x else best) rest c))"

definition same_payload :: "'a store_world \<Rightarrow> 'a \<Rightarrow> 'a \<Rightarrow> bool" where
  "same_payload w p q = (jw_payload w p = jw_payload w q)"

definition assertCompatibleWithCache :: "'a store_world \<Rightarrow> 'a store_cache \<Rightarrow> 'a envelope \<Rightarrow> ('e store_error, unit) result" where
  "assertCompatibleWithCache w c observed =
     (case sc_data c of None \<Rightarrow> Inr ()
      | Some p \<Rightarrow>
          if se_generation observed < sc_generation c then Inl (MovedBackwards (sc_generation c) (se_generation observed))
          else if se_generation observed = sc_generation c \<and> \<not> same_payload w (se_payload observed) p
               then Inl (ConflictingPayloads (se_generation observed))
          else Inr ())"

definition assertDiskMatches :: "'a store_world \<Rightarrow> string \<Rightarrow> 'a envelope \<Rightarrow> ('e store_error, unit) io" where
  "assertDiskMatches w file expected =
     io_bind (readCandidates w file) (\<lambda>cs.
       case selectCandidate cs of
         None \<Rightarrow> io_throw (Thrown ChangedMeanwhile)
       | Some selected \<Rightarrow>
           (let e = the (ca_envelope selected) in
            if se_generation e = se_generation expected \<and> same_payload w (se_payload e) (se_payload expected)
            then io_return () else io_throw (Thrown ChangedMeanwhile)))"

section \<open>Committing\<close>

definition write_next :: "'a store_world \<Rightarrow> string \<Rightarrow> 'a envelope \<Rightarrow> ('e store_error, unit) io" where
  "write_next w file e =
     io_bind (fs_truncate (next_name file)) (\<lambda>_.
     io_bind (io_closing (io_bind (fs_write (next_name file) (jw_text w e @ [CHR 10])) (\<lambda>_. fs_other))) (\<lambda>_.
       sync_directory))"

text \<open>The rename into place; when it fails the backup is moved back if the file is gone.\<close>

definition undo_rename :: "string \<Rightarrow> ('e store_error, unit) io" where
  "undo_rename file =
     io_bind (file_exists file) (\<lambda>there.
     io_bind (if there then io_return False else file_exists (backup_name file)) (\<lambda>backed.
     io_bind (if backed then io_ignore (fs_rename (backup_name file) file) else io_return ()) (\<lambda>_.
       io_throw (Thrown NotAtomic))))"

definition commit :: "'a store_world \<Rightarrow> string \<Rightarrow> 'a envelope \<Rightarrow> ('e store_error, unit) io" where
  "commit w file e =
     io_bind assertLockOwnership (\<lambda>_.
     io_bind fs_other (\<lambda>_.
     io_bind (write_next w file e) (\<lambda>_.
     io_bind assertLockOwnership (\<lambda>_.
     io_bind (fs_remove (backup_name file)) (\<lambda>_.
     io_bind (file_exists file) (\<lambda>hadCurrent.
     io_bind (if hadCurrent then fs_rename file (backup_name file) else io_return ()) (\<lambda>_.
     io_bind (io_catch (io_bind (fs_rename (next_name file) file) (\<lambda>_. sync_directory)) (\<lambda>_. undo_rename file)) (\<lambda>_.
       io_ignore (io_bind (fs_remove (backup_name file)) (\<lambda>_. sync_directory))))))))))"

section \<open>The operations\<close>

definition loadLatest :: "'a store_world \<Rightarrow> string \<Rightarrow> 'a store_cache \<Rightarrow> ('e store_error, 'a store_cache) io" where
  "loadLatest w file c =
     io_bind assertLockOwnership (\<lambda>_.
     io_bind fs_other (\<lambda>_.
     io_bind (readCandidates w file) (\<lambda>cs.
       case selectCandidate cs of
         None \<Rightarrow>
           (let present = filter ca_exists cs in
            if present \<noteq> [] then io_throw (Thrown (NoValidCopy (map ca_path present)))
            else if sc_data c \<noteq> None then io_throw (Thrown StateDisappeared)
            else case jw_schema w (jw_defaults w) of None \<Rightarrow> io_throw (Thrown SchemaRefused)
                 | Some p \<Rightarrow> io_bind (commit w file \<lparr>se_generation = 0, se_payload = p\<rparr>) (\<lambda>_.
                     io_return \<lparr>sc_data = Some p, sc_generation = 0\<rparr>))
       | Some selected \<Rightarrow>
           (let e = the (ca_envelope selected) in
            io_bind (io_lift (assertCompatibleWithCache w c e)) (\<lambda>_.
            io_bind (if ca_path selected \<noteq> file then commit w file e
                     else io_both (fs_remove (next_name file)) (fs_remove (backup_name file))) (\<lambda>_.
              io_return \<lparr>sc_data = Some (se_payload e), sc_generation = se_generation e\<rparr>))))))"

text \<open>Both operations give their result and the cache they leave.\<close>

definition store_read :: "'a store_world \<Rightarrow> string \<Rightarrow> 'a store_cache \<Rightarrow>
   ('e store_error, ('e store_error io_error, 'a) result \<times> 'a store_cache) io" where
  "store_read w file c =
     io_bind (io_attempt (loadLatest w file c)) (\<lambda>r. io_return (case r of
       Inl e \<Rightarrow> (Inl e, c)
     | Inr c1 \<Rightarrow> (Inr (the (sc_data c1)), c1)))"

definition commit_decision ::
  "'a store_world \<Rightarrow> string \<Rightarrow> 'a store_cache \<Rightarrow> ('e, bool \<times> 'a \<times> 'r) result \<Rightarrow> ('e store_error, 'r \<times> 'a store_cache) io" where
  "commit_decision w file c decision =
     (case decision of Inl e \<Rightarrow> io_throw (Thrown (MutatorFailed e))
      | Inr (changed, draft, x) \<Rightarrow>
          if \<not> changed then io_return (x, c)
          else case jw_schema w draft of None \<Rightarrow> io_throw (Thrown SchemaRefused)
          | Some validated \<Rightarrow>
              (let e = \<lparr>se_generation = sc_generation c + 1, se_payload = validated\<rparr> in
               io_bind (assertDiskMatches w file \<lparr>se_generation = sc_generation c, se_payload = the (sc_data c)\<rparr>) (\<lambda>_.
               io_bind (commit w file e) (\<lambda>_.
                 io_return (x, \<lparr>sc_data = Some validated, sc_generation = se_generation e\<rparr>)))))"

definition store_mutate ::
  "'a store_world \<Rightarrow> string \<Rightarrow> 'a store_cache \<Rightarrow> ('a \<Rightarrow> ('e, bool \<times> 'a \<times> 'r) result) \<Rightarrow>
   ('e store_error, ('e store_error io_error, 'r) result \<times> 'a store_cache) io" where
  "store_mutate w file c f =
     io_bind (io_attempt (loadLatest w file c)) (\<lambda>r. case r of
       Inl e \<Rightarrow> io_return (Inl e, c)
     | Inr c1 \<Rightarrow> io_bind (io_attempt (commit_decision w file c1 (f (the (sc_data c1))))) (\<lambda>q. io_return (case q of
         Inl e \<Rightarrow> (Inl e, c1)
       | Inr (x, c2) \<Rightarrow> (Inr x, c2))))"

end
