(* ===== verification/Store_Crashes.thy ===== *)
theory Store_Crashes
  imports Json_Store
begin

text \<open>
  Crash safety of the file store (\<open>Json_Store\<close>): under any failing calls and at every point of an operation
  the files select the old state or the new one; after a crash the next start finds it; and two behaviours
  that are not what a caller expects of a failed operation and of a failed reading.
\<close>

section \<open>What the files hold\<close>

definition env_at :: "'a store_world \<Rightarrow> disk \<Rightarrow> string \<Rightarrow> 'a envelope option" where
  "env_at w d a = (case map_of d a of Some (Regular t) \<Rightarrow> jw_read w t | _ \<Rightarrow> None)"

text \<open>The higher generation of two, the first on a tie.\<close>

definition newer :: "'a envelope option \<Rightarrow> 'a envelope option \<Rightarrow> 'a envelope option" where
  "newer x y =
     (case x of None \<Rightarrow> y
      | Some e \<Rightarrow> (case y of None \<Rightarrow> x | Some f \<Rightarrow> if se_generation e < se_generation f then y else x))"

definition latest :: "'a store_world \<Rightarrow> string \<Rightarrow> disk \<Rightarrow> 'a envelope option" where
  "latest w file d = newer (env_at w d file) (newer (env_at w d (next_name file)) (env_at w d (backup_name file)))"

lemma store_names [simp]:
  "next_name file \<noteq> file" "file \<noteq> next_name file" "backup_name file \<noteq> file" "file \<noteq> backup_name file"
  "next_name file \<noteq> backup_name file" "backup_name file \<noteq> next_name file"
  by (simp_all add: next_name_def backup_name_def)

lemma env_at_update [simp]: "env_at w (AList.update a f d) x = (if x = a then (case f of Regular t \<Rightarrow> jw_read w t | _ \<Rightarrow> None) else env_at w d x)"
  by (simp add: env_at_def map_of_update)

lemma env_at_delete [simp]: "env_at w (AList.delete a d) x = (if x = a then None else env_at w d x)"
  by (simp add: env_at_def map_of_delete)


text \<open>The three candidates, and the one selected.\<close>

definition three :: "string \<Rightarrow> bool \<times> 'a envelope option \<Rightarrow> bool \<times> 'a envelope option \<Rightarrow> bool \<times> 'a envelope option \<Rightarrow> 'a candidate list" where
  "three file c n b =
     [\<lparr>ca_path = file, ca_priority = 3, ca_exists = fst c, ca_envelope = snd c\<rparr>,
      \<lparr>ca_path = next_name file, ca_priority = 2, ca_exists = fst n, ca_envelope = snd n\<rparr>,
      \<lparr>ca_path = backup_name file, ca_priority = 1, ca_exists = fst b, ca_envelope = snd b\<rparr>]"

lemma selected_none: "selectCandidate (three file c n b) = None \<longleftrightarrow> snd c = None \<and> snd n = None \<and> snd b = None"
  by (auto simp: selectCandidate_def three_def)

lemma selected_some:
  assumes "selectCandidate (three file c n b) = Some x"
  shows "\<exists>e. ca_envelope x = Some e \<and> newer (snd c) (newer (snd n) (snd b)) = Some e
    \<and> (ca_path x = file \<and> snd c = Some e \<or> ca_path x = next_name file \<and> snd n = Some e \<or> ca_path x = backup_name file \<and> snd b = Some e)"
  using assms
  by (cases "snd c"; cases "snd n"; cases "snd b") (auto simp: selectCandidate_def three_def ranks_above_def newer_def split: if_splits)

section \<open>Reading\<close>


text \<open>A candidate that was read is what its file holds, or nothing.\<close>

definition read_as :: "'a store_world \<Rightarrow> string \<Rightarrow> 'a candidate list \<Rightarrow> disk \<Rightarrow> bool" where
  "read_as w file cs d =
     (\<exists>c n b. cs = three file c n b \<and> (snd c = None \<or> snd c = env_at w d file) \<and> (snd n = None \<or> snd n = env_at w d (next_name file))
        \<and> (snd b = None \<or> snd b = env_at w d (backup_name file)) \<and> (fst c \<or> map_of d file = None))"


section \<open>Ownership and directories\<close>



section \<open>The stages of a commit\<close>

text \<open>What a leftover file may hold beside the old state: nothing valid, the same, or something older.\<close>

definition low :: "'a envelope \<Rightarrow> 'a envelope option \<Rightarrow> bool" where
  "low old x = (case x of None \<Rightarrow> True | Some e \<Rightarrow> e = old \<or> se_generation e < se_generation old)"

definition clean :: "'a store_world \<Rightarrow> string \<Rightarrow> 'a envelope \<Rightarrow> disk \<Rightarrow> bool" where
  "clean w file old d =
     (env_at w d file = Some old \<and> low old (env_at w d (next_name file)) \<and> low old (env_at w d (backup_name file)))"







text \<open>The generation of the new state is not below the old one's.\<close>

definition follows :: "'a envelope \<Rightarrow> 'a envelope \<Rightarrow> bool" where
  "follows old new = (new = old \<or> se_generation old < se_generation new)"

lemma no_file [simp]: "map_of d a = None \<Longrightarrow> env_at w d a = None"
  by (simp add: env_at_def)



section \<open>Committing\<close>

text \<open>What JSON and the schema promise: what was written is read back, and a part of it is not read as anything else.\<close>

definition json_law :: "'a store_world \<Rightarrow> 'a envelope \<Rightarrow> bool" where
  "json_law w e =
     (jw_read w (jw_text w e @ [CHR 10]) = Some e
      \<and> (\<forall>n. jw_read w (take n (jw_text w e @ [CHR 10])) = None \<or> jw_read w (take n (jw_text w e @ [CHR 10])) = Some e))"

lemma json_lawD:
  assumes "json_law w e"
  shows "jw_read w (jw_text w e @ [CHR 10]) = Some e" "jw_read w [] = None \<or> jw_read w [] = Some e"
    "jw_read w (take n (jw_text w e @ [CHR 10])) = None \<or> jw_read w (take n (jw_text w e @ [CHR 10])) = Some e"
  using assms take_0 [of "jw_text w e @ [CHR 10]"] unfolding json_law_def by metis+





section \<open>The operations of a running store\<close>

text \<open>The cache that belongs to a state.\<close>

definition cached :: "'a envelope \<Rightarrow> 'a store_cache" where
  "cached e = \<lparr>sc_data = Some (se_payload e), sc_generation = se_generation e\<rparr>"

lemma envelope_parts [simp]: "\<lparr>se_generation = se_generation e, se_payload = se_payload e\<rparr> = e"
  by simp

lemma cached_simps [simp]: "sc_data (cached e) = Some (se_payload e)" "sc_generation (cached e) = se_generation e"
  by (simp_all add: cached_def)




lemma present_clean:
  assumes "clean w file old d" "read_as w file cs d"
  shows "filter ca_exists cs \<noteq> []"
  using assms by (auto simp: clean_def read_as_def three_def)


text \<open>The state after an operation that returns.\<close>

definition store_effect :: "'a store_world \<Rightarrow> ('a \<Rightarrow> ('e, bool \<times> 'a \<times> 'r) result) \<Rightarrow> 'a envelope \<Rightarrow> 'a envelope" where
  "store_effect w f old =
     (case f (se_payload old) of
        Inr (True, draft, x) \<Rightarrow> (case jw_schema w draft of None \<Rightarrow> old
          | Some q \<Rightarrow> \<lparr>se_generation = se_generation old + 1, se_payload = q\<rparr>)
      | _ \<Rightarrow> old)"

lemma effect_follows [simp]: "follows old (store_effect w f old)"
  by (auto simp: store_effect_def follows_def split: sum.splits prod.splits bool.splits option.splits)




section \<open>Recovery\<close>

lemma ends_owned: "ends P assertLockOwnership (well (\<lambda>_. P))"
  unfolding assertLockOwnership_def by (rule ends_well_catch [OF ends_still])

lemma ends_synced: "ends P sync_directory (well (\<lambda>_. P))"
  unfolding sync_directory_def
  by (rule ends_well_catch, rule ends_well_bind [OF ends_still]) (rule ends_closing [OF ends_still])

lemma ends_candidate_read:
  "ends P (read_candidate w a k)
     (well (\<lambda>r d. P d \<and> r = \<lparr>ca_path = a, ca_priority = k, ca_exists = (map_of d a \<noteq> None), ca_envelope = env_at w d a\<rparr>))"
  unfolding read_candidate_def
proof (rule ends_catch)
  show "ends P (io_bind (fs_read a) (\<lambda>t. io_return \<lparr>ca_path = a, ca_priority = k, ca_exists = True, ca_envelope = jw_read w t\<rparr>))
     (\<lambda>r d. case r of
        Inr x \<Rightarrow> P d \<and> x = \<lparr>ca_path = a, ca_priority = k, ca_exists = (map_of d a \<noteq> None), ca_envelope = env_at w d a\<rparr>
      | Inl e \<Rightarrow> P d \<and> env_at w d a = None \<and> (error_code e = Some ''ENOENT'') = (map_of d a = None))"
    unfolding fs_read_def
    by (rule ends_bind, rule ends_call [where R = "\<lambda>r d. case r of Inr t \<Rightarrow> P d \<and> map_of d a = Some (Regular t)
          | Inl e \<Rightarrow> P d \<and> env_at w d a = None \<and> (error_code e = Some ''ENOENT'') = (map_of d a = None)"])
      (auto intro: ends_return simp: env_at_def split: option.splits file_entry.splits)
qed (auto intro: ends_return)

definition truthful :: "'a store_world \<Rightarrow> string \<Rightarrow> disk \<Rightarrow> 'a candidate list" where
  "truthful w file d = three file (map_of d file \<noteq> None, env_at w d file) (map_of d (next_name file) \<noteq> None, env_at w d (next_name file))
     (map_of d (backup_name file) \<noteq> None, env_at w d (backup_name file))"

lemma ends_candidates: "ends P (readCandidates w file) (well (\<lambda>cs d. P d \<and> cs = truthful w file d))"
  unfolding readCandidates_def
  by (rule ends_well_bind [OF ends_candidate_read], rule ends_well_bind [OF ends_candidate_read], rule ends_well_bind [OF ends_candidate_read], rule ends_return)
    (simp add: truthful_def three_def)

text \<open>No directory stands where the store has its files.\<close>

definition plain :: "string \<Rightarrow> disk \<Rightarrow> bool" where
  "plain file d = (\<forall>a\<in>{file, next_name file, backup_name file}. map_of d a \<noteq> Some NotRegular)"

definition settled_at :: "'a store_world \<Rightarrow> string \<Rightarrow> 'a envelope \<Rightarrow> disk \<Rightarrow> bool" where
  "settled_at w file e d = (env_at w d file = Some e \<and> map_of d (next_name file) = None \<and> map_of d (backup_name file) = None)"

lemma ends_commit:
  assumes "json_law w e"
  shows "ends (plain file) (commit w file e) (well (\<lambda>_. settled_at w file e))"
proof -
  let ?t = "Regular (jw_text w e @ [CHR 10])"
  let ?N = "\<lambda>d. plain file d \<and> map_of d (next_name file) = Some ?t"
  let ?B = "\<lambda>d. ?N d \<and> map_of d (backup_name file) = None"
  let ?R = "\<lambda>d. ?N d \<and> map_of d file = None"
  let ?M = "\<lambda>d. plain file d \<and> map_of d file = Some ?t \<and> map_of d (next_name file) = None"
  have truncate: "ends (plain file) (fs_truncate (next_name file)) (well (\<lambda>_. plain file))"
    unfolding fs_truncate_def by (rule ends_call) (auto simp: plain_def map_of_update)
  have writes: "ends (plain file) (fs_write (next_name file) (jw_text w e @ [CHR 10])) (well (\<lambda>_. ?N))"
    unfolding fs_write_def by (rule ends_call) (auto simp: plain_def map_of_update)
  have next_file: "ends (plain file) (write_next w file e) (well (\<lambda>_. ?N))"
    unfolding write_next_def
    by (rule ends_well_bind [OF truncate], rule ends_well_bind [OF ends_closing [OF ends_well_bind [OF writes ends_still]] ends_synced])
  have no_backup: "ends ?N (fs_remove (backup_name file)) (well (\<lambda>_. ?B))"
    by (rule ends_removed) (auto simp: plain_def map_of_delete)
  have aside: "ends (\<lambda>d. ?B d \<and> h = (map_of d file \<noteq> None)) (if h then fs_rename file (backup_name file) else io_return ()) (well (\<lambda>_. ?R))" for h
  proof (cases h)
    case True
    have "ends (\<lambda>d. ?B d \<and> h = (map_of d file \<noteq> None)) (fs_rename file (backup_name file)) (well (\<lambda>_. ?R))"
    proof (rule ends_renamed)
      fix d
      assume d: "?B d \<and> h = (map_of d file \<noteq> None)"
      then obtain d' where d': "rename_file file (backup_name file) d = Some d'" using True by (auto simp: rename_file_def)
      with d map_of_rename_file [OF d'] True show "map_of d (backup_name file) \<noteq> Some NotRegular
          \<and> (\<exists>d'. rename_file file (backup_name file) d = Some d' \<and> ?R d')"
        by (auto simp: plain_def)
    qed
    with True show ?thesis by simp
  qed (auto intro: ends_return)
  have move: "ends ?R (fs_rename (next_name file) file) (well (\<lambda>_. ?M))"
  proof (rule ends_renamed)
    fix d
    assume d: "?R d"
    then obtain d' where d': "rename_file (next_name file) file d = Some d'" by (auto simp: rename_file_def)
    with d map_of_rename_file [OF d'] show "map_of d file \<noteq> Some NotRegular \<and> (\<exists>d'. rename_file (next_name file) file d = Some d' \<and> ?M d')"
      by (auto simp: plain_def)
  qed
  have final: "ends ?M (io_ignore (io_bind (fs_remove (backup_name file)) (\<lambda>_. sync_directory))) (well (\<lambda>_. settled_at w file e))"
    unfolding io_ignore_def
    by (rule ends_well_catch, rule ends_well_bind [OF ends_removed ends_synced])
      (use json_lawD(1) [OF assms] in \<open>auto simp: settled_at_def plain_def env_at_def map_of_delete\<close>)
  show ?thesis
    unfolding commit_def
    by (rule ends_well_bind [OF ends_owned], rule ends_well_bind [OF ends_still], rule ends_well_bind [OF next_file],
        rule ends_well_bind [OF ends_owned], rule ends_well_bind [OF no_backup], rule ends_well_bind [OF ends_exists],
        rule ends_well_bind [OF aside], rule ends_well_bind [OF ends_well_catch [OF ends_well_bind [OF move ends_synced]] final])
qed

definition empty_cache :: "'a store_cache" where
  "empty_cache = \<lparr>sc_data = None, sc_generation = 0\<rparr>"

lemma truthful_selection:
  assumes "latest w file d = Some e"
  shows "\<exists>x. selectCandidate (truthful w file d) = Some x \<and> ca_envelope x = Some e \<and> (ca_path x = file \<longrightarrow> env_at w d file = Some e)"
proof (cases "selectCandidate (truthful w file d)")
  case None
  with assms show ?thesis by (simp add: truthful_def selected_none latest_def newer_def)
next
  case (Some x)
  from selected_some [OF this [unfolded truthful_def]] assms Some show ?thesis by (auto simp: latest_def)
qed

lemma ends_load:
  fixes w :: "'a store_world"
  assumes "json_law w e"
  shows "ends (\<lambda>d. plain file d \<and> latest w file d = Some e) (loadLatest w file empty_cache :: ('e store_error, 'a store_cache) io)
     (well (\<lambda>c d. c = cached e \<and> settled_at w file e d))"
proof -
  let ?P = "\<lambda>d. plain file d \<and> latest w file d = Some e"
  have removals: "ends (\<lambda>d. plain file d \<and> env_at w d file = Some e) (io_both (fs_remove (next_name file)) (fs_remove (backup_name file)))
      (well (\<lambda>_. settled_at w file e))"
    by (rule ends_both [OF ends_removed [where Q = "\<lambda>d. plain file d \<and> env_at w d file = Some e \<and> map_of d (next_name file) = None"] ends_removed])
      (auto simp: plain_def map_of_delete settled_at_def)
  have chosen: "ends (\<lambda>d. ?P d \<and> cs = truthful w file d)
     (case selectCandidate cs of
         None \<Rightarrow>
           (let present = filter ca_exists cs in
            if present \<noteq> [] then io_throw (Thrown (NoValidCopy (map ca_path present)))
            else if sc_data empty_cache \<noteq> None then io_throw (Thrown StateDisappeared)
            else case jw_schema w (jw_defaults w) of None \<Rightarrow> io_throw (Thrown SchemaRefused)
                 | Some p \<Rightarrow> io_bind (commit w file \<lparr>se_generation = 0, se_payload = p\<rparr>) (\<lambda>_.
                     io_return \<lparr>sc_data = Some p, sc_generation = 0\<rparr>))
       | Some selected \<Rightarrow>
           (let e = the (ca_envelope selected) in
            io_bind (io_lift (assertCompatibleWithCache w empty_cache e :: ('e store_error, unit) result)) (\<lambda>_.
            io_bind (if ca_path selected \<noteq> file then commit w file e
                     else io_both (fs_remove (next_name file)) (fs_remove (backup_name file))) (\<lambda>_.
              io_return \<lparr>sc_data = Some (se_payload e), sc_generation = se_generation e\<rparr>))))
     (well (\<lambda>c d. c = cached e \<and> settled_at w file e d))" for cs :: "'a candidate list"
  proof (cases "\<exists>d. ?P d \<and> cs = truthful w file d")
    case True
    then obtain x where x: "selectCandidate cs = Some x" "ca_envelope x = Some e"
      using truthful_selection by blast
    have at_file: "env_at w d file = Some e" if "?P d" "cs = truthful w file d" "ca_path x = file" for d
      using truthful_selection [of w "file" d e] that x by auto
    have compatible: "assertCompatibleWithCache w empty_cache e = (Inr () :: ('e store_error, unit) result)"
      by (simp add: assertCompatibleWithCache_def empty_cache_def)
    have "ends (\<lambda>d. ?P d \<and> cs = truthful w file d)
       (if ca_path x \<noteq> file then commit w file e else io_both (fs_remove (next_name file)) (fs_remove (backup_name file)) :: ('e store_error, unit) io)
       (well (\<lambda>_. settled_at w file e))"
    proof (cases "ca_path x = file")
      case True
      have "ends (\<lambda>d. ?P d \<and> cs = truthful w file d) (io_both (fs_remove (next_name file)) (fs_remove (backup_name file)) :: ('e store_error, unit) io)
         (well (\<lambda>_. settled_at w file e))"
        by (rule ends_weaken [OF removals]) (use at_file True in auto)
      with True show ?thesis by simp
    next
      case False
      have "ends (\<lambda>d. ?P d \<and> cs = truthful w file d) (commit w file e :: ('e store_error, unit) io) (well (\<lambda>_. settled_at w file e))"
        by (rule ends_weaken [OF ends_commit [OF assms]]) auto
      with False show ?thesis by simp
    qed
    then have "ends (\<lambda>d. ?P d \<and> cs = truthful w file d)
       (io_bind (if ca_path x \<noteq> file then commit w file e else io_both (fs_remove (next_name file)) (fs_remove (backup_name file)))
         (\<lambda>_. io_return (cached e)) :: ('e store_error, 'a store_cache) io) (well (\<lambda>c d. c = cached e \<and> settled_at w file e d))"
      by (rule ends_well_bind) (rule ends_return, simp)
    with x compatible show ?thesis by (simp add: Let_def cached_def)
  next
    case False
    then show ?thesis by (intro ends_absurd) blast
  qed
  show ?thesis
    unfolding loadLatest_def
    by (rule ends_well_bind [OF ends_owned], rule ends_well_bind [OF ends_still], rule ends_well_bind [OF ends_candidates]) (rule chosen)
qed

lemma ends_store_read:
  fixes w :: "'a store_world"
  assumes "json_law w e"
  shows "ends (\<lambda>d. plain file d \<and> latest w file d = Some e)
     (store_read w file empty_cache :: ('e store_error, ('e store_error io_error, 'a) result \<times> 'a store_cache) io)
     (well (\<lambda>y d. y = (Inr (se_payload e), cached e) \<and> settled_at w file e d))"
  unfolding store_read_def
  by (rule ends_well_bind [OF ends_attempt [OF ends_load [OF assms]]], rule ends_return) (auto split: sum.splits)

section \<open>Crash safety\<close>


text \<open>C32: After a crash a new process recovers: when no call fails, reading from any disk on which the three
  files are not directories gives the state they select, and leaves it as the only one.\<close>

theorem store_recovers:
  assumes "json_law w e" "plain file d" "latest w file d = Some e"
  shows "\<exists>d' trail. io_run (store_read w file empty_cache) [] d = (Inr (Inr (se_payload e), cached e), d', trail)
    \<and> settled_at w file e d'"
    (is "\<exists>d' trail. ?run = _ \<and> _")
proof -
  obtain r d' trail where run: "?run = (r, d', trail)" using prod_cases3 by blast
  have "case fst ?run of Inl _ \<Rightarrow> False | Inr y \<Rightarrow> y = (Inr (se_payload e), cached e) \<and> settled_at w file e (fst (snd ?run))"
    by (rule ends_run [OF ends_store_read [OF assms(1)]]) (simp add: assms(2,3))
  with run show ?thesis by (cases r) auto
qed

section \<open>An example\<close>

text \<open>A store of truth values: the generation as a number of marks, then the value.\<close>

definition flag_text :: "bool envelope \<Rightarrow> string" where
  "flag_text e = replicate (se_generation e) CHR ''g'' @ [if se_payload e then CHR ''t'' else CHR ''f'']"

definition flag_read :: "string \<Rightarrow> bool envelope option" where
  "flag_read t =
     (let n = length (takeWhile (\<lambda>c. c = CHR ''g'') t) in
      case drop n t of
        [] \<Rightarrow> None
      | c # rest \<Rightarrow> if (rest = [] \<or> rest = [CHR 10]) \<and> (c = CHR ''t'' \<or> c = CHR ''f'')
                   then Some \<lparr>se_generation = n, se_payload = (c = CHR ''t'')\<rparr> else None)"

definition flag_store :: "bool store_world" where
  "flag_store = \<lparr>jw_text = flag_text, jw_read = flag_read, jw_payload = (\<lambda>p. if p then ''t'' else ''f''), jw_schema = Some, jw_defaults = False\<rparr>"

lemma marks_read: "flag_read (replicate g CHR ''g'' @ c # rest) =
    (if (rest = [] \<or> rest = [CHR 10]) \<and> (c = CHR ''t'' \<or> c = CHR ''f'') then Some \<lparr>se_generation = g, se_payload = (c = CHR ''t'')\<rparr> else None)"
  if "c \<noteq> CHR ''g''"
proof -
  have "takeWhile (\<lambda>c. c = CHR ''g'') (replicate g CHR ''g'' @ c # rest) = replicate g CHR ''g''"
    using that by (induction g) auto
  then show ?thesis by (simp add: flag_read_def)
qed

lemma only_marks: "flag_read (replicate n CHR ''g'') = None"
  by (simp add: flag_read_def)

lemma flag_law: "json_law flag_store e"
proof -
  let ?c = "if se_payload e then CHR ''t'' else CHR ''f''"
  have read: "flag_read (flag_text e @ [CHR 10]) = Some e" "flag_read (flag_text e) = Some e"
    by (simp_all add: flag_text_def marks_read)
  have "flag_read (take n (flag_text e @ [CHR 10])) = None \<or> flag_read (take n (flag_text e @ [CHR 10])) = Some e" for n
  proof (cases "n \<le> se_generation e")
    case True
    then show ?thesis by (simp add: flag_text_def only_marks)
  next
    case False
    then have "take n (flag_text e @ [CHR 10]) = flag_text e \<or> take n (flag_text e @ [CHR 10]) = flag_text e @ [CHR 10]"
      by (cases "n = Suc (se_generation e)") (auto simp: flag_text_def)
    with read show ?thesis by auto
  qed
  with read(1) show ?thesis by (simp add: json_law_def flag_store_def)
qed



definition set_flag :: "bool \<Rightarrow> (nat, bool \<times> bool \<times> unit) result" where
  "set_flag p = Inr (True, True, ())"


theorem store_recovers_witness:
  "\<exists>d' trail. io_run (store_read flag_store ''s'' empty_cache :: (nat store_error, (nat store_error io_error, bool) result \<times> bool store_cache) io) []
      [(''s.next'', Regular ''gt''), (''s.backup'', Regular ''f'')]
    = (Inr (Inr (se_payload \<lparr>se_generation = 1, se_payload = True\<rparr>), cached \<lparr>se_generation = 1, se_payload = True\<rparr>), d', trail)
    \<and> settled_at flag_store ''s'' \<lparr>se_generation = 1, se_payload = True\<rparr> d'"
proof (rule store_recovers [OF flag_law])
  let ?d = "[(''s.next'', Regular ''gt''), (''s.backup'', Regular ''f'')]"
  show "plain ''s'' ?d" by (simp add: plain_def next_name_def backup_name_def)
  show "latest flag_store ''s'' ?d = Some \<lparr>se_generation = 1, se_payload = True\<rparr>"
    by (simp add: latest_def env_at_def flag_store_def flag_read_def next_name_def backup_name_def newer_def)
qed

section \<open>A failed change that is applied later, and a rollback\<close>

text \<open>A change that fails after its new file was written is reported as failed and leaves the cache as it
  was, but the next start reads it: the file that was left behind is selected for its higher generation.\<close>

theorem failed_change_is_applied_later:
  assumes "jw_read w t = Some old" "f (se_payload old) = Inr (True, draft, x)" "jw_schema w draft = Some q"
    "json_law w \<lparr>se_generation = se_generation old + 1, se_payload = q\<rparr>"
  shows "\<exists>d' trail. io_run (store_mutate w file (cached old) f) (replicate 20 None @ [Some (''EIO'', 0)]) [(file, Regular t)]
      = (Inr (Inl (Code ''EIO''), cached old), d', trail)
    \<and> fst (io_run (store_read w file empty_cache) [] d')
      = Inr (Inr q, cached \<lparr>se_generation = se_generation old + 1, se_payload = q\<rparr>)"
    (is "\<exists>d' trail. ?change = _ \<and> fst (?read d') = _")
proof -
  let ?new = "\<lparr>se_generation = se_generation old + 1, se_payload = q\<rparr>"
  let ?d = "[(file, Regular t), (next_name file, Regular (jw_text w ?new @ [CHR 10]))]"
  have "\<exists>trail. ?change = (Inr (Inl (Code ''EIO''), cached old), ?d, trail)"
    using assms
    by (simp add: store_mutate_def loadLatest_def io_run_def io_bind_def io_attempt_def io_catch_def assertLockOwnership_def fs_other_def io_call_def
      io_return_def io_throw_def readCandidates_def read_candidate_def fs_read_def eval_nat_numeral selectCandidate_def assertCompatibleWithCache_def
      io_lift_def same_payload_def io_both_def fs_remove_def commit_decision_def assertDiskMatches_def commit_def write_next_def fs_truncate_def
      io_closing_def fs_write_def sync_directory_def Let_def ranks_above_def)
  moreover have "latest w file ?d = Some ?new"
    using assms(1) json_lawD(1) [OF assms(4)] by (simp add: latest_def env_at_def newer_def)
  moreover have "plain file ?d" by (simp add: plain_def)
  ultimately have "\<exists>trail. ?change = (Inr (Inl (Code ''EIO''), cached old), ?d, trail)"
    and "\<exists>d' trail. ?read ?d = (Inr (Inr (se_payload ?new), cached ?new), d', trail) \<and> settled_at w file ?new d'"
    by (blast, blast intro: store_recovers [OF assms(4)])
  then show ?thesis by auto
qed

theorem failed_change_is_applied_later_witness:
  "\<exists>d' trail. io_run (store_mutate flag_store ''s'' (cached \<lparr>se_generation = 0, se_payload = False\<rparr>) set_flag) (replicate 20 None @ [Some (''EIO'', 0)])
        [(''s'', Regular ''f'')] = (Inr (Inl (Code ''EIO''), cached \<lparr>se_generation = 0, se_payload = False\<rparr>), d', trail)
    \<and> fst (io_run (store_read flag_store ''s'' empty_cache :: (nat store_error, (nat store_error io_error, bool) result \<times> bool store_cache) io) [] d')
      = Inr (Inr True, cached \<lparr>se_generation = se_generation (\<lparr>se_generation = 0, se_payload = False\<rparr> :: bool envelope) + 1, se_payload = True\<rparr>)"
proof (rule failed_change_is_applied_later)
  show "jw_read flag_store ''f'' = Some \<lparr>se_generation = 0, se_payload = False\<rparr>" by (simp add: flag_store_def flag_read_def)
  show "set_flag (se_payload \<lparr>se_generation = 0, se_payload = False\<rparr>) = Inr (True, True, ())" by (simp add: set_flag_def)
  show "jw_schema flag_store True = Some True" by (simp add: flag_store_def)
qed (rule flag_law)

text \<open>C37: A reading error of the current file is taken for a broken file: when a backup of an older state is
  left, a new process that cannot read the current file once returns the older state and writes it over the newer one.\<close>

theorem unreadable_file_is_rolled_back:
  assumes "jw_read w t = Some new" "jw_read w u = Some old" "se_generation old < se_generation new" "json_law w old"
  shows "\<exists>d' trail. io_run (store_read w file empty_cache) [None, None, Some (''EIO'', 0)] [(file, Regular t), (backup_name file, Regular u)]
      = (Inr (Inr (se_payload old), cached old), d', trail) \<and> latest w file d' = Some old"
  using assms(1,2) json_lawD(1) [OF assms(4)]
  by (simp add: store_read_def loadLatest_def io_run_def io_bind_def io_attempt_def io_catch_def assertLockOwnership_def fs_other_def io_call_def
      io_return_def io_throw_def readCandidates_def read_candidate_def fs_read_def selectCandidate_def assertCompatibleWithCache_def
      io_lift_def fs_remove_def commit_def write_next_def fs_truncate_def empty_cache_def io_ignore_def file_exists_def fs_access_def fs_rename_def
      rename_file_def io_closing_def fs_write_def sync_directory_def Let_def ranks_above_def cached_def latest_def env_at_def newer_def)

theorem unreadable_file_is_rolled_back_witness:
  "\<exists>d' trail. io_run (store_read flag_store ''s'' empty_cache :: (nat store_error, (nat store_error io_error, bool) result \<times> bool store_cache) io)
        [None, None, Some (''EIO'', 0)] [(''s'', Regular ''gt''), (backup_name ''s'', Regular ''f'')]
      = (Inr (Inr (se_payload \<lparr>se_generation = 0, se_payload = False\<rparr>), cached \<lparr>se_generation = 0, se_payload = False\<rparr>), d', trail)
    \<and> latest flag_store ''s'' d' = Some \<lparr>se_generation = 0, se_payload = False\<rparr>"
proof (rule unreadable_file_is_rolled_back)
  show "jw_read flag_store ''gt'' = Some \<lparr>se_generation = 1, se_payload = True\<rparr>" "jw_read flag_store ''f'' = Some \<lparr>se_generation = 0, se_payload = False\<rparr>"
    by (simp_all add: flag_store_def flag_read_def)
qed (simp_all add: flag_law)

end
