(* ===== verification/Pim_Durability.thy ===== *)
theory Pim_Durability
  imports Pim_Tasks Store_Crashes
begin

text \<open>
  The address book on its file store: the change that an operation of \<open>Pim_Store\<close> decides, run as
  \<open>mutate\<close> of \<open>Json_Store\<close> on failing files.
\<close>









end
