(* ===== verification/Spec2Isabelle.thy ===== *)
theory Spec2Isabelle
  imports Attachment_Safety Cached_Mail Card_Round_Trip Vault_Operations Connection_Diagnostics Conversations External_Links Identities
    Junk_Classifier Mail_Organization Message_Filters Message_Tags OAuth_Flow Pim_Foundation Quick_Filter
    Regex_Guard Signatures Window_State Queue_Runs Draft_Keeping Pim_Durability
begin

text \<open>
  Material Email: a verification library for the logic of a Windows mail client.

  The program is an Electron application in TypeScript. The main process (\<open>src/main\<close>) owns the
  accounts, the cached mail, the drafts and the offline queue, identities, tags, filters, the local
  calendar and address book, the sign-in flows and the stored tokens; the modules of \<open>src/shared\<close> are
  pure and are used by the main process and by the renderer alike. The library follows these modules;
  every definition has the name of the function it models where Isabelle allows it.

  Theories and sources.

  \<^item> \<open>Prelude\<close>, \<open>Ordering\<close>, \<open>Text_Ops\<close>: JavaScript arrays, insertion-ordered objects, stable
    \<open>sort\<close> with a comparator, the \<open>String.prototype\<close> operations; errors as sums.
  \<^item> \<open>Mail_Data\<close>: the shared records of \<open>shared/contracts.ts\<close> and the runtime record
    \<open>js_runtime\<close>, the argument that stands for tables the repository does not contain
    (\<open>localeCompare\<close>, \<open>normalize\<close>, \<open>Date.parse\<close>, \<open>Number\<close>, \<open>RegExp\<close>).
  \<^item> \<open>Regex_Lang\<close>, \<open>Regex_Guard\<close>: fixed regular expressions of the sources as languages, and
    \<open>shared/regex.ts\<close>, the guard between user patterns and the engine.
  \<^item> \<open>Message_Tags\<close>, \<open>Message_Filters\<close>, \<open>Junk_Classifier\<close>, \<open>Quick_Filter\<close>: the modules of
    \<open>shared\<close> with those names.
  \<^item> \<open>Mail_Organization\<close>: \<open>main/mail-organization.ts\<close> on the persisted state and the tag schema
    of \<open>main/persisted-state.ts\<close>; its operations are an inductive step relation.
  \<^item> \<open>Union_Find\<close>, \<open>Conversations\<close>: \<open>shared/conversations.ts\<close>.
  \<^item> \<open>Cached_Mail\<close>: \<open>shared/unified-folders.ts\<close> and \<open>shared/cached-mail-index.ts\<close>.
  \<^item> \<open>Identities\<close>, \<open>Signatures\<close>: \<open>shared/identities.ts\<close>, \<open>main/identity-store.ts\<close>, and the
    identity repair of \<open>main/persisted-state.ts\<close>.
  \<^item> \<open>Attachment_Safety\<close>: \<open>shared/attachment-safety.ts\<close>, \<open>main/mime-safety.ts\<close>.
  \<^item> \<open>Connection_Diagnostics\<close>: \<open>shared/connection-diagnostics.ts\<close>; the URL parser is an argument.
  \<^item> \<open>External_Links\<close>: \<open>shared/external-link-safety.ts\<close> and the queue of
    \<open>main/external-link-review.ts\<close>.
  \<^item> \<open>User_Errors\<close>: \<open>main/send-outcome.ts\<close> and \<open>shared/user-visible-error.ts\<close>.
  \<^item> \<open>Mail_State\<close>, \<open>Mail_Queue\<close>, \<open>Queue_Runs\<close>, \<open>Draft_Keeping\<close>: the mail operations of
    \<open>main/app-service.ts\<close>. A definition of \<open>Mail_Queue\<close> is one stretch of a method between two
    \<open>await\<close>s; \<open>Queue_Runs\<close> interleaves them, with answers, failures, records that are lost, stops of
    the process, and everything else that changes the queues: removing an account or an identity,
    taking a message back, discarding a change, restoring a revision.
  \<^item> \<open>Encodings\<close>, \<open>State_Tables\<close>, \<open>OAuth_Flow\<close>: UTF-8 and base64url, the contract of a phase
    table as a locale, and \<open>main/oauth-authorization.ts\<close> with any interleaving of its calls,
    browser results and timers. The callback that takes the code may call the service again and may
    throw: it runs before the session is closed, as in the source.
  \<^item> \<open>Files\<close>: a disk, programs of file system calls with injected faults, their trail of disks, and
    the rules of a Hoare logic with an invariant of the trail.
  \<^item> \<open>Token_Vault\<close>, \<open>Vault_File\<close>, \<open>Vault_Operations\<close>: \<open>main/oauth-token-vault.ts\<close> on such files.
  \<^item> \<open>Json_Values\<close>, \<open>Window_State\<close>: JSON values and \<open>main/window-state.ts\<close>.
  \<^item> \<open>Json_Store\<close>, \<open>Store_Crashes\<close>: \<open>main/pim/atomic-json-store.ts\<close> and what crashes and failing
    calls do to it.
  \<^item> \<open>Content_Lines\<close>, \<open>Contact_Cards\<close>, \<open>Card_Import\<close>, \<open>Card_Round_Trip\<close>: the line syntax shared by
    \<open>main/pim/vcard.ts\<close> and \<open>main/pim/icalendar.ts\<close>, and the writing and reading of vCards.
  \<^item> \<open>Pim_Types\<close>, \<open>Pim_Store\<close>, \<open>Pim_Log\<close>, \<open>Pim_Tasks\<close>, \<open>Pim_Durability\<close>: the schemas of
    \<open>main/pim/types.ts\<close>, the operations of \<open>main/pim/pim-service.ts\<close>, replay of the transaction log,
    tasks and their refresh, and the operations on their file store.
  \<^item> \<open>Pim_Foundation\<close>: \<open>main/pim/provider-foundation.ts\<close>.

  Lemma groups. Each component has lemmas on its operations (branches, errors, preservation of its
  well-formedness predicate) and closes with its properties. The locales are \<open>comparator\<close> and
  \<open>strict_comparator\<close> (what \<open>Array.sort\<close> needs of its callback), interpreted on the comparators of the
  program; \<open>state_table\<close> with \<open>escapable_table\<close>, interpreted on the phase tables of the sign-in flow
  and of the provider foundation; and \<open>keyed_store\<close>, interpreted on the entity collections of the
  calendar and address book.

  Reading the properties. Some hold under conditions that the source does not enforce, and their
  statements say so; theorems beside them show what happens without. In order and at most once: the
  offline queue as long as no earlier revision is restored (\<open>restored_mail_is_sent_again\<close>). One default
  identity: saving within the identity's own account (\<open>moving_an_identity_strands_its_account\<close>). One
  code for each session: a callback that does not throw or call back
  (\<open>throwing_callback_keeps_session_open\<close>). Nothing lost on a rejection: up to a change of the sending
  identity alone. The contents of vCards: what the syntax and the importer can carry.

  Bounds and fuel. Limits are the constants of the sources under their names. The union-find loop
  follows parents with the length of the array as fuel; the forest invariant shows that this is
  enough, and the grouping is proved to return. The search for an unused identifier has the 100
  attempts of the source for entities and 101 for transactions, and failing is an error of the model
  as it is one of the code. All other loops are structural.

  Faults. Any file system call may fail with any error code except that the fault model never reports
  a file that exists as missing (\<open>honest\<close>); a failed call changes nothing, but a failed write may have
  written a part. A crash leaves the disk as it is after some call: writes of the operating system
  that are lost in spite of a sync, or reordered, are not modelled. JSON, its schemas and the
  encryption of the platform are arguments with named laws (\<open>json_law\<close>, \<open>encryption_law\<close>): what was
  written is read back, and a proper part of it is not read as something else.

  Numbers. Lengths, counts, ordinals, revisions, sequence numbers and generations are \<open>nat\<close> or \<open>int\<close>;
  the check of the schemas that they are safe integers, below \<open>2^53\<close>, is not modelled for revisions and
  sequence numbers, which grow by one. The classifier computes with reals where the code uses doubles:
  rounding, underflow and a score that rounds to one are outside the model.

  Strings are lists of the code units 0 to 255, so a byte order mark, surrogates and other text above
  them are outside the model; attachment names are lists of 16-bit words.

  Not modelled: the network protocols (\<open>mail-service.ts\<close>), the token exchange and revocation, file
  and SQLite storage of the mail state (\<open>storage.ts\<close>, \<open>cached-mail-sqlite-index.ts\<close>), the history
  repository, the text format of calendars but for its line folding, the lock directory of the JSON
  store, the IPC schemas, the schemas of the other persisted collections, synchronization, attachments
  and folders of the application service, the Electron glue and the renderer.
\<close>

end
